(* ===== verification/Lclq_Prelude.thy ===== *)
theory Lclq_Prelude
  imports Main "HOL-Library.Word" "HOL-Library.AList" "HOL-Library.Multiset"
begin

text \<open>
  Shared vocabulary of the development: the readings of the clock and of the random
  generator an operation makes, the string functions of the Rust standard library the
  code uses (split, strip_prefix, find, replace, decimal printing and parsing), and the
  generic lemmas on lists and association lists that carry the component proofs.

  A Rust \<open>String\<close> is the list of its UTF-8 bytes (a HOL \<open>string\<close>, one \<open>char\<close> per byte),
  so \<open>len()\<close> is \<open>length\<close>.  A \<open>HashMap\<close> is an association list with distinct keys; the
  order of the list stands for the iteration order, which Rust leaves unspecified.
  Times are \<open>int\<close> nanoseconds since the epoch.
\<close>

named_theorems str_simps "string functions on literals and concatenations"
named_theorems alist_simps "association lists as maps"
named_theorems wf_intros "preservation of the well-formedness invariants"

section \<open>Clock and random readings\<close>

text \<open>
  \<open>now e i\<close> is what the \<open>i\<close>-th call of \<open>Utc::now()\<close> in an operation returns and
  \<open>uuid e i\<close> what the \<open>i\<close>-th call of \<open>Uuid::new_v4().to_string()\<close> returns.
\<close>

record env =
  now :: "nat \<Rightarrow> int"
  uuid :: "nat \<Rightarrow> string"

definition env_from :: "nat \<Rightarrow> env \<Rightarrow> env" where
  "env_from n e = \<lparr> now = (\<lambda>i. now e (n + i)), uuid = (\<lambda>i. uuid e (n + i)) \<rparr>"

lemma now_env_from [simp]: "now (env_from n e) i = now e (n + i)"
  by (simp add: env_from_def)

lemma uuid_env_from [simp]: "uuid (env_from n e) i = uuid e (n + i)"
  by (simp add: env_from_def)

lemma env_from_env_from [simp]: "env_from m (env_from n e) = env_from (n + m) e"
  by (simp add: env_from_def add.assoc)

definition nanos_per_second :: int where
  "nanos_per_second = 1000000000"

definition seconds :: "int \<Rightarrow> int" where
  "seconds n = n * nanos_per_second"

definition minutes :: "int \<Rightarrow> int" where
  "minutes n = seconds (n * 60)"

definition timestamp_millis :: "int \<Rightarrow> int" where
  "timestamp_millis t = t div 1000000"

lemma seconds_nonneg [simp]: "0 \<le> n \<Longrightarrow> 0 \<le> seconds n"
  by (simp add: seconds_def nanos_per_second_def)

lemma seconds_mono: "a \<le> b \<Longrightarrow> seconds a \<le> seconds b"
  by (simp add: seconds_def nanos_per_second_def)

section \<open>Machine integers\<close>

type_synonym u8 = "8 word"
type_synonym u32 = "32 word"
type_synonym u64 = "64 word"

definition u32_min :: "u32 \<Rightarrow> u32 \<Rightarrow> u32" where
  "u32_min a b = (if b < a then b else a)"

definition saturating_mul32 :: "u32 \<Rightarrow> u32 \<Rightarrow> u32" where
  "saturating_mul32 a b = of_nat (min (unat a * unat b) (2 ^ 32 - 1))"

definition saturating_pow32 :: "u32 \<Rightarrow> u32 \<Rightarrow> u32" where
  "saturating_pow32 a n = of_nat (min (unat a ^ unat n) (2 ^ 32 - 1))"

lemma unat_of_nat32 [simp]: "n < 2 ^ 32 \<Longrightarrow> unat (of_nat n :: u32) = n"
  by (simp add: unsigned_of_nat take_bit_nat_eq_self)

lemma unat_u32_min: "unat (u32_min a b) = min (unat a) (unat b)"
  by (simp add: u32_min_def word_less_nat_alt min_def)

lemma unat_saturating_mul32:
  "unat (saturating_mul32 a b) = min (unat a * unat b) (2 ^ 32 - 1)"
  by (simp add: saturating_mul32_def)

lemma unat_saturating_pow32:
  "unat (saturating_pow32 a n) = min (unat a ^ unat n) (2 ^ 32 - 1)"
  by (simp add: saturating_pow32_def)

section \<open>Decimal numbers\<close>

definition digit_char :: "nat \<Rightarrow> char" where
  "digit_char d = char_of (48 + d)"

definition digit_val :: "char \<Rightarrow> nat option" where
  "digit_val c = (let n = of_char c in if 48 \<le> n \<and> n \<le> 57 then Some (n - 48) else None)"

fun show_nat :: "nat \<Rightarrow> string" where
  "show_nat n = (if n < 10 then [digit_char n] else show_nat (n div 10) @ [digit_char (n mod 10)])"

declare show_nat.simps [simp del]

definition show_int :: "int \<Rightarrow> string" where
  "show_int i = (if i < 0 then CHR ''-'' # show_nat (nat (- i)) else show_nat (nat i))"

definition show_bool :: "bool \<Rightarrow> string" where
  "show_bool b = (if b then ''true'' else ''false'')"

fun parse_digits :: "nat \<Rightarrow> string \<Rightarrow> nat option" where
  "parse_digits acc [] = Some acc"
| "parse_digits acc (c # cs) =
     (case digit_val c of None \<Rightarrow> None | Some d \<Rightarrow> parse_digits (acc * 10 + d) cs)"

text \<open>
  \<open>str::parse\<close> for an unsigned type of maximum \<open>bound - 1\<close>: one optional leading plus
  sign, at least one digit, nothing else, and an error on overflow.
\<close>

definition parse_unsigned :: "nat \<Rightarrow> string \<Rightarrow> nat option" where
  "parse_unsigned bound s =
     (let ds = (case s of c # cs \<Rightarrow> if c = CHR ''+'' then cs else s | [] \<Rightarrow> []) in
      if ds = [] then None
      else case parse_digits 0 ds of
             None \<Rightarrow> None
           | Some n \<Rightarrow> if n < bound then Some n else None)"

definition parse_u32 :: "string \<Rightarrow> u32 option" where
  "parse_u32 s = map_option of_nat (parse_unsigned (2 ^ 32) s)"

definition parse_usize :: "string \<Rightarrow> nat option" where
  "parse_usize s = parse_unsigned (2 ^ 64) s"

lemma digit_val_digit_char [simp]: "d < 10 \<Longrightarrow> digit_val (digit_char d) = Some d"
  by (simp add: digit_val_def digit_char_def)

lemma parse_digits_append:
  "parse_digits acc (xs @ ys) =
     (case parse_digits acc xs of None \<Rightarrow> None | Some n \<Rightarrow> parse_digits n ys)"
  by (induction xs arbitrary: acc) (auto split: option.splits)

lemma parse_digits_show_nat: "parse_digits 0 (show_nat n) = Some n"
proof (induction n rule: show_nat.induct)
  case (1 n)
  then show ?case
    by (subst show_nat.simps) (auto simp: parse_digits_append)
qed

lemma show_nat_nonempty [simp]: "show_nat n \<noteq> []"
  by (subst show_nat.simps) simp

lemma show_nat_inj [simp]: "show_nat m = show_nat n \<longleftrightarrow> m = n"
proof
  assume "show_nat m = show_nat n"
  then have "parse_digits 0 (show_nat m) = parse_digits 0 (show_nat n)" by simp
  then show "m = n" by (simp add: parse_digits_show_nat)
qed simp

lemma digit_val_set_show_nat: "c \<in> set (show_nat n) \<Longrightarrow> digit_val c \<noteq> None"
proof (induction n rule: show_nat.induct)
  case (1 n)
  then show ?case
    by (subst (asm) (2) show_nat.simps) (auto split: if_splits)
qed

lemma no_plus_show_nat: "show_nat n \<noteq> CHR ''+'' # cs"
proof
  assume "show_nat n = CHR ''+'' # cs"
  then have "digit_val (CHR ''+'') \<noteq> None"
    using digit_val_set_show_nat [of "CHR ''+''" n] by simp
  then show False by (simp add: digit_val_def)
qed

lemma parse_unsigned_show_nat:
  "parse_unsigned bound (show_nat n) = (if n < bound then Some n else None)"
proof -
  have "(case show_nat n of c # cs \<Rightarrow> if c = CHR ''+'' then cs else show_nat n | [] \<Rightarrow> []) = show_nat n"
    using no_plus_show_nat [of n] by (auto split: list.splits)
  then show ?thesis
    by (simp add: parse_unsigned_def parse_digits_show_nat)
qed

lemma parse_u32_show: "parse_u32 (show_nat (unat w)) = Some w"
  using unsigned_less [of w, where ?'a = nat] by (simp add: parse_u32_def parse_unsigned_show_nat)

lemma parse_usize_show: "n < 2 ^ 64 \<Longrightarrow> parse_usize (show_nat n) = Some n"
  by (simp add: parse_usize_def parse_unsigned_show_nat)

lemma parse_unsigned_bound: "parse_unsigned bound s = Some n \<Longrightarrow> n < bound"
  by (auto simp: parse_unsigned_def Let_def split: if_splits option.splits)

section \<open>Strings\<close>

definition starts_with :: "string \<Rightarrow> string \<Rightarrow> bool" where
  "starts_with p s = (take (length p) s = p)"

definition strip_prefix :: "string \<Rightarrow> string \<Rightarrow> string option" where
  "strip_prefix p s = (if starts_with p s then Some (drop (length p) s) else None)"

definition ends_with :: "string \<Rightarrow> string \<Rightarrow> bool" where
  "ends_with p s = starts_with (rev p) (rev s)"

definition strip_suffix :: "string \<Rightarrow> string \<Rightarrow> string option" where
  "strip_suffix p s = (if ends_with p s then Some (take (length s - length p) s) else None)"

fun find_sub :: "string \<Rightarrow> string \<Rightarrow> nat option" where
  "find_sub p [] = (if p = [] then Some 0 else None)"
| "find_sub p (c # cs) = (if starts_with p (c # cs) then Some 0 else map_option Suc (find_sub p cs))"

definition contains :: "string \<Rightarrow> string \<Rightarrow> bool" where
  "contains p s = (find_sub p s \<noteq> None)"

text \<open>\<open>str::replace\<close> with a one-character pattern, and with a (non-empty) string pattern.\<close>

definition replace_char :: "char \<Rightarrow> string \<Rightarrow> string \<Rightarrow> string" where
  "replace_char c r s = concat (map (\<lambda>x. if x = c then r else [x]) s)"

fun replace_str :: "string \<Rightarrow> string \<Rightarrow> string \<Rightarrow> string" where
  "replace_str p r [] = []"
| "replace_str p r (c # cs) =
     (if starts_with p (c # cs) then r @ replace_str p r (drop (length p - 1) cs)
      else c # replace_str p r cs)"

fun split_on :: "char \<Rightarrow> string \<Rightarrow> string list" where
  "split_on d [] = [[]]"
| "split_on d (c # cs) =
     (if c = d then [] # split_on d cs
      else case split_on d cs of [] \<Rightarrow> [[c]] | w # ws \<Rightarrow> (c # w) # ws)"

definition split_once :: "char \<Rightarrow> string \<Rightarrow> (string \<times> string) option" where
  "split_once d s =
     (if d \<in> set s then Some (takeWhile (\<lambda>c. c \<noteq> d) s, tl (dropWhile (\<lambda>c. c \<noteq> d) s)) else None)"

fun join :: "string \<Rightarrow> string list \<Rightarrow> string" where
  "join sep [] = []"
| "join sep [w] = w"
| "join sep (w # ws) = w @ sep @ join sep ws"

lemma starts_with_Nil [simp]: "starts_with [] s"
  by (simp add: starts_with_def)

lemma starts_with_Cons_Nil [simp]: "\<not> starts_with (p # ps) []"
  by (simp add: starts_with_def)

lemma starts_with_Cons [simp]: "starts_with (p # ps) (c # cs) \<longleftrightarrow> p = c \<and> starts_with ps cs"
  by (auto simp: starts_with_def)

lemma starts_with_append [simp]: "starts_with p (p @ s)"
  by (simp add: starts_with_def)

lemma starts_with_iff: "starts_with p s \<longleftrightarrow> (\<exists>t. s = p @ t)"
  by (metis append_eq_conv_conj append_take_drop_id starts_with_def)

lemma strip_prefix_append [simp]: "strip_prefix p (p @ s) = Some s"
  by (simp add: strip_prefix_def)

lemma strip_prefix_Some: "strip_prefix p s = Some t \<longleftrightarrow> s = p @ t"
  by (auto simp: strip_prefix_def starts_with_iff)

lemma ends_with_append [simp]: "ends_with p (s @ p)"
  by (simp add: ends_with_def)

lemma ends_with_iff: "ends_with p s \<longleftrightarrow> (\<exists>t. s = t @ p)"
  by (metis (no_types, lifting) ends_with_def rev_append rev_rev_ident starts_with_iff)

lemma strip_suffix_Some: "strip_suffix p s = Some t \<longleftrightarrow> s = t @ p"
  by (auto simp: strip_suffix_def ends_with_iff)

lemma split_on_nonempty [simp]: "split_on d s \<noteq> []"
  by (induction s) (auto split: list.splits)

lemma split_on_no_sep: "d \<notin> set s \<Longrightarrow> split_on d s = [s]"
  by (induction s) auto

lemma split_on_append:
  "d \<notin> set w \<Longrightarrow> split_on d (w @ d # s) = w # split_on d s"
  by (induction w) auto

lemma last_split_on_no_sep: "d \<notin> set (last (split_on d s))"
proof (induction s)
  case (Cons c s)
  then show ?case
    by (cases "split_on d s") (auto split: if_splits)
qed simp

lemma join_split_on: "join [d] (split_on d s) = s"
proof (induction s)
  case (Cons c s)
  then show ?case
  proof (cases "split_on d s")
    case (Cons w ws)
    with Cons.IH show ?thesis by (cases ws) auto
  qed simp
qed simp

lemma split_on_no_sep_parts: "w \<in> set (split_on d s) \<Longrightarrow> d \<notin> set w"
proof (induction s arbitrary: w)
  case (Cons c s)
  then show ?case
    by (cases "split_on d s") (auto split: if_splits)
qed simp

lemma split_on_join:
  "ws \<noteq> [] \<Longrightarrow> \<forall>w \<in> set ws. d \<notin> set w \<Longrightarrow> split_on d (join [d] ws) = ws"
proof (induction ws)
  case (Cons w ws)
  then show ?case by (cases ws) (simp_all add: split_on_no_sep split_on_append)
qed simp

lemma find_sub_skip:
  "h \<notin> set pre \<Longrightarrow> find_sub (h # p) (pre @ s) = map_option ((+) (length pre)) (find_sub (h # p) s)"
  by (induction pre) (cases "find_sub (h # p) s"; simp)+

lemma find_sub_here [simp]: "find_sub p (p @ s) = Some 0"
  by (cases p; cases s) (auto simp: starts_with_iff)

section \<open>Association lists\<close>

lemmas alist_facts [alist_simps] =
  AList.update_conv' AList.delete_conv' dom_map_of_conv_image_fst

lemma distinct_keys_update [simp]:
  "distinct (map fst al) \<Longrightarrow> distinct (map fst (AList.update k v al))"
  by (rule AList.distinct_update)

lemma distinct_keys_delete [simp]:
  "distinct (map fst al) \<Longrightarrow> distinct (map fst (AList.delete k al))"
  by (rule AList.distinct_delete)

lemma distinct_keys_filter [simp]:
  "distinct (map fst al) \<Longrightarrow> distinct (map fst (filter P al))"
  by (rule distinct_map_filter)

definition sum_vals :: "('v \<Rightarrow> 'a::comm_monoid_add) \<Rightarrow> ('k \<times> 'v) list \<Rightarrow> 'a" where
  "sum_vals f al = sum_list (map (\<lambda>(_, v). f v) al)"

lemma sum_vals_simps [simp]:
  "sum_vals f [] = 0" "sum_vals f ((k, v) # al) = f v + sum_vals f al"
  by (simp_all add: sum_vals_def)

lemma sum_vals_update_new:
  "map_of al k = None \<Longrightarrow> sum_vals f (AList.update k v al) = sum_vals f al + f v"
  by (induction al) (auto simp: add.assoc split: if_splits)

lemma sum_vals_update:
  assumes "distinct (map fst al)" and "map_of al k = Some w"
  shows "sum_vals f (AList.update k v al) + f w = sum_vals f al + f v"
  using assms by (induction al) (auto simp: ac_simps map_of_eq_None_iff split: if_splits)

lemma sum_vals_delete:
  assumes "distinct (map fst al)" and "map_of al k = Some w"
  shows "sum_vals f (AList.delete k al) + f w = sum_vals f al"
  using assms
proof (induction al)
  case (Cons p al)
  show ?case
  proof (cases "fst p = k")
    case True
    with Cons.prems have "k \<notin> fst ` set al" by auto
    then have "AList.delete k al = al" by (simp add: AList.delete_idem)
    with True Cons.prems show ?thesis by (cases p) (auto simp: ac_simps)
  next
    case False
    with Cons show ?thesis by (cases p) (auto simp: ac_simps)
  qed
qed simp

lemma map_of_in_set: "distinct (map fst al) \<Longrightarrow> (k, v) \<in> set al \<longleftrightarrow> map_of al k = Some v"
  by (simp add: map_of_eq_Some_iff)

section \<open>Lists\<close>

definition remove_at :: "nat \<Rightarrow> 'a list \<Rightarrow> 'a list" where
  "remove_at i xs = take i xs @ drop (Suc i) xs"

text \<open>\<open>Iterator::min_by_key\<close>: the first of the elements with the least key.\<close>

fun min_by_key :: "('a \<Rightarrow> 'k::linorder) \<Rightarrow> 'a list \<Rightarrow> 'a option" where
  "min_by_key f [] = None"
| "min_by_key f (x # xs) =
     (case min_by_key f xs of None \<Rightarrow> Some x | Some y \<Rightarrow> if f y < f x then Some y else Some x)"

lemma min_by_key_None [simp]: "min_by_key f xs = None \<longleftrightarrow> xs = []"
  by (cases xs) (auto split: option.splits)

lemma min_by_key_Some:
  "min_by_key f xs = Some x \<Longrightarrow> x \<in> set xs \<and> (\<forall>y \<in> set xs. f x \<le> f y)"
proof (induction xs arbitrary: x)
  case (Cons a xs)
  then show ?case
    by (cases "min_by_key f xs") (fastforce split: if_splits)+
qed simp

end
