(* ===== verification/Lclq_Types.thy ===== *)
theory Lclq_Types
  imports Lclq_Prelude
begin

text \<open>
  The data types of \<open>src/types/mod.rs\<close>, the errors of \<open>src/error/mod.rs\<close> and the
  eviction policy of \<open>src/config/mod.rs\<close>, field by field.  A field whose name occurs in
  several structs carries a prefix (\<open>msg_\<close>, \<open>qc_\<close>, \<open>sub_\<close>, \<open>rh_\<close>).  The record \<open>ext\<close>
  collects the functions of third-party crates the code calls (hashes, base64, hex,
  serde_json, URL decoding) and the environment variable with the receipt secret: they
  are parameters of the model.
\<close>

section \<open>Errors\<close>

datatype validation_error =
    InvalidQueueName string
  | InvalidTopicId string
  | InvalidSubscriptionId string
  | MessageTooLarge nat nat
  | InvalidAttribute string
  | InvalidParameter string string

text \<open>\<open>Panic\<close> is not a constructor of the code's enum: it stands for a Rust panic.\<close>

datatype error =
    Config string
  | Validation validation_error
  | StorageError string
  | QueueAlreadyExists string
  | NotImplemented string
  | QueueNotFound string
  | TopicNotFound string
  | SubscriptionNotFound string
  | MessageNotFound string
  | InvalidReceiptHandle
  | Serialization string
  | Io string
  | Internal string
  | Panic string

type_synonym 'a result = "error + 'a"

fun validation_error_to_string :: "validation_error \<Rightarrow> string" where
  "validation_error_to_string (InvalidQueueName s) = ''Invalid queue name: '' @ s"
| "validation_error_to_string (InvalidTopicId s) = ''Invalid topic ID: '' @ s"
| "validation_error_to_string (InvalidSubscriptionId s) = ''Invalid subscription ID: '' @ s"
| "validation_error_to_string (MessageTooLarge actual limit) =
     ''Message too large: '' @ show_nat actual @ '' bytes (max: '' @ show_nat limit @ '' bytes)''"
| "validation_error_to_string (InvalidAttribute s) = ''Invalid attribute: '' @ s"
| "validation_error_to_string (InvalidParameter name reason) =
     ''Invalid parameter '' @ name @ '': '' @ reason"

fun error_to_string :: "error \<Rightarrow> string" where
  "error_to_string (Config s) = ''Configuration error: '' @ s"
| "error_to_string (Validation v) = ''Validation error: '' @ validation_error_to_string v"
| "error_to_string (StorageError s) = ''Storage error: '' @ s"
| "error_to_string (QueueAlreadyExists s) = ''Queue already exists: '' @ s"
| "error_to_string (NotImplemented s) = ''Not implemented: '' @ s"
| "error_to_string (QueueNotFound s) = ''Queue not found: '' @ s"
| "error_to_string (TopicNotFound s) = ''Topic not found: '' @ s"
| "error_to_string (SubscriptionNotFound s) = ''Subscription not found: '' @ s"
| "error_to_string (MessageNotFound s) = ''Message not found: '' @ s"
| "error_to_string InvalidReceiptHandle = ''Invalid receipt handle''"
| "error_to_string (Serialization s) = ''Serialization error: '' @ s"
| "error_to_string (Io s) = ''I/O error: '' @ s"
| "error_to_string (Internal s) = ''Internal error: '' @ s"
| "error_to_string (Panic s) = s"

section \<open>Messages and queues\<close>

record message_attribute_value =
  data_type :: string
  string_value :: "string option"
  binary_value :: "string option"

record message =
  msg_id :: string
  body :: string
  attributes :: "(string \<times> message_attribute_value) list"
  msg_queue_id :: string
  sent_timestamp :: int
  receive_count :: u32
  message_group_id :: "string option"
  deduplication_id :: "string option"
  sequence_number :: "u64 option"
  msg_delay_seconds :: "u32 option"

datatype queue_type = SqsStandard | SqsFifo | PubSubTopic

record dlq_target =
  target_queue_id :: string
  max_receive_count :: u32

datatype redrive_permission = AllowAll | DenyAll | ByQueue "string list"

record queue_config =
  qc_id :: string
  qc_name :: string
  qc_type :: queue_type
  visibility_timeout :: u32
  message_retention_period :: u32
  max_message_size :: nat
  delay_seconds :: u32
  dlq_config :: "dlq_target option"
  content_based_deduplication :: bool
  tags :: "(string \<times> string) list"
  redrive_allow_policy :: "redrive_permission option"

record receive_options =
  ro_max_messages :: u32
  ro_visibility_timeout :: "u32 option"
  wait_time_seconds :: u32
  attribute_names :: "string list"
  message_attribute_names :: "string list"

definition default_receive_options :: receive_options where
  "default_receive_options =
     \<lparr> ro_max_messages = 1, ro_visibility_timeout = None, wait_time_seconds = 0,
       attribute_names = [], message_attribute_names = [] \<rparr>"

record queue_stats =
  st_available_messages :: nat
  st_in_flight_messages :: nat
  st_dlq_messages :: nat
  oldest_message_timestamp :: "int option"

record received_message =
  rm_message :: message
  receipt_handle :: string

section \<open>Subscriptions\<close>

record dl_policy =
  dead_letter_topic :: string
  max_delivery_attempts :: u32

record retry_policy_rec =
  min_backoff_seconds :: u32
  max_backoff_seconds :: u32
  max_attempts :: u32

definition default_retry_policy :: retry_policy_rec where
  "default_retry_policy = \<lparr> min_backoff_seconds = 10, max_backoff_seconds = 600, max_attempts = 5 \<rparr>"

record push_conf =
  endpoint :: string
  retry_policy :: "retry_policy_rec option"
  timeout_seconds :: "u32 option"

record subscription_config =
  sub_id :: string
  sub_name :: string
  sub_topic_id :: string
  ack_deadline_seconds :: u32
  message_retention_duration :: u32
  enable_message_ordering :: bool
  sub_filter :: "string option"
  dead_letter_policy :: "dl_policy option"
  push_config :: "push_conf option"

datatype health_status = Healthy | Unhealthy string

datatype eviction_policy = Lru | Fifo | RejectNew

section \<open>Third-party functions\<close>

text \<open>
  \<open>serde_json::Value\<close>; a number is kept as what the code reads of it, the result of
  \<open>as_u64\<close> and its text.
\<close>

datatype json =
    JNull
  | JBool bool
  | JNum "u64 option" string
  | JStr string
  | JArr "json list"
  | JObj "(string \<times> json) list"

record receipt_data =
  rh_queue_id :: string
  rh_message_id :: string
  rh_nonce :: string
  rh_signature :: "string option"

record ext =
  sha256_hex :: "string \<Rightarrow> string"
  md5_hex :: "string \<Rightarrow> string"
  hmac_sha256 :: "string \<Rightarrow> string \<Rightarrow> string"
  b64_encode :: "string \<Rightarrow> string"
  b64_decode :: "string \<Rightarrow> string option"
  hex_encode :: "string \<Rightarrow> string"
  hex_decode :: "string \<Rightarrow> string option"
  receipt_ser :: "receipt_data \<Rightarrow> string"
  receipt_de :: "string \<Rightarrow> receipt_data option"
  json_parse :: "string \<Rightarrow> json option"
  json_error :: "string \<Rightarrow> string"
  json_show :: "json \<Rightarrow> string"
  url_decode :: "string \<Rightarrow> string option"
  receipt_secret :: "string option"
  unicode_alphanumeric :: "nat \<Rightarrow> bool"

text \<open>\<open>value[key]\<close>, \<open>as_str\<close>, \<open>as_u64\<close>, \<open>as_array\<close> and \<open>as_object\<close> of \<open>serde_json::Value\<close>.\<close>

fun json_get :: "json \<Rightarrow> string \<Rightarrow> json" where
  "json_get (JObj kvs) k = (case map_of kvs k of None \<Rightarrow> JNull | Some v \<Rightarrow> v)"
| "json_get _ k = JNull"

fun as_str :: "json \<Rightarrow> string option" where
  "as_str (JStr s) = Some s"
| "as_str _ = None"

fun as_u64 :: "json \<Rightarrow> u64 option" where
  "as_u64 (JNum n t) = n"
| "as_u64 _ = None"

fun as_array :: "json \<Rightarrow> json list option" where
  "as_array (JArr vs) = Some vs"
| "as_array _ = None"

text \<open>\<open>char::is_alphanumeric\<close>: the ASCII part is written out, the rest is Unicode's table.\<close>

definition ascii_alphanumeric :: "nat \<Rightarrow> bool" where
  "ascii_alphanumeric c =
     ((48 \<le> c \<and> c \<le> 57) \<or> (65 \<le> c \<and> c \<le> 90) \<or> (97 \<le> c \<and> c \<le> 122))"

definition is_alphanumeric :: "ext \<Rightarrow> nat \<Rightarrow> bool" where
  "is_alphanumeric x c = (if c < 128 then ascii_alphanumeric c else unicode_alphanumeric x c)"

definition is_ascii_alphabetic :: "nat \<Rightarrow> bool" where
  "is_ascii_alphabetic c = ((65 \<le> c \<and> c \<le> 90) \<or> (97 \<le> c \<and> c \<le> 122))"

definition is_ascii_lowercase :: "nat \<Rightarrow> bool" where
  "is_ascii_lowercase c = (97 \<le> c \<and> c \<le> 122)"

section \<open>UTF-8\<close>

definition is_cont :: "char \<Rightarrow> bool" where
  "is_cont c = (128 \<le> (of_char c :: nat) \<and> (of_char c :: nat) < 192)"

definition low6 :: "char \<Rightarrow> nat" where
  "low6 c = of_char c mod 64"

text \<open>The scalar values a byte string encodes, or \<open>None\<close> where it is not UTF-8.\<close>

fun utf8_chars :: "string \<Rightarrow> nat list option" where
  "utf8_chars [] = Some []"
| "utf8_chars (c # cs) =
     (let b = of_char c :: nat in
      if b < 128 then map_option (Cons b) (utf8_chars cs)
      else if 194 \<le> b \<and> b < 224 then
        (case cs of
           c1 # r \<Rightarrow> if is_cont c1 then map_option (Cons ((b - 192) * 64 + low6 c1)) (utf8_chars r) else None
         | _ \<Rightarrow> None)
      else if 224 \<le> b \<and> b < 240 then
        (case cs of
           c1 # c2 # r \<Rightarrow>
             (let v = (b - 224) * 4096 + low6 c1 * 64 + low6 c2 in
              if is_cont c1 \<and> is_cont c2 \<and> 2048 \<le> v \<and> \<not> (55296 \<le> v \<and> v < 57344)
              then map_option (Cons v) (utf8_chars r) else None)
         | _ \<Rightarrow> None)
      else if 240 \<le> b \<and> b < 245 then
        (case cs of
           c1 # c2 # c3 # r \<Rightarrow>
             (let v = (b - 240) * 262144 + low6 c1 * 4096 + low6 c2 * 64 + low6 c3 in
              if is_cont c1 \<and> is_cont c2 \<and> is_cont c3 \<and> 65536 \<le> v \<and> v < 1114112
              then map_option (Cons v) (utf8_chars r) else None)
         | _ \<Rightarrow> None)
      else None)"

text \<open>The UTF-8 bytes of one scalar value, as \<open>format!("{}", ch)\<close> writes it.\<close>

definition utf8_encode :: "nat \<Rightarrow> string" where
  "utf8_encode c =
     (if c < 128 then [char_of c]
      else if c < 2048 then [char_of (192 + c div 64), char_of (128 + c mod 64)]
      else if c < 65536 then
        [char_of (224 + c div 4096), char_of (128 + c div 64 mod 64), char_of (128 + c mod 64)]
      else
        [char_of (240 + c div 262144), char_of (128 + c div 4096 mod 64),
         char_of (128 + c div 64 mod 64), char_of (128 + c mod 64)])"

definition quoted_char :: "nat \<Rightarrow> string" where
  "quoted_char c = CHR 0x27 # utf8_encode c @ [CHR 0x27]"

definition from_utf8 :: "string \<Rightarrow> string option" where
  "from_utf8 bytes = (if utf8_chars bytes = None then None else Some bytes)"

definition str_chars :: "string \<Rightarrow> nat list" where
  "str_chars s = (case utf8_chars s of None \<Rightarrow> [] | Some cs \<Rightarrow> cs)"

definition is_ascii :: "string \<Rightarrow> bool" where
  "is_ascii s = list_all (\<lambda>c. (of_char c :: nat) < 128) s"

lemma utf8_chars_ascii: "is_ascii s \<Longrightarrow> utf8_chars s = Some (map of_char s)"
  by (induction s) (auto simp: is_ascii_def)

lemma str_chars_ascii: "is_ascii s \<Longrightarrow> str_chars s = map of_char s"
  by (simp add: str_chars_def utf8_chars_ascii)

lemma from_utf8_ascii: "is_ascii s \<Longrightarrow> from_utf8 s = Some s"
  by (simp add: from_utf8_def utf8_chars_ascii)

lemma is_ascii_append [simp]: "is_ascii (s @ t) \<longleftrightarrow> is_ascii s \<and> is_ascii t"
  by (simp add: is_ascii_def)

end
