(* ===== verification/Receipt.thy ===== *)
theory Receipt
  imports Lclq_Types
begin

text \<open>
  Receipt handles (\<open>src/core/receipt.rs\<close>): a handle is the base64 text of a JSON object
  with the queue, the message, a nonce and the hex text of an HMAC over the same object
  without the signature.  The codecs are fields of \<open>ext\<close>; \<open>receipt_codecs_ok\<close> states the
  round trips their documentation promises.
\<close>

unbundle bit_operations_syntax

section \<open>Generation and parsing\<close>

definition get_secret_key :: "ext \<Rightarrow> string option" where
  "get_secret_key x = receipt_secret x"

definition secret_unset :: error where
  "secret_unset = Panic ''LCLQ_RECEIPT_SECRET environment variable must be set.''"

text \<open>\<open>None\<close> is the panic of \<open>get_secret_key\<close> when the variable is not set.\<close>

definition generate_receipt_handle :: "ext \<Rightarrow> string \<Rightarrow> string \<Rightarrow> string \<Rightarrow> string option" where
  "generate_receipt_handle x nonce queue_id message_id =
     (let data = \<lparr> rh_queue_id = queue_id, rh_message_id = message_id, rh_nonce = nonce,
                   rh_signature = None \<rparr>;
          json_without_sig = receipt_ser x data in
      case get_secret_key x of
        None \<Rightarrow> None
      | Some secret_key \<Rightarrow>
          (let signature = hex_encode x (hmac_sha256 x secret_key json_without_sig);
               json_with_sig = receipt_ser x (data\<lparr>rh_signature := Some signature\<rparr>)
           in Some (b64_encode x json_with_sig)))"

text \<open>The loop \<open>for (a, b) in expected.zip(provided) { diff |= a ^ b }\<close>.\<close>

fun byte_diff :: "u8 \<Rightarrow> (char \<times> char) list \<Rightarrow> u8" where
  "byte_diff diff [] = diff"
| "byte_diff diff ((a, b) # ps) = byte_diff (diff OR (of_char a XOR of_char b)) ps"

definition parse_receipt_handle :: "ext \<Rightarrow> string \<Rightarrow> receipt_data result" where
  "parse_receipt_handle x handle =
     (case b64_decode x handle of None \<Rightarrow> Inl InvalidReceiptHandle | Some decoded \<Rightarrow>
      case from_utf8 decoded of None \<Rightarrow> Inl InvalidReceiptHandle | Some json_text \<Rightarrow>
      case receipt_de x json_text of None \<Rightarrow> Inl InvalidReceiptHandle | Some data \<Rightarrow>
      case rh_signature data of None \<Rightarrow> Inl InvalidReceiptHandle | Some provided_signature \<Rightarrow>
       (let data' = data\<lparr>rh_signature := None\<rparr>;
            json_without_sig = receipt_ser x data' in
        case get_secret_key x of None \<Rightarrow> Inl secret_unset | Some secret_key \<Rightarrow>
         (let expected = hmac_sha256 x secret_key json_without_sig in
          case hex_decode x provided_signature of None \<Rightarrow> Inl InvalidReceiptHandle | Some provided \<Rightarrow>
            if length expected \<noteq> length provided then Inl InvalidReceiptHandle
            else if byte_diff 0 (zip expected provided) \<noteq> 0 then Inl InvalidReceiptHandle
            else Inr data')))"

section \<open>The constant-time comparison\<close>

lemma byte_diff_or: "byte_diff d ps = d OR byte_diff 0 ps"
proof (induction ps arbitrary: d)
  case (Cons p ps)
  obtain a b where p: "p = (a, b)" by (cases p)
  have "byte_diff d (p # ps) = (d OR (of_char a XOR of_char b)) OR byte_diff 0 ps"
    by (simp add: p Cons.IH [of "d OR (of_char a XOR of_char b)"])
  also have "\<dots> = d OR ((of_char a XOR of_char b) OR byte_diff 0 ps)"
    by (simp add: or.assoc)
  also have "(of_char a XOR of_char b) OR byte_diff 0 ps = byte_diff 0 (p # ps)"
    by (simp add: p Cons.IH [of "of_char a XOR of_char b"])
  finally show ?case .
qed simp

lemma or_eq_0_iff_word: "(a :: u8) OR b = 0 \<longleftrightarrow> a = 0 \<and> b = 0"
  by (auto simp: bit_eq_iff bit_or_iff)

lemma xor_eq_0_iff_word: "(a :: u8) XOR b = 0 \<longleftrightarrow> a = b"
  by (auto simp: bit_eq_iff bit_xor_iff)

lemma of_char_u8_inj: "(of_char a :: u8) = of_char b \<longleftrightarrow> a = b"
proof
  assume "(of_char a :: u8) = of_char b"
  then have "unat (of_nat (of_char a) :: u8) = unat (of_nat (of_char b) :: u8)"
    by (simp add: of_nat_of_char)
  then have "(of_char a :: nat) = of_char b"
    by (simp add: unsigned_of_nat take_bit_eq_mod)
  then show "a = b" by simp
qed simp

lemma byte_diff_zero_iff: "length as = length bs \<Longrightarrow> byte_diff 0 (zip as bs) = 0 \<longleftrightarrow> as = bs"
proof (induction as bs rule: list_induct2)
  case (Cons a as b bs)
  have "byte_diff 0 (zip (a # as) (b # bs)) = (of_char a XOR of_char b) OR byte_diff 0 (zip as bs)"
    using byte_diff_or [of "of_char a XOR of_char b" "zip as bs"] by simp
  with Cons.IH show ?case
    by (simp add: or_eq_0_iff_word xor_eq_0_iff_word of_char_u8_inj)
qed simp

section \<open>Codec laws and the handles they give\<close>

definition receipt_codecs_ok :: "ext \<Rightarrow> bool" where
  "receipt_codecs_ok x \<longleftrightarrow>
     (\<forall>bytes. b64_decode x (b64_encode x bytes) = Some bytes) \<and>
     (\<forall>bytes. hex_decode x (hex_encode x bytes) = Some bytes) \<and>
     (\<forall>d. receipt_de x (receipt_ser x d) = Some d) \<and>
     (\<forall>d. from_utf8 (receipt_ser x d) = Some (receipt_ser x d))"

lemma receipt_codecs_okD:
  assumes "receipt_codecs_ok x"
  shows "b64_decode x (b64_encode x bytes) = Some bytes"
    and "hex_decode x (hex_encode x bytes) = Some bytes"
    and "receipt_de x (receipt_ser x d) = Some d"
    and "from_utf8 (receipt_ser x d) = Some (receipt_ser x d)"
  using assms by (simp_all add: receipt_codecs_ok_def)

lemma byte_diff_self [simp]: "byte_diff 0 (zip bs bs) = 0"
  by (simp add: byte_diff_zero_iff)

lemma generate_parse:
  assumes "receipt_codecs_ok x" and "generate_receipt_handle x nonce q m = Some h"
  shows "parse_receipt_handle x h =
           Inr \<lparr> rh_queue_id = q, rh_message_id = m, rh_nonce = nonce, rh_signature = None \<rparr>"
  using assms(2)
  by (auto simp: generate_receipt_handle_def parse_receipt_handle_def Let_def
      receipt_codecs_okD [OF assms(1)] split: option.splits)

lemma generate_None_iff: "generate_receipt_handle x nonce q m = None \<longleftrightarrow> receipt_secret x = None"
  by (auto simp: generate_receipt_handle_def get_secret_key_def Let_def split: option.splits)

lemma generate_inj:
  assumes "receipt_codecs_ok x" and "generate_receipt_handle x n q m = Some h"
    and "generate_receipt_handle x n' q' m' = Some h"
  shows "n' = n" and "q' = q" and "m' = m"
  using generate_parse [OF assms(1,2)] generate_parse [OF assms(1,3)] by simp_all

text \<open>What acceptance means: the handle carries the MAC of its own fields.\<close>

definition authentic :: "ext \<Rightarrow> string \<Rightarrow> receipt_data \<Rightarrow> bool" where
  "authentic x h d \<longleftrightarrow>
     rh_signature d = None \<and>
     (\<exists>text sig key.
        b64_decode x h = Some text \<and> from_utf8 text = Some text \<and>
        receipt_de x text = Some (d\<lparr>rh_signature := Some sig\<rparr>) \<and>
        receipt_secret x = Some key \<and>
        hex_decode x sig = Some (hmac_sha256 x key (receipt_ser x d)))"

lemma from_utf8_Some: "from_utf8 bs = Some cs \<longleftrightarrow> cs = bs \<and> utf8_chars bs \<noteq> None"
  by (auto simp: from_utf8_def)

lemma set_signature_id: "rh_signature d = Some sig \<Longrightarrow> d\<lparr>rh_signature := Some sig\<rparr> = d"
  by (cases d) simp

lemma parse_authentic:
  assumes "parse_receipt_handle x h = Inr d"
  shows "authentic x h d"
proof -
  obtain js d0 sig key where
    h: "b64_decode x h = Some js" "from_utf8 js = Some js" "receipt_de x js = Some d0"
      "rh_signature d0 = Some sig" "receipt_secret x = Some key" and
    d: "d = d0\<lparr>rh_signature := None\<rparr>"
      "hex_decode x sig = Some (hmac_sha256 x key (receipt_ser x d))"
    using assms
    by (auto simp: parse_receipt_handle_def get_secret_key_def Let_def byte_diff_zero_iff
        from_utf8_Some split: option.splits if_splits)
  have "d\<lparr>rh_signature := Some sig\<rparr> = d0"
    using h(4) by (simp add: d(1) set_signature_id)
  moreover have "rh_signature d = None" by (simp add: d(1))
  ultimately show ?thesis
    unfolding authentic_def
    by (intro conjI exI [of _ js] exI [of _ sig] exI [of _ key]) (use h d(2) in simp_all)
qed

lemma clear_signature_id: "rh_signature d = None \<Longrightarrow> d\<lparr>rh_signature := None\<rparr> = d"
  by (cases d) simp

lemma authentic_parse: "authentic x h d \<Longrightarrow> parse_receipt_handle x h = Inr d"
  by (auto simp: parse_receipt_handle_def authentic_def get_secret_key_def Let_def
      clear_signature_id)

lemma parse_errors:
  "parse_receipt_handle x h = Inl e \<Longrightarrow>
     e = InvalidReceiptHandle \<or> (e = secret_unset \<and> receipt_secret x = None)"
  by (auto simp: parse_receipt_handle_def get_secret_key_def Let_def split: option.splits if_splits)

end
