(* ===== verification/Storage_Api.thy ===== *)
theory Storage_Api
  imports Lclq_Types
begin

text \<open>
  The trait \<open>StorageBackend\<close> of \<open>src/storage/mod.rs\<close>.  A trait object is a record of its
  methods over the state type of the implementation; a method that mutates the backend
  returns its result with the new state.
\<close>

text \<open>
  The readings of a handler: \<open>es 0\<close> are its own, \<open>es (Suc n)\<close> those of its \<open>n\<close>-th call of the
  backend.
\<close>

type_synonym envs = "nat \<Rightarrow> env"

record queue_filter =
  name_prefix :: "string option"

record 's backend =
  be_create_queue :: "env \<Rightarrow> queue_config \<Rightarrow> 's \<Rightarrow> queue_config result \<times> 's"
  be_get_queue :: "string \<Rightarrow> 's \<Rightarrow> queue_config result"
  be_delete_queue :: "string \<Rightarrow> 's \<Rightarrow> unit result \<times> 's"
  be_list_queues :: "queue_filter option \<Rightarrow> 's \<Rightarrow> queue_config list result"
  be_update_queue :: "env \<Rightarrow> queue_config \<Rightarrow> 's \<Rightarrow> queue_config result \<times> 's"
  be_send_message :: "env \<Rightarrow> string \<Rightarrow> message \<Rightarrow> 's \<Rightarrow> message result \<times> 's"
  be_send_messages :: "env \<Rightarrow> string \<Rightarrow> message list \<Rightarrow> 's \<Rightarrow> message list result \<times> 's"
  be_receive_messages :: "env \<Rightarrow> string \<Rightarrow> receive_options \<Rightarrow> 's \<Rightarrow> received_message list result \<times> 's"
  be_delete_message :: "string \<Rightarrow> string \<Rightarrow> 's \<Rightarrow> unit result \<times> 's"
  be_change_visibility :: "env \<Rightarrow> string \<Rightarrow> string \<Rightarrow> u32 \<Rightarrow> 's \<Rightarrow> unit result \<times> 's"
  be_purge_queue :: "string \<Rightarrow> 's \<Rightarrow> unit result \<times> 's"
  be_get_stats :: "string \<Rightarrow> 's \<Rightarrow> queue_stats result"
  be_create_subscription :: "env \<Rightarrow> subscription_config \<Rightarrow> 's \<Rightarrow> subscription_config result \<times> 's"
  be_get_subscription :: "string \<Rightarrow> 's \<Rightarrow> subscription_config result"
  be_delete_subscription :: "string \<Rightarrow> 's \<Rightarrow> unit result \<times> 's"
  be_list_subscriptions :: "'s \<Rightarrow> subscription_config list result"
  be_health_check :: "'s \<Rightarrow> health_status result"
  be_process_expired_visibility :: "env \<Rightarrow> string \<Rightarrow> 's \<Rightarrow> nat result \<times> 's"

section \<open>Configurations up to the order of their tags\<close>

text \<open>
  The tags are a hash map in the code, whose order nothing promises: two configurations are the same
  when they differ in the order of their tags at most.
\<close>

definition same_config :: "queue_config \<Rightarrow> queue_config \<Rightarrow> bool" where
  "same_config c c' \<longleftrightarrow> c'\<lparr>tags := tags c\<rparr> = c \<and> map_of (tags c') = map_of (tags c)"

lemma same_config_refl [simp]: "same_config c c"
  by (simp add: same_config_def)

lemma same_config_sym: "same_config c c' \<Longrightarrow> same_config c' c"
  by (cases c, cases c') (auto simp: same_config_def)

lemma same_config_trans: "same_config c c' \<Longrightarrow> same_config c' c'' \<Longrightarrow> same_config c c''"
  by (cases c, cases c', cases c'') (auto simp: same_config_def)

lemma same_config_fields:
  assumes "same_config c c'"
  shows "qc_id c' = qc_id c" "qc_name c' = qc_name c" "qc_type c' = qc_type c"
    "max_message_size c' = max_message_size c" "map_of (tags c') = map_of (tags c)"
  using assms by (cases c, cases c', simp add: same_config_def)+

lemma same_config_plain: "same_config c c' \<Longrightarrow> tags c = [] \<Longrightarrow> c' = c"
  by (cases c, cases c') (simp add: same_config_def)

text \<open>Such a configuration is the other one with its tags in another order.\<close>

lemma same_configE:
  assumes "same_config c c'"
  obtains ts where "c' = c\<lparr>tags := ts\<rparr>" and "map_of ts = map_of (tags c)"
  using assms by (cases c, cases c') (auto simp: same_config_def)

lemma same_configI [intro]: "map_of ts' = map_of ts \<Longrightarrow> same_config (c\<lparr>tags := ts\<rparr>) (c\<lparr>tags := ts'\<rparr>)"
  by (simp add: same_config_def)

end
