(* ===== verification/Memory.thy ===== *)
theory Memory
  imports Receipt Storage_Api
begin

text \<open>
  The in-memory backend (\<open>src/storage/memory.rs\<close>): its state and its operations, one
  definition per method.  A method takes the clock and random readings it makes
  (\<open>env\<close>), runs to completion (the code holds the write lock of the queue table) and
  returns its result with the new state.
\<close>

section \<open>State\<close>

record stored_message =
  sm_message :: message
  visible_at :: int

record in_flight_message =
  if_message :: message
  visibility_expires_at :: int

record queue_data =
  qd_config :: queue_config
  available_messages :: "stored_message list"
  in_flight_messages :: "(string \<times> in_flight_message) list"
  deduplication_cache :: "(string \<times> int) list"
  next_sequence_number :: u64
  last_access :: int

record in_memory_config =
  max_messages :: nat
  ev_policy :: eviction_policy

record in_memory =
  queues :: "(string \<times> queue_data) list"
  subscriptions :: "(string \<times> subscription_config) list"
  mem_config :: in_memory_config

definition default_in_memory_config :: in_memory_config where
  "default_in_memory_config = \<lparr> max_messages = 100000, ev_policy = Lru \<rparr>"

definition with_config :: "in_memory_config \<Rightarrow> in_memory" where
  "with_config c = \<lparr> queues = [], subscriptions = [], mem_config = c \<rparr>"

definition set_queue :: "string \<Rightarrow> queue_data \<Rightarrow> in_memory \<Rightarrow> in_memory" where
  "set_queue queue_id q s = s\<lparr>queues := AList.update queue_id q (queues s)\<rparr>"

section \<open>Eviction\<close>

definition queue_message_count :: "queue_data \<Rightarrow> nat" where
  "queue_message_count q = length (available_messages q) + length (in_flight_messages q)"

definition total_message_count :: "in_memory \<Rightarrow> nat" where
  "total_message_count s = sum_vals queue_message_count (queues s)"

text \<open>\<open>queue.available_messages.pop_front()\<close> on the chosen queue.\<close>

definition pop_front_of :: "string \<Rightarrow> in_memory \<Rightarrow> in_memory" where
  "pop_front_of queue_id s =
     (case map_of (queues s) queue_id of
        None \<Rightarrow> s
      | Some q \<Rightarrow>
         (case available_messages q of
            [] \<Rightarrow> s
          | evicted # rest \<Rightarrow> set_queue queue_id (q\<lparr>available_messages := rest\<rparr>) s))"

definition evict_lru :: "in_memory \<Rightarrow> in_memory" where
  "evict_lru s =
     (let nonempty = filter (\<lambda>(_, q). available_messages q \<noteq> []) (queues s);
          oldest_queue_id = map_option fst (min_by_key (\<lambda>(_, q). last_access q) nonempty) in
      case oldest_queue_id of None \<Rightarrow> s | Some queue_id \<Rightarrow> pop_front_of queue_id s)"

definition fifo_candidates :: "in_memory \<Rightarrow> (string \<times> int) list" where
  "fifo_candidates s =
     concat (map (\<lambda>(id, q).
        case available_messages q of
          [] \<Rightarrow> []
        | m # _ \<Rightarrow> [(id, sent_timestamp (sm_message m))]) (queues s))"

definition evict_fifo :: "in_memory \<Rightarrow> in_memory" where
  "evict_fifo s =
     (case min_by_key snd (fifo_candidates s) of
        None \<Rightarrow> s
      | Some (queue_id, _) \<Rightarrow> pop_front_of queue_id s)"

text \<open>
  The count is taken under a read lock that is given back before the eviction takes the write lock, and
  that one is given back before the message is stored: \<open>has_room\<close>, \<open>evict_section\<close> and \<open>push_message\<close>
  (\<open>push_messages\<close>) are the critical sections of a send.  \<open>maybe_evict\<close>, \<open>send_message\<close> and
  \<open>send_messages\<close> are the sections of a call with no other call between them.
\<close>

definition has_room :: "in_memory \<Rightarrow> bool" where
  "has_room s \<longleftrightarrow> total_message_count s < max_messages (mem_config s)"

definition evict_section :: "in_memory \<Rightarrow> unit result \<times> in_memory" where
  "evict_section s =
     (case ev_policy (mem_config s) of
        RejectNew \<Rightarrow> (Inl (StorageError ''Message storage is full, rejecting new messages''), s)
      | Lru \<Rightarrow> (Inr (), evict_lru s)
      | Fifo \<Rightarrow> (Inr (), evict_fifo s))"

definition maybe_evict :: "in_memory \<Rightarrow> unit result \<times> in_memory" where
  "maybe_evict s = (if has_room s then (Inr (), s) else evict_section s)"

lemmas maybe_evict_unfold = maybe_evict_def [unfolded has_room_def evict_section_def]

section \<open>Sending\<close>

definition dedup_window :: int where
  "dedup_window = minutes 5"

definition cleanup_threshold :: nat where
  "cleanup_threshold = 1000"

text \<open>\<open>cutoff_now\<close> is the clock reading of the clean-up.\<close>

definition cleanup_deduplication_cache_inline :: "int \<Rightarrow> queue_data \<Rightarrow> queue_data" where
  "cleanup_deduplication_cache_inline cutoff_now q =
     (if cleanup_threshold < length (deduplication_cache q) then
        (let cutoff = cutoff_now - dedup_window in
         q\<lparr>deduplication_cache := filter (\<lambda>(_, timestamp). cutoff < timestamp) (deduplication_cache q)\<rparr>)
      else q)"

definition generate_content_dedup_id :: "ext \<Rightarrow> message \<Rightarrow> string" where
  "generate_content_dedup_id x m = sha256_hex x (body m)"

definition dedup_required :: error where
  "dedup_required =
     Validation (InvalidParameter ''MessageDeduplicationId''
       ''FIFO queues require either MessageDeduplicationId or ContentBasedDeduplication'')"

definition dedup_id_of :: "ext \<Rightarrow> queue_config \<Rightarrow> message \<Rightarrow> string option" where
  "dedup_id_of x c m =
     (case deduplication_id m of
        Some d \<Rightarrow> Some d
      | None \<Rightarrow> if content_based_deduplication c then Some (generate_content_dedup_id x m) else None)"

definition is_duplicate :: "int \<Rightarrow> string \<Rightarrow> queue_data \<Rightarrow> bool" where
  "is_duplicate cutoff d q =
     (case map_of (deduplication_cache q) d of None \<Rightarrow> False | Some timestamp \<Rightarrow> cutoff < timestamp)"

text \<open>\<open>visible_at\<close> and \<open>push_back\<close>: the end of \<open>send_message_locked\<close>.\<close>

definition store_message :: "int \<Rightarrow> queue_data \<Rightarrow> message \<Rightarrow> queue_data" where
  "store_message t q m =
     (let delay = (case msg_delay_seconds m of Some d \<Rightarrow> d | None \<Rightarrow> delay_seconds (qd_config q)) in
      q\<lparr>available_messages := available_messages q @
          [\<lparr> sm_message = m, visible_at = t + seconds (int (unat delay)) \<rparr>]\<rparr>)"

text \<open>
  The clock is read up to five times: \<open>last_access\<close>, the window check, the cache entry,
  the clean-up and the visibility time.
\<close>

definition send_message_locked ::
    "ext \<Rightarrow> env \<Rightarrow> queue_data \<Rightarrow> message \<Rightarrow> message result \<times> queue_data" where
  "send_message_locked x e q0 m =
     (let q = q0\<lparr>last_access := now e 0\<rparr> in
      if qc_type (qd_config q) = SqsFifo then
        (case dedup_id_of x (qd_config q) m of
           None \<Rightarrow> (Inl dedup_required, q)
         | Some d \<Rightarrow>
            (let cutoff = now e 1 - dedup_window in
             if is_duplicate cutoff d q then (Inr m, q)
             else
              (let q1 = q\<lparr>deduplication_cache := AList.update d (now e 2) (deduplication_cache q)\<rparr>;
                   m1 = m\<lparr>sequence_number := Some (next_sequence_number q1)\<rparr>;
                   q2 = q1\<lparr>next_sequence_number := next_sequence_number q1 + 1\<rparr>;
                   q3 = cleanup_deduplication_cache_inline (now e 3) q2
               in (Inr m1, store_message (now e 4) q3 m1))))
      else (Inr m, store_message (now e 4) q m))"

definition push_message :: "ext \<Rightarrow> env \<Rightarrow> string \<Rightarrow> message \<Rightarrow> in_memory \<Rightarrow> message result \<times> in_memory" where
  "push_message x e queue_id m s =
     (case map_of (queues s) queue_id of
        None \<Rightarrow> (Inl (QueueNotFound queue_id), s)
      | Some q \<Rightarrow>
         (case send_message_locked x e q m of (r, q') \<Rightarrow> (r, set_queue queue_id q' s)))"

definition send_message :: "ext \<Rightarrow> env \<Rightarrow> string \<Rightarrow> message \<Rightarrow> in_memory \<Rightarrow> message result \<times> in_memory" where
  "send_message x e queue_id m s0 =
     (case maybe_evict s0 of
        (Inl err, s) \<Rightarrow> (Inl err, s)
      | (Inr _, s) \<Rightarrow> push_message x e queue_id m s)"

lemmas send_message_unfold = send_message_def [unfolded push_message_def]

text \<open>The loop of \<open>send_messages\<close>: it stops at the first error, keeping what was sent.\<close>

fun send_loop :: "ext \<Rightarrow> env \<Rightarrow> queue_data \<Rightarrow> message list \<Rightarrow> message list \<Rightarrow>
    message list result \<times> queue_data" where
  "send_loop x e q [] sent = (Inr sent, q)"
| "send_loop x e q (m # ms) sent =
     (case send_message_locked x e q m of
        (Inl err, q') \<Rightarrow> (Inl err, q')
      | (Inr r, q') \<Rightarrow> send_loop x (env_from 5 e) q' ms (sent @ [r]))"

definition push_messages ::
    "ext \<Rightarrow> env \<Rightarrow> string \<Rightarrow> message list \<Rightarrow> in_memory \<Rightarrow> message list result \<times> in_memory" where
  "push_messages x e queue_id ms s =
     (case map_of (queues s) queue_id of
        None \<Rightarrow> (Inl (QueueNotFound queue_id), s)
      | Some q \<Rightarrow>
         (case send_loop x e q ms [] of (r, q') \<Rightarrow> (r, set_queue queue_id q' s)))"

definition send_messages ::
    "ext \<Rightarrow> env \<Rightarrow> string \<Rightarrow> message list \<Rightarrow> in_memory \<Rightarrow> message list result \<times> in_memory" where
  "send_messages x e queue_id ms s0 =
     (case maybe_evict s0 of
        (Inl err, s) \<Rightarrow> (Inl err, s)
      | (Inr _, s) \<Rightarrow> push_messages x e queue_id ms s)"

lemmas send_messages_unfold = send_messages_def [unfolded push_messages_def]

section \<open>Queue table\<close>

definition create_queue :: "env \<Rightarrow> queue_config \<Rightarrow> in_memory \<Rightarrow> queue_config result \<times> in_memory" where
  "create_queue e c s =
     (if map_of (queues s) (qc_id c) \<noteq> None then (Inl (QueueAlreadyExists (qc_id c)), s)
      else (Inr c, set_queue (qc_id c)
              \<lparr> qd_config = c, available_messages = [], in_flight_messages = [],
                deduplication_cache = [], next_sequence_number = 0, last_access = now e 0 \<rparr> s))"

definition get_queue :: "string \<Rightarrow> in_memory \<Rightarrow> queue_config result" where
  "get_queue queue_id s =
     (case map_of (queues s) queue_id of
        None \<Rightarrow> Inl (QueueNotFound queue_id) | Some q \<Rightarrow> Inr (qd_config q))"

definition update_queue :: "queue_config \<Rightarrow> in_memory \<Rightarrow> queue_config result \<times> in_memory" where
  "update_queue c s =
     (case map_of (queues s) (qc_id c) of
        None \<Rightarrow> (Inl (QueueNotFound (qc_id c)), s)
      | Some q \<Rightarrow> (Inr c, set_queue (qc_id c) (q\<lparr>qd_config := c\<rparr>) s))"

definition delete_queue :: "string \<Rightarrow> in_memory \<Rightarrow> unit result \<times> in_memory" where
  "delete_queue queue_id s =
     (case map_of (queues s) queue_id of
        None \<Rightarrow> (Inl (QueueNotFound queue_id), s)
      | Some _ \<Rightarrow> (Inr (), s\<lparr>queues := AList.delete queue_id (queues s)\<rparr>))"

definition list_queues :: "queue_filter option \<Rightarrow> in_memory \<Rightarrow> queue_config list result" where
  "list_queues f s =
     (let configs = map (\<lambda>(_, q). qd_config q) (queues s) in
      case f of
        None \<Rightarrow> Inr configs
      | Some g \<Rightarrow>
         (case name_prefix g of
            None \<Rightarrow> Inr configs
          | Some prefix \<Rightarrow> Inr (filter (\<lambda>c. starts_with prefix (qc_name c)) configs)))"

section \<open>Receiving\<close>

text \<open>The keys of the in-flight entries that have expired, in iteration order.\<close>

definition expired_handles :: "int \<Rightarrow> queue_data \<Rightarrow> string list" where
  "expired_handles t q =
     map fst (filter (\<lambda>(_, m). visibility_expires_at m \<le> t) (in_flight_messages q))"

text \<open>Each expired message goes to the back of the available queue; the number is counted.\<close>

fun return_handles :: "int \<Rightarrow> string list \<Rightarrow> queue_data \<Rightarrow> queue_data \<times> nat" where
  "return_handles t [] q = (q, 0)"
| "return_handles t (h # hs) q =
     (case map_of (in_flight_messages q) h of
        None \<Rightarrow> return_handles t hs q
      | Some in_flight \<Rightarrow>
         (case return_handles t hs
                 (q\<lparr>in_flight_messages := AList.delete h (in_flight_messages q),
                    available_messages := available_messages q @
                      [\<lparr> sm_message = if_message in_flight, visible_at = t \<rparr>]\<rparr>) of
            (q', n) \<Rightarrow> (q', Suc n)))"

definition return_expired :: "int \<Rightarrow> queue_data \<Rightarrow> queue_data \<times> nat" where
  "return_expired t q = return_handles t (expired_handles t q) q"

text \<open>
  The scan for visible messages: an index is pushed, then the loop breaks when the list
  has reached \<open>limit\<close>.
\<close>

fun visible_scan :: "int \<Rightarrow> nat \<Rightarrow> nat \<Rightarrow> nat list \<Rightarrow> stored_message list \<Rightarrow> nat list" where
  "visible_scan t limit idx acc [] = acc"
| "visible_scan t limit idx acc (m # ms) =
     (if visible_at m \<le> t then
        (let acc' = acc @ [idx] in
         if limit \<le> length acc' then acc' else visible_scan t limit (Suc idx) acc' ms)
      else visible_scan t limit (Suc idx) acc ms)"

definition should_dlq :: "queue_config \<Rightarrow> message \<Rightarrow> bool" where
  "should_dlq c m =
     (case dlq_config c of None \<Rightarrow> False | Some d \<Rightarrow> max_receive_count d < receive_count m)"

record take_state =
  tk_queue :: queue_data
  tk_dlq :: "(string \<times> message) list"
  tk_received :: "received_message list"

text \<open>
  The removal loop over the visible indices, last index first.  The message is taken out
  of the queue before its handle is generated, so a panic there loses it; the flag of the
  result says whether the loop panicked.
\<close>

fun take_loop :: "ext \<Rightarrow> env \<Rightarrow> string \<Rightarrow> u32 \<Rightarrow> int \<Rightarrow> nat list \<Rightarrow> take_state \<Rightarrow> take_state \<times> bool" where
  "take_loop x e queue_id vt t [] st = (st, False)"
| "take_loop x e queue_id vt t (idx # idxs) st =
     (let q = tk_queue st in
      if length (available_messages q) \<le> idx then take_loop x e queue_id vt t idxs st
      else
       (let m0 = sm_message (available_messages q ! idx);
            q1 = q\<lparr>available_messages := remove_at idx (available_messages q)\<rparr>;
            m = m0\<lparr>receive_count := receive_count m0 + 1\<rparr> in
        if should_dlq (qd_config q1) m then
          take_loop x e queue_id vt t idxs
            (st\<lparr>tk_queue := q1,
                tk_dlq := tk_dlq st @
                  (case dlq_config (qd_config q1) of
                     None \<Rightarrow> [] | Some d \<Rightarrow> [(target_queue_id d, m)])\<rparr>)
        else
         (case generate_receipt_handle x (uuid e 0) queue_id (msg_id m) of
            None \<Rightarrow> (st\<lparr>tk_queue := q1\<rparr>, True)
          | Some handle \<Rightarrow>
              take_loop x (env_from 1 e) queue_id vt t idxs
                (st\<lparr>tk_queue := q1\<lparr>in_flight_messages :=
                      AList.update handle
                        \<lparr> if_message = m, visibility_expires_at = t + seconds (int (unat vt)) \<rparr>
                        (in_flight_messages q1)\<rparr>,
                    tk_received := tk_received st @
                      [\<lparr> rm_message = m, receipt_handle = handle \<rparr>]\<rparr>))))"

text \<open>The second loop: each collected message is appended to its dead letter queue, or dropped.\<close>

definition dlq_message :: "int \<Rightarrow> string \<Rightarrow> message \<Rightarrow> message" where
  "dlq_message t dlq_queue_id m =
     m\<lparr>sent_timestamp := t, receive_count := 0, msg_queue_id := dlq_queue_id\<rparr>"

fun dlq_loop :: "env \<Rightarrow> int \<Rightarrow> (string \<times> message) list \<Rightarrow> in_memory \<Rightarrow> in_memory" where
  "dlq_loop e t [] s = s"
| "dlq_loop e t ((dlq_queue_id, m) # moves) s =
     dlq_loop (env_from 1 e) t moves
       (case map_of (queues s) dlq_queue_id of
          None \<Rightarrow> s
        | Some q \<Rightarrow>
            set_queue dlq_queue_id
              (q\<lparr>available_messages := available_messages q @
                  [\<lparr> sm_message = dlq_message (now e 0) dlq_queue_id m, visible_at = t \<rparr>]\<rparr>) s)"

text \<open>Clock readings: \<open>last_access\<close>, \<open>now\<close>, then one for each message moved to a dead letter queue.\<close>

definition receive_messages ::
    "ext \<Rightarrow> env \<Rightarrow> string \<Rightarrow> receive_options \<Rightarrow> in_memory \<Rightarrow> received_message list result \<times> in_memory" where
  "receive_messages x e queue_id options s =
     (case map_of (queues s) queue_id of
        None \<Rightarrow> (Inl (QueueNotFound queue_id), s)
      | Some q0 \<Rightarrow>
         (let t = now e 1;
              vt = (case ro_visibility_timeout options of
                      Some v \<Rightarrow> v | None \<Rightarrow> visibility_timeout (qd_config q0));
              q1 = fst (return_expired t (q0\<lparr>last_access := now e 0\<rparr>));
              limit = unat (u32_min (ro_max_messages options) 10);
              idxs = visible_scan t limit 0 [] (available_messages q1) in
          case take_loop x e queue_id vt t (rev idxs)
                 \<lparr> tk_queue = q1, tk_dlq = [], tk_received = [] \<rparr> of
            (st, panicked) \<Rightarrow>
              (let s1 = set_queue queue_id (tk_queue st) s in
               if panicked then (Inl secret_unset, s1)
               else (Inr (rev (tk_received st)), dlq_loop (env_from 2 e) t (tk_dlq st) s1))))"

section \<open>Acknowledging\<close>

definition delete_message :: "ext \<Rightarrow> string \<Rightarrow> string \<Rightarrow> in_memory \<Rightarrow> unit result \<times> in_memory" where
  "delete_message x queue_id handle s =
     (case parse_receipt_handle x handle of
        Inl err \<Rightarrow> (Inl err, s)
      | Inr data \<Rightarrow>
          if rh_queue_id data \<noteq> queue_id then (Inl InvalidReceiptHandle, s)
          else
           (case map_of (queues s) queue_id of
              None \<Rightarrow> (Inl (QueueNotFound queue_id), s)
            | Some q \<Rightarrow>
               (case map_of (in_flight_messages q) handle of
                  None \<Rightarrow> (Inl InvalidReceiptHandle, s)
                | Some _ \<Rightarrow>
                    (Inr (), set_queue queue_id
                       (q\<lparr>in_flight_messages := AList.delete handle (in_flight_messages q)\<rparr>) s))))"

definition change_visibility ::
    "ext \<Rightarrow> env \<Rightarrow> string \<Rightarrow> string \<Rightarrow> u32 \<Rightarrow> in_memory \<Rightarrow> unit result \<times> in_memory" where
  "change_visibility x e queue_id handle vt s =
     (case parse_receipt_handle x handle of
        Inl err \<Rightarrow> (Inl err, s)
      | Inr data \<Rightarrow>
          if rh_queue_id data \<noteq> queue_id then (Inl InvalidReceiptHandle, s)
          else
           (case map_of (queues s) queue_id of
              None \<Rightarrow> (Inl (QueueNotFound queue_id), s)
            | Some q \<Rightarrow>
               (case map_of (in_flight_messages q) handle of
                  None \<Rightarrow> (Inl InvalidReceiptHandle, s)
                | Some in_flight \<Rightarrow>
                    (Inr (), set_queue queue_id
                       (q\<lparr>in_flight_messages :=
                           AList.update handle
                             (in_flight\<lparr>visibility_expires_at := now e 0 + seconds (int (unat vt))\<rparr>)
                             (in_flight_messages q)\<rparr>) s))))"

definition purge_queue :: "string \<Rightarrow> in_memory \<Rightarrow> unit result \<times> in_memory" where
  "purge_queue queue_id s =
     (case map_of (queues s) queue_id of
        None \<Rightarrow> (Inl (QueueNotFound queue_id), s)
      | Some q \<Rightarrow>
          (Inr (), set_queue queue_id (q\<lparr>available_messages := [], in_flight_messages := []\<rparr>) s))"

definition get_stats :: "string \<Rightarrow> in_memory \<Rightarrow> queue_stats result" where
  "get_stats queue_id s =
     (case map_of (queues s) queue_id of
        None \<Rightarrow> Inl (QueueNotFound queue_id)
      | Some q \<Rightarrow>
          Inr \<lparr> st_available_messages = length (available_messages q),
                st_in_flight_messages = length (in_flight_messages q),
                st_dlq_messages = 0,
                oldest_message_timestamp =
                  (case available_messages q of [] \<Rightarrow> None | m # _ \<Rightarrow> Some (sent_timestamp (sm_message m))) \<rparr>)"

definition process_expired_visibility :: "env \<Rightarrow> string \<Rightarrow> in_memory \<Rightarrow> nat result \<times> in_memory" where
  "process_expired_visibility e queue_id s =
     (case map_of (queues s) queue_id of
        None \<Rightarrow> (Inl (QueueNotFound queue_id), s)
      | Some q \<Rightarrow>
         (case return_expired (now e 0) q of
            (q', n) \<Rightarrow> (Inr n, set_queue queue_id q' s)))"

section \<open>Subscriptions\<close>

definition create_subscription ::
    "subscription_config \<Rightarrow> in_memory \<Rightarrow> subscription_config result \<times> in_memory" where
  "create_subscription c s =
     (if map_of (subscriptions s) (sub_id c) \<noteq> None then
        (Inl (StorageError (''Subscription '' @ sub_id c @ '' already exists'')), s)
      else (Inr c, s\<lparr>subscriptions := AList.update (sub_id c) c (subscriptions s)\<rparr>))"

definition get_subscription :: "string \<Rightarrow> in_memory \<Rightarrow> subscription_config result" where
  "get_subscription sid s =
     (case map_of (subscriptions s) sid of
        None \<Rightarrow> Inl (SubscriptionNotFound sid) | Some c \<Rightarrow> Inr c)"

definition delete_subscription :: "string \<Rightarrow> in_memory \<Rightarrow> unit result \<times> in_memory" where
  "delete_subscription sid s =
     (case map_of (subscriptions s) sid of
        None \<Rightarrow> (Inl (SubscriptionNotFound sid), s)
      | Some _ \<Rightarrow> (Inr (), s\<lparr>subscriptions := AList.delete sid (subscriptions s)\<rparr>))"

definition list_subscriptions :: "in_memory \<Rightarrow> subscription_config list result" where
  "list_subscriptions s = Inr (map snd (subscriptions s))"

definition health_check :: "in_memory \<Rightarrow> health_status result" where
  "health_check s = Inr Healthy"

section \<open>The trait object\<close>

definition memory_backend :: "ext \<Rightarrow> in_memory backend" where
  "memory_backend x =
     \<lparr> be_create_queue = create_queue,
       be_get_queue = get_queue,
       be_delete_queue = delete_queue,
       be_list_queues = list_queues,
       be_update_queue = (\<lambda>e. update_queue),
       be_send_message = send_message x,
       be_send_messages = send_messages x,
       be_receive_messages = receive_messages x,
       be_delete_message = delete_message x,
       be_change_visibility = change_visibility x,
       be_purge_queue = purge_queue,
       be_get_stats = get_stats,
       be_create_subscription = (\<lambda>e. create_subscription),
       be_get_subscription = get_subscription,
       be_delete_subscription = delete_subscription,
       be_list_subscriptions = list_subscriptions,
       be_health_check = health_check,
       be_process_expired_visibility = process_expired_visibility \<rparr>"

end
