(* ===== verification/Memory_Laws.thy ===== *)
theory Memory_Laws
  imports Memory
begin

text \<open>
  Correctness of the in-memory backend: the well-formedness invariant and its
  preservation, the functional behaviour of each operation, conservation of messages,
  the capacity bound, deduplication and the visibility timeout.
\<close>

section \<open>Well-formed states\<close>

definition queue_wf :: "string \<Rightarrow> queue_data \<Rightarrow> bool" where
  "queue_wf queue_id q \<longleftrightarrow>
     qc_id (qd_config q) = queue_id \<and>
     distinct (map fst (in_flight_messages q)) \<and>
     distinct (map fst (deduplication_cache q))"

definition mem_wf :: "in_memory \<Rightarrow> bool" where
  "mem_wf s \<longleftrightarrow>
     distinct (map fst (queues s)) \<and> distinct (map fst (subscriptions s)) \<and>
     list_all (\<lambda>(queue_id, q). queue_wf queue_id q) (queues s) \<and>
     list_all (\<lambda>(sid, c). sub_id c = sid) (subscriptions s)"

lemma mem_wf_distinct: "mem_wf s \<Longrightarrow> distinct (map fst (queues s))"
  by (simp add: mem_wf_def)

lemma mem_wf_lookup: "mem_wf s \<Longrightarrow> map_of (queues s) queue_id = Some q \<Longrightarrow> queue_wf queue_id q"
  by (auto simp: mem_wf_def list_all_iff dest: map_of_SomeD)

lemma mem_wf_in_flight:
  "mem_wf s \<Longrightarrow> map_of (queues s) queue_id = Some q \<Longrightarrow> distinct (map fst (in_flight_messages q))"
  using mem_wf_lookup [of s queue_id q] by (simp add: queue_wf_def)

lemma set_alist_update: "set (AList.update k v al) \<subseteq> insert (k, v) (set al)"
  by (induction al) auto

lemma set_alist_delete: "set (AList.delete k al) \<subseteq> set al"
  by (auto simp: AList.delete_eq)

lemma mem_wf_set_queue [wf_intros]:
  "mem_wf s \<Longrightarrow> queue_wf queue_id q \<Longrightarrow> mem_wf (set_queue queue_id q s)"
  using set_alist_update [of queue_id q "queues s"]
  by (fastforce simp: mem_wf_def set_queue_def list_all_iff)

lemma queues_set_queue [simp]:
  "map_of (queues (set_queue queue_id q s)) = (map_of (queues s))(queue_id \<mapsto> q)"
  by (simp add: set_queue_def AList.update_conv')

lemma subscriptions_set_queue [simp]: "subscriptions (set_queue queue_id q s) = subscriptions s"
  by (simp add: set_queue_def)

lemma mem_config_set_queue [simp]: "mem_config (set_queue queue_id q s) = mem_config s"
  by (simp add: set_queue_def)

lemma with_config_wf: "mem_wf (with_config c)"
  by (simp add: mem_wf_def with_config_def)

section \<open>Returning expired messages\<close>

definition expired :: "int \<Rightarrow> string \<times> in_flight_message \<Rightarrow> bool" where
  "expired t p \<longleftrightarrow> visibility_expires_at (snd p) \<le> t"

definition requeued :: "int \<Rightarrow> string \<times> in_flight_message \<Rightarrow> stored_message" where
  "requeued t p = \<lparr> sm_message = if_message (snd p), visible_at = t \<rparr>"

lemma expired_handles_eq: "expired_handles t q = map fst (filter (expired t) (in_flight_messages q))"
  unfolding expired_handles_def expired_def by (simp add: case_prod_unfold)

lemma return_handles_split:
  assumes "distinct (map fst (kept @ rest))" and "in_flight_messages q = kept @ rest"
  shows "return_handles t (map fst (filter (expired t) rest)) q =
           (q\<lparr>in_flight_messages := kept @ filter (\<lambda>p. \<not> expired t p) rest,
              available_messages := available_messages q @ map (requeued t) (filter (expired t) rest)\<rparr>,
            length (filter (expired t) rest))"
  using assms
proof (induction rest arbitrary: kept q)
  case Nil
  then show ?case by simp
next
  case (Cons p rest)
  obtain h m where p: "p = (h, m)" by (cases p)
  have h: "h \<notin> fst ` set kept" "h \<notin> fst ` set rest"
    using Cons.prems(1) p by auto
  show ?case
  proof (cases "expired t p")
    case False
    have "in_flight_messages q = (kept @ [p]) @ rest" using Cons.prems(2) by simp
    moreover have "distinct (map fst ((kept @ [p]) @ rest))" using Cons.prems(1) by simp
    ultimately show ?thesis
      using Cons.IH [of "kept @ [p]" q] False by simp
  next
    case True
    have look: "map_of (in_flight_messages q) h = Some m"
      using h by (simp add: Cons.prems(2) p map_add_Some_iff map_of_eq_None_iff)
    have "AList.delete h kept = kept" "AList.delete h rest = rest"
      using h by (simp_all add: AList.delete_idem)
    then have del: "AList.delete h (in_flight_messages q) = kept @ rest"
      by (simp add: Cons.prems(2) p AList.delete_eq)
    have d: "distinct (map fst (kept @ rest))" using Cons.prems(1) by simp
    show ?thesis
      using Cons.IH [OF d, of "q\<lparr>in_flight_messages := kept @ rest,
          available_messages := available_messages q @ [requeued t p]\<rparr>"] True look del
      by (simp add: p requeued_def)
  qed
qed

lemma return_expired_eq:
  assumes "distinct (map fst (in_flight_messages q))"
  shows "return_expired t q =
           (q\<lparr>in_flight_messages := filter (\<lambda>p. \<not> expired t p) (in_flight_messages q),
              available_messages :=
                available_messages q @ map (requeued t) (filter (expired t) (in_flight_messages q))\<rparr>,
            length (filter (expired t) (in_flight_messages q)))"
  using return_handles_split [of "[]" "in_flight_messages q" q t] assms
  by (simp add: return_expired_def expired_handles_eq)

section \<open>The scan for visible messages\<close>

fun visible_indices :: "int \<Rightarrow> nat \<Rightarrow> stored_message list \<Rightarrow> nat list" where
  "visible_indices t idx [] = []"
| "visible_indices t idx (m # ms) =
     (if visible_at m \<le> t then idx # visible_indices t (Suc idx) ms
      else visible_indices t (Suc idx) ms)"

lemma visible_scan_eq:
  "length acc < max 1 limit \<Longrightarrow>
     visible_scan t limit idx acc ms = acc @ take (max 1 limit - length acc) (visible_indices t idx ms)"
proof (induction ms arbitrary: idx acc)
  case (Cons m ms)
  show ?case
  proof (cases "visible_at m \<le> t")
    case True
    show ?thesis
    proof (cases "limit \<le> Suc (length acc)")
      case stop: True
      then have "max 1 limit - length acc = Suc 0" using Cons.prems by auto
      then show ?thesis using True stop by simp
    next
      case False
      then have "max 1 limit - length acc = Suc (max 1 limit - Suc (length acc))" by auto
      then show ?thesis using True False Cons.IH [of "acc @ [idx]" "Suc idx"] by simp
    qed
  qed (use Cons in simp)
qed simp

lemma visible_indices_range: "i \<in> set (visible_indices t idx ms) \<Longrightarrow> idx \<le> i \<and> i < idx + length ms"
proof (induction ms arbitrary: idx)
  case (Cons m ms)
  from Cons.prems show ?case using Cons.IH [of "Suc idx"] by (auto split: if_splits)
qed simp

lemma visible_indices_sorted: "sorted_wrt (<) (visible_indices t idx ms)"
proof (induction ms arbitrary: idx)
  case (Cons m ms)
  then show ?case using visible_indices_range [of _ t "Suc idx" ms] by fastforce
qed simp

lemma visible_indices_nth:
  "map (\<lambda>i. (pre @ ms) ! i) (visible_indices t (length pre) ms) = filter (\<lambda>m. visible_at m \<le> t) ms"
proof (induction ms arbitrary: pre)
  case (Cons m ms)
  show ?case using Cons.IH [of "pre @ [m]"] by simp
qed simp

section \<open>Taking messages\<close>

lemma nths_eq_in_range:
  "(\<And>j. j < length xs \<Longrightarrow> j \<in> A \<longleftrightarrow> j \<in> B) \<Longrightarrow> nths xs A = nths xs B"
  unfolding nths_def by (rule arg_cong [where f = "map fst"], rule filter_cong) (auto simp: set_zip)

lemma nths_remove_at:
  assumes "i < length xs" and "\<forall>j \<in> set is. j < i"
  shows "nths (remove_at i xs) (- set is) = nths xs (- set (i # is))"
proof -
  have xs: "xs = take i xs @ xs ! i # drop (Suc i) xs"
    using assms(1) by (simp add: id_take_nth_drop)
  have len: "length (take i xs) = i" using assms(1) by simp
  have tail: "nths (drop (Suc i) xs) {j. j + i \<in> - set is} = drop (Suc i) xs"
    "nths (drop (Suc i) xs) {j. j + Suc i \<in> - set (i # is)} = drop (Suc i) xs"
    using assms(2) by (auto intro!: nths_all)
  have head: "nths (take i xs) (- set is) = nths (take i xs) (- set (i # is))"
    by (rule nths_eq_in_range) (auto simp: len)
  have "nths (remove_at i xs) (- set is) = nths (take i xs) (- set is) @ drop (Suc i) xs"
    using tail(1) unfolding remove_at_def nths_append len by simp
  moreover have "nths xs (- set (i # is)) = nths (take i xs) (- set (i # is)) @ drop (Suc i) xs"
    using tail(2) by (subst xs) (unfold nths_append nths_Cons len, simp)
  ultimately show ?thesis using head by simp
qed

lemma remove_at_nth: "j < i \<Longrightarrow> i < length xs \<Longrightarrow> remove_at i xs ! j = xs ! j"
  by (simp add: remove_at_def nth_append)

lemma length_remove_at: "i < length xs \<Longrightarrow> length (remove_at i xs) = length xs - 1"
  by (simp add: remove_at_def)

lemma alist_update_new: "k \<notin> fst ` set al \<Longrightarrow> AList.update k v al = al @ [(k, v)]"
  by (induction al) auto

definition bump :: "message \<Rightarrow> message" where
  "bump m = m\<lparr>receive_count := receive_count m + 1\<rparr>"

definition dead_letter :: "queue_config \<Rightarrow> message \<Rightarrow> (string \<times> message) list" where
  "dead_letter c m = (case dlq_config c of None \<Rightarrow> [] | Some d \<Rightarrow> [(target_queue_id d, m)])"

definition handle_for :: "ext \<Rightarrow> string \<Rightarrow> string \<Rightarrow> message \<Rightarrow> string" where
  "handle_for x nonce queue_id m = the (generate_receipt_handle x nonce queue_id (msg_id m))"

text \<open>The handles of a list of messages: the \<open>j\<close>-th uses the \<open>j\<close>-th nonce.\<close>

fun handles_for :: "ext \<Rightarrow> env \<Rightarrow> string \<Rightarrow> message list \<Rightarrow> string list" where
  "handles_for x e queue_id [] = []"
| "handles_for x e queue_id (m # ms) =
     handle_for x (uuid e 0) queue_id m # handles_for x (env_from 1 e) queue_id ms"

definition received_of :: "message \<Rightarrow> string \<Rightarrow> received_message" where
  "received_of m h = \<lparr> rm_message = m, receipt_handle = h \<rparr>"

definition flight_of :: "int \<Rightarrow> u32 \<Rightarrow> message \<Rightarrow> string \<Rightarrow> string \<times> in_flight_message" where
  "flight_of t vt m h = (h, \<lparr> if_message = m, visibility_expires_at = t + seconds (int (unat vt)) \<rparr>)"

text \<open>The nonces of an operation are new: their handles are not those of in-flight messages.\<close>

definition fresh_handles :: "ext \<Rightarrow> env \<Rightarrow> string \<Rightarrow> queue_data \<Rightarrow> bool" where
  "fresh_handles x e queue_id q \<longleftrightarrow>
     inj (uuid e) \<and>
     (\<forall>i m. handle_for x (uuid e i) queue_id m \<notin> fst ` set (in_flight_messages q))"

lemma handle_for_inj:
  assumes "receipt_codecs_ok x" and "receipt_secret x \<noteq> None"
    and "handle_for x n q m = handle_for x n' q' m'"
  shows "n = n'"
proof -
  obtain h where h: "generate_receipt_handle x n q (msg_id m) = Some h"
    using assms(2) generate_None_iff by (metis not_None_eq)
  moreover obtain h' where h': "generate_receipt_handle x n' q' (msg_id m') = Some h'"
    using assms(2) generate_None_iff by (metis not_None_eq)
  ultimately show ?thesis
    using assms(3) generate_inj [OF assms(1), of n' q' "msg_id m'" h' n q "msg_id m"]
    by (simp add: handle_for_def)
qed

lemma length_handles_for [simp]: "length (handles_for x e queue_id ms) = length ms"
  by (induction ms arbitrary: e) auto

lemma handles_for_uuid:
  "h \<in> set (handles_for x e queue_id ms) \<Longrightarrow> \<exists>i m. m \<in> set ms \<and> h = handle_for x (uuid e i) queue_id m"
proof (induction ms arbitrary: e)
  case (Cons m ms)
  from Cons.prems consider (head) "h = handle_for x (uuid e 0) queue_id m"
    | (tail) "h \<in> set (handles_for x (env_from 1 e) queue_id ms)"
    by auto
  then show ?case
  proof cases
    case tail
    then show ?thesis using Cons.IH [of "env_from 1 e"] by auto
  qed auto
qed simp

lemma take_loop_spec:
  assumes "receipt_codecs_ok x" and "receipt_secret x \<noteq> None"
    and "sorted_wrt (>) idxs" and "\<forall>i \<in> set idxs. i < length (available_messages (tk_queue st))"
    and "fresh_handles x e queue_id (tk_queue st)"
  defines "q \<equiv> tk_queue st"
  defines "ms \<equiv> map (\<lambda>i. bump (sm_message (available_messages q ! i))) idxs"
  defines "live \<equiv> filter (\<lambda>m. \<not> should_dlq (qd_config q) m) ms"
  defines "dead \<equiv> filter (should_dlq (qd_config q)) ms"
  defines "hs \<equiv> handles_for x e queue_id live"
  shows "take_loop x e queue_id vt t idxs st =
     (st\<lparr>tk_queue := q\<lparr>available_messages := nths (available_messages q) (- set idxs),
                      in_flight_messages := in_flight_messages q @ map2 (flight_of t vt) live hs\<rparr>,
         tk_dlq := tk_dlq st @ concat (map (dead_letter (qd_config q)) dead),
         tk_received := tk_received st @ map2 received_of live hs\<rparr>, False)"
  unfolding hs_def dead_def live_def ms_def q_def
  using assms(3-5)
proof (induction idxs arbitrary: st e)
  case Nil
  then show ?case by (cases st; cases "tk_queue st") (simp add: nths_all)
next
  case (Cons i idxs)
  let ?q = "tk_queue st"
  let ?av = "available_messages ?q"
  let ?m = "bump (sm_message (?av ! i))"
  let ?q1 = "?q\<lparr>available_messages := remove_at i ?av\<rparr>"
  have i: "i < length ?av" "\<forall>j \<in> set idxs. j < i"
    using Cons.prems(1,2) by auto
  have sorted: "sorted_wrt (>) idxs" using Cons.prems(1) by simp
  have range: "\<forall>j \<in> set idxs. j < length (remove_at i ?av)"
    using i by (auto simp: length_remove_at)
  have nth: "map (\<lambda>j. bump (sm_message (remove_at i ?av ! j))) idxs = map (\<lambda>j. bump (sm_message (?av ! j))) idxs"
    using i by (auto simp: remove_at_nth)
  have rest: "nths (remove_at i ?av) (- set idxs) = nths ?av (- set (i # idxs))"
    using i by (intro nths_remove_at)
  show ?case
  proof (cases "should_dlq (qd_config ?q) ?m")
    case True
    define st1 where "st1 = st\<lparr>tk_queue := ?q1, tk_dlq := tk_dlq st @ dead_letter (qd_config ?q) ?m\<rparr>"
    have step: "take_loop x e queue_id vt t (i # idxs) st = take_loop x e queue_id vt t idxs st1"
      using i True by (simp add: st1_def bump_def dead_letter_def Let_def)
    have "fresh_handles x e queue_id (tk_queue st1)"
      using Cons.prems(3) by (simp add: st1_def fresh_handles_def)
    from Cons.IH [OF sorted _ this] range show ?thesis
      unfolding step using True nth rest by (simp add: st1_def)
  next
    case False
    define h where "h = handle_for x (uuid e 0) queue_id ?m"
    define st1 where "st1 = st\<lparr>tk_queue := ?q1\<lparr>in_flight_messages := in_flight_messages ?q @ [flight_of t vt ?m h]\<rparr>,
        tk_received := tk_received st @ [received_of ?m h]\<rparr>"
    obtain h' where "generate_receipt_handle x (uuid e 0) queue_id (msg_id ?m) = Some h'"
      using assms(2) generate_None_iff by (metis not_None_eq)
    then have h: "generate_receipt_handle x (uuid e 0) queue_id (msg_id ?m) = Some h"
      by (simp add: h_def handle_for_def)
    have new: "h \<notin> fst ` set (in_flight_messages ?q)"
      using Cons.prems(3) by (simp add: fresh_handles_def h_def)
    have step: "take_loop x e queue_id vt t (i # idxs) st = take_loop x (env_from 1 e) queue_id vt t idxs st1"
      using i False h new
      by (simp add: st1_def bump_def flight_of_def received_of_def Let_def alist_update_new)
    have inj: "inj (uuid e)" using Cons.prems(3) by (simp add: fresh_handles_def)
    have "handle_for x (uuid e (Suc j)) queue_id m \<noteq> h" for j m
      using handle_for_inj [OF assms(1,2), of "uuid e (Suc j)" queue_id m "uuid e 0" queue_id ?m]
        injD [OF inj, of "Suc j" 0] by (auto simp: h_def)
    moreover have "inj (uuid (env_from 1 e))"
      by (auto intro!: injI dest: injD [OF inj])
    ultimately have fresh: "fresh_handles x (env_from 1 e) queue_id (tk_queue st1)"
      using Cons.prems(3) by (simp add: fresh_handles_def st1_def flight_of_def)
    from Cons.IH [OF sorted _ fresh] range show ?thesis
      unfolding step using False nth rest by (simp add: st1_def h_def)
  qed
qed

section \<open>What a receive does\<close>

text \<open>
  The messages a receive may deliver at time \<open>t\<close>, in queue order: the available ones and
  then the expired ones.  It picks the first visible ones, at least one and at most ten.
\<close>

definition deliverable :: "int \<Rightarrow> queue_data \<Rightarrow> stored_message list" where
  "deliverable t q = available_messages q @ map (requeued t) (filter (expired t) (in_flight_messages q))"

definition batch_limit :: "receive_options \<Rightarrow> nat" where
  "batch_limit ro = max 1 (min (unat (ro_max_messages ro)) 10)"

definition picked :: "int \<Rightarrow> receive_options \<Rightarrow> queue_data \<Rightarrow> stored_message list" where
  "picked t ro q = take (batch_limit ro) (filter (\<lambda>m. visible_at m \<le> t) (deliverable t q))"

definition picked_indices :: "int \<Rightarrow> receive_options \<Rightarrow> queue_data \<Rightarrow> nat list" where
  "picked_indices t ro q = take (batch_limit ro) (visible_indices t 0 (deliverable t q))"

definition remaining :: "int \<Rightarrow> receive_options \<Rightarrow> queue_data \<Rightarrow> stored_message list" where
  "remaining t ro q = nths (deliverable t q) (- set (picked_indices t ro q))"

definition live_messages :: "int \<Rightarrow> receive_options \<Rightarrow> queue_data \<Rightarrow> message list" where
  "live_messages t ro q =
     filter (\<lambda>m. \<not> should_dlq (qd_config q) m) (map (\<lambda>m. bump (sm_message m)) (picked t ro q))"

definition dead_messages :: "int \<Rightarrow> receive_options \<Rightarrow> queue_data \<Rightarrow> message list" where
  "dead_messages t ro q =
     filter (should_dlq (qd_config q)) (map (\<lambda>m. bump (sm_message m)) (picked t ro q))"

definition effective_timeout :: "receive_options \<Rightarrow> queue_data \<Rightarrow> u32" where
  "effective_timeout ro q =
     (case ro_visibility_timeout ro of Some v \<Rightarrow> v | None \<Rightarrow> visibility_timeout (qd_config q))"

definition receive_handles :: "ext \<Rightarrow> env \<Rightarrow> string \<Rightarrow> receive_options \<Rightarrow> queue_data \<Rightarrow> string list" where
  "receive_handles x e queue_id ro q = handles_for x e queue_id (rev (live_messages (now e 1) ro q))"

definition queue_after_receive ::
    "ext \<Rightarrow> env \<Rightarrow> string \<Rightarrow> receive_options \<Rightarrow> queue_data \<Rightarrow> queue_data" where
  "queue_after_receive x e queue_id ro q =
     q\<lparr>last_access := now e 0,
       available_messages := remaining (now e 1) ro q,
       in_flight_messages :=
         filter (\<lambda>p. \<not> expired (now e 1) p) (in_flight_messages q) @
         map2 (flight_of (now e 1) (effective_timeout ro q))
           (rev (live_messages (now e 1) ro q)) (receive_handles x e queue_id ro q)\<rparr>"

definition dlq_moves :: "int \<Rightarrow> receive_options \<Rightarrow> queue_data \<Rightarrow> (string \<times> message) list" where
  "dlq_moves t ro q = concat (map (dead_letter (qd_config q)) (rev (dead_messages t ro q)))"

lemma map2_rev: "length xs = length ys \<Longrightarrow> rev (map2 f xs ys) = map2 f (rev xs) (rev ys)"
  by (simp add: rev_map zip_rev)

lemma picked_indices_nth:
  "map (\<lambda>i. sm_message (deliverable t q ! i)) (picked_indices t ro q) = map sm_message (picked t ro q)"
proof -
  have "map (\<lambda>i. deliverable t q ! i) (visible_indices t 0 (deliverable t q))
      = filter (\<lambda>m. visible_at m \<le> t) (deliverable t q)"
    using visible_indices_nth [of "[]" "deliverable t q" t] by simp
  then have "map sm_message (take (batch_limit ro) (map (\<lambda>i. deliverable t q ! i) (visible_indices t 0 (deliverable t q))))
      = map sm_message (picked t ro q)"
    by (simp add: picked_def)
  then show ?thesis by (simp add: picked_indices_def take_map o_def)
qed

lemma sorted_wrt_take: "sorted_wrt P xs \<Longrightarrow> sorted_wrt P (take n xs)"
  by (metis append_take_drop_id sorted_wrt_append)

lemma picked_indices_props:
  "sorted_wrt (<) (picked_indices t ro q)"
  "i \<in> set (picked_indices t ro q) \<Longrightarrow> i < length (deliverable t q)"
  unfolding picked_indices_def
  using visible_indices_range [of i t 0 "deliverable t q"]
  by (auto intro: sorted_wrt_take visible_indices_sorted dest: in_set_takeD)

lemma scan_limit: "max 1 (unat (u32_min (ro_max_messages ro) 10)) = batch_limit ro"
  by (simp add: batch_limit_def unat_u32_min)

theorem receive_messages_eq:
  assumes "receipt_codecs_ok x" and "receipt_secret x \<noteq> None" and "mem_wf s"
    and q: "map_of (queues s) queue_id = Some q" and fresh: "fresh_handles x e queue_id q"
  shows "receive_messages x e queue_id ro s =
     (Inr (map2 received_of (live_messages (now e 1) ro q) (rev (receive_handles x e queue_id ro q))),
      dlq_loop (env_from 2 e) (now e 1) (dlq_moves (now e 1) ro q)
        (set_queue queue_id (queue_after_receive x e queue_id ro q) s))"
proof -
  define t where "t = now e 1"
  have t: "now e (Suc 0) = t" by (simp add: t_def)
  define q0 where "q0 = q\<lparr>last_access := now e 0\<rparr>"
  define q1 where "q1 = q\<lparr>last_access := now e 0, available_messages := deliverable t q,
      in_flight_messages := filter (\<lambda>p. \<not> expired t p) (in_flight_messages q)\<rparr>"
  have "distinct (map fst (in_flight_messages q0))"
    using mem_wf_in_flight [OF assms(3) q] by (simp add: q0_def)
  then have q1: "fst (return_expired t q0) = q1"
    by (simp add: return_expired_eq q1_def q0_def deliverable_def)
  have scan: "visible_scan t (unat (u32_min (ro_max_messages ro) 10)) 0 [] (available_messages q1)
      = picked_indices t ro q"
    by (simp add: visible_scan_eq scan_limit [symmetric] picked_indices_def q1_def scan_limit)
  define st where "st = \<lparr> tk_queue = q1, tk_dlq = [], tk_received = [] \<rparr>"
  have sorted: "sorted_wrt (>) (rev (picked_indices t ro q))"
    using picked_indices_props(1) by (simp add: sorted_wrt_rev)
  have range: "\<forall>i \<in> set (rev (picked_indices t ro q)). i < length (available_messages (tk_queue st))"
    using picked_indices_props(2) by (auto simp: st_def q1_def)
  have fresh1: "fresh_handles x e queue_id (tk_queue st)"
    using fresh by (fastforce simp: fresh_handles_def st_def q1_def)
  have msgs: "map (\<lambda>i. bump (sm_message (deliverable t q ! i))) (rev (picked_indices t ro q))
      = rev (map (\<lambda>m. bump (sm_message m)) (picked t ro q))"
    using arg_cong [OF picked_indices_nth [of t q ro], of "\<lambda>ms. rev (map bump ms)"]
    by (simp add: rev_map o_def)
  have vt: "(case ro_visibility_timeout ro of None \<Rightarrow> visibility_timeout (qd_config q) | Some v \<Rightarrow> v)
      = effective_timeout ro q"
    by (simp add: effective_timeout_def)
  have loop: "take_loop x e queue_id (effective_timeout ro q) t (rev (picked_indices t ro q)) st =
      (\<lparr> tk_queue = queue_after_receive x e queue_id ro q, tk_dlq = dlq_moves t ro q,
         tk_received = map2 received_of (rev (live_messages t ro q)) (receive_handles x e queue_id ro q) \<rparr>,
       False)"
    using take_loop_spec [OF assms(1,2) sorted range fresh1, of "effective_timeout ro q" t]
    by (simp add: st_def q1_def msgs live_messages_def dead_messages_def dlq_moves_def t
        receive_handles_def queue_after_receive_def remaining_def rev_filter)
  show ?thesis
    by (simp add: receive_messages_def q Let_def t q0_def [symmetric] q1 scan st_def [symmetric] vt loop
        map2_rev receive_handles_def)
qed

end
