(* ===== verification/Memory_Props.thy ===== *)
theory Memory_Props
  imports Memory_Laws
begin

text \<open>
  Properties of the in-memory backend: every operation preserves well-formedness,
  messages are neither lost nor duplicated, the capacity bound, deduplication,
  acknowledgement and the visibility timeout.
\<close>

section \<open>The identifiers a queue holds\<close>

definition available_ids :: "queue_data \<Rightarrow> string multiset" where
  "available_ids q = mset (map (\<lambda>m. msg_id (sm_message m)) (available_messages q))"

definition in_flight_ids :: "queue_data \<Rightarrow> string multiset" where
  "in_flight_ids q = mset (map (\<lambda>(_, m). msg_id (if_message m)) (in_flight_messages q))"

definition queue_ids :: "queue_data \<Rightarrow> string multiset" where
  "queue_ids q = available_ids q + in_flight_ids q"

definition all_ids :: "in_memory \<Rightarrow> string multiset" where
  "all_ids s = sum_vals queue_ids (queues s)"

lemma size_queue_ids: "size (queue_ids q) = queue_message_count q"
  by (simp add: queue_ids_def available_ids_def in_flight_ids_def queue_message_count_def)

lemma size_sum_vals: "size (sum_vals f al :: 'a multiset) = sum_vals (\<lambda>v. size (f v)) al"
  by (induction al) auto

lemma size_all_ids: "size (all_ids s) = total_message_count s"
  by (simp add: all_ids_def total_message_count_def size_sum_vals size_queue_ids)

lemma all_ids_set_queue:
  assumes "mem_wf s" and "map_of (queues s) queue_id = Some q"
  shows "all_ids (set_queue queue_id q' s) + queue_ids q = all_ids s + queue_ids q'"
  using sum_vals_update [OF mem_wf_distinct [OF assms(1)] assms(2), of queue_ids q']
  by (simp add: all_ids_def set_queue_def)

text \<open>A replacement that keeps, drops or adds identifiers of one queue.\<close>

lemma all_ids_set_queue_add:
  assumes "mem_wf s" and "map_of (queues s) queue_id = Some q" and "queue_ids q' = queue_ids q + M"
  shows "all_ids (set_queue queue_id q' s) = all_ids s + M"
  using all_ids_set_queue [OF assms(1,2), of q'] assms(3) by (simp add: ac_simps)

lemma all_ids_set_queue_sub:
  assumes "mem_wf s" and "map_of (queues s) queue_id = Some q" and "queue_ids q = queue_ids q' + M"
  shows "all_ids s = all_ids (set_queue queue_id q' s) + M"
  using all_ids_set_queue [OF assms(1,2), of q'] assms(3) by (simp add: ac_simps)

section \<open>Eviction\<close>

lemma pop_front_of_cases:
  obtains "pop_front_of queue_id s = s"
  | q m ms where "map_of (queues s) queue_id = Some q" and "available_messages q = m # ms"
      and "pop_front_of queue_id s = set_queue queue_id (q\<lparr>available_messages := ms\<rparr>) s"
proof (cases "map_of (queues s) queue_id")
  case None
  then show ?thesis using that(1) by (simp add: pop_front_of_def)
next
  case (Some q)
  then show ?thesis
    using that by (cases "available_messages q") (simp_all add: pop_front_of_def)
qed

lemma pop_front_of_wf [wf_intros]: "mem_wf s \<Longrightarrow> mem_wf (pop_front_of queue_id s)"
  by (rule pop_front_of_cases [of queue_id s])
    (auto intro!: mem_wf_set_queue dest: mem_wf_lookup simp: queue_wf_def)

lemma fifo_candidates_mem:
  assumes "(queue_id, ts) \<in> set (fifo_candidates s)"
  shows "\<exists>q m ms. (queue_id, q) \<in> set (queues s) \<and> available_messages q = m # ms"
proof -
  obtain k q where kq: "(k, q) \<in> set (queues s)"
    and mem: "(queue_id, ts) \<in> set (case available_messages q of
                  [] \<Rightarrow> [] | m # _ \<Rightarrow> [(k, sent_timestamp (sm_message m))])"
    using assms by (auto simp: fifo_candidates_def)
  then show ?thesis by (cases "available_messages q") auto
qed

lemma evict_section_cases:
  obtains (reject) "ev_policy (mem_config s) = RejectNew"
      "evict_section s = (Inl (StorageError ''Message storage is full, rejecting new messages''), s)"
  | (none) "evict_section s = (Inr (), s)" "\<forall>(queue_id, q) \<in> set (queues s). available_messages q = []"
  | (pop) queue_id q m ms where "(queue_id, q) \<in> set (queues s)" "available_messages q = m # ms"
      "evict_section s = (Inr (), pop_front_of queue_id s)"
proof (cases "ev_policy (mem_config s)")
  case RejectNew
  then show ?thesis using reject by (simp add: evict_section_def)
next
  case Lru
  let ?c = "filter (\<lambda>(_, q). available_messages q \<noteq> []) (queues s)"
  show ?thesis
  proof (cases "min_by_key (\<lambda>(_, q). last_access q) ?c")
    case None
    then show ?thesis using none Lru by (auto simp: evict_section_def evict_lru_def filter_empty_conv)
  next
    case (Some p)
    moreover obtain queue_id q where p: "p = (queue_id, q)" by (cases p)
    ultimately have "(queue_id, q) \<in> set (queues s)" "available_messages q \<noteq> []"
      using min_by_key_Some [OF Some] by auto
    then show ?thesis using pop Lru Some p by (auto simp: evict_section_def evict_lru_def neq_Nil_conv)
  qed
next
  case Fifo
  show ?thesis
  proof (cases "min_by_key snd (fifo_candidates s)")
    case None
    then have "\<forall>(queue_id, q) \<in> set (queues s). available_messages q = []"
      by (auto simp: fifo_candidates_def concat_eq_Nil_conv split: list.splits)
    then show ?thesis using none Fifo None by (simp add: evict_section_def evict_fifo_def)
  next
    case (Some p)
    obtain queue_id ts where p: "p = (queue_id, ts)" by (cases p)
    have "p \<in> set (fifo_candidates s)" using min_by_key_Some [OF Some] by simp
    then obtain q m ms where "(queue_id, q) \<in> set (queues s)" "available_messages q = m # ms"
      using fifo_candidates_mem p by blast
    then show ?thesis using pop Fifo Some p by (simp add: evict_section_def evict_fifo_def)
  qed
qed

lemma maybe_evict_cases:
  obtains (room) "total_message_count s < max_messages (mem_config s)" "maybe_evict s = (Inr (), s)"
  | (reject) "max_messages (mem_config s) \<le> total_message_count s" "ev_policy (mem_config s) = RejectNew"
      "maybe_evict s = (Inl (StorageError ''Message storage is full, rejecting new messages''), s)"
  | (none) "max_messages (mem_config s) \<le> total_message_count s" "maybe_evict s = (Inr (), s)"
      "\<forall>(queue_id, q) \<in> set (queues s). available_messages q = []"
  | (pop) queue_id q m ms where "max_messages (mem_config s) \<le> total_message_count s"
      "(queue_id, q) \<in> set (queues s)" "available_messages q = m # ms"
      "maybe_evict s = (Inr (), pop_front_of queue_id s)"
proof (cases "total_message_count s < max_messages (mem_config s)")
  case True
  then show ?thesis using room by (simp add: maybe_evict_unfold)
next
  case False
  then have "maybe_evict s = evict_section s" "max_messages (mem_config s) \<le> total_message_count s"
    by (simp_all add: maybe_evict_def has_room_def)
  then show ?thesis using that(2-4) by (cases rule: evict_section_cases [of s]) simp_all
qed

lemma evict_section_wf [wf_intros]: "mem_wf s \<Longrightarrow> mem_wf (snd (evict_section s))"
  by (rule evict_section_cases [of s]) (auto intro: pop_front_of_wf)

lemma maybe_evict_wf [wf_intros]: "mem_wf s \<Longrightarrow> mem_wf (snd (maybe_evict s))"
  by (rule maybe_evict_cases [of s]) (auto intro: pop_front_of_wf)


lemma evict_section_ids: "mem_wf s \<Longrightarrow> all_ids (snd (evict_section s)) \<subseteq># all_ids s"
proof (rule evict_section_cases [of s])
  fix queue_id q m ms
  assume "mem_wf s" and "evict_section s = (Inr (), pop_front_of queue_id s)"
  then show ?thesis
  proof (cases rule: pop_front_of_cases [of queue_id s])
    case (2 q m ms)
    then have "queue_ids q = queue_ids (q\<lparr>available_messages := ms\<rparr>) + {# msg_id (sm_message m) #}"
      by (simp add: queue_ids_def available_ids_def in_flight_ids_def)
    from all_ids_set_queue_sub [OF \<open>mem_wf s\<close> 2(1) this] 2
    show ?thesis using \<open>evict_section s = _\<close> by simp
  qed simp
qed simp_all

lemma maybe_evict_ids: "mem_wf s \<Longrightarrow> all_ids (snd (maybe_evict s)) \<subseteq># all_ids s"
  by (simp add: maybe_evict_def evict_section_ids)

text \<open>When the store is full and some message is available, exactly one message goes.\<close>

lemma maybe_evict_full:
  assumes "mem_wf s" and "max_messages (mem_config s) \<le> total_message_count s"
    and "ev_policy (mem_config s) \<noteq> RejectNew"
    and "(k, q0) \<in> set (queues s)" and "available_messages q0 \<noteq> []"
  shows "fst (maybe_evict s) = Inr ()"
    and "Suc (total_message_count (snd (maybe_evict s))) = total_message_count s"
proof -
  obtain queue_id q m ms where ev: "(queue_id, q) \<in> set (queues s)" "available_messages q = m # ms"
      "maybe_evict s = (Inr (), pop_front_of queue_id s)"
    using assms by (cases rule: maybe_evict_cases [of s]) fastforce+
  have q: "map_of (queues s) queue_id = Some q"
    using ev(1) mem_wf_distinct [OF assms(1)] by simp
  have "queue_ids q = queue_ids (q\<lparr>available_messages := ms\<rparr>) + {# msg_id (sm_message m) #}"
    using ev(2) by (simp add: queue_ids_def available_ids_def in_flight_ids_def)
  from all_ids_set_queue_sub [OF assms(1) q this]
  have "all_ids s = all_ids (pop_front_of queue_id s) + {# msg_id (sm_message m) #}"
    using q ev(2) by (simp add: pop_front_of_def)
  then show "fst (maybe_evict s) = Inr ()"
    and "Suc (total_message_count (snd (maybe_evict s))) = total_message_count s"
    using ev(3) by (simp_all add: size_all_ids [symmetric])
qed

lemma pop_front_of_keys: "map_of (queues (pop_front_of k s)) queue_id = None \<longleftrightarrow> map_of (queues s) queue_id = None"
  by (rule pop_front_of_cases [of k s]) auto

lemma pop_front_of_config [simp]: "mem_config (pop_front_of k s) = mem_config s"
  by (rule pop_front_of_cases [of k s]) auto

lemma maybe_evict_keys:
  "map_of (queues (snd (maybe_evict s))) queue_id = None \<longleftrightarrow> map_of (queues s) queue_id = None"
  by (rule maybe_evict_cases [of s]) (auto simp: pop_front_of_keys)

lemma maybe_evict_config [simp]: "mem_config (snd (maybe_evict s)) = mem_config s"
  by (rule maybe_evict_cases [of s]) auto

section \<open>Sending\<close>

text \<open>The three ways \<open>send_message_locked\<close> can end.\<close>

lemma send_locked_cases:
  obtains (reject) "send_message_locked x e q m = (Inl dedup_required, q\<lparr>last_access := now e 0\<rparr>)"
      "qc_type (qd_config q) = SqsFifo" "dedup_id_of x (qd_config q) m = None"
  | (duplicate) d where "send_message_locked x e q m = (Inr m, q\<lparr>last_access := now e 0\<rparr>)"
      "qc_type (qd_config q) = SqsFifo" "dedup_id_of x (qd_config q) m = Some d"
      "is_duplicate (now e 1 - dedup_window) d q"
  | (stored) q' m' where "send_message_locked x e q m = (Inr m', store_message (now e 4) q' m')"
      "qd_config q' = qd_config q" "available_messages q' = available_messages q"
      "in_flight_messages q' = in_flight_messages q" "msg_id m' = msg_id m"
      "distinct (map fst (deduplication_cache q)) \<Longrightarrow> distinct (map fst (deduplication_cache q'))"
proof (cases "qc_type (qd_config q) = SqsFifo")
  case False
  then show ?thesis
    using stored [of m "q\<lparr>last_access := now e 0\<rparr>"] by (simp add: send_message_locked_def)
next
  case True
  show ?thesis
  proof (cases "dedup_id_of x (qd_config q) m")
    case None
    with True reject show ?thesis by (simp add: send_message_locked_def)
  next
    case (Some d)
    show ?thesis
    proof (cases "is_duplicate (now e 1 - dedup_window) d q")
      case dup: True
      then have "is_duplicate (now e 1 - dedup_window) d (q\<lparr>last_access := now e 0\<rparr>)"
        by (simp add: is_duplicate_def)
      then show ?thesis
        using duplicate [of d] True Some dup by (simp add: send_message_locked_def Let_def)
    next
      case False
      then have "\<not> is_duplicate (now e 1 - dedup_window) d (q\<lparr>last_access := now e 0\<rparr>)"
        by (simp add: is_duplicate_def)
      with True Some stored show ?thesis
        by (simp add: send_message_locked_def Let_def cleanup_deduplication_cache_inline_def)
    qed
  qed
qed

lemma store_message_ids:
  "queue_ids (store_message t q m) = queue_ids q + {# msg_id m #}"
  by (simp add: store_message_def Let_def queue_ids_def available_ids_def in_flight_ids_def)

lemma store_message_fields [simp]:
  "qd_config (store_message t q m) = qd_config q"
  "in_flight_messages (store_message t q m) = in_flight_messages q"
  "deduplication_cache (store_message t q m) = deduplication_cache q"
  "next_sequence_number (store_message t q m) = next_sequence_number q"
  by (simp_all add: store_message_def Let_def)

lemma send_locked_wf: "queue_wf k q \<Longrightarrow> queue_wf k (snd (send_message_locked x e q m))"
  by (rule send_locked_cases [of x e q m]) (auto simp: queue_wf_def)

lemma send_loop_wf: "queue_wf k q \<Longrightarrow> queue_wf k (snd (send_loop x e q ms sent))"
proof (induction ms arbitrary: e q sent)
  case (Cons m ms)
  have "queue_wf k (snd (send_message_locked x e q m))"
    using Cons.prems by (rule send_locked_wf)
  then show ?case by (auto intro: Cons.IH split: prod.splits sum.splits)
qed simp

lemma push_message_wf [wf_intros]: "mem_wf s \<Longrightarrow> mem_wf (snd (push_message x e queue_id m s))"
  by (auto simp: push_message_def split_beta split: option.split intro!: mem_wf_set_queue send_locked_wf mem_wf_lookup)

lemma push_messages_wf [wf_intros]: "mem_wf s \<Longrightarrow> mem_wf (snd (push_messages x e queue_id ms s))"
  by (auto simp: push_messages_def split_beta split: option.split intro!: mem_wf_set_queue send_loop_wf mem_wf_lookup)

lemma send_message_wf [wf_intros]: "mem_wf s \<Longrightarrow> mem_wf (snd (send_message x e queue_id m s))"
  using maybe_evict_wf [of s] push_message_wf [of "snd (maybe_evict s)"]
  by (simp add: send_message_def split_beta split: sum.split)

lemma send_messages_wf [wf_intros]: "mem_wf s \<Longrightarrow> mem_wf (snd (send_messages x e queue_id ms s))"
  using maybe_evict_wf [of s] push_messages_wf [of "snd (maybe_evict s)"]
  by (simp add: send_messages_def split_beta split: sum.split)

section \<open>The other operations keep the invariant\<close>

lemma create_queue_wf [wf_intros]: "mem_wf s \<Longrightarrow> mem_wf (snd (create_queue e c s))"
  by (auto simp: create_queue_def queue_wf_def intro!: mem_wf_set_queue)

lemma update_queue_wf [wf_intros]:
  assumes "mem_wf s"
  shows "mem_wf (snd (update_queue c s))"
proof (cases "map_of (queues s) (qc_id c)")
  case (Some q)
  from mem_wf_lookup [OF assms this] show ?thesis
    by (auto simp: update_queue_def Some queue_wf_def intro!: mem_wf_set_queue assms)
qed (simp add: update_queue_def assms)

lemma list_all_delete: "list_all P al \<Longrightarrow> list_all P (AList.delete k al)"
  by (simp add: list_all_iff AList.delete_eq)

lemma delete_queue_wf [wf_intros]: "mem_wf s \<Longrightarrow> mem_wf (snd (delete_queue queue_id s))"
  by (auto simp: delete_queue_def mem_wf_def intro: list_all_delete split: option.split)

lemma in_flight_update_wf:
  assumes "mem_wf s" and "map_of (queues s) k = Some q"
    and "distinct (map fst fl)"
  shows "mem_wf (set_queue k (q\<lparr>available_messages := av, in_flight_messages := fl\<rparr>) s)"
    and "mem_wf (set_queue k (q\<lparr>in_flight_messages := fl\<rparr>) s)"
  using mem_wf_lookup [OF assms(1,2)] assms(3)
  by (intro mem_wf_set_queue [OF assms(1)]; simp add: queue_wf_def)+

lemma delete_message_wf [wf_intros]:
  assumes "mem_wf s"
  shows "mem_wf (snd (delete_message x queue_id handle s))"
proof (cases "map_of (queues s) queue_id")
  case (Some q)
  have "mem_wf (set_queue queue_id (q\<lparr>in_flight_messages := AList.delete handle (in_flight_messages q)\<rparr>) s)"
    by (intro in_flight_update_wf(2) [OF assms Some] distinct_keys_delete mem_wf_in_flight [OF assms Some])
  then show ?thesis by (simp add: delete_message_def Some assms split: sum.split option.split)
qed (simp add: delete_message_def assms split: sum.split)

lemma change_visibility_wf [wf_intros]:
  assumes "mem_wf s"
  shows "mem_wf (snd (change_visibility x e queue_id handle vt s))"
proof (cases "map_of (queues s) queue_id")
  case (Some q)
  have "mem_wf (set_queue queue_id (q\<lparr>in_flight_messages := AList.update handle v (in_flight_messages q)\<rparr>) s)" for v
    by (intro in_flight_update_wf(2) [OF assms Some] distinct_keys_update mem_wf_in_flight [OF assms Some])
  then show ?thesis by (simp add: change_visibility_def Some assms split: sum.split option.split)
qed (simp add: change_visibility_def assms split: sum.split)

lemma purge_queue_wf [wf_intros]:
  assumes "mem_wf s"
  shows "mem_wf (snd (purge_queue queue_id s))"
proof (cases "map_of (queues s) queue_id")
  case (Some q)
  then show ?thesis
    using in_flight_update_wf(1) [OF assms Some, of "[]" "[]"] by (simp add: purge_queue_def)
qed (simp add: purge_queue_def assms)

lemma return_expired_wf: "queue_wf k q \<Longrightarrow> queue_wf k (fst (return_expired t q))"
  by (simp add: return_expired_eq queue_wf_def)

lemma process_expired_wf [wf_intros]:
  assumes "mem_wf s"
  shows "mem_wf (snd (process_expired_visibility e queue_id s))"
proof (cases "map_of (queues s) queue_id")
  case (Some q)
  have "mem_wf (set_queue queue_id (fst (return_expired (now e 0) q)) s)"
    by (intro mem_wf_set_queue assms return_expired_wf mem_wf_lookup [OF assms Some])
  then show ?thesis by (auto simp: process_expired_visibility_def Some split: prod.split)
qed (simp add: process_expired_visibility_def assms)

lemma create_subscription_wf [wf_intros]: "mem_wf s \<Longrightarrow> mem_wf (snd (create_subscription c s))"
  using set_alist_update [of "sub_id c" c "subscriptions s"]
  by (auto simp: create_subscription_def mem_wf_def list_all_iff)

lemma delete_subscription_wf [wf_intros]: "mem_wf s \<Longrightarrow> mem_wf (snd (delete_subscription sid s))"
  by (auto simp: delete_subscription_def mem_wf_def intro: list_all_delete split: option.split)

text \<open>A receive keeps the invariant whatever its nonces are, and also when it panics.\<close>

lemma take_loop_wf:
  "queue_wf k (tk_queue st) \<Longrightarrow> queue_wf k (tk_queue (fst (take_loop x e queue_id vt t idxs st)))"
proof (induction idxs arbitrary: st e)
  case (Cons i idxs)
  then show ?case by (simp add: queue_wf_def Let_def split: option.split)
qed simp

lemma dlq_loop_wf: "mem_wf s \<Longrightarrow> mem_wf (dlq_loop e t moves s)"
proof (induction moves arbitrary: s e)
  case (Cons p moves)
  obtain k m where p: "p = (k, m)" by (cases p)
  have "mem_wf (set_queue k (q\<lparr>available_messages := av\<rparr>) s)" if "map_of (queues s) k = Some q" for q av
    using mem_wf_lookup [OF Cons.prems that] by (auto intro!: mem_wf_set_queue Cons.prems simp: queue_wf_def)
  then show ?case
    by (auto simp: p intro!: Cons.IH Cons.prems split: option.splits)
qed simp

lemma receive_messages_wf [wf_intros]:
  assumes "mem_wf s"
  shows "mem_wf (snd (receive_messages x e queue_id ro s))"
proof (cases "map_of (queues s) queue_id")
  case (Some q)
  have "queue_wf queue_id (q\<lparr>last_access := now e 0\<rparr>)"
    using mem_wf_lookup [OF assms Some] by (simp add: queue_wf_def)
  then have "queue_wf queue_id (fst (return_expired t (q\<lparr>last_access := now e 0\<rparr>)))" for t
    by (rule return_expired_wf)
  then show ?thesis
    by (auto simp: receive_messages_def Some Let_def split: prod.splits
        intro!: dlq_loop_wf mem_wf_set_queue assms)
      (metis fst_conv take_loop_wf take_state.select_convs(1))+
qed (simp add: receive_messages_def assms)

section \<open>Conservation\<close>

definition has_queue :: "in_memory \<Rightarrow> string \<Rightarrow> bool" where
  "has_queue s k \<longleftrightarrow> map_of (queues s) k \<noteq> None"

lemma has_queue_set_queue: "has_queue s k \<Longrightarrow> has_queue (set_queue k q' s) = has_queue s"
  by (auto simp: has_queue_def fun_eq_iff)

definition move_ids :: "(string \<times> message) list \<Rightarrow> string multiset" where
  "move_ids moves = mset (map (\<lambda>(_, m). msg_id m) moves)"

lemma dlq_loop_ids:
  "mem_wf s \<Longrightarrow>
     all_ids (dlq_loop e t moves s) =
       all_ids s + move_ids (filter (\<lambda>(k, _). has_queue s k) moves)"
proof (induction moves arbitrary: s e)
  case (Cons p moves)
  obtain k m where p: "p = (k, m)" by (cases p)
  show ?case
  proof (cases "map_of (queues s) k")
    case None
    then show ?thesis using Cons.IH [OF Cons.prems] by (simp add: p has_queue_def)
  next
    case (Some q)
    define q' where "q' = q\<lparr>available_messages := available_messages q @
        [\<lparr> sm_message = dlq_message (now e 0) k m, visible_at = t \<rparr>]\<rparr>"
    have wf: "mem_wf (set_queue k q' s)"
      using mem_wf_lookup [OF Cons.prems Some]
      by (intro mem_wf_set_queue [OF Cons.prems]) (simp add: q'_def queue_wf_def)
    have "queue_ids q' = queue_ids q + {# msg_id m #}"
      by (simp add: q'_def queue_ids_def available_ids_def in_flight_ids_def dlq_message_def)
    note ids = all_ids_set_queue_add [OF Cons.prems Some this]
    have k: "has_queue s k" by (simp add: Some has_queue_def)
    show ?thesis
      using Cons.IH [OF wf, of "env_from 1 e"]
      by (simp add: p Some q'_def [symmetric] ids k has_queue_set_queue move_ids_def)
  qed
qed (simp add: move_ids_def)

lemma mset_nths_compl: "mset (nths xs A) + mset (nths xs (- A)) = mset xs"
proof (induction xs arbitrary: A)
  case (Cons a xs)
  have "{j. Suc j \<in> - A} = - {j. Suc j \<in> A}" by auto
  then show ?case using Cons.IH [of "{j. Suc j \<in> A}"] by (simp add: nths_Cons)
qed simp

lemma nths_none: "\<forall>j < length xs. j \<notin> A \<Longrightarrow> nths xs A = []"
  using nths_eq_in_range [of xs A "{}"] by simp

lemma nths_sorted_indices:
  "sorted_wrt (<) is \<Longrightarrow> \<forall>i \<in> set is. i < length xs \<Longrightarrow> nths xs (set is) = map ((!) xs) is"
proof (induction "is" rule: rev_induct)
  case (snoc i "is")
  have sorted: "sorted_wrt (<) is" and less: "\<forall>j \<in> set is. j < i" and i: "i < length xs"
    using snoc.prems by (auto simp: sorted_wrt_append)
  have "xs = take i xs @ xs ! i # drop (Suc i) xs" using i by (simp add: id_take_nth_drop)
  moreover have "nths (drop (Suc i) xs) {j. j + Suc i \<in> set (is @ [i])} = []"
    using less by (intro nths_none) auto
  moreover have "nths (take i xs) (set (is @ [i])) = nths (take i xs) (set is)"
    using i by (intro nths_eq_in_range) auto
  moreover have "nths (take i xs) (set is) = map ((!) xs) is"
  proof -
    have "nths xs (set is) = nths (take i xs) (set is)"
    proof -
      have "nths (drop i xs) {j. j + i \<in> set is} = []"
        using less by (intro nths_none) auto
      then show ?thesis
        using nths_append [of "take i xs" "drop i xs" "set is"] i by simp
    qed
    then show ?thesis using snoc.IH [OF sorted] snoc.prems(2) by auto
  qed
  ultimately show ?case
    using i nths_append [of "take i xs" "xs ! i # drop (Suc i) xs" "set (is @ [i])"]
    by (auto simp: nths_Cons)
qed simp

lemma msg_id_bump [simp]: "msg_id (bump m) = msg_id m"
  by (simp add: bump_def)

lemma mset_partition: "mset (map f (filter P xs)) + mset (map f (filter (\<lambda>a. \<not> P a) xs)) = mset (map f xs)"
  by (induction xs) auto

lemma picked_ids:
  "mset (map msg_id (live_messages t ro q)) + mset (map msg_id (dead_messages t ro q))
     = mset (map (\<lambda>m. msg_id (sm_message m)) (picked t ro q))"
  using mset_partition [of msg_id "should_dlq (qd_config q)" "map (\<lambda>m. bump (sm_message m)) (picked t ro q)"]
  by (simp add: live_messages_def dead_messages_def o_def add.commute)

lemma remaining_ids:
  "mset (map (\<lambda>m. msg_id (sm_message m)) (remaining t ro q))
     + mset (map (\<lambda>m. msg_id (sm_message m)) (picked t ro q))
     = mset (map (\<lambda>m. msg_id (sm_message m)) (deliverable t q))"
proof -
  have "sorted_wrt (<) (picked_indices t ro q)" by (rule picked_indices_props)
  then have "map sm_message (nths (deliverable t q) (set (picked_indices t ro q))) = map sm_message (picked t ro q)"
    using picked_indices_nth [of t q ro] nths_sorted_indices [of "picked_indices t ro q" "deliverable t q"]
      picked_indices_props(2) [of _ t ro q]
    by (simp add: o_def)
  from arg_cong [OF this, of "map msg_id"]
  have "map (\<lambda>m. msg_id (sm_message m)) (nths (deliverable t q) (set (picked_indices t ro q)))
      = map (\<lambda>m. msg_id (sm_message m)) (picked t ro q)"
    by (simp add: o_def)
  then show ?thesis
    using arg_cong [OF mset_nths_compl [of "deliverable t q" "set (picked_indices t ro q)"],
        of "image_mset (\<lambda>m. msg_id (sm_message m))"]
    by (simp only: remaining_def mset_map image_mset_union [symmetric] add.commute)
      (metis add.commute image_mset_union mset_map)
qed

lemma deliverable_ids:
  "mset (map (\<lambda>m. msg_id (sm_message m)) (deliverable t q))
     + mset (map (\<lambda>(_, m). msg_id (if_message m)) (filter (\<lambda>p. \<not> expired t p) (in_flight_messages q)))
     = queue_ids q"
  using mset_partition [of "\<lambda>(_, m). msg_id (if_message m)" "expired t" "in_flight_messages q"]
  by (simp add: deliverable_def queue_ids_def available_ids_def in_flight_ids_def requeued_def o_def
      case_prod_unfold add.assoc)

lemma map2_flight_ids:
  "length ms = length hs \<Longrightarrow>
     map (\<lambda>(_, m). msg_id (if_message m)) (map2 (flight_of t vt) ms hs) = map msg_id ms"
  by (induction ms hs rule: list_induct2) (auto simp: flight_of_def)

lemma queue_after_receive_ids:
  "queue_ids q = queue_ids (queue_after_receive x e queue_id ro q)
     + mset (map msg_id (dead_messages (now e 1) ro q))"
proof -
  define t where "t = now e 1"
  have t: "now e (Suc 0) = t" by (simp add: t_def)
  have after_ids: "queue_ids (queue_after_receive x e queue_id ro q) =
      mset (map (\<lambda>m. msg_id (sm_message m)) (remaining t ro q)) +
      (mset (map (\<lambda>(_, m). msg_id (if_message m)) (filter (\<lambda>p. \<not> expired t p) (in_flight_messages q)))
       + mset (map msg_id (live_messages t ro q)))"
    using map2_flight_ids [of "rev (live_messages t ro q)" "receive_handles x e queue_id ro q" t "effective_timeout ro q"]
    by (simp add: queue_ids_def available_ids_def in_flight_ids_def queue_after_receive_def t
        receive_handles_def del: map_map mset_map) (simp add: rev_map [symmetric])
  have "queue_ids q =
      mset (map (\<lambda>m. msg_id (sm_message m)) (remaining t ro q)) +
      (mset (map msg_id (live_messages t ro q)) + mset (map msg_id (dead_messages t ro q))) +
      mset (map (\<lambda>(_, m). msg_id (if_message m)) (filter (\<lambda>p. \<not> expired t p) (in_flight_messages q)))"
    unfolding picked_ids remaining_ids deliverable_ids ..
  then show ?thesis
    unfolding t_def [symmetric] after_ids by (simp only: ac_simps)
qed

lemma move_ids_dlq_moves: "move_ids (dlq_moves t ro q) = mset (map msg_id (dead_messages t ro q))"
proof (cases "dlq_config (qd_config q)")
  case None
  then show ?thesis by (simp add: move_ids_def dlq_moves_def dead_letter_def dead_messages_def should_dlq_def)
next
  case (Some d)
  have "concat (map (dead_letter (qd_config q)) ms) = map (\<lambda>m. (target_queue_id d, m)) ms" for ms
    by (induction ms) (simp_all add: dead_letter_def Some)
  then have "dlq_moves t ro q = map (\<lambda>m. (target_queue_id d, m)) (rev (dead_messages t ro q))"
    unfolding dlq_moves_def .
  then show ?thesis by (simp add: move_ids_def o_def rev_map [symmetric])
qed

lemma move_ids_partition: "move_ids (filter P moves) + move_ids (filter (\<lambda>p. \<not> P p) moves) = move_ids moves"
  unfolding move_ids_def by (rule mset_partition)

lemma distinct_handles_for:
  assumes "receipt_codecs_ok x" and "receipt_secret x \<noteq> None"
  shows "inj (uuid e) \<Longrightarrow> distinct (handles_for x e queue_id ms)"
proof (induction ms arbitrary: e)
  case (Cons m ms)
  have "handle_for x (uuid e 0) queue_id m \<notin> set (handles_for x (env_from 1 e) queue_id ms)"
  proof
    assume "handle_for x (uuid e 0) queue_id m \<in> set (handles_for x (env_from 1 e) queue_id ms)"
    then obtain i m' where "handle_for x (uuid e 0) queue_id m = handle_for x (uuid e (Suc i)) queue_id m'"
      using handles_for_uuid [of "handle_for x (uuid e 0) queue_id m" x "env_from 1 e" queue_id ms] by auto
    then show False
      using handle_for_inj [OF assms] injD [OF Cons.prems, of 0 "Suc i"] by blast
  qed
  moreover have "inj (uuid (env_from 1 e))"
    by (auto intro!: injI dest: injD [OF Cons.prems])
  note Cons.IH [OF this]
  ultimately show ?case by simp
qed simp

lemma map_fst_flight: "length ms = length hs \<Longrightarrow> map fst (map2 (flight_of t vt) ms hs) = hs"
  by (induction ms hs rule: list_induct2) (auto simp: flight_of_def)

lemma queue_after_receive_wf:
  assumes "receipt_codecs_ok x" and "receipt_secret x \<noteq> None" and "queue_wf k q"
    and "fresh_handles x e queue_id q"
  shows "queue_wf k (queue_after_receive x e queue_id ro q)"
proof -
  let ?ms = "rev (live_messages (now e 1) ro q)"
  let ?hs = "receive_handles x e queue_id ro q"
  have "set ?hs \<inter> fst ` set (in_flight_messages q) = {}"
    using assms(4) unfolding fresh_handles_def receive_handles_def
    by (auto dest!: handles_for_uuid) (metis fst_conv imageI)
  moreover have "distinct ?hs"
    using assms by (auto simp: receive_handles_def fresh_handles_def intro: distinct_handles_for)
  moreover have "map fst (map2 (flight_of (now e 1) (effective_timeout ro q)) ?ms ?hs) = ?hs"
    by (rule map_fst_flight) (simp add: receive_handles_def)
  ultimately show ?thesis
    using assms(3) by (auto simp: queue_wf_def queue_after_receive_def distinct_map_filter
        simp del: One_nat_def map_map)
qed

text \<open>The state a receive leaves before the dead letter moves.\<close>

lemma receive_state_ids:
  assumes "receipt_codecs_ok x" and "receipt_secret x \<noteq> None" and "mem_wf s"
    and "map_of (queues s) queue_id = Some q" and "fresh_handles x e queue_id q"
  shows "all_ids (snd (receive_messages x e queue_id ro s)) +
      move_ids (filter (\<lambda>(k, _). \<not> has_queue s k) (dlq_moves (now e 1) ro q)) = all_ids s"
proof -
  define s1 where "s1 = set_queue queue_id (queue_after_receive x e queue_id ro q) s"
  define moves where "moves = dlq_moves (now e 1) ro q"
  have wf1: "mem_wf s1"
    unfolding s1_def
    by (intro mem_wf_set_queue assms queue_after_receive_wf mem_wf_lookup [OF assms(3,4)])
  have keys: "has_queue s1 = has_queue s"
    using assms(4) by (simp add: s1_def has_queue_set_queue has_queue_def)
  have "all_ids s = all_ids s1 + move_ids moves"
    unfolding s1_def moves_def move_ids_dlq_moves
    by (rule all_ids_set_queue_sub [OF assms(3,4) queue_after_receive_ids])
  moreover have "snd (receive_messages x e queue_id ro s) = dlq_loop (env_from 2 e) (now e 1) moves s1"
    unfolding receive_messages_eq [OF assms] s1_def moves_def by simp
  ultimately show ?thesis
    using dlq_loop_ids [OF wf1, of "env_from 2 e" "now e 1" moves]
      move_ids_partition [of "\<lambda>(k, _). has_queue s k" moves]
    by (simp add: keys moves_def [symmetric] case_prod_unfold add.assoc del: One_nat_def)
qed

end
