(* ===== verification/Samples.thy ===== *)
theory Samples
  imports Receipt
begin

text \<open>
  A concrete instance of the third-party functions, used only by the witness theorems:
  base64 and hex are replaced by a two-letter code for each byte, the JSON of a receipt by
  four fields separated by slashes, the hashes by the identity.
\<close>

definition nibble_char :: "nat \<Rightarrow> char" where
  "nibble_char n = char_of (65 + n)"

definition nibble_val :: "char \<Rightarrow> nat" where
  "nibble_val c = of_char c - 65"

fun letters :: "string \<Rightarrow> string" where
  "letters [] = []"
| "letters (c # cs) = nibble_char (of_char c div 16) # nibble_char (of_char c mod 16) # letters cs"

fun unletters :: "string \<Rightarrow> string option" where
  "unletters [] = Some []"
| "unletters [c] = None"
| "unletters (a # b # cs) = map_option (Cons (char_of (nibble_val a * 16 + nibble_val b))) (unletters cs)"

definition sample_ser :: "receipt_data \<Rightarrow> string" where
  "sample_ser d =
     letters (rh_queue_id d) @ CHR ''/'' # letters (rh_message_id d) @ CHR ''/'' #
     letters (rh_nonce d) @ CHR ''/'' #
     (case rh_signature d of None \<Rightarrow> ''N'' | Some s \<Rightarrow> CHR ''S'' # letters s)"

definition sample_de :: "string \<Rightarrow> receipt_data option" where
  "sample_de t =
     (case split_on (CHR ''/'') t of
        [a, b, c, d] \<Rightarrow>
         (case (unletters a, unletters b, unletters c, d) of
            (Some q, Some m, Some n, k # s) \<Rightarrow>
              (if k = CHR ''S'' then
                 map_option (\<lambda>sig. \<lparr> rh_queue_id = q, rh_message_id = m, rh_nonce = n,
                                   rh_signature = Some sig \<rparr>) (unletters s)
               else Some \<lparr> rh_queue_id = q, rh_message_id = m, rh_nonce = n, rh_signature = None \<rparr>)
          | _ \<Rightarrow> None)
      | _ \<Rightarrow> None)"

definition sample_ext :: ext where
  "sample_ext =
     \<lparr> sha256_hex = (\<lambda>s. s), md5_hex = (\<lambda>s. s), hmac_sha256 = (\<lambda>k d. k @ d),
       b64_encode = letters, b64_decode = unletters,
       hex_encode = letters, hex_decode = unletters,
       receipt_ser = sample_ser, receipt_de = sample_de,
       json_parse = (\<lambda>_. None), json_error = (\<lambda>_. ''syntax''), json_show = (\<lambda>_. []), url_decode = Some,
       receipt_secret = Some ''k'', unicode_alphanumeric = (\<lambda>_. False) \<rparr>"

definition sample_env :: "int \<Rightarrow> env" where
  "sample_env t = \<lparr> now = (\<lambda>_. t), uuid = show_nat \<rparr>"

lemma nibble_val_char [simp]: "n < 16 \<Longrightarrow> nibble_val (nibble_char n) = n"
  by (simp add: nibble_val_def nibble_char_def)

lemma unletters_letters [simp]: "unletters (letters s) = Some s"
  by (induction s) (simp_all add: div_less_iff_less_mult)

lemma of_nibble_char: "n < 16 \<Longrightarrow> (of_char (nibble_char n) :: nat) = 65 + n"
  by (simp add: nibble_char_def)

lemma letters_range: "c \<in> set (letters s) \<Longrightarrow> 65 \<le> (of_char c :: nat) \<and> (of_char c :: nat) < 81"
proof (induction s)
  case (Cons a s)
  have "(of_char a :: nat) div 16 < 16" by (simp add: div_less_iff_less_mult)
  then show ?case using Cons by (auto simp: of_nibble_char)
qed simp

lemma slash_letters: "CHR ''/'' \<notin> set (letters s)"
  using letters_range [of "CHR ''/''" s] by auto

lemma is_ascii_letters: "is_ascii (letters s)"
  using letters_range by (fastforce simp: is_ascii_def list_all_iff)

lemma sample_roundtrip: "sample_de (sample_ser d) = Some d"
  by (cases d) (simp add: sample_de_def sample_ser_def split_on_append slash_letters split_on_no_sep
      split: option.split)

lemma sample_ser_ascii: "is_ascii (sample_ser d)"
  by (simp add: sample_ser_def is_ascii_letters is_ascii_def [of "_ # _"] split: option.split)
    (simp add: is_ascii_letters is_ascii_def [symmetric] flip: is_ascii_def)

lemma sample_codecs_ok: "receipt_codecs_ok sample_ext"
  by (simp add: receipt_codecs_ok_def sample_ext_def sample_roundtrip from_utf8_ascii sample_ser_ascii)

lemma sample_secret [simp]: "receipt_secret sample_ext = Some ''k''"
  by (simp add: sample_ext_def)

lemma sample_env_simps [simp]: "now (sample_env t) i = t" "uuid (sample_env t) = show_nat"
  by (simp_all add: sample_env_def)

lemma inj_show_nat: "inj show_nat"
  by (rule injI) simp

end
