(* ===== verification/Memory_Samples.thy ===== *)
theory Memory_Samples
  imports Memory_Props Samples
begin

text \<open>
  Concrete states of the in-memory backend, used by the witness theorems: one queue with two
  messages, and a second clock whose nonces differ from those of \<open>sample_env\<close>.
\<close>

definition sample_message :: "string \<Rightarrow> message" where
  "sample_message i =
     \<lparr> msg_id = i, body = ''hello'', attributes = [], msg_queue_id = ''q'', sent_timestamp = 0,
       receive_count = 0, message_group_id = None, deduplication_id = None,
       sequence_number = None, msg_delay_seconds = None \<rparr>"

definition sample_config :: "string \<Rightarrow> queue_type \<Rightarrow> dlq_target option \<Rightarrow> queue_config" where
  "sample_config k ty d =
     \<lparr> qc_id = k, qc_name = k, qc_type = ty, visibility_timeout = 30,
       message_retention_period = 345600, max_message_size = 262144, delay_seconds = 0,
       dlq_config = d, content_based_deduplication = False, tags = [], redrive_allow_policy = None \<rparr>"

definition sample_queue :: "queue_type \<Rightarrow> dlq_target option \<Rightarrow> message list \<Rightarrow> queue_data" where
  "sample_queue ty d ms =
     \<lparr> qd_config = sample_config ''q'' ty d,
       available_messages = map (\<lambda>m. \<lparr> sm_message = m, visible_at = 0 \<rparr>) ms,
       in_flight_messages = [], deduplication_cache = [], next_sequence_number = 0,
       last_access = 0 \<rparr>"

definition sample_mem :: "queue_type \<Rightarrow> dlq_target option \<Rightarrow> message list \<Rightarrow> in_memory" where
  "sample_mem ty d ms =
     \<lparr> queues = [(''q'', sample_queue ty d ms)], subscriptions = [],
       mem_config = default_in_memory_config \<rparr>"

definition sample_env_b :: "int \<Rightarrow> env" where
  "sample_env_b t = \<lparr> now = (\<lambda>_. t), uuid = (\<lambda>i. CHR ''b'' # show_nat i) \<rparr>"

lemma sample_env_b_simps [simp]: "now (sample_env_b t) i = t"
  by (simp add: sample_env_b_def)

lemma inj_uuid_b: "inj (uuid (sample_env_b t))"
  by (rule injI) (simp add: sample_env_b_def)

lemma sample_wf: "mem_wf (sample_mem ty d ms)"
  by (simp add: mem_wf_def sample_mem_def queue_wf_def sample_queue_def sample_config_def)

lemma sample_lookup: "map_of (queues (sample_mem ty d ms)) ''q'' = Some (sample_queue ty d ms)"
  by (simp add: sample_mem_def)

lemma sample_fresh: "fresh_handles sample_ext (sample_env t) ''q'' (sample_queue ty d ms)"
  by (simp add: fresh_handles_def sample_queue_def inj_show_nat)

lemma sample_secret_set: "receipt_secret sample_ext \<noteq> None"
  by simp

lemmas sample_defs = sample_mem_def sample_queue_def sample_config_def sample_message_def

end
