(* ===== verification/Memory_Claims.thy ===== *)
theory Memory_Claims
  imports Memory_Samples
begin

text \<open>
  The properties of the in-memory backend and of its receipt handles, each with a witness
  on a concrete state where it has hypotheses.
\<close>

section \<open>Lookups after the dead letter moves\<close>

fun dlq_arrivals :: "env \<Rightarrow> int \<Rightarrow> string \<Rightarrow> (string \<times> message) list \<Rightarrow> stored_message list" where
  "dlq_arrivals e t k [] = []"
| "dlq_arrivals e t k ((k', m) # moves) =
     (if k' = k then [\<lparr> sm_message = dlq_message (now e 0) k m, visible_at = t \<rparr>] else []) @
     dlq_arrivals (env_from 1 e) t k moves"

lemma dlq_loop_lookup:
  "map_of (queues (dlq_loop e t moves s)) k =
     map_option (\<lambda>q. q\<lparr>available_messages := available_messages q @ dlq_arrivals e t k moves\<rparr>)
       (map_of (queues s) k)"
proof (induction moves arbitrary: s e)
  case Nil
  then show ?case by (cases "map_of (queues s) k") simp_all
next
  case (Cons p moves)
  obtain k' m where p: "p = (k', m)" by (cases p)
  show ?case
    by (cases "map_of (queues s) k'"; cases "map_of (queues s) k"; cases "k' = k")
      (simp_all add: p Cons.IH)
qed

lemma dlq_arrivals_ids:
  "a \<in> (\<lambda>m. msg_id (sm_message m)) ` set (dlq_arrivals e t k moves) \<Longrightarrow> a \<in># move_ids moves"
proof (induction moves arbitrary: e)
  case (Cons p moves)
  obtain k' m where p: "p = (k', m)" by (cases p)
  show ?case
    using Cons.prems Cons.IH [of "env_from 1 e"]
    by (auto simp: p dlq_message_def move_ids_def split: if_splits)
qed simp

definition after_dlq ::
    "ext \<Rightarrow> env \<Rightarrow> string \<Rightarrow> receive_options \<Rightarrow> queue_data \<Rightarrow> queue_data" where
  "after_dlq x e k ro q =
     (let q' = queue_after_receive x e k ro q in
      q'\<lparr>available_messages := available_messages q' @
          dlq_arrivals (env_from 2 e) (now e 1) k (dlq_moves (now e 1) ro q)\<rparr>)"

lemma lookup_after_receive:
  assumes "receipt_codecs_ok x" and "receipt_secret x \<noteq> None" and "mem_wf s"
    and "map_of (queues s) k = Some q" and "fresh_handles x e k q"
  shows "map_of (queues (snd (receive_messages x e k ro s))) k = Some (after_dlq x e k ro q)"
  unfolding receive_messages_eq [OF assms]
  by (simp add: dlq_loop_lookup after_dlq_def Let_def)

lemma received_messages:
  assumes "receipt_codecs_ok x" and "receipt_secret x \<noteq> None" and "mem_wf s"
    and "map_of (queues s) k = Some q" and "fresh_handles x e k q"
    and "receive_messages x e k ro s = (Inr rs, s1)"
  shows "map rm_message rs = live_messages (now e 1) ro q"
    and "map receipt_handle rs = rev (receive_handles x e k ro q)"
proof -
  have len: "length (live_messages (now e 1) ro q) = length (rev (receive_handles x e k ro q))"
    by (simp add: receive_handles_def)
  have rs: "rs = map2 received_of (live_messages (now e 1) ro q) (rev (receive_handles x e k ro q))"
    using receive_messages_eq [OF assms(1-5), of ro] assms(6) by simp
  show "map rm_message rs = live_messages (now e 1) ro q"
    using len unfolding rs
    by (induction rule: list_induct2) (auto simp: received_of_def)
  show "map receipt_handle rs = rev (receive_handles x e k ro q)"
    using len unfolding rs
    by (induction rule: list_induct2) (auto simp: received_of_def)
qed

lemma fresh_after_dlq:
  assumes "receipt_codecs_ok x" and "receipt_secret x \<noteq> None"
    and "fresh_handles x e' k q" and "range (uuid e) \<inter> range (uuid e') = {}"
  shows "fresh_handles x e' k (after_dlq x e k ro q)"
proof -
  have "handle_for x (uuid e' i) k m \<notin> set (receive_handles x e k ro q)" for i m
    using handles_for_uuid [of _ x e k "rev (live_messages (now e 1) ro q)"]
      handle_for_inj [OF assms(1,2), of "uuid e' i" k m] assms(4)
    by (fastforce simp: receive_handles_def)
  moreover have "fst ` set (in_flight_messages (after_dlq x e k ro q)) \<subseteq>
      fst ` set (in_flight_messages q) \<union> set (receive_handles x e k ro q)"
    by (auto simp: after_dlq_def queue_after_receive_def Let_def flight_of_def in_set_zip)
      (metis fst_conv set_zip_rightD)?
  ultimately show ?thesis
    using assms(3) unfolding fresh_handles_def by blast
qed

section \<open>Delivery\<close>

text \<open>
  C1. A receive delivers, in queue order, the first visible messages of the queue (the
  available ones followed by the expired in-flight ones), at most ten and as many as asked
  for, each with its receive count increased by one, except those whose count then exceeds
  the dead letter limit.
\<close>

theorem receive_delivers:
  assumes "receipt_codecs_ok x" and "receipt_secret x \<noteq> None" and "mem_wf s"
    and "map_of (queues s) k = Some q" and "fresh_handles x e k q"
    and "receive_messages x e k ro s = (Inr rs, s1)"
  shows "map rm_message rs =
      filter (\<lambda>m. \<not> should_dlq (qd_config q) m)
        (map (\<lambda>m. bump (sm_message m))
          (take (max 1 (min (unat (ro_max_messages ro)) 10))
            (filter (\<lambda>m. visible_at m \<le> now e 1) (deliverable (now e 1) q))))"
  unfolding received_messages(1) [OF assms] live_messages_def picked_def batch_limit_def ..

theorem receive_delivers_witness:
  "\<exists>rs s1. receive_messages sample_ext (sample_env 5) ''q'' default_receive_options
       (sample_mem SqsStandard None [sample_message ''a'', sample_message ''b'']) = (Inr rs, s1) \<and>
     map (\<lambda>r. (msg_id (rm_message r), receive_count (rm_message r))) rs = [(''a'', 1)]"
proof -
  define s where "s = sample_mem SqsStandard None [sample_message ''a'', sample_message ''b'']"
  obtain rs s1 where r: "receive_messages sample_ext (sample_env 5) ''q'' default_receive_options s = (Inr rs, s1)"
    unfolding s_def using receive_messages_eq [OF sample_codecs_ok sample_secret_set sample_wf sample_lookup sample_fresh] by blast
  have "map rm_message rs = [bump (sample_message ''a'')]"
    using receive_delivers [OF sample_codecs_ok sample_secret_set sample_wf sample_lookup sample_fresh r [unfolded s_def]]
    by (simp add: sample_defs deliverable_def default_receive_options_def should_dlq_def)
  then have "map (\<lambda>m. (msg_id m, receive_count m)) (map rm_message rs) = [(''a'', 1)]"
    by (simp add: bump_def sample_message_def)
  then show ?thesis using r by (auto simp: s_def o_def)
qed

text \<open>
  C2. A receive neither loses nor duplicates a message: the multiset of message identifiers
  held by the backend before it is the one held after it together with the messages moved to
  a dead letter queue that does not exist.
\<close>

theorem receive_conserves:
  assumes "receipt_codecs_ok x" and "receipt_secret x \<noteq> None" and "mem_wf s"
    and "map_of (queues s) k = Some q" and "fresh_handles x e k q"
  shows "all_ids (snd (receive_messages x e k ro s)) +
      move_ids (filter (\<lambda>(d, _). \<not> has_queue s d) (dlq_moves (now e 1) ro q)) = all_ids s"
  by (rule receive_state_ids [OF assms])

theorem receive_conserves_witness:
  "all_ids (snd (receive_messages sample_ext (sample_env 5) ''q'' default_receive_options
       (sample_mem SqsStandard None [sample_message ''a'', sample_message ''b'']))) = {# ''a'', ''b'' #}"
  using receive_conserves [OF sample_codecs_ok sample_secret_set sample_wf
      sample_lookup [of SqsStandard None "[sample_message ''a'', sample_message ''b'']"] sample_fresh [of 5],
      of default_receive_options]
  by (simp add: sample_defs dlq_moves_def dead_messages_def should_dlq_def dead_letter_def move_ids_def
      all_ids_def queue_ids_def available_ids_def in_flight_ids_def)

text \<open>
  Before a lease granted at the first receive has run out, the queue has to offer what was left, the
  dead letters that arrived, and the older leases that have expired since.
\<close>

lemma deliverable_within_lease:
  assumes "t' < now e 1 + seconds (int (unat (effective_timeout ro q)))"
  shows "deliverable t' (after_dlq x e k ro q) =
    remaining (now e 1) ro q @ dlq_arrivals (env_from 2 e) (now e 1) k (dlq_moves (now e 1) ro q) @
    map (requeued t') (filter (expired t') (filter (\<lambda>p. \<not> expired (now e 1) p) (in_flight_messages q)))"
proof -
  have "filter (expired t') (map2 (flight_of (now e 1) (effective_timeout ro q)) ms hs) = []" for ms hs
    using assms by (auto simp: filter_empty_conv flight_of_def expired_def)
  then show ?thesis
    by (simp add: deliverable_def after_dlq_def Let_def queue_after_receive_def del: filter_filter)
qed

text \<open>The identifiers that a receive does not deliver: those left, the dead letters and the older leases.\<close>

definition undelivered_ids :: "int \<Rightarrow> receive_options \<Rightarrow> queue_data \<Rightarrow> string multiset" where
  "undelivered_ids t ro q =
     mset (map (\<lambda>m. msg_id (sm_message m)) (remaining t ro q)) + mset (map msg_id (dead_messages t ro q)) +
     mset (map (\<lambda>(_, m). msg_id (if_message m)) (filter (\<lambda>p. \<not> expired t p) (in_flight_messages q)))"

lemma delivered_or_not: "queue_ids q = mset (map msg_id (live_messages t ro q)) + undelivered_ids t ro q"
  by (simp only: undelivered_ids_def deliverable_ids [of t q, symmetric] remaining_ids [of t ro q, symmetric]
      picked_ids [of t ro q, symmetric] ac_simps)

lemma offered_within_lease:
  assumes "a \<in> (\<lambda>m. msg_id (sm_message m)) ` set (deliverable t' (after_dlq x e k ro q))"
    and "t' < now e 1 + seconds (int (unat (effective_timeout ro q)))"
  shows "a \<in># undelivered_ids (now e 1) ro q"
proof -
  consider (left) "a \<in> (\<lambda>m. msg_id (sm_message m)) ` set (remaining (now e 1) ro q)"
    | (arrived) "a \<in> (\<lambda>m. msg_id (sm_message m)) ` set (dlq_arrivals (env_from 2 e) (now e 1) k (dlq_moves (now e 1) ro q))"
    | (held) "a \<in> (\<lambda>(_, m). msg_id (if_message m)) ` set (filter (\<lambda>p. \<not> expired (now e 1) p) (in_flight_messages q))"
    using assms(1) unfolding deliverable_within_lease [OF assms(2)] by (fastforce simp: requeued_def)
  then show ?thesis
  proof cases
    case arrived
    then show ?thesis using dlq_arrivals_ids [OF arrived] by (simp add: undelivered_ids_def move_ids_dlq_moves)
  qed (simp_all add: undelivered_ids_def)
qed

text \<open>
  C3. The visibility timeout: a second receive that starts before the timeout of a first one
  has elapsed delivers none of the messages the first one delivered.
\<close>

theorem no_redelivery_before_timeout:
  assumes "receipt_codecs_ok x" and "receipt_secret x \<noteq> None" and "mem_wf s"
    and "map_of (queues s) k = Some q" and "fresh_handles x e k q"
    and unique: "\<forall>a. count (queue_ids q) a \<le> 1"
    and first: "receive_messages x e k ro s = (Inr rs, s1)"
    and second: "receive_messages x e' k ro' s1 = (Inr rs', s2)"
    and fresh': "fresh_handles x e' k (after_dlq x e k ro q)"
    and early: "now e' 1 < now e 1 + seconds (int (unat (effective_timeout ro q)))"
  shows "msg_id ` rm_message ` set rs \<inter> msg_id ` rm_message ` set rs' = {}"
proof -
  define q1 where "q1 = after_dlq x e k ro q"
  have wf1: "mem_wf s1" using receive_messages_wf [OF assms(3), of x e k ro] first by simp
  have q1: "map_of (queues s1) k = Some q1"
    using lookup_after_receive [OF assms(1-5), of ro] first by (simp add: q1_def)
  have "set (map rm_message rs') = set (live_messages (now e' 1) ro' q1)"
    using received_messages(1) [OF assms(1,2) wf1 q1 fresh' [folded q1_def] second] by simp
  then have "msg_id ` rm_message ` set rs' \<subseteq> (\<lambda>m. msg_id (sm_message m)) ` set (deliverable (now e' 1) q1)"
    by (auto simp: live_messages_def picked_def dest!: in_set_takeD)
  then have again: "a \<in># undelivered_ids (now e 1) ro q" if "a \<in> msg_id ` rm_message ` set rs'" for a
    using offered_within_lease [OF _ early, of a x k] that by (auto simp: q1_def)
  have "rm_message ` set rs = set (live_messages (now e 1) ro q)"
    unfolding received_messages(1) [OF assms(1-5) first, symmetric] by simp
  then have before: "a \<in># mset (map msg_id (live_messages (now e 1) ro q))" if "a \<in> msg_id ` rm_message ` set rs" for a
    using that by simp
  show ?thesis
  proof (rule equals0I)
    fix a assume "a \<in> msg_id ` rm_message ` set rs \<inter> msg_id ` rm_message ` set rs'"
    then have "a \<in># mset (map msg_id (live_messages (now e 1) ro q))" and "a \<in># undelivered_ids (now e 1) ro q"
      using before again by blast+
    moreover have "count (queue_ids q) a \<le> 1" using unique by blast
    ultimately show False
      unfolding delivered_or_not [of q "now e 1" ro] count_union count_greater_zero_iff [symmetric] by linarith
  qed
qed

theorem no_redelivery_before_timeout_witness:
  "\<exists>rs s1 rs' s2.
     receive_messages sample_ext (sample_env 5) ''q'' default_receive_options
       (sample_mem SqsStandard None [sample_message ''a'', sample_message ''b'']) = (Inr rs, s1) \<and>
     receive_messages sample_ext (sample_env_b 6) ''q'' default_receive_options s1 = (Inr rs', s2) \<and>
     map (\<lambda>r. msg_id (rm_message r)) rs = [''a''] \<and> ''a'' \<notin> msg_id ` rm_message ` set rs'"
proof -
  define q where "q = sample_queue SqsStandard None [sample_message ''a'', sample_message ''b'']"
  define s where "s = sample_mem SqsStandard None [sample_message ''a'', sample_message ''b'']"
  have look: "map_of (queues s) ''q'' = Some q" by (simp add: s_def q_def sample_lookup)
  have wf: "mem_wf s" by (simp add: s_def sample_wf)
  have fresh: "fresh_handles sample_ext (sample_env 5) ''q'' q" by (simp add: q_def sample_fresh)
  note base = sample_codecs_ok sample_secret_set
  obtain rs s1 where r: "receive_messages sample_ext (sample_env 5) ''q'' default_receive_options s = (Inr rs, s1)"
    using receive_messages_eq [OF base wf look fresh] by blast
  have wf1: "mem_wf s1"
    using receive_messages_wf [OF wf, of sample_ext "sample_env 5" "''q''" default_receive_options] r by simp
  have look1: "map_of (queues s1) ''q'' = Some (after_dlq sample_ext (sample_env 5) ''q'' default_receive_options q)"
    using lookup_after_receive [OF base wf look fresh, of default_receive_options] r by simp
  have "show_nat i \<noteq> CHR ''b'' # show_nat j" for i j
    using digit_val_set_show_nat [of "CHR ''b''" i] by (auto simp: digit_val_def)
  then have fresh1: "fresh_handles sample_ext (sample_env_b 6) ''q''
      (after_dlq sample_ext (sample_env 5) ''q'' default_receive_options q)"
    by (intro fresh_after_dlq base)
      (auto simp: fresh_handles_def q_def sample_queue_def inj_uuid_b, auto simp: sample_env_b_def)
  obtain rs' s2 where r': "receive_messages sample_ext (sample_env_b 6) ''q'' default_receive_options s1 = (Inr rs', s2)"
    using receive_messages_eq [OF base wf1 look1 fresh1] by blast
  have "\<forall>a. count (queue_ids q) a \<le> 1"
    by (simp add: q_def sample_queue_def sample_message_def queue_ids_def available_ids_def in_flight_ids_def)
  moreover have "now (sample_env_b 6) 1 < now (sample_env 5) 1 + seconds (int (unat (effective_timeout default_receive_options q)))"
    by (simp add: q_def sample_queue_def sample_config_def effective_timeout_def default_receive_options_def
        seconds_def nanos_per_second_def)
  ultimately have disj: "msg_id ` rm_message ` set rs \<inter> msg_id ` rm_message ` set rs' = {}"
    by (rule no_redelivery_before_timeout [OF base wf look fresh _ r r' fresh1])
  have "map rm_message rs = live_messages 5 default_receive_options q"
    using received_messages(1) [OF base wf look fresh r] by simp
  also have "\<dots> = [bump (sample_message ''a'')]"
    by (simp add: q_def live_messages_def picked_def batch_limit_def sample_defs deliverable_def
        default_receive_options_def should_dlq_def)
  finally have "map msg_id (map rm_message rs) = [''a'']" by (simp add: sample_message_def)
  then have "map (\<lambda>r. msg_id (rm_message r)) rs = [''a'']" by (simp add: o_def)
  moreover from this have "''a'' \<in> set (map (\<lambda>r. msg_id (rm_message r)) rs)" by simp
  then have "''a'' \<in> msg_id ` rm_message ` set rs" unfolding image_image by simp
  moreover from this disj have "''a'' \<notin> msg_id ` rm_message ` set rs'" by blast
  ultimately show ?thesis using r r' unfolding s_def by (intro exI conjI)
qed

end
