(* ===== verification/Memory_Steps.thy ===== *)
theory Memory_Steps
  imports Memory_Claims
begin

text \<open>
  The in-memory backend as a state machine: one step for each state-changing method of the
  trait, and the invariants every reachable state has: well-formedness, at most one copy of
  every message identifier, and that the key of every in-flight entry is a handle the
  backend itself generated for that message of that queue.
\<close>

section \<open>Identifiers: no operation creates any but a send\<close>

lemma all_ids_set_queue_le:
  assumes "mem_wf s" and "map_of (queues s) k = Some q" and "queue_ids q' \<subseteq># queue_ids q + M"
  shows "all_ids (set_queue k q' s) \<subseteq># all_ids s + M"
proof -
  have "all_ids (set_queue k q' s) + queue_ids q \<subseteq># (all_ids s + M) + queue_ids q"
    unfolding all_ids_set_queue [OF assms(1,2)] using assms(3) by (simp add: add.assoc add.commute)
  then show ?thesis by (simp only: subset_mset.add_le_cancel_right)
qed

lemmas all_ids_shrink = all_ids_set_queue_le [where M = "{#}", unfolded add_0_right]

lemma send_locked_ids: "queue_ids (snd (send_message_locked x e q m)) \<subseteq># queue_ids q + {# msg_id m #}"
proof (rule send_locked_cases [of x e q m])
  fix q' m'
  assume "send_message_locked x e q m = (Inr m', store_message (now e 4) q' m')"
    and "available_messages q' = available_messages q" "in_flight_messages q' = in_flight_messages q"
    and "msg_id m' = msg_id m"
  then show ?thesis
    by (simp add: store_message_ids) (simp add: queue_ids_def available_ids_def in_flight_ids_def)
qed (simp_all add: queue_ids_def available_ids_def in_flight_ids_def)

lemma send_loop_ids: "queue_ids (snd (send_loop x e q ms sent)) \<subseteq># queue_ids q + mset (map msg_id ms)"
proof (induction ms arbitrary: e q sent)
  case (Cons m ms)
  obtain r q' where loc: "send_message_locked x e q m = (r, q')" by (cases "send_message_locked x e q m")
  have le: "queue_ids q' \<subseteq># queue_ids q + {# msg_id m #}"
    using send_locked_ids [of x e q m] loc by simp
  show ?case
  proof (cases r)
    case (Inl err)
    have "queue_ids q + {# msg_id m #} \<subseteq># queue_ids q + mset (map msg_id (m # ms))" by simp
    with le have "queue_ids q' \<subseteq># queue_ids q + mset (map msg_id (m # ms))"
      by (rule subset_mset.order_trans)
    then show ?thesis by (simp add: loc Inl)
  next
    case (Inr m')
    have "queue_ids (snd (send_loop x (env_from 5 e) q' ms (sent @ [m']))) \<subseteq># queue_ids q' + mset (map msg_id ms)"
      by (rule Cons.IH)
    also have "\<dots> \<subseteq># (queue_ids q + {# msg_id m #}) + mset (map msg_id ms)"
      using le by (rule subset_mset.add_right_mono)
    also have "\<dots> = queue_ids q + mset (map msg_id (m # ms))" by simp
    finally show ?thesis by (simp add: loc Inr)
  qed
qed simp

lemma evicted_then:
  assumes "mem_wf s" and "map_of (queues (snd (maybe_evict s))) k = Some q"
    and "queue_ids q' \<subseteq># queue_ids q + M"
  shows "all_ids (set_queue k q' (snd (maybe_evict s))) \<subseteq># all_ids s + M"
  using all_ids_set_queue_le [OF maybe_evict_wf [OF assms(1)] assms(2,3)] maybe_evict_ids [OF assms(1)]
  by (meson subset_mset.add_right_mono subset_mset.order_trans)

lemma evict_only: "mem_wf s \<Longrightarrow> all_ids (snd (maybe_evict s)) \<subseteq># all_ids s + M"
  using maybe_evict_ids [of s] by (meson mset_subset_eq_add_left subset_mset.order_trans)

text \<open>A send ends in the state the eviction left, or in that state with the queue changed.\<close>

lemma send_message_states:
  obtains (evicted) "snd (send_message x e k m s) = snd (maybe_evict s)"
  | (sent) q where "map_of (queues (snd (maybe_evict s))) k = Some q"
      "send_message x e k m s = (fst (send_message_locked x e q m),
         set_queue k (snd (send_message_locked x e q m)) (snd (maybe_evict s)))"
proof (cases "maybe_evict s")
  case (Pair r s1)
  show ?thesis
    using that
    by (cases r; cases "map_of (queues s1) k") (simp_all add: send_message_unfold Pair case_prod_unfold)
qed

lemma send_messages_states:
  obtains (evicted) "snd (send_messages x e k ms s) = snd (maybe_evict s)"
  | (sent) q where "map_of (queues (snd (maybe_evict s))) k = Some q"
      "send_messages x e k ms s = (fst (send_loop x e q ms []),
         set_queue k (snd (send_loop x e q ms [])) (snd (maybe_evict s)))"
proof (cases "maybe_evict s")
  case (Pair r s1)
  show ?thesis
    using that
    by (cases r; cases "map_of (queues s1) k") (simp_all add: send_messages_unfold Pair case_prod_unfold)
qed

lemma push_message_ids:
  assumes "mem_wf s"
  shows "all_ids (snd (push_message x e k m s)) \<subseteq># all_ids s + {# msg_id m #}"
  using all_ids_set_queue_le [OF assms _ send_locked_ids]
  by (auto simp: push_message_def split_beta split: option.split)

lemma push_messages_ids:
  assumes "mem_wf s"
  shows "all_ids (snd (push_messages x e k ms s)) \<subseteq># all_ids s + mset (map msg_id ms)"
  using all_ids_set_queue_le [OF assms _ send_loop_ids]
  by (auto simp: push_messages_def split_beta split: option.split)

lemma send_message_ids:
  assumes "mem_wf s"
  shows "all_ids (snd (send_message x e k m s)) \<subseteq># all_ids s + {# msg_id m #}"
proof (rule send_message_states [of x e k m s])
  assume "snd (send_message x e k m s) = snd (maybe_evict s)"
  then show ?thesis using evict_only [OF assms] by (simp only:)
qed (use evicted_then [OF assms _ send_locked_ids] in simp)

lemma send_messages_ids:
  assumes "mem_wf s"
  shows "all_ids (snd (send_messages x e k ms s)) \<subseteq># all_ids s + mset (map msg_id ms)"
proof (rule send_messages_states [of x e k ms s])
  assume "snd (send_messages x e k ms s) = snd (maybe_evict s)"
  then show ?thesis using evict_only [OF assms] by (simp only:)
qed (use evicted_then [OF assms _ send_loop_ids] in simp)

lemma create_queue_ids: "all_ids (snd (create_queue e c s)) = all_ids s"
  by (simp add: create_queue_def all_ids_def set_queue_def sum_vals_update_new queue_ids_def
      available_ids_def in_flight_ids_def)

lemma delete_queue_ids: "mem_wf s \<Longrightarrow> all_ids (snd (delete_queue k s)) \<subseteq># all_ids s"
  using sum_vals_delete [OF mem_wf_distinct, of s k _ queue_ids]
  by (auto simp: delete_queue_def all_ids_def split: option.split) (metis mset_subset_eq_add_left)

lemma update_queue_ids: "mem_wf s \<Longrightarrow> all_ids (snd (update_queue c s)) \<subseteq># all_ids s"
  by (auto simp: update_queue_def split: option.split intro!: all_ids_shrink)
    (simp add: queue_ids_def available_ids_def in_flight_ids_def)

lemma delete_in_flight_ids:
  "queue_ids (q\<lparr>in_flight_messages := AList.delete h (in_flight_messages q)\<rparr>) \<subseteq># queue_ids q"
  by (simp add: queue_ids_def available_ids_def in_flight_ids_def AList.delete_eq
      image_mset_subseteq_mono multiset_filter_subset)

lemma update_in_flight_ids:
  "mset (map (\<lambda>(_, m). msg_id (if_message m)) (AList.update h p al))
     \<subseteq># mset (map (\<lambda>(_, m). msg_id (if_message m)) al) + {# msg_id (if_message p) #}"
  by (induction al) (auto simp: add_mset_commute)

lemma delete_message_ids: "mem_wf s \<Longrightarrow> all_ids (snd (delete_message x k h s)) \<subseteq># all_ids s"
  by (auto simp: delete_message_def split: sum.split option.split
      intro!: all_ids_shrink delete_in_flight_ids)

lemma purge_queue_ids: "mem_wf s \<Longrightarrow> all_ids (snd (purge_queue k s)) \<subseteq># all_ids s"
  by (auto simp: purge_queue_def split: option.split intro!: all_ids_shrink)
    (simp add: queue_ids_def available_ids_def in_flight_ids_def)

lemma update_same_ids:
  "map_of al h = Some p \<Longrightarrow> msg_id (if_message p') = msg_id (if_message p) \<Longrightarrow>
     map (\<lambda>(_, m). msg_id (if_message m)) (AList.update h p' al) = map (\<lambda>(_, m). msg_id (if_message m)) al"
  by (induction al) (auto split: if_splits)

lemma change_visibility_ids:
  assumes "mem_wf s"
  shows "all_ids (snd (change_visibility x e k h vt s)) \<subseteq># all_ids s"
proof (cases "snd (change_visibility x e k h vt s) = s")
  case False
  then obtain q p where q: "map_of (queues s) k = Some q" "map_of (in_flight_messages q) h = Some p"
    and s': "snd (change_visibility x e k h vt s) = set_queue k (q\<lparr>in_flight_messages :=
        AList.update h (p\<lparr>visibility_expires_at := now e 0 + seconds (int (unat vt))\<rparr>) (in_flight_messages q)\<rparr>) s"
    by (auto simp: change_visibility_def split: sum.splits option.splits if_splits)
  show ?thesis
    unfolding s' by (rule all_ids_shrink [OF assms q(1)])
      (simp add: queue_ids_def available_ids_def in_flight_ids_def update_same_ids [OF q(2)])
qed simp

lemma return_expired_ids:
  "distinct (map fst (in_flight_messages q)) \<Longrightarrow> queue_ids (fst (return_expired t q)) = queue_ids q"
  using mset_partition [of "\<lambda>(_, m). msg_id (if_message m)" "expired t" "in_flight_messages q"]
  by (simp add: return_expired_eq queue_ids_def available_ids_def in_flight_ids_def requeued_def
      case_prod_unfold o_def add.assoc)

lemma process_expired_ids:
  "mem_wf s \<Longrightarrow> all_ids (snd (process_expired_visibility e k s)) \<subseteq># all_ids s"
  by (auto simp: process_expired_visibility_def case_prod_unfold split: option.split
      intro!: all_ids_shrink) (simp add: return_expired_ids mem_wf_in_flight)

lemma mset_remove_at:
  assumes "i < length xs"
  shows "mset xs = add_mset (xs ! i) (mset (remove_at i xs))"
proof -
  have "mset xs = mset (take i xs @ xs ! i # drop (Suc i) xs)"
    by (simp only: id_take_nth_drop [OF assms, symmetric])
  then show ?thesis by (simp add: remove_at_def)
qed

lemma remove_at_ids:
  assumes "i < length (available_messages q)"
  shows "queue_ids q = add_mset (msg_id (sm_message (available_messages q ! i)))
       (queue_ids (q\<lparr>available_messages := remove_at i (available_messages q)\<rparr>))"
  by (simp add: queue_ids_def available_ids_def in_flight_ids_def mset_remove_at [OF assms])

lemma in_flight_insert_ids:
  "queue_ids (q\<lparr>in_flight_messages := AList.update h p (in_flight_messages q)\<rparr>)
     \<subseteq># add_mset (msg_id (if_message p)) (queue_ids q)"
  using update_in_flight_ids [of h p "in_flight_messages q"]
  by (simp add: queue_ids_def available_ids_def in_flight_ids_def)

definition taken_ids :: "take_state \<Rightarrow> string multiset" where
  "taken_ids st = queue_ids (tk_queue st) + move_ids (tk_dlq st)"

text \<open>The four things one round of the removal loop can do.\<close>

definition taken_queue :: "take_state \<Rightarrow> nat \<Rightarrow> queue_data" where
  "taken_queue st i = (tk_queue st)\<lparr>available_messages := remove_at i (available_messages (tk_queue st))\<rparr>"

definition taken_message :: "take_state \<Rightarrow> nat \<Rightarrow> message" where
  "taken_message st i = bump (sm_message (available_messages (tk_queue st) ! i))"

lemma take_loop_cases:
  obtains (skip) "take_loop x e k vt t (i # idxs) st = take_loop x e k vt t idxs st"
  | (dead) d :: dlq_target where "i < length (available_messages (tk_queue st))"
      "take_loop x e k vt t (i # idxs) st = take_loop x e k vt t idxs
         (st\<lparr>tk_queue := taken_queue st i, tk_dlq := tk_dlq st @ [(target_queue_id d, taken_message st i)]\<rparr>)"
  | (panic) "i < length (available_messages (tk_queue st))"
      "take_loop x e k vt t (i # idxs) st = (st\<lparr>tk_queue := taken_queue st i\<rparr>, True)"
  | (live) h p where "i < length (available_messages (tk_queue st))"
      "generate_receipt_handle x (uuid e 0) k (msg_id (if_message p)) = Some h"
      "if_message p = taken_message st i"
      "take_loop x e k vt t (i # idxs) st = take_loop x (env_from 1 e) k vt t idxs
         (st\<lparr>tk_queue := (taken_queue st i)\<lparr>in_flight_messages := AList.update h p (in_flight_messages (tk_queue st))\<rparr>,
              tk_received := tk_received st @ [\<lparr> rm_message = taken_message st i, receipt_handle = h \<rparr>]\<rparr>)"
proof -
  let ?q = "tk_queue st"
  let ?m = "taken_message st i"
  show ?thesis
  proof (cases "i < length (available_messages ?q)")
    case True
    show ?thesis
    proof (cases "should_dlq (qd_config ?q) ?m")
      case dlq: True
      then obtain d where "dlq_config (qd_config ?q) = Some d"
        by (auto simp: should_dlq_def split: option.splits)
      then show ?thesis
        using True dlq dead [of d]
        by (simp add: taken_message_def taken_queue_def bump_def Let_def)
    next
      case no_dlq: False
      show ?thesis
      proof (cases "generate_receipt_handle x (uuid e 0) k (msg_id ?m)")
        case None
        then show ?thesis
          using True no_dlq panic by (simp add: taken_message_def taken_queue_def bump_def Let_def)
      next
        case (Some h)
        then show ?thesis
          using True no_dlq
            live [of "\<lparr> if_message = ?m, visibility_expires_at = t + seconds (int (unat vt)) \<rparr>" h]
          by (simp add: taken_message_def taken_queue_def bump_def Let_def)
      qed
    qed
  qed (use skip in simp)
qed

lemma taken_queue_ids:
  "i < length (available_messages (tk_queue st)) \<Longrightarrow>
     queue_ids (tk_queue st) = add_mset (msg_id (taken_message st i)) (queue_ids (taken_queue st i))"
  by (simp add: taken_message_def taken_queue_def remove_at_ids)

lemma take_loop_ids: "taken_ids (fst (take_loop x e k vt t idxs st)) \<subseteq># taken_ids st"
proof (induction idxs arbitrary: st e)
  case (Cons i idxs)
  show ?case
  proof (rule take_loop_cases [of x e k vt t i idxs st])
    fix d :: dlq_target
    assume "i < length (available_messages (tk_queue st))"
      and step: "take_loop x e k vt t (i # idxs) st = take_loop x e k vt t idxs
        (st\<lparr>tk_queue := taken_queue st i, tk_dlq := tk_dlq st @ [(target_queue_id d, taken_message st i)]\<rparr>)"
        (is "_ = take_loop x e k vt t idxs ?st1")
    then have "taken_ids ?st1 = taken_ids st"
      by (simp add: taken_ids_def taken_queue_ids move_ids_def)
    then show ?thesis using Cons.IH [of e ?st1] step by simp
  next
    fix h p
    assume i: "i < length (available_messages (tk_queue st))" and p: "if_message p = taken_message st i"
      and step: "take_loop x e k vt t (i # idxs) st = take_loop x (env_from 1 e) k vt t idxs
        (st\<lparr>tk_queue := (taken_queue st i)\<lparr>in_flight_messages := AList.update h p (in_flight_messages (tk_queue st))\<rparr>,
             tk_received := tk_received st @ [\<lparr> rm_message = taken_message st i, receipt_handle = h \<rparr>]\<rparr>)"
        (is "_ = take_loop x _ k vt t idxs ?st1")
    have "in_flight_messages (tk_queue st) = in_flight_messages (taken_queue st i)"
      by (simp add: taken_queue_def)
    then have "taken_ids ?st1 \<subseteq># taken_ids st"
      using in_flight_insert_ids [where q = "taken_queue st i" and h = h and p = p]
      by (simp add: taken_ids_def taken_queue_ids [OF i] p)
    then show ?thesis using Cons.IH [of "env_from 1 e" ?st1] step by (metis subset_mset.order_trans)
  qed (use Cons.IH [of e st] in \<open>simp_all add: taken_ids_def taken_queue_ids del: take_loop.simps\<close>)
qed simp

lemma all_ids_move:
  assumes "mem_wf s" and "map_of (queues s) k = Some q" and "queue_ids q' + D \<subseteq># queue_ids q"
  shows "all_ids (set_queue k q' s) + D \<subseteq># all_ids s"
proof -
  have "(all_ids (set_queue k q' s) + D) + queue_ids q = all_ids s + (queue_ids q' + D)"
    using all_ids_set_queue [OF assms(1,2), of q'] by (simp add: ac_simps)
  also have "\<dots> \<subseteq># all_ids s + queue_ids q" using assms(3) by simp
  finally show ?thesis by (simp only: subset_mset.add_le_cancel_right)
qed

lemma move_ids_filter: "move_ids (filter P moves) \<subseteq># move_ids moves"
  by (simp add: move_ids_def image_mset_subseteq_mono multiset_filter_subset)

definition take_start :: "env \<Rightarrow> queue_data \<Rightarrow> take_state" where
  "take_start e q = \<lparr> tk_queue = fst (return_expired (now e 1) (q\<lparr>last_access := now e 0\<rparr>)),
     tk_dlq = [], tk_received = [] \<rparr>"

lemma receive_messages_states:
  assumes "map_of (queues s) k = Some q"
  obtains st panicked vt idxs where
    "take_loop x e k vt (now e 1) idxs (take_start e q) = (st, panicked)"
    "receive_messages x e k ro s =
       (if panicked then (Inl secret_unset, set_queue k (tk_queue st) s)
        else (Inr (rev (tk_received st)),
              dlq_loop (env_from 2 e) (now e 1) (tk_dlq st) (set_queue k (tk_queue st) s)))"
proof -
  obtain vt idxs where res: "receive_messages x e k ro s =
      (case take_loop x e k vt (now e 1) idxs (take_start e q) of
            (st, panicked) \<Rightarrow>
              (let s1 = set_queue k (tk_queue st) s in
               if panicked then (Inl secret_unset, s1)
               else (Inr (rev (tk_received st)), dlq_loop (env_from 2 e) (now e 1) (tk_dlq st) s1)))"
    by (rule that) (simp only: receive_messages_def assms Let_def take_start_def option.case)
  obtain st panicked where "take_loop x e k vt (now e 1) idxs (take_start e q) = (st, panicked)"
    by (cases "take_loop x e k vt (now e 1) idxs (take_start e q)")
  then show ?thesis using that res by simp
qed

lemma take_start_ids:
  "queue_wf k q \<Longrightarrow> taken_ids (take_start e q) = queue_ids q"
  unfolding taken_ids_def take_start_def
  by (simp add: return_expired_ids queue_wf_def move_ids_def)
    (simp add: queue_ids_def available_ids_def in_flight_ids_def)

lemma take_start_wf: "queue_wf k q \<Longrightarrow> queue_wf k (tk_queue (take_start e q))"
  unfolding take_start_def take_state.select_convs
  by (rule return_expired_wf) (simp add: queue_wf_def)

lemma receive_messages_ids:
  assumes "mem_wf s"
  shows "all_ids (snd (receive_messages x e k ro s)) \<subseteq># all_ids s"
proof (cases "map_of (queues s) k")
  case (Some q)
  obtain st panicked vt idxs where
    loc: "take_loop x e k vt (now e 1) idxs (take_start e q) = (st, panicked)"
    and res: "receive_messages x e k ro s =
       (if panicked then (Inl secret_unset, set_queue k (tk_queue st) s)
        else (Inr (rev (tk_received st)),
              dlq_loop (env_from 2 e) (now e 1) (tk_dlq st) (set_queue k (tk_queue st) s)))"
    by (rule receive_messages_states [OF Some])
  have wfq: "queue_wf k q" by (rule mem_wf_lookup [OF assms Some])
  have le: "queue_ids (tk_queue st) + move_ids (tk_dlq st) \<subseteq># queue_ids q"
    using take_loop_ids [of x e k vt "now e 1" idxs "take_start e q"]
    unfolding loc take_start_ids [OF wfq] by (simp add: taken_ids_def)
  have "queue_wf k (tk_queue st)"
    using take_loop_wf [OF take_start_wf [OF wfq], of x e k vt "now e 1" idxs e] unfolding loc by simp
  then have wf1: "mem_wf (set_queue k (tk_queue st) s)" by (rule mem_wf_set_queue [OF assms])
  have moved: "all_ids (set_queue k (tk_queue st) s) + move_ids (tk_dlq st) \<subseteq># all_ids s"
    by (rule all_ids_move [OF assms Some le])
  show ?thesis
  proof (cases panicked)
    case True
    then show ?thesis using moved by (simp add: res) (meson mset_subset_eq_add_left subset_mset.order_trans)
  next
    case False
    have "all_ids (snd (receive_messages x e k ro s)) \<subseteq># all_ids (set_queue k (tk_queue st) s) + move_ids (tk_dlq st)"
      using False by (simp add: res dlq_loop_ids [OF wf1] move_ids_filter)
    then show ?thesis using moved by (rule subset_mset.order_trans)
  qed
qed (simp add: receive_messages_def)

section \<open>Handles: every in-flight entry is keyed by a handle generated for its message\<close>

definition queue_sound :: "ext \<Rightarrow> string \<Rightarrow> queue_data \<Rightarrow> bool" where
  "queue_sound x k q =
     list_all (\<lambda>(h, p). \<exists>n. generate_receipt_handle x n k (msg_id (if_message p)) = Some h) (in_flight_messages q)"

definition handles_sound :: "ext \<Rightarrow> in_memory \<Rightarrow> bool" where
  "handles_sound x s = list_all (\<lambda>(k, q). queue_sound x k q) (queues s)"

lemma handles_sound_set_queue:
  "handles_sound x s \<Longrightarrow> queue_sound x k q \<Longrightarrow> handles_sound x (set_queue k q s)"
  using set_alist_update [of k q "queues s"]
  by (fastforce simp: handles_sound_def set_queue_def list_all_iff)

lemma handles_sound_lookup:
  "handles_sound x s \<Longrightarrow> map_of (queues s) k = Some q \<Longrightarrow> queue_sound x k q"
  by (auto simp: handles_sound_def list_all_iff dest: map_of_SomeD)

lemma queue_sound_fields:
  "in_flight_messages q' = in_flight_messages q \<Longrightarrow> queue_sound x k q' = queue_sound x k q"
  by (simp add: queue_sound_def)

lemma queue_sound_sub:
  "queue_sound x k q \<Longrightarrow> set (in_flight_messages q') \<subseteq> set (in_flight_messages q) \<Longrightarrow> queue_sound x k q'"
  by (auto simp: queue_sound_def list_all_iff)

lemma queue_sound_insert:
  assumes "queue_sound x k q" and "generate_receipt_handle x n k (msg_id (if_message p)) = Some h"
    and "in_flight_messages q' = AList.update h p (in_flight_messages q)"
  shows "queue_sound x k q'"
  using assms set_alist_update [of h p "in_flight_messages q"]
  by (fastforce simp: queue_sound_def list_all_iff)

lemma take_loop_sound:
  "queue_sound x k (tk_queue st) \<Longrightarrow> queue_sound x k (tk_queue (fst (take_loop x e k vt t idxs st)))"
proof (induction idxs arbitrary: st e)
  case (Cons i idxs)
  have taken: "queue_sound x k (taken_queue st i)"
    using Cons.prems by (simp add: queue_sound_def taken_queue_def)
  show ?case
  proof (rule take_loop_cases [of x e k vt t i idxs st])
    fix h p
    assume gen: "generate_receipt_handle x (uuid e 0) k (msg_id (if_message p)) = Some h"
      and step: "take_loop x e k vt t (i # idxs) st = take_loop x (env_from 1 e) k vt t idxs
        (st\<lparr>tk_queue := (taken_queue st i)\<lparr>in_flight_messages := AList.update h p (in_flight_messages (tk_queue st))\<rparr>,
             tk_received := tk_received st @ [\<lparr> rm_message = taken_message st i, receipt_handle = h \<rparr>]\<rparr>)"
    have "queue_sound x k ((taken_queue st i)\<lparr>in_flight_messages := AList.update h p (in_flight_messages (tk_queue st))\<rparr>)"
      by (rule queue_sound_insert [OF Cons.prems gen]) simp
    then show ?thesis using Cons.IH step by simp
  qed (use Cons taken in \<open>simp_all del: take_loop.simps\<close>)
qed simp

lemma dlq_loop_sound: "handles_sound x s \<Longrightarrow> handles_sound x (dlq_loop e t moves s)"
proof (induction moves arbitrary: s e)
  case (Cons p moves)
  obtain k m where p: "p = (k, m)" by (cases p)
  show ?case
  proof (cases "map_of (queues s) k")
    case (Some q)
    have "queue_sound x k (q\<lparr>available_messages := av\<rparr>)" for av
      using handles_sound_lookup [OF Cons.prems Some] by (simp add: queue_sound_def)
    then show ?thesis
      using Cons.IH [OF handles_sound_set_queue [OF Cons.prems]] by (simp add: p Some)
  qed (use Cons p in simp)
qed simp

lemma receive_messages_sound:
  assumes "mem_wf s" and "handles_sound x s"
  shows "handles_sound x (snd (receive_messages x e k ro s))"
proof (cases "map_of (queues s) k")
  case (Some q)
  obtain st panicked vt idxs where
    loc: "take_loop x e k vt (now e 1) idxs (take_start e q) = (st, panicked)"
    and res: "receive_messages x e k ro s =
       (if panicked then (Inl secret_unset, set_queue k (tk_queue st) s)
        else (Inr (rev (tk_received st)),
              dlq_loop (env_from 2 e) (now e 1) (tk_dlq st) (set_queue k (tk_queue st) s)))"
    by (rule receive_messages_states [OF Some])
  have "queue_sound x k (tk_queue (take_start e q))"
    using handles_sound_lookup [OF assms(2) Some] mem_wf_in_flight [OF assms(1) Some]
    by (auto simp: take_start_def return_expired_eq queue_sound_def list_all_iff)
  then have "queue_sound x k (tk_queue st)"
    using take_loop_sound [of x k "take_start e q" e vt "now e 1" idxs] unfolding loc by simp
  then show ?thesis
    using handles_sound_set_queue [OF assms(2)] dlq_loop_sound by (simp add: res)
qed (simp add: receive_messages_def assms)

lemma handles_sound_evict_section: "handles_sound x s \<Longrightarrow> handles_sound x (snd (evict_section s))"
proof (rule evict_section_cases [of s])
  fix k q m ms
  assume s: "handles_sound x s" and pop: "evict_section s = (Inr (), pop_front_of k s)"
  show ?thesis
  proof (rule pop_front_of_cases [of k s])
    fix q m ms
    assume q: "map_of (queues s) k = Some q"
      and "pop_front_of k s = set_queue k (q\<lparr>available_messages := ms\<rparr>) s"
    moreover have "queue_sound x k (q\<lparr>available_messages := ms\<rparr>)"
      using handles_sound_lookup [OF s q] by (simp add: queue_sound_def)
    ultimately show ?thesis using handles_sound_set_queue [OF s] pop by simp
  qed (use s pop in simp)
qed simp_all

lemma handles_sound_evict: "handles_sound x s \<Longrightarrow> handles_sound x (snd (maybe_evict s))"
  by (simp add: maybe_evict_def handles_sound_evict_section)

lemma send_locked_sound: "queue_sound x k q \<Longrightarrow> queue_sound x k (snd (send_message_locked x e q m))"
  by (rule send_locked_cases [of x e q m]) (simp_all add: queue_sound_def)

lemma send_loop_sound: "queue_sound x k q \<Longrightarrow> queue_sound x k (snd (send_loop x e q ms sent))"
proof (induction ms arbitrary: e q sent)
  case (Cons m ms)
  have "queue_sound x k (snd (send_message_locked x e q m))"
    using Cons.prems by (rule send_locked_sound)
  then show ?case using Cons.IH by (auto split: prod.split sum.split)
qed simp

lemma push_message_sound: "handles_sound x s \<Longrightarrow> handles_sound x (snd (push_message x e k m s))"
  by (auto simp: push_message_def split_beta split: option.split
      intro!: handles_sound_set_queue send_locked_sound dest: handles_sound_lookup)

lemma push_messages_sound: "handles_sound x s \<Longrightarrow> handles_sound x (snd (push_messages x e k ms s))"
  by (auto simp: push_messages_def split_beta split: option.split
      intro!: handles_sound_set_queue send_loop_sound dest: handles_sound_lookup)

lemma send_message_sound: "handles_sound x s \<Longrightarrow> handles_sound x (snd (send_message x e k m s))"
  by (rule send_message_states [of x e k m s])
    (auto intro!: handles_sound_set_queue send_locked_sound dest: handles_sound_evict handles_sound_lookup)

lemma send_messages_sound: "handles_sound x s \<Longrightarrow> handles_sound x (snd (send_messages x e k ms s))"
  by (rule send_messages_states [of x e k ms s])
    (auto intro!: handles_sound_set_queue send_loop_sound dest: handles_sound_evict handles_sound_lookup)

lemma create_queue_sound: "handles_sound x s \<Longrightarrow> handles_sound x (snd (create_queue e c s))"
  by (auto simp: create_queue_def intro!: handles_sound_set_queue) (simp add: queue_sound_def)

lemma update_queue_sound:
  assumes "handles_sound x s"
  shows "handles_sound x (snd (update_queue c s))"
proof (cases "map_of (queues s) (qc_id c)")
  case (Some q)
  have "queue_sound x (qc_id c) (q\<lparr>qd_config := c\<rparr>)"
    using handles_sound_lookup [OF assms Some] by (simp add: queue_sound_def)
  then show ?thesis using handles_sound_set_queue [OF assms] by (simp add: update_queue_def Some)
qed (simp add: update_queue_def assms)

lemma delete_queue_sound: "handles_sound x s \<Longrightarrow> handles_sound x (snd (delete_queue k s))"
  by (auto simp: delete_queue_def handles_sound_def intro: list_all_delete split: option.split)

lemma delete_message_sound:
  assumes "handles_sound x s"
  shows "handles_sound x (snd (delete_message x k h s))"
proof (cases "map_of (queues s) k")
  case (Some q)
  have "queue_sound x k (q\<lparr>in_flight_messages := AList.delete h (in_flight_messages q)\<rparr>)"
    using handles_sound_lookup [OF assms Some] by (rule queue_sound_sub) (simp add: set_alist_delete)
  then show ?thesis
    using handles_sound_set_queue [OF assms] assms
    by (simp add: delete_message_def Some split: sum.split option.split)
qed (simp add: delete_message_def assms split: sum.split)

lemma change_visibility_sound:
  assumes "handles_sound x s"
  shows "handles_sound x (snd (change_visibility x e k h vt s))"
proof (cases "snd (change_visibility x e k h vt s) = s")
  case False
  then obtain q p where q: "map_of (queues s) k = Some q" "map_of (in_flight_messages q) h = Some p"
    and s': "snd (change_visibility x e k h vt s) = set_queue k (q\<lparr>in_flight_messages :=
        AList.update h (p\<lparr>visibility_expires_at := now e 0 + seconds (int (unat vt))\<rparr>) (in_flight_messages q)\<rparr>) s"
    by (auto simp: change_visibility_def split: sum.splits option.splits if_splits)
  have sound: "queue_sound x k q" by (rule handles_sound_lookup [OF assms q(1)])
  then obtain n where "generate_receipt_handle x n k (msg_id (if_message p)) = Some h"
    using map_of_SomeD [OF q(2)] by (fastforce simp: queue_sound_def list_all_iff)
  then show ?thesis
    unfolding s' by (intro handles_sound_set_queue [OF assms] queue_sound_insert [OF sound]) simp_all
qed (simp add: assms)

lemma purge_queue_sound: "handles_sound x s \<Longrightarrow> handles_sound x (snd (purge_queue k s))"
  by (auto simp: purge_queue_def split: option.split intro!: handles_sound_set_queue)
    (simp add: queue_sound_def)

lemma process_expired_sound:
  assumes "mem_wf s" and "handles_sound x s"
  shows "handles_sound x (snd (process_expired_visibility e k s))"
proof (cases "map_of (queues s) k")
  case (Some q)
  have "queue_sound x k (fst (return_expired (now e 0) q))"
    using handles_sound_lookup [OF assms(2) Some] mem_wf_in_flight [OF assms(1) Some]
    by (auto simp: return_expired_eq queue_sound_def list_all_iff)
  then show ?thesis
    using handles_sound_set_queue [OF assms(2)]
    by (simp add: process_expired_visibility_def Some case_prod_unfold)
qed (simp add: process_expired_visibility_def assms)

section \<open>The state machine\<close>

text \<open>
  One step for each critical section that changes the state, with any readings of the clock and of the
  random generator.  A send is up to two steps, and another call may come between them: the eviction,
  which follows a count that may be out of date, and the push.  \<open>A\<close> holds the identifiers of the
  messages that a step is asked to store; they are any, as a publish stores copies of one message in
  several queues.
\<close>

inductive mem_step :: "ext \<Rightarrow> in_memory \<Rightarrow> string multiset \<Rightarrow> in_memory \<Rightarrow> bool" for x where
  step_evict: "mem_step x s {#} (snd (evict_section s))"
| step_push: "mem_step x s {# msg_id m #} (snd (push_message x e k m s))"
| step_push_batch: "mem_step x s (mset (map msg_id ms)) (snd (push_messages x e k ms s))"
| step_create_queue: "mem_step x s {#} (snd (create_queue e c s))"
| step_update_queue: "mem_step x s {#} (snd (update_queue c s))"
| step_delete_queue: "mem_step x s {#} (snd (delete_queue k s))"
| step_receive: "mem_step x s {#} (snd (receive_messages x e k ro s))"
| step_delete_message: "mem_step x s {#} (snd (delete_message x k h s))"
| step_change_visibility: "mem_step x s {#} (snd (change_visibility x e k h vt s))"
| step_purge: "mem_step x s {#} (snd (purge_queue k s))"
| step_expire: "mem_step x s {#} (snd (process_expired_visibility e k s))"
| step_create_subscription: "mem_step x s {#} (snd (create_subscription sc s))"
| step_delete_subscription: "mem_step x s {#} (snd (delete_subscription sid s))"

text \<open>\<open>B\<close> holds the identifiers of all messages that were to be stored so far.\<close>

inductive mem_reachable :: "ext \<Rightarrow> in_memory_config \<Rightarrow> string multiset \<Rightarrow> in_memory \<Rightarrow> bool" for x c where
  reach_init: "mem_reachable x c {#} (with_config c)"
| reach_step: "mem_reachable x c B s \<Longrightarrow> mem_step x s A s' \<Longrightarrow> mem_reachable x c (A + B) s'"

lemma reach_quiet: "mem_reachable x c B s \<Longrightarrow> mem_step x s {#} s' \<Longrightarrow> mem_reachable x c B s'"
  using reach_step [of x c B s "{#}" s'] by simp

text \<open>A call without interference is one or two of these steps.\<close>

lemma reach_evict: "mem_reachable x c B s \<Longrightarrow> mem_reachable x c B (snd (maybe_evict s))"
  by (simp add: maybe_evict_def reach_quiet [OF _ step_evict])

lemma reach_send:
  assumes "mem_reachable x c B s"
  shows "\<exists>B'. B' \<subseteq># add_mset (msg_id m) B \<and> mem_reachable x c B' (snd (send_message x e k m s))"
proof (cases "fst (maybe_evict s)")
  case (Inl err)
  then show ?thesis using reach_evict [OF assms]
    by (intro exI [of _ B]) (simp add: send_message_def split_beta subset_mset.less_imp_le)
next
  case (Inr u)
  have "mem_reachable x c ({# msg_id m #} + B) (snd (push_message x e k m (snd (maybe_evict s))))"
    by (rule reach_step [OF reach_evict [OF assms] step_push])
  with Inr show ?thesis
    by (intro exI [of _ "add_mset (msg_id m) B"]) (simp add: send_message_def split_beta)
qed

lemma mem_step_wf: "mem_step x s A s' \<Longrightarrow> mem_wf s \<Longrightarrow> mem_wf s'"
  by (induction rule: mem_step.induct) (auto intro: wf_intros)

lemma mem_step_sound: "mem_step x s A s' \<Longrightarrow> mem_wf s \<Longrightarrow> handles_sound x s \<Longrightarrow> handles_sound x s'"
proof (induction rule: mem_step.induct)
  case (step_create_subscription s sc)
  then show ?case by (simp add: create_subscription_def handles_sound_def)
next
  case (step_delete_subscription s sid)
  then show ?case by (simp add: delete_subscription_def handles_sound_def split: option.split)
qed (simp_all add: handles_sound_evict_section push_message_sound push_messages_sound create_queue_sound
    update_queue_sound delete_queue_sound receive_messages_sound delete_message_sound change_visibility_sound
    purge_queue_sound process_expired_sound)

lemma mem_step_ids: "mem_step x s A s' \<Longrightarrow> mem_wf s \<Longrightarrow> all_ids s' \<subseteq># all_ids s + A"
proof (induction rule: mem_step.induct)
  case (step_create_subscription s sc)
  then show ?case by (simp add: create_subscription_def all_ids_def)
next
  case (step_delete_subscription s sid)
  then show ?case by (simp add: delete_subscription_def all_ids_def split: option.split)
qed (simp_all add: evict_section_ids push_message_ids [simplified] push_messages_ids create_queue_ids update_queue_ids
    delete_queue_ids receive_messages_ids delete_message_ids change_visibility_ids purge_queue_ids
    process_expired_ids del: mset_map)

section \<open>What every reachable state satisfies\<close>

lemma mem_reachable_inv:
  "mem_reachable x c B s \<Longrightarrow> mem_wf s \<and> all_ids s \<subseteq># B \<and> handles_sound x s"
proof (induction rule: mem_reachable.induct)
  case reach_init
  show ?case by (simp add: with_config_wf) (simp add: with_config_def all_ids_def handles_sound_def)
next
  case (reach_step B s A s')
  have "all_ids s' \<subseteq># all_ids s + A" using mem_step_ids reach_step by blast
  also have "\<dots> \<subseteq># A + B" using reach_step.IH by (simp add: add.commute)
  finally show ?case using reach_step mem_step_wf mem_step_sound by blast
qed

text \<open>
  C4. Every state reached from the empty backend by any interleaving of the critical sections of its
  operations is well-formed, holds no identifier more often, over all queues and whether available or
  in flight, than messages with that identifier were handed to a send, and keys every in-flight entry
  by a receipt handle the backend generated for that message of that queue.
\<close>

theorem reachable_invariant:
  assumes "mem_reachable x c B s"
  shows "mem_wf s \<and> (\<forall>a. count (all_ids s) a \<le> count B a) \<and> handles_sound x s"
  using mem_reachable_inv [OF assms] by (simp add: mset_subset_eq_count)

text \<open>
  The identifiers the SQS front end draws are new when they are stored: then no identifier is held
  twice.
\<close>

definition ids_unique :: "in_memory \<Rightarrow> bool" where
  "ids_unique s \<longleftrightarrow> (\<forall>a. count (all_ids s) a \<le> 1)"

inductive fresh_reachable :: "ext \<Rightarrow> in_memory_config \<Rightarrow> string multiset \<Rightarrow> in_memory \<Rightarrow> bool" for x c where
  fresh_init: "fresh_reachable x c {#} (with_config c)"
| fresh_step: "fresh_reachable x c B s \<Longrightarrow> mem_step x s A s' \<Longrightarrow> (\<And>a. count A a \<le> 1) \<Longrightarrow>
    set_mset A \<inter> set_mset (all_ids s) = {} \<Longrightarrow> fresh_reachable x c (A + B) s'"

lemma fresh_reachable_unique: "fresh_reachable x c B s \<Longrightarrow> mem_reachable x c B s \<and> ids_unique s"
proof (induction rule: fresh_reachable.induct)
  case fresh_init
  show ?case by (simp add: reach_init) (simp add: with_config_def all_ids_def ids_unique_def)
next
  case (fresh_step B s A s')
  have "count (all_ids s') a \<le> 1" for a
  proof -
    have "mem_wf s" using fresh_step.IH mem_reachable_inv by blast
    from mset_subset_eq_count [OF mem_step_ids [OF fresh_step.hyps(2) this], of a]
    have "count (all_ids s') a \<le> count (all_ids s) a + count A a" by simp
    also have "\<dots> \<le> 1"
    proof (cases "a \<in># A")
      case True
      then have "count (all_ids s) a = 0" using fresh_step.hyps(4) by (auto simp: count_eq_zero_iff)
      then show ?thesis using fresh_step.hyps(3) [of a] by simp
    next
      case False
      then have "count A a = 0" by (simp add: count_eq_zero_iff)
      then show ?thesis using fresh_step.IH by (simp add: ids_unique_def)
    qed
    finally show ?thesis .
  qed
  then show ?case using fresh_step.IH reach_step [OF _ fresh_step.hyps(2)] by (simp add: ids_unique_def)
qed

lemma all_ids_init [simp]: "all_ids (with_config c) = {#}"
  by (simp add: with_config_def all_ids_def)

text \<open>Two copies of one message, as a publish to two subscriptions stores them.\<close>

lemma sample_reachable:
  "mem_reachable x default_in_memory_config {# ''a'', ''a'' #}
     (snd (push_message x (sample_env 8) ''r'' (sample_message ''a'')
       (snd (push_message x (sample_env 7) ''q'' (sample_message ''a'')
         (snd (create_queue (sample_env 6) (sample_config ''r'' PubSubTopic None)
           (snd (create_queue (sample_env 6) (sample_config ''q'' PubSubTopic None)
             (with_config default_in_memory_config)))))))))"
proof -
  note push = reach_step [OF _ step_push [where m = "sample_message ''a''"]]
  show ?thesis
    using push [OF push [OF reach_quiet [OF reach_quiet [OF reach_init step_create_queue] step_create_queue]]]
    by (simp add: sample_message_def [of "''a''"])
qed

theorem reachable_invariant_witness:
  "count (all_ids (snd (push_message sample_ext (sample_env 8) ''r'' (sample_message ''a'')
       (snd (push_message sample_ext (sample_env 7) ''q'' (sample_message ''a'')
         (snd (create_queue (sample_env 6) (sample_config ''r'' PubSubTopic None)
           (snd (create_queue (sample_env 6) (sample_config ''q'' PubSubTopic None)
             (with_config default_in_memory_config)))))))))) ''a'' \<le> 2"
  using reachable_invariant [OF sample_reachable, of sample_ext] by (auto dest: spec [where x = "''a''"])

section \<open>Acknowledging\<close>

lemma delete_message_hit:
  assumes "receipt_codecs_ok x" and "handles_sound x s"
    and "map_of (queues s) k = Some q" and "map_of (in_flight_messages q) h = Some p"
  shows "delete_message x k h s =
    (Inr (), set_queue k (q\<lparr>in_flight_messages := AList.delete h (in_flight_messages q)\<rparr>) s)"
proof -
  obtain n where "generate_receipt_handle x n k (msg_id (if_message p)) = Some h"
    using handles_sound_lookup [OF assms(2,3)] map_of_SomeD [OF assms(4)]
    by (fastforce simp: queue_sound_def list_all_iff)
  from generate_parse [OF assms(1) this] show ?thesis
    by (simp add: delete_message_def assms(3,4))
qed

lemma delete_entry_ids:
  assumes "distinct (map fst (in_flight_messages q))" and "map_of (in_flight_messages q) h = Some p"
  shows "queue_ids q = queue_ids (q\<lparr>in_flight_messages := AList.delete h (in_flight_messages q)\<rparr>)
    + {# msg_id (if_message p) #}"
proof -
  have "in_flight_ids r = sum_vals (\<lambda>m. {# msg_id (if_message m) #}) (in_flight_messages r)" for r :: queue_data
    by (simp add: in_flight_ids_def sum_vals_def) (induction "in_flight_messages r"; simp add: case_prod_unfold)
  then show ?thesis
    using sum_vals_delete [OF assms, of "\<lambda>m. {# msg_id (if_message m) #}"]
    by (simp add: queue_ids_def available_ids_def)
qed

text \<open>
  C5. Acknowledging in any reachable state: either the handle is the key of an in-flight
  message of that very queue, the deletion succeeds and removes exactly one identifier, the
  one the handle names; or the operation fails and the state is unchanged.
\<close>

theorem delete_message_effect:
  assumes "mem_reachable x c B s" and "receipt_codecs_ok x"
  shows "case delete_message x k h s of
      (Inl err, s') \<Rightarrow> s' = s \<and>
        (\<forall>q. map_of (queues s) k = Some q \<longrightarrow> map_of (in_flight_messages q) h = None)
    | (Inr _, s') \<Rightarrow> \<exists>n m. generate_receipt_handle x n k m = Some h \<and> all_ids s = add_mset m (all_ids s') \<and>
        (ids_unique s \<longrightarrow> m \<notin># all_ids s')"
proof (cases "\<exists>q p. map_of (queues s) k = Some q \<and> map_of (in_flight_messages q) h = Some p")
  case True
  then obtain q p where q: "map_of (queues s) k = Some q" and p: "map_of (in_flight_messages q) h = Some p" by blast
  have inv: "mem_wf s" "handles_sound x s"
    using mem_reachable_inv [OF assms(1)] by simp_all
  let ?q' = "q\<lparr>in_flight_messages := AList.delete h (in_flight_messages q)\<rparr>"
  have "all_ids s = all_ids (set_queue k ?q' s) + {# msg_id (if_message p) #}"
    using all_ids_set_queue_sub [OF inv(1) q delete_entry_ids [OF mem_wf_in_flight [OF inv(1) q] p]] .
  moreover from this have "ids_unique s \<longrightarrow> msg_id (if_message p) \<notin># all_ids (set_queue k ?q' s)"
    by (auto simp: ids_unique_def not_in_iff dest: spec [where x = "msg_id (if_message p)"])
  moreover obtain n where "generate_receipt_handle x n k (msg_id (if_message p)) = Some h"
    using handles_sound_lookup [OF inv(2) q] map_of_SomeD [OF p]
    by (fastforce simp: queue_sound_def list_all_iff)
  ultimately show ?thesis by (auto simp: delete_message_hit [OF assms(2) inv(2) q p])
next
  case False
  then have "map_of (queues s) k = Some q \<Longrightarrow> map_of (in_flight_messages q) h = None" for q
    by fastforce
  then show ?thesis
    by (auto simp: delete_message_def split: sum.splits option.splits)
qed

theorem delete_message_effect_witness:
  "case delete_message sample_ext ''q'' ''zz'' (with_config default_in_memory_config) of
      (Inl err, s') \<Rightarrow> s' = with_config default_in_memory_config | (Inr _, s') \<Rightarrow> False"
  using delete_message_effect [OF reach_init sample_codecs_ok, of default_in_memory_config "''q''" "''zz''"]
  by (auto simp: with_config_def all_ids_def split: prod.splits sum.splits)

lemma received_in_flight:
  assumes "receipt_codecs_ok x" and "receipt_secret x \<noteq> None" and "mem_wf s"
    and "map_of (queues s) k = Some q" and "fresh_handles x e k q"
    and "receive_messages x e k ro s = (Inr rs, s1)" and "r \<in> set rs"
  shows "map_of (in_flight_messages (after_dlq x e k ro q)) (receipt_handle r) =
    Some \<lparr> if_message = rm_message r,
           visibility_expires_at = now e 1 + seconds (int (unat (effective_timeout ro q))) \<rparr>"
proof -
  define t where "t = now e 1"
  define live where "live = rev (live_messages t ro q)"
  define hs where "hs = receive_handles x e k ro q"
  have len: "length live = length hs" by (simp add: live_def hs_def receive_handles_def t_def)
  have "queue_wf k q" by (rule mem_wf_lookup [OF assms(3,4)])
  then have wf: "queue_wf k (queue_after_receive x e k ro q)"
    by (rule queue_after_receive_wf [OF assms(1,2) _ assms(5)])
  have fl: "in_flight_messages (after_dlq x e k ro q) = in_flight_messages (queue_after_receive x e k ro q)"
    by (simp add: after_dlq_def Let_def)
  have rs: "rs = map2 received_of (rev live) (rev hs)"
    using receive_messages_eq [OF assms(1-5), of ro] assms(6) by (simp add: live_def hs_def t_def)
  have "r \<in> set (map2 received_of live hs)"
    using assms(7) unfolding rs map2_rev [OF len, symmetric] by simp
  then obtain m h where "(m, h) \<in> set (zip live hs)" and r: "r = received_of m h" by auto
  then have "flight_of t (effective_timeout ro q) m h \<in> set (in_flight_messages (queue_after_receive x e k ro q))"
    by (force simp: queue_after_receive_def live_def hs_def t_def)
  then show ?thesis
    using wf unfolding fl queue_wf_def by (simp add: r received_of_def flight_of_def t_def)
qed


text \<open>
  A received message can be acknowledged: deleting it with its handle right after the
  receive succeeds and removes that message, and a second deletion with the same handle is
  rejected.
\<close>

lemma receive_then_delete:
  assumes "receipt_codecs_ok x" and "receipt_secret x \<noteq> None" and "mem_wf s" and "handles_sound x s"
    and "map_of (queues s) k = Some q" and "fresh_handles x e k q"
    and "receive_messages x e k ro s = (Inr rs, s1)" and "r \<in> set rs"
  shows "\<exists>s2. delete_message x k (receipt_handle r) s1 = (Inr (), s2) \<and>
    all_ids s1 = add_mset (msg_id (rm_message r)) (all_ids s2) \<and>
    delete_message x k (receipt_handle r) s2 = (Inl InvalidReceiptHandle, s2)"
proof -
  define q1 where "q1 = after_dlq x e k ro q"
  define h where "h = receipt_handle r"
  define q2 where "q2 = q1\<lparr>in_flight_messages := AList.delete h (in_flight_messages q1)\<rparr>"
  have wf1: "mem_wf s1" and sound1: "handles_sound x s1"
    using receive_messages_wf [OF assms(3)] receive_messages_sound [OF assms(3,4)] assms(7)
    by (metis snd_conv)+
  have look1: "map_of (queues s1) k = Some q1"
    using lookup_after_receive [OF assms(1-3,5,6), of ro] assms(7) by (simp add: q1_def)
  have p: "map_of (in_flight_messages q1) h = Some \<lparr> if_message = rm_message r,
      visibility_expires_at = now e 1 + seconds (int (unat (effective_timeout ro q))) \<rparr>"
    unfolding q1_def h_def by (rule received_in_flight [OF assms(1-3,5-8)])
  have del: "delete_message x k h s1 = (Inr (), set_queue k q2 s1)"
    unfolding q2_def by (rule delete_message_hit [OF assms(1) sound1 look1 p])
  have "all_ids s1 = all_ids (set_queue k q2 s1) + {# msg_id (rm_message r) #}"
    using all_ids_set_queue_sub [OF wf1 look1 delete_entry_ids [OF mem_wf_in_flight [OF wf1 look1] p]]
    by (simp add: q2_def)
  moreover have "delete_message x k h (set_queue k q2 s1) = (Inl InvalidReceiptHandle, set_queue k q2 s1)"
  proof -
    obtain n m where "generate_receipt_handle x n k m = Some h"
      using handles_sound_lookup [OF sound1 look1] map_of_SomeD [OF p]
      by (fastforce simp: queue_sound_def list_all_iff)
    from generate_parse [OF assms(1) this] show ?thesis
      by (simp add: delete_message_def q2_def AList.delete_conv')
  qed
  ultimately show ?thesis using del by (auto simp: h_def)
qed

lemma receive_then_delete_sample:
  "\<exists>r s1 s2. receive_messages sample_ext (sample_env 5) ''q'' default_receive_options
       (sample_mem SqsStandard None [sample_message ''a'', sample_message ''b'']) = (Inr [r], s1) \<and>
     delete_message sample_ext ''q'' (receipt_handle r) s1 = (Inr (), s2) \<and>
     delete_message sample_ext ''q'' (receipt_handle r) s2 = (Inl InvalidReceiptHandle, s2)"
proof -
  define q where "q = sample_queue SqsStandard None [sample_message ''a'', sample_message ''b'']"
  define s where "s = sample_mem SqsStandard None [sample_message ''a'', sample_message ''b'']"
  have look: "map_of (queues s) ''q'' = Some q" by (simp add: s_def q_def sample_lookup)
  have wf: "mem_wf s" by (simp add: s_def sample_wf)
  have sound: "handles_sound sample_ext s"
    by (simp add: s_def sample_mem_def sample_queue_def handles_sound_def queue_sound_def)
  have fresh: "fresh_handles sample_ext (sample_env 5) ''q'' q" by (simp add: q_def sample_fresh)
  note base = sample_codecs_ok sample_secret_set
  obtain rs s1 where r: "receive_messages sample_ext (sample_env 5) ''q'' default_receive_options s = (Inr rs, s1)"
    using receive_messages_eq [OF base wf look fresh] by blast
  have "map rm_message rs = live_messages 5 default_receive_options q"
    using received_messages(1) [OF base wf look fresh r] by simp
  also have "\<dots> = [bump (sample_message ''a'')]"
    by (simp add: q_def live_messages_def picked_def batch_limit_def sample_defs deliverable_def
        default_receive_options_def should_dlq_def)
  finally obtain r1 where rs: "rs = [r1]" by auto
  have "\<exists>s2. delete_message sample_ext ''q'' (receipt_handle r1) s1 = (Inr (), s2) \<and>
      all_ids s1 = add_mset (msg_id (rm_message r1)) (all_ids s2) \<and>
      delete_message sample_ext ''q'' (receipt_handle r1) s2 = (Inl InvalidReceiptHandle, s2)"
    by (rule receive_then_delete [OF base wf sound look fresh r]) (simp add: rs)
  then show ?thesis using r rs s_def by metis
qed

end
