(* ===== verification/Memory_Sending.thy ===== *)
theory Memory_Sending
  imports Memory_Steps
begin

text \<open>
  Sending: the capacity bound, first-in first-out deduplication and sequence numbers, and
  what a receive does with expired leases and with dead letters.
\<close>

section \<open>Capacity\<close>

lemma total_message_count_le: "all_ids s' \<subseteq># M \<Longrightarrow> total_message_count s' \<le> size M"
  by (metis size_all_ids size_mset_mono)

text \<open>
  The capacity bound for one call at a time: a send keeps the number of stored messages within the configured
  maximum, if there is room, or the policy rejects, or some queue has an available message
  to evict.
\<close>

lemma send_keeps_capacity:
  assumes "mem_wf s" and "total_message_count s \<le> max_messages (mem_config s)"
    and "total_message_count s < max_messages (mem_config s) \<or> ev_policy (mem_config s) = RejectNew \<or>
      (\<exists>(k, q) \<in> set (queues s). available_messages q \<noteq> [])"
  shows "total_message_count (snd (send_message x e k m s)) \<le> max_messages (mem_config s)"
proof -
  have room: "total_message_count (snd (send_message x e k m s)) \<le> Suc (total_message_count (snd (maybe_evict s)))"
  proof (rule send_message_states [of x e k m s])
    fix q
    assume q: "map_of (queues (snd (maybe_evict s))) k = Some q"
      and sent: "send_message x e k m s = (fst (send_message_locked x e q m),
        set_queue k (snd (send_message_locked x e q m)) (snd (maybe_evict s)))"
    show ?thesis
      using total_message_count_le [OF all_ids_set_queue_le [OF maybe_evict_wf [OF assms(1)] q send_locked_ids]]
      by (simp add: sent size_all_ids)
  qed simp
  show ?thesis
  proof (rule maybe_evict_cases [of s])
    assume "ev_policy (mem_config s) = RejectNew"
      and "maybe_evict s = (Inl (StorageError ''Message storage is full, rejecting new messages''), s)"
    then show ?thesis using assms(2) by (simp add: send_message_unfold)
  next
    assume full: "max_messages (mem_config s) \<le> total_message_count s" and "maybe_evict s = (Inr (), s)"
      and "\<forall>(queue_id, q) \<in> set (queues s). available_messages q = []"
    moreover from this have "ev_policy (mem_config s) \<noteq> RejectNew" by (auto simp: maybe_evict_unfold)
    ultimately show ?thesis using assms(3) by fastforce
  next
    fix k' q m' ms
    assume mem: "(k', q) \<in> set (queues s)" and av: "available_messages q = m' # ms"
      and pop: "maybe_evict s = (Inr (), pop_front_of k' s)"
    have q: "map_of (queues s) k' = Some q" using mem map_of_in_set [OF mem_wf_distinct [OF assms(1)]] by simp
    have "queue_ids q = queue_ids (q\<lparr>available_messages := ms\<rparr>) + {# msg_id (sm_message m') #}"
      by (simp add: queue_ids_def available_ids_def in_flight_ids_def av)
    from all_ids_set_queue_sub [OF assms(1) q this]
    have "Suc (total_message_count (pop_front_of k' s)) = total_message_count s"
      by (simp add: pop_front_of_def q av flip: size_all_ids)
    then show ?thesis using room assms(2) pop by simp
  qed (use room in simp)
qed

lemma send_keeps_capacity_sample:
  "total_message_count (snd (send_message sample_ext (sample_env 3) ''q'' (sample_message ''c'')
     ((sample_mem SqsStandard None [sample_message ''a'', sample_message ''b''])
        \<lparr>mem_config := \<lparr> max_messages = 2, ev_policy = Lru \<rparr>\<rparr>))) \<le> 2"
proof -
  define s where "s = (sample_mem SqsStandard None [sample_message ''a'', sample_message ''b''])
        \<lparr>mem_config := \<lparr> max_messages = 2, ev_policy = Lru \<rparr>\<rparr>"
  have "mem_wf s" using sample_wf by (simp add: s_def mem_wf_def)
  moreover have "total_message_count s \<le> max_messages (mem_config s)"
    by (simp add: s_def sample_mem_def sample_queue_def total_message_count_def queue_message_count_def)
  moreover have "\<exists>(k, q) \<in> set (queues s). available_messages q \<noteq> []"
    by (simp add: s_def sample_mem_def sample_queue_def)
  ultimately show ?thesis
    using send_keeps_capacity [of s sample_ext "sample_env 3" "''q''" "sample_message ''c''"] by (simp add: s_def)
qed

section \<open>First-in first-out queues\<close>

text \<open>
  What a batch of sends on such a queue means, without its cache: \<open>seen\<close> are the identifiers of
  deduplication stored by the batch so far, \<open>cache\<close> is what the queue knew before it.  A message is a
  duplicate when its identifier is in \<open>seen\<close>, or in \<open>cache\<close> with a time less than five minutes before
  the reading at which the message is checked.  A duplicate is answered as it came and not stored;
  any other message gets the next sequence number, which is all that changes in it, and is stored.
\<close>

definition still_known :: "(string \<times> int) list \<Rightarrow> int \<Rightarrow> string \<Rightarrow> bool" where
  "still_known cache t d \<longleftrightarrow> (\<exists>ts. map_of cache d = Some ts \<and> t - dedup_window < ts)"

fun fifo_batch ::
    "ext \<Rightarrow> queue_config \<Rightarrow> (string \<times> int) list \<Rightarrow> env \<Rightarrow> string set \<Rightarrow> u64 \<Rightarrow> message list \<Rightarrow>
     (message \<times> stored_message option) list" where
  "fifo_batch x c cache e seen n [] = []"
| "fifo_batch x c cache e seen n (m # ms) =
     (let d = the (dedup_id_of x c m) in
      if d \<in> seen \<or> still_known cache (now e 1) d
      then (m, None) # fifo_batch x c cache (env_from 5 e) seen n ms
      else
       (let m' = m\<lparr>sequence_number := Some n\<rparr>;
            delay = (case msg_delay_seconds m of Some s \<Rightarrow> s | None \<Rightarrow> delay_seconds c)
        in (m', Some \<lparr> sm_message = m', visible_at = now e 4 + seconds (int (unat delay)) \<rparr>) #
           fifo_batch x c cache (env_from 5 e) (insert d seen) (n + 1) ms))"

definition batch_replies :: "(message \<times> stored_message option) list \<Rightarrow> message list" where
  "batch_replies = map fst"

definition batch_stored :: "(message \<times> stored_message option) list \<Rightarrow> stored_message list" where
  "batch_stored outcomes = List.map_filter snd outcomes"

lemma batch_simps [simp]:
  "batch_replies [] = []" "batch_replies (o1 # os) = fst o1 # batch_replies os"
  "batch_stored [] = []" "batch_stored ((m, None) # os) = batch_stored os"
  "batch_stored ((m, Some sm) # os) = sm # batch_stored os"
  by (simp_all add: batch_replies_def batch_stored_def List.map_filter_simps)

text \<open>The clock does not go back during the batch, and all its readings fall within five minutes of \<open>t\<close>.\<close>

definition steady_clock :: "int \<Rightarrow> env \<Rightarrow> bool" where
  "steady_clock t e \<longleftrightarrow> (\<forall>i j. i \<le> j \<longrightarrow> now e i \<le> now e j) \<and> (\<forall>i. t \<le> now e i \<and> now e i < t + dedup_window)"

lemma steady_clock_env_from: "steady_clock t e \<Longrightarrow> steady_clock t (env_from n e)"
  by (simp add: steady_clock_def)

text \<open>
  The cache of the queue during the batch: it holds what the batch has stored, and of the rest it
  has at most forgotten what was expired.
\<close>

definition entry_tracks :: "int \<Rightarrow> int \<Rightarrow> string set \<Rightarrow> (string \<times> int) list \<Rightarrow> string \<Rightarrow> int option \<Rightarrow> bool" where
  "entry_tracks t r seen cache d v \<longleftrightarrow>
     (if d \<in> seen then \<exists>ts. v = Some ts \<and> t \<le> ts
      else v = map_of cache d \<or> (v = None \<and> (\<forall>ts. map_of cache d = Some ts \<longrightarrow> ts \<le> r - dedup_window)))"

definition cache_tracks :: "int \<Rightarrow> int \<Rightarrow> string set \<Rightarrow> (string \<times> int) list \<Rightarrow> (string \<times> int) list \<Rightarrow> bool" where
  "cache_tracks t r seen cache cached \<longleftrightarrow>
     distinct (map fst cached) \<and> (\<forall>d. entry_tracks t r seen cache d (map_of cached d))"

lemma tracked_duplicate:
  assumes "cache_tracks t r seen cache (deduplication_cache q)" and "r \<le> r'" and "r' < t + dedup_window"
  shows "is_duplicate (r' - dedup_window) d q \<longleftrightarrow> d \<in> seen \<or> still_known cache r' d"
proof -
  have "entry_tracks t r seen cache d (map_of (deduplication_cache q) d)" using assms(1) by (simp add: cache_tracks_def)
  then show ?thesis
    using assms(2,3) unfolding entry_tracks_def is_duplicate_def still_known_def
    by (cases "d \<in> seen"; cases "map_of (deduplication_cache q) d"; cases "map_of cache d") auto
qed

lemma cache_tracks_later: "cache_tracks t r seen cache cached \<Longrightarrow> r \<le> r' \<Longrightarrow> cache_tracks t r' seen cache cached"
  unfolding cache_tracks_def entry_tracks_def by (smt (verit))

lemma cache_tracks_store:
  assumes "cache_tracks t r seen cache cached" and "t \<le> ts"
  shows "cache_tracks t r (insert d seen) cache (AList.update d ts cached)"
proof -
  have "entry_tracks t r (insert d seen) cache d' (map_of (AList.update d ts cached) d')" for d'
    using assms unfolding cache_tracks_def
    by (cases "d' = d") (auto simp: entry_tracks_def AList.update_conv' simp del: map_of_eq_Some_iff)
  then show ?thesis using assms(1) by (simp add: cache_tracks_def distinct_update)
qed

lemma map_of_filter_value:
  "distinct (map fst al) \<Longrightarrow> map_of (filter (\<lambda>(_, v). P v) al) k =
     (case map_of al k of None \<Rightarrow> None | Some v \<Rightarrow> if P v then Some v else None)"
  by (induction al) (auto split: option.splits if_splits simp: map_of_eq_None_iff)

lemma entry_tracks_filter:
  "entry_tracks t r seen cache d v \<Longrightarrow> r < t + dedup_window \<Longrightarrow>
     entry_tracks t r seen cache d (case v of None \<Rightarrow> None | Some u \<Rightarrow> if r - dedup_window < u then Some u else None)"
  by (auto simp: entry_tracks_def split: option.split)

lemma cache_tracks_cleanup:
  assumes "cache_tracks t r seen cache (deduplication_cache q)" and "r \<le> r'" and "r' < t + dedup_window"
  shows "cache_tracks t r' seen cache (deduplication_cache (cleanup_deduplication_cache_inline r' q))"
proof -
  have tracks: "cache_tracks t r' seen cache (deduplication_cache q)" by (rule cache_tracks_later [OF assms(1,2)])
  then have d: "distinct (map fst (deduplication_cache q))" by (simp add: cache_tracks_def)
  have "entry_tracks t r' seen cache d' (map_of (filter (\<lambda>(_, ts). r' - dedup_window < ts) (deduplication_cache q)) d')" for d'
  proof -
    have "entry_tracks t r' seen cache d' (map_of (deduplication_cache q) d')" using tracks by (simp add: cache_tracks_def)
    then show ?thesis
      unfolding map_of_filter_value [OF d, of "\<lambda>ts. r' - dedup_window < ts"] by (rule entry_tracks_filter [OF _ assms(3)])
  qed
  then have "cache_tracks t r' seen cache (filter (\<lambda>(_, ts). r' - dedup_window < ts) (deduplication_cache q))"
    using d by (simp add: cache_tracks_def distinct_keys_filter)
  then show ?thesis using tracks by (simp add: cleanup_deduplication_cache_inline_def Let_def)
qed

lemma dedup_id_of_sequence [simp]: "dedup_id_of x c (m\<lparr>sequence_number := n\<rparr>) = dedup_id_of x c m"
  by (simp add: dedup_id_of_def generate_content_dedup_id_def split: option.split)

lemma cleanup_fields [simp]:
  "available_messages (cleanup_deduplication_cache_inline t q) = available_messages q"
  "qd_config (cleanup_deduplication_cache_inline t q) = qd_config q"
  "next_sequence_number (cleanup_deduplication_cache_inline t q) = next_sequence_number q"
  by (simp_all add: cleanup_deduplication_cache_inline_def Let_def)

lemma send_loop_fifo:
  assumes "qc_type (qd_config q) = SqsFifo" and "steady_clock t e"
    and "cache_tracks t r seen cache (deduplication_cache q)" and "r \<le> now e 0"
    and "\<forall>m \<in> set ms. dedup_id_of x (qd_config q) m \<noteq> None"
  shows "\<exists>q'. send_loop x e q ms sent =
      (Inr (sent @ batch_replies (fifo_batch x (qd_config q) cache e seen (next_sequence_number q) ms)), q') \<and>
    available_messages q' =
      available_messages q @ batch_stored (fifo_batch x (qd_config q) cache e seen (next_sequence_number q) ms)"
  using assms
proof (induction ms arbitrary: q e sent seen r)
  case Nil
  then show ?case by simp
next
  case (Cons m ms)
  obtain d where d: "dedup_id_of x (qd_config q) m = Some d" using Cons.prems(5) by auto
  have clock: "now e i \<le> now e j" if "i \<le> j" for i j using Cons.prems(2) that by (simp add: steady_clock_def)
  have win: "t \<le> now e i" "now e i < t + dedup_window" for i using Cons.prems(2) by (simp_all add: steady_clock_def)
  have later: "r \<le> now e i" for i using Cons.prems(4) clock [of 0 i] by simp
  have dup: "is_duplicate (now e 1 - dedup_window) d (q\<lparr>last_access := now e 0\<rparr>) \<longleftrightarrow> d \<in> seen \<or> still_known cache (now e 1) d"
    by (rule tracked_duplicate [OF _ later win(2)]) (simp add: Cons.prems(3))
  have steady: "steady_clock t (env_from 5 e)" by (rule steady_clock_env_from [OF Cons.prems(2)])
  show ?case
  proof (cases "d \<in> seen \<or> still_known cache (now e 1) d")
    case True
    have "send_message_locked x e q m = (Inr m, q\<lparr>last_access := now e 0\<rparr>)"
      using Cons.prems(1) d dup True by (simp add: send_message_locked_def Let_def)
    moreover obtain q' where "send_loop x (env_from 5 e) (q\<lparr>last_access := now e 0\<rparr>) ms (sent @ [m]) =
        (Inr (sent @ m # batch_replies (fifo_batch x (qd_config q) cache (env_from 5 e) seen (next_sequence_number q) ms)), q')"
      "available_messages q' = available_messages q @
        batch_stored (fifo_batch x (qd_config q) cache (env_from 5 e) seen (next_sequence_number q) ms)"
      using Cons.IH [of "q\<lparr>last_access := now e 0\<rparr>" "env_from 5 e" r seen "sent @ [m]"] Cons.prems steady later by auto
    ultimately show ?thesis using True d by (simp add: Let_def)
  next
    case False
    define q1 where "q1 = q\<lparr>last_access := now e 0,
      deduplication_cache := AList.update d (now e 2) (deduplication_cache q),
      next_sequence_number := next_sequence_number q + 1\<rparr>"
    define m1 where "m1 = m\<lparr>sequence_number := Some (next_sequence_number q)\<rparr>"
    define q2 where "q2 = store_message (now e 4) (cleanup_deduplication_cache_inline (now e 3) q1) m1"
    have sent: "send_message_locked x e q m = (Inr m1, q2)"
      using Cons.prems(1) d dup False by (simp add: send_message_locked_def Let_def q2_def q1_def m1_def)
    have fields: "qd_config q2 = qd_config q" "next_sequence_number q2 = next_sequence_number q + 1"
      "available_messages q2 = available_messages q @ [\<lparr> sm_message = m1, visible_at = now e 4 +
         seconds (int (unat (case msg_delay_seconds m of Some s \<Rightarrow> s | None \<Rightarrow> delay_seconds (qd_config q)))) \<rparr>]"
      by (simp_all add: q2_def store_message_def q1_def m1_def Let_def split: option.split)
    have "cache_tracks t r (insert d seen) cache (deduplication_cache q1)"
      using cache_tracks_store [OF Cons.prems(3) win(1)] by (simp add: q1_def)
    from cache_tracks_cleanup [OF this later win(2), of 3]
    have tracks: "cache_tracks t (now e 3) (insert d seen) cache (deduplication_cache q2)"
      by (simp add: q2_def store_message_def Let_def)
    obtain q' where "send_loop x (env_from 5 e) q2 ms (sent @ [m1]) =
        (Inr (sent @ m1 # batch_replies (fifo_batch x (qd_config q) cache (env_from 5 e) (insert d seen) (next_sequence_number q + 1) ms)), q')"
      "available_messages q' = available_messages q2 @
        batch_stored (fifo_batch x (qd_config q) cache (env_from 5 e) (insert d seen) (next_sequence_number q + 1) ms)"
      using Cons.IH [of q2 "env_from 5 e" "now e 3" "insert d seen" "sent @ [m1]"] Cons.prems(1,5) steady tracks clock [of 3 5]
      by (auto simp: fields)
    then show ?thesis using False d by (simp add: Let_def sent fields m1_def)
  qed
qed

lemma alist_update_lookup: "map_of (queues (set_queue k q s)) k = Some q"
  by simp

text \<open>
  C7. Exactly-once sending on a first-in first-out queue: when no reading of the clock goes back and
  all fall within five minutes, a batch stores, in the order it was sent, the first message of each
  identifier of deduplication that the queue does not know any more, unchanged but for the next
  sequence number and visible after its delay; the reply holds every message in order, the stored
  ones with their numbers and the duplicates as they came.
\<close>

theorem fifo_send_exactly_once:
  assumes "mem_wf s" and "total_message_count s < max_messages (mem_config s)"
    and "map_of (queues s) k = Some q" and "qc_type (qd_config q) = SqsFifo" and "steady_clock t e"
    and "\<forall>m \<in> set ms. dedup_id_of x (qd_config q) m \<noteq> None"
  shows "\<exists>s' q'. send_messages x e k ms s =
      (Inr (batch_replies (fifo_batch x (qd_config q) (deduplication_cache q) e {} (next_sequence_number q) ms)), s') \<and>
    map_of (queues s') k = Some q' \<and>
    available_messages q' = available_messages q @
      batch_stored (fifo_batch x (qd_config q) (deduplication_cache q) e {} (next_sequence_number q) ms)"
proof -
  have "distinct (map fst (deduplication_cache q))"
    using mem_wf_lookup [OF assms(1,3)] by (simp add: queue_wf_def)
  then have "cache_tracks t (now e 0) {} (deduplication_cache q) (deduplication_cache q)"
    by (simp add: cache_tracks_def entry_tracks_def)
  from send_loop_fifo [OF assms(4,5) this order_refl assms(6), of "[]"] show ?thesis
    using assms(2,3) by (auto simp: send_messages_unfold maybe_evict_unfold)
qed

theorem fifo_send_exactly_once_witness:
  "\<exists>s' q'. send_messages sample_ext (sample_env 5) ''q''
       [(sample_message ''a'')\<lparr>deduplication_id := Some ''d''\<rparr>, (sample_message ''b'')\<lparr>deduplication_id := Some ''d''\<rparr>,
        (sample_message ''c'')\<lparr>deduplication_id := Some ''f''\<rparr>]
       (sample_mem SqsFifo None []) =
       (Inr [(sample_message ''a'')\<lparr>deduplication_id := Some ''d'', sequence_number := Some 0\<rparr>,
             (sample_message ''b'')\<lparr>deduplication_id := Some ''d''\<rparr>,
             (sample_message ''c'')\<lparr>deduplication_id := Some ''f'', sequence_number := Some 1\<rparr>], s') \<and>
     map_of (queues s') ''q'' = Some q' \<and> map (\<lambda>m. msg_id (sm_message m)) (available_messages q') = [''a'', ''c'']"
proof -
  define ms where "ms = [(sample_message ''a'')\<lparr>deduplication_id := Some ''d''\<rparr>,
    (sample_message ''b'')\<lparr>deduplication_id := Some ''d''\<rparr>, (sample_message ''c'')\<lparr>deduplication_id := Some ''f''\<rparr>]"
  define q where "q = sample_queue SqsFifo None []"
  have room: "total_message_count (sample_mem SqsFifo None []) < max_messages (mem_config (sample_mem SqsFifo None []))"
    by (simp add: sample_mem_def sample_queue_def total_message_count_def queue_message_count_def
        default_in_memory_config_def)
  have look: "map_of (queues (sample_mem SqsFifo None [])) ''q'' = Some q" by (simp add: q_def sample_lookup)
  have fifo: "qc_type (qd_config q) = SqsFifo" by (simp add: q_def sample_queue_def sample_config_def)
  have clock: "steady_clock 5 (sample_env 5)"
    by (simp add: steady_clock_def dedup_window_def minutes_def seconds_def nanos_per_second_def)
  have ids: "\<forall>m \<in> set ms. dedup_id_of sample_ext (qd_config q) m \<noteq> None"
    by (simp add: ms_def dedup_id_of_def)
  have numbers: "deduplication_cache q = []" "next_sequence_number q = 0" "available_messages q = []"
    by (simp_all add: q_def sample_queue_def)
  have batch: "fifo_batch sample_ext c [] (sample_env 5) {} 0 ms =
      [(a\<lparr>sequence_number := Some 0\<rparr>, Some \<lparr> sm_message = a\<lparr>sequence_number := Some 0\<rparr>, visible_at = v \<rparr>), (b, None),
       (f\<lparr>sequence_number := Some 1\<rparr>, Some \<lparr> sm_message = f\<lparr>sequence_number := Some 1\<rparr>, visible_at = v \<rparr>)]"
    if "ms = [a, b, f]" "v = 5 + seconds (int (unat (delay_seconds c)))" for a b f v c
    using that by (auto simp: ms_def sample_message_def dedup_id_of_def still_known_def Let_def)
  from fifo_send_exactly_once [OF sample_wf room look fifo clock ids, unfolded numbers batch [OF ms_def refl]]
  show ?thesis by (auto simp: ms_def sample_message_def)
qed


section \<open>Dead letters\<close>

lemma concat_map_single: "concat (map (\<lambda>m. [f m]) ms) = map f ms"
  by (induction ms) simp_all

lemma dlq_arrivals_enumerate:
  "dlq_arrivals e t d (map (Pair d) ms) =
     map (\<lambda>(i, m). \<lparr> sm_message = dlq_message (now e i) d m, visible_at = t \<rparr>) (enumerate 0 ms)"
proof (induction ms arbitrary: e)
  case (Cons m ms)
  have "enumerate (Suc 0) ms = map (\<lambda>(i, m). (Suc i, m)) (enumerate 0 ms)"
    by (simp add: enumerate_eq_zip map_Suc_upt [symmetric] zip_map1 del: upt_Suc map_Suc_upt)
  then show ?case by (simp add: Cons.IH case_prod_unfold)
qed simp

text \<open>
  C8. The dead letter queue: a receive appends to the target queue every picked message
  whose receive count has passed the limit, with a receive count of zero and the current
  time, in the reverse of the order in which it was picked.
\<close>

theorem dead_letter_arrivals:
  assumes "receipt_codecs_ok x" and "receipt_secret x \<noteq> None" and "mem_wf s"
    and "map_of (queues s) k = Some q" and "fresh_handles x e k q"
    and "dlq_config (qd_config q) = Some d" and "target_queue_id d \<noteq> k"
    and "map_of (queues s) (target_queue_id d) = Some qd"
  shows "map_of (queues (snd (receive_messages x e k ro s))) (target_queue_id d) =
    Some (qd\<lparr>available_messages := available_messages qd @
      map (\<lambda>(i, m). \<lparr> sm_message = m\<lparr>sent_timestamp := now e (2 + i), receive_count := 0, msg_queue_id := target_queue_id d\<rparr>,
                      visible_at = now e 1 \<rparr>)
        (enumerate 0 (rev (filter (\<lambda>m. max_receive_count d < receive_count m)
           (map (\<lambda>m. bump (sm_message m)) (picked (now e 1) ro q)))))\<rparr>)"
proof -
  have "dlq_moves (now e 1) ro q = map (Pair (target_queue_id d)) (rev (dead_messages (now e 1) ro q))"
  proof -
    have "dead_letter (qd_config q) = (\<lambda>m. [(target_queue_id d, m)])"
      by (simp add: fun_eq_iff dead_letter_def assms(6))
    then show ?thesis by (simp add: dlq_moves_def concat_map_single)
  qed
  moreover have "dead_messages (now e 1) ro q = filter (\<lambda>m. max_receive_count d < receive_count m)
      (map (\<lambda>m. bump (sm_message m)) (picked (now e 1) ro q))"
  proof -
    have "should_dlq (qd_config q) = (\<lambda>m. max_receive_count d < receive_count m)"
      by (simp add: fun_eq_iff should_dlq_def assms(6))
    then show ?thesis by (simp only: dead_messages_def)
  qed
  ultimately show ?thesis
    unfolding receive_messages_eq [OF assms(1-5)] snd_conv dlq_loop_lookup
    by (simp add: assms(7,8) dlq_arrivals_enumerate dlq_message_def)
qed

theorem dead_letter_arrivals_witness:
  "\<exists>qd'. map_of (queues (snd (receive_messages sample_ext (sample_env 5) ''q'' default_receive_options
      \<lparr> queues = [(''q'', sample_queue SqsStandard (Some \<lparr> target_queue_id = ''d'', max_receive_count = 0 \<rparr>) [sample_message ''a'']),
                  (''d'', (sample_queue SqsStandard None [])\<lparr>qd_config := sample_config ''d'' SqsStandard None\<rparr>)],
         subscriptions = [], mem_config = default_in_memory_config \<rparr>))) ''d'' = Some qd' \<and>
     map (\<lambda>m. (msg_id (sm_message m), receive_count (sm_message m))) (available_messages qd') = [(''a'', 0)]"
proof -
  define d where "d = \<lparr> target_queue_id = ''d'', max_receive_count = 0 \<rparr>"
  define q where "q = sample_queue SqsStandard (Some d) [sample_message ''a'']"
  define qd where "qd = (sample_queue SqsStandard None [])\<lparr>qd_config := sample_config ''d'' SqsStandard None\<rparr>"
  define s where "s = \<lparr> queues = [(''q'', q), (''d'', qd)], subscriptions = [], mem_config = default_in_memory_config \<rparr>"
  have wf: "mem_wf s"
    by (simp add: s_def mem_wf_def queue_wf_def q_def qd_def sample_queue_def sample_config_def)
  have look: "map_of (queues s) ''q'' = Some q" "map_of (queues s) (target_queue_id d) = Some qd"
    by (simp_all add: s_def d_def)
  have fresh: "fresh_handles sample_ext (sample_env 5) ''q'' q" by (simp add: q_def sample_fresh)
  have dlq: "dlq_config (qd_config q) = Some d" "target_queue_id d \<noteq> ''q''"
    by (simp_all add: q_def sample_queue_def sample_config_def d_def)
  have "picked 5 default_receive_options q = [\<lparr> sm_message = sample_message ''a'', visible_at = 0 \<rparr>]"
    by (simp add: picked_def deliverable_def q_def sample_queue_def batch_limit_def)
  then show ?thesis
    using dead_letter_arrivals [OF sample_codecs_ok sample_secret_set wf look(1) fresh dlq look(2),
        of default_receive_options]
    by (simp add: s_def q_def qd_def d_def bump_def sample_message_def sample_queue_def)
qed

section \<open>Expired leases\<close>

lemma expired_picked:
  assumes "(h, p) \<in> set (in_flight_messages q)" and "visibility_expires_at p \<le> t"
    and "length (filter (\<lambda>m. visible_at m \<le> t) (deliverable t q)) \<le> batch_limit ro"
  shows "requeued t (h, p) \<in> set (picked t ro q)"
proof -
  have "requeued t (h, p) \<in> requeued t ` set (filter (expired t) (in_flight_messages q))"
    by (rule imageI) (use assms(1,2) in \<open>simp add: expired_def\<close>)
  then show ?thesis using assms(3) by (simp add: picked_def deliverable_def requeued_def)
qed

lemma expired_handle_void:
  assumes "mem_wf s" and "map_of (queues s) k = Some q" and "fresh_handles x e k q"
    and p: "map_of (in_flight_messages q) h = Some p" and "visibility_expires_at p \<le> now e 1"
  shows "map_of (in_flight_messages (after_dlq x e k ro q)) h = None"
proof -
  let ?live = "rev (live_messages (now e 1) ro q)"
  let ?new = "map2 (flight_of (now e 1) (effective_timeout ro q)) ?live (receive_handles x e k ro q)"
  have "h \<notin> set (receive_handles x e k ro q)"
    using handles_for_uuid [of h x e k] assms(3) map_of_SomeD [OF p]
    by (force simp: receive_handles_def fresh_handles_def)
  moreover have "map fst ?new = receive_handles x e k ro q"
    by (rule map_fst_flight) (simp add: receive_handles_def)
  ultimately have "h \<notin> set (map fst ?new)" by (simp only: not_False_eq_True)
  then have "map_of ?new h = None" by (simp only: map_of_eq_None_iff list.set_map not_False_eq_True)
  moreover have "map_of (filter (\<lambda>p. \<not> expired (now e 1) p) (in_flight_messages q)) h = None"
  proof -
    have "b = p" if "(h, b) \<in> set (in_flight_messages q)" for b
      using map_of_is_SomeI [OF mem_wf_in_flight [OF assms(1,2)] that] p by simp
    then show ?thesis using assms(5) by (auto simp: map_of_eq_None_iff expired_def)
  qed
  moreover have "in_flight_messages (after_dlq x e k ro q) =
      filter (\<lambda>p. \<not> expired (now e 1) p) (in_flight_messages q) @ ?new"
    by (simp add: after_dlq_def queue_after_receive_def Let_def)
  ultimately show ?thesis by (simp only: map_of_append map_add_None simp_thms)
qed

text \<open>
  C9. Redelivery: a receive with room for all visible messages delivers every in-flight
  message whose visibility timeout has passed (or moves it to the dead letter queue), and
  the handle of the earlier delivery stops working.
\<close>

theorem redelivered_after_timeout:
  assumes "receipt_codecs_ok x" and "receipt_secret x \<noteq> None" and "mem_wf s"
    and "map_of (queues s) k = Some q" and "fresh_handles x e k q" and "handles_sound x s"
    and "map_of (in_flight_messages q) h = Some p" and "visibility_expires_at p \<le> now e 1"
    and "length (filter (\<lambda>m. visible_at m \<le> now e 1) (deliverable (now e 1) q)) \<le> batch_limit ro"
    and "receive_messages x e k ro s = (Inr rs, s1)"
  shows "(bump (if_message p) \<in> rm_message ` set rs \<or> should_dlq (qd_config q) (bump (if_message p))) \<and>
    delete_message x k h s1 = (Inl InvalidReceiptHandle, s1)"
proof
  have "bump (if_message p) \<in> (\<lambda>m. bump (sm_message m)) ` set (picked (now e 1) ro q)"
    using expired_picked [OF map_of_SomeD [OF assms(7)] assms(8,9)] by (force simp: requeued_def)
  moreover have "set (map rm_message rs) = set (live_messages (now e 1) ro q)"
    using received_messages(1) [OF assms(1-5,10)] by simp
  ultimately show "bump (if_message p) \<in> rm_message ` set rs \<or> should_dlq (qd_config q) (bump (if_message p))"
    by (auto simp: live_messages_def)
next
  have "queue_sound x k q" by (rule handles_sound_lookup [OF assms(6,4)])
  then obtain n where gen: "generate_receipt_handle x n k (msg_id (if_message p)) = Some h"
    using map_of_SomeD [OF assms(7)] by (fastforce simp: queue_sound_def list_all_iff)
  have "map_of (queues s1) k = Some (after_dlq x e k ro q)"
    using lookup_after_receive [OF assms(1-5), of ro] assms(10) by simp
  with expired_handle_void [OF assms(3-5,7,8), of ro] show "delete_message x k h s1 = (Inl InvalidReceiptHandle, s1)"
    by (simp add: delete_message_def generate_parse [OF assms(1) gen])
qed

theorem redelivered_after_timeout_witness:
  "\<exists>h rs s1. receive_messages sample_ext (sample_env 5) ''q'' default_receive_options
      \<lparr> queues = [(''q'', (sample_queue SqsStandard None [])\<lparr>in_flight_messages :=
           [(h, \<lparr> if_message = sample_message ''a'', visibility_expires_at = 3 \<rparr>)]\<rparr>)],
         subscriptions = [], mem_config = default_in_memory_config \<rparr> = (Inr rs, s1) \<and>
    bump (sample_message ''a'') \<in> rm_message ` set rs \<and>
    delete_message sample_ext ''q'' h s1 = (Inl InvalidReceiptHandle, s1)"
proof -
  obtain h where h: "generate_receipt_handle sample_ext ''n'' ''q'' ''a'' = Some h"
    using generate_None_iff [of sample_ext "''n''" "''q''" "''a''"] by auto
  define p where "p = \<lparr> if_message = sample_message ''a'', visibility_expires_at = 3 \<rparr>"
  define q where "q = (sample_queue SqsStandard None [])\<lparr>in_flight_messages := [(h, p)]\<rparr>"
  define s where "s = \<lparr> queues = [(''q'', q)], subscriptions = [], mem_config = default_in_memory_config \<rparr>"
  have wf: "mem_wf s" by (simp add: s_def mem_wf_def queue_wf_def q_def sample_queue_def sample_config_def)
  have look: "map_of (queues s) ''q'' = Some q" by (simp add: s_def)
  have msg: "msg_id (sample_message ''a'') = ''a''" by (simp add: sample_message_def)
  have "handle_for sample_ext (show_nat i) ''q'' m \<noteq> h" for i m
  proof
    assume "handle_for sample_ext (show_nat i) ''q'' m = h"
    then have "show_nat i = ''n''"
      using handle_for_inj [OF sample_codecs_ok sample_secret_set, of "show_nat i" "''q''" m "''n''" "''q''" "sample_message ''a''"]
        h by (simp add: handle_for_def [of _ "''n''"] msg)
    then show False using digit_val_set_show_nat [of "CHR ''n''" i] by (simp add: digit_val_def)
  qed
  then have fresh: "fresh_handles sample_ext (sample_env 5) ''q'' q"
    by (simp add: fresh_handles_def q_def inj_show_nat)
  have sound: "handles_sound sample_ext s"
    using h by (auto simp: handles_sound_def queue_sound_def s_def q_def p_def msg)
  have p: "map_of (in_flight_messages q) h = Some p" "visibility_expires_at p \<le> now (sample_env 5) 1"
    by (simp_all add: q_def p_def)
  have room: "length (filter (\<lambda>m. visible_at m \<le> now (sample_env 5) 1) (deliverable (now (sample_env 5) 1) q)) \<le>
      batch_limit default_receive_options"
    by (simp add: deliverable_def q_def p_def sample_queue_def batch_limit_def)
  obtain rs s1 where r: "receive_messages sample_ext (sample_env 5) ''q'' default_receive_options s = (Inr rs, s1)"
    using receive_messages_eq [OF sample_codecs_ok sample_secret_set wf look fresh] by blast
  have "\<not> should_dlq (qd_config q) m" for m
    by (simp add: q_def should_dlq_def sample_queue_def sample_config_def)
  then show ?thesis
    using redelivered_after_timeout [OF sample_codecs_ok sample_secret_set wf look fresh sound p room r] r
    unfolding s_def q_def p_def in_flight_message.select_convs by blast
qed

end
