(* ===== verification/Memory_Capacity.thy ===== *)
theory Memory_Capacity
  imports Memory_Sending
begin

text \<open>
  The capacity of the in-memory backend under concurrent sends: the critical sections of several
  callers interleave, each counts before it stores, and the bound that is left.
\<close>

section \<open>Callers that send\<close>

text \<open>A call of \<open>send_message\<close> or of \<open>send_messages\<close>, with the readings of its push.\<close>

datatype send_job = SendOne env string message | SendBatch env string "message list"

fun job_size :: "send_job \<Rightarrow> nat" where
  "job_size (SendOne e k m) = 1"
| "job_size (SendBatch e k ms) = length ms"

fun push_job :: "ext \<Rightarrow> send_job \<Rightarrow> in_memory \<Rightarrow> in_memory" where
  "push_job x (SendOne e k m) s = snd (push_message x e k m s)"
| "push_job x (SendBatch e k ms) s = snd (push_messages x e k ms s)"

text \<open>Where a caller stands: before the count, before the eviction, before the push, or in no call.\<close>

datatype sender = Resting | Counting send_job | Evicting send_job | Pushing send_job

fun pending_size :: "sender \<Rightarrow> nat" where
  "pending_size (Pushing j) = job_size j"
| "pending_size _ = 0"

fun size_within :: "nat \<Rightarrow> sender \<Rightarrow> bool" where
  "size_within b Resting = True"
| "size_within b (Counting j) = (job_size j \<le> b)"
| "size_within b (Evicting j) = (job_size j \<le> b)"
| "size_within b (Pushing j) = (job_size j \<le> b)"

text \<open>
  What an eviction frees: one message, or none when every message is in flight.  \<open>sy_evictions\<close> is the
  history of the evictions, each with the size of the call that made it and what it freed; no step reads
  it.  \<open>overrun\<close> is what those calls had to store beyond what their evictions freed.
\<close>

definition freed :: "in_memory \<Rightarrow> nat" where
  "freed s = (if \<exists>(k, q) \<in> set (queues s). available_messages q \<noteq> [] then 1 else 0)"

record send_system =
  sy_senders :: "sender list"
  sy_store :: in_memory
  sy_evictions :: "(nat \<times> nat) list"

definition overrun :: "send_system \<Rightarrow> nat" where
  "overrun y = sum_list (map (\<lambda>(size, f). size - f) (sy_evictions y))"

lemma overrun_simps [simp]:
  "overrun (y\<lparr>sy_senders := ss\<rparr>) = overrun y" "overrun (y\<lparr>sy_store := s\<rparr>) = overrun y"
  "overrun (y\<lparr>sy_evictions := ev # sy_evictions z\<rparr>) = fst ev - snd ev + overrun z"
  by (simp_all add: overrun_def split_beta)

definition send_start :: "in_memory_config \<Rightarrow> nat \<Rightarrow> send_system" where
  "send_start c n = \<lparr> sy_senders = replicate n Resting, sy_store = with_config c, sy_evictions = [] \<rparr>"

text \<open>
  One critical section of one caller, or any other step of the store.  \<open>b\<close> bounds the size of a
  batch.
\<close>

inductive send_step :: "ext \<Rightarrow> nat \<Rightarrow> send_system \<Rightarrow> send_system \<Rightarrow> bool" for x b where
  send_call: "i < length (sy_senders y) \<Longrightarrow> sy_senders y ! i = Resting \<Longrightarrow> job_size j \<le> b \<Longrightarrow>
    send_step x b y (y\<lparr>sy_senders := (sy_senders y)[i := Counting j]\<rparr>)"
| send_room: "i < length (sy_senders y) \<Longrightarrow> sy_senders y ! i = Counting j \<Longrightarrow> has_room (sy_store y) \<Longrightarrow>
    send_step x b y (y\<lparr>sy_senders := (sy_senders y)[i := Pushing j]\<rparr>)"
| send_full: "i < length (sy_senders y) \<Longrightarrow> sy_senders y ! i = Counting j \<Longrightarrow> \<not> has_room (sy_store y) \<Longrightarrow>
    send_step x b y (y\<lparr>sy_senders := (sy_senders y)[i := Evicting j]\<rparr>)"
| send_evict: "i < length (sy_senders y) \<Longrightarrow> sy_senders y ! i = Evicting j \<Longrightarrow>
    evict_section (sy_store y) = (Inr (), s') \<Longrightarrow>
    send_step x b y (y\<lparr>sy_senders := (sy_senders y)[i := Pushing j], sy_store := s',
      sy_evictions := (job_size j, freed (sy_store y)) # sy_evictions y\<rparr>)"
| send_reject: "i < length (sy_senders y) \<Longrightarrow> sy_senders y ! i = Evicting j \<Longrightarrow>
    evict_section (sy_store y) = (Inl err, s') \<Longrightarrow>
    send_step x b y (y\<lparr>sy_senders := (sy_senders y)[i := Resting], sy_store := s'\<rparr>)"
| send_push: "i < length (sy_senders y) \<Longrightarrow> sy_senders y ! i = Pushing j \<Longrightarrow>
    send_step x b y (y\<lparr>sy_senders := (sy_senders y)[i := Resting], sy_store := push_job x j (sy_store y)\<rparr>)"
| send_other: "mem_step x (sy_store y) {#} s' \<Longrightarrow> send_step x b y (y\<lparr>sy_store := s'\<rparr>)"

inductive send_reachable :: "ext \<Rightarrow> nat \<Rightarrow> in_memory_config \<Rightarrow> nat \<Rightarrow> send_system \<Rightarrow> bool" for x b c n where
  send_init: "send_reachable x b c n (send_start c n)"
| send_more: "send_reachable x b c n y \<Longrightarrow> send_step x b y y' \<Longrightarrow> send_reachable x b c n y'"

section \<open>What a section does to the number of messages\<close>

lemma mem_config_pop_front [simp]: "mem_config (pop_front_of k s) = mem_config s"
  by (simp add: pop_front_of_def split: option.split list.split)

lemma mem_config_evict [simp]: "mem_config (snd (evict_section s)) = mem_config s"
  by (rule evict_section_cases [of s]) simp_all

lemma mem_config_dlq_loop [simp]: "mem_config (dlq_loop e t moves s) = mem_config s"
  by (induction moves arbitrary: e s) (auto split: option.split)

lemma mem_config_push [simp]: "mem_config (push_job x j s) = mem_config s"
  by (cases j) (simp_all add: push_message_def push_messages_def split_beta split: option.split)

lemma mem_step_config: "mem_step x s A s' \<Longrightarrow> mem_config s' = mem_config s"
  by (induction rule: mem_step.induct)
    (auto simp: push_message_def push_messages_def create_queue_def update_queue_def delete_queue_def receive_messages_def
      delete_message_def change_visibility_def purge_queue_def process_expired_visibility_def create_subscription_def
      delete_subscription_def Let_def split_beta split: option.split sum.split)

lemma mem_step_count: "mem_step x s {#} s' \<Longrightarrow> mem_wf s \<Longrightarrow> total_message_count s' \<le> total_message_count s"
  using mem_step_ids [of x s "{#}" s'] size_mset_mono by (fastforce simp: size_all_ids [symmetric])

lemma push_job_wf: "mem_wf s \<Longrightarrow> mem_wf (push_job x j s)"
  by (cases j) (simp_all add: push_message_wf push_messages_wf)

lemma push_job_count: "mem_wf s \<Longrightarrow> total_message_count (push_job x j s) \<le> total_message_count s + job_size j"
proof (cases j)
  case (SendOne e k m)
  assume "mem_wf s"
  from size_mset_mono [OF push_message_ids [OF this, of x e k m]] show ?thesis
    by (simp add: SendOne size_all_ids)
next
  case (SendBatch e k ms)
  assume "mem_wf s"
  from size_mset_mono [OF push_messages_ids [OF this, of x e k ms]] show ?thesis
    by (simp add: SendBatch size_all_ids)
qed

lemma evict_section_count:
  assumes "mem_wf s" and "evict_section s = (Inr (), s')"
  shows "total_message_count s' + freed s = total_message_count s"
proof (rule evict_section_cases [of s])
  assume "evict_section s = (Inr (), s)" and "\<forall>(k, q) \<in> set (queues s). available_messages q = []"
  then show ?thesis using assms(2) by (auto simp: freed_def)
next
  fix k q m ms
  assume mem: "(k, q) \<in> set (queues s)" and av: "available_messages q = m # ms"
    and pop: "evict_section s = (Inr (), pop_front_of k s)"
  have q: "map_of (queues s) k = Some q" using mem mem_wf_distinct [OF assms(1)] by simp
  have "queue_ids q = queue_ids (q\<lparr>available_messages := ms\<rparr>) + {# msg_id (sm_message m) #}"
    using av by (simp add: queue_ids_def available_ids_def in_flight_ids_def)
  from all_ids_set_queue_sub [OF assms(1) q this]
  have "size (all_ids s) = Suc (size (all_ids s'))"
    using q av pop assms(2) by (simp add: pop_front_of_def)
  moreover have "freed s = 1" using bexI [OF _ mem] av by (simp add: freed_def)
  ultimately show ?thesis by (simp add: size_all_ids)
qed (use assms in simp)

section \<open>The bound\<close>

definition pending_messages :: "send_system \<Rightarrow> nat" where
  "pending_messages y = sum_list (map pending_size (sy_senders y))"

lemma sum_list_update_nat:
  "i < length xs \<Longrightarrow> sum_list (map f (xs[i := v])) + f (xs ! i) = sum_list (map f xs) + (f v :: nat)"
  by (induction xs arbitrary: i) (auto split: nat.split)

lemma pending_update:
  "i < length (sy_senders y) \<Longrightarrow> sum_list (map pending_size ((sy_senders y)[i := v])) + pending_size (sy_senders y ! i) =
     pending_messages y + pending_size v"
  unfolding pending_messages_def by (rule sum_list_update_nat)

lemma pending_le:
  "\<forall>s \<in> set ss. size_within b s \<Longrightarrow> sum_list (map pending_size ss) \<le> length ss * b"
proof (induction ss)
  case (Cons s ss)
  then have "pending_size s \<le> b" by (cases s) auto
  with Cons show ?case by simp
qed simp

definition send_inv :: "nat \<Rightarrow> in_memory_config \<Rightarrow> nat \<Rightarrow> send_system \<Rightarrow> bool" where
  "send_inv b c n y \<longleftrightarrow>
     mem_wf (sy_store y) \<and> mem_config (sy_store y) = c \<and> length (sy_senders y) = n \<and>
     (\<forall>s \<in> set (sy_senders y). size_within b s) \<and>
     total_message_count (sy_store y) + pending_messages y \<le> (max_messages c - 1) + n * b + overrun y \<and>
     (\<forall>(size, f) \<in> set (sy_evictions y). size \<le> b) \<and>
     (ev_policy c = RejectNew \<longrightarrow> sy_evictions y = [])"

lemma size_within_update:
  "\<forall>s \<in> set ss. size_within b s \<Longrightarrow> size_within b v \<Longrightarrow> \<forall>s \<in> set (ss[i := v]). size_within b s"
  using set_update_subset_insert [of ss i v] by blast

lemma send_step_inv:
  assumes "send_step x b y y'" and "send_inv b c n y"
  shows "send_inv b c n y'"
  using assms
proof (induction rule: send_step.induct)
  case (send_call i y j)
  from pending_update [OF send_call(1), of "Counting j"] send_call show ?case
    by (auto simp: send_inv_def pending_messages_def dest: size_within_update [where v = "Counting j"])
next
  case (send_room i y j)
  have "size_within b (Counting j)" using send_room by (metis nth_mem send_inv_def)
  then have within: "\<forall>s \<in> set ((sy_senders y)[i := Pushing j]). size_within b s"
    using send_room by (intro size_within_update) (simp_all add: send_inv_def)
  then have "sum_list (map pending_size ((sy_senders y)[i := Pushing j])) \<le> n * b"
    using pending_le [OF within] send_room by (simp add: send_inv_def)
  moreover have "total_message_count (sy_store y) \<le> max_messages c - 1"
    using send_room by (simp add: has_room_def send_inv_def)
  ultimately show ?case using send_room within by (simp add: send_inv_def pending_messages_def)
next
  case (send_full i y j)
  have "size_within b (Counting j)" using send_full by (metis nth_mem send_inv_def)
  with pending_update [OF send_full(1), of "Evicting j"] send_full show ?case
    by (auto simp: send_inv_def pending_messages_def dest: size_within_update [where v = "Evicting j"])
next
  case (send_evict i y j s')
  have "size_within b (Evicting j)" using send_evict by (metis nth_mem send_inv_def)
  then have within: "\<forall>s \<in> set ((sy_senders y)[i := Pushing j]). size_within b s"
    using send_evict by (intro size_within_update) (simp_all add: send_inv_def)
  have "total_message_count s' + freed (sy_store y) = total_message_count (sy_store y)"
    using send_evict by (intro evict_section_count) (simp_all add: send_inv_def)
  moreover have "mem_wf s'" "mem_config s' = c"
    using evict_section_wf [of "sy_store y"] mem_config_evict [of "sy_store y"] send_evict by (simp_all add: send_inv_def)
  moreover have "ev_policy c \<noteq> RejectNew"
    using send_evict by (auto simp: send_inv_def evict_section_def)
  moreover have "job_size j \<le> freed (sy_store y) + (job_size j - freed (sy_store y))" by simp
  moreover have "sum_list (map pending_size ((sy_senders y)[i := Pushing j])) = pending_messages y + job_size j"
    using pending_update [OF send_evict(1), of "Pushing j"] send_evict(2) by simp
  moreover have "total_message_count (sy_store y) + pending_messages y \<le> (max_messages c - 1) + n * b + overrun y"
    using send_evict(4) by (simp add: send_inv_def)
  ultimately have "total_message_count s' + sum_list (map pending_size ((sy_senders y)[i := Pushing j])) \<le>
      (max_messages c - 1) + n * b + (overrun y + (job_size j - freed (sy_store y)))" by linarith
  with \<open>mem_wf s'\<close> \<open>mem_config s' = c\<close> \<open>ev_policy c \<noteq> RejectNew\<close> \<open>size_within b (Evicting j)\<close> within show ?case
    using send_evict(4) by (simp add: send_inv_def pending_messages_def)
next
  case (send_reject i y j err s')
  have "s' = sy_store y" using send_reject(3) by (cases rule: evict_section_cases [of "sy_store y"]) simp_all
  with pending_update [OF send_reject(1), of Resting] send_reject show ?case
    by (auto simp: send_inv_def pending_messages_def dest: size_within_update [where v = Resting])
next
  case (send_push i y j)
  have "total_message_count (push_job x j (sy_store y)) \<le> total_message_count (sy_store y) + job_size j"
    using send_push by (intro push_job_count) (simp add: send_inv_def)
  with pending_update [OF send_push(1), of Resting] send_push show ?case
    by (auto simp: send_inv_def pending_messages_def push_job_wf dest: size_within_update [where v = Resting])
next
  case (send_other y s')
  then have "total_message_count s' \<le> total_message_count (sy_store y)" "mem_wf s'" "mem_config s' = c"
    using mem_step_count mem_step_wf mem_step_config by (auto simp: send_inv_def)
  then show ?case using send_other.prems by (simp add: send_inv_def pending_messages_def)
qed

lemma send_reachable_inv: "send_reachable x b c n y \<Longrightarrow> send_inv b c n y"
proof (induction rule: send_reachable.induct)
  case send_init
  show ?case
    by (simp add: send_inv_def send_start_def pending_messages_def with_config_wf sum_list_replicate)
      (simp add: with_config_def total_message_count_def)
qed (rule send_step_inv)

lemma no_overrun: "(\<And>size f. (size, f) \<in> set (sy_evictions y) \<Longrightarrow> size \<le> f) \<Longrightarrow> overrun y = 0"
  by (auto simp: overrun_def)

text \<open>
  A call that no other interrupts runs through its sections as \<open>send_message\<close> does.
\<close>

lemma alone_sends:
  assumes "i < length (sy_senders y)" and "sy_senders y ! i = Resting" and "1 \<le> b"
  shows "\<exists>y'. (send_step x b)\<^sup>*\<^sup>* y y' \<and> sy_store y' = snd (send_message x e k m (sy_store y)) \<and>
    sy_senders y' = sy_senders y"
proof -
  define j where "j = SendOne e k m"
  define at where "at v = y\<lparr>sy_senders := (sy_senders y)[i := v]\<rparr>" for v
  have rest: "(sy_senders y)[i := Resting] = sy_senders y" using assms(2) by (metis list_update_id)
  have called: "send_step x b y (at (Counting j))"
    unfolding at_def by (rule send_call) (use assms in \<open>simp_all add: j_def\<close>)
  have push: "send_step x b z (z\<lparr>sy_senders := sy_senders y, sy_store := snd (push_message x e k m (sy_store z))\<rparr>)"
    if "sy_senders z = sy_senders (at (Pushing j))" for z
    using send_push [of i z j x b] assms(1) that rest by (simp add: j_def at_def)
  show ?thesis
  proof (cases "has_room (sy_store y)")
    case True
    have "send_step x b (at (Counting j)) (at (Pushing j))"
      using send_room [of i "at (Counting j)" j x b] assms(1) True by (simp add: at_def)
    with called push [of "at (Pushing j)"] have "(send_step x b)\<^sup>*\<^sup>* y (y\<lparr>sy_senders := sy_senders y,
        sy_store := snd (push_message x e k m (sy_store y))\<rparr>)"
      by (auto simp: at_def intro: converse_rtranclp_into_rtranclp)
    with True show ?thesis by (force simp: send_message_def maybe_evict_def)
  next
    case False
    have full: "send_step x b (at (Counting j)) (at (Evicting j))"
      using send_full [of i "at (Counting j)" j x b] assms(1) False by (simp add: at_def)
    obtain r s1 where ev: "evict_section (sy_store y) = (r, s1)" by (cases "evict_section (sy_store y)")
    show ?thesis
    proof (cases r)
      case (Inl err)
      have "send_step x b (at (Evicting j)) (y\<lparr>sy_senders := sy_senders y, sy_store := s1\<rparr>)"
        using send_reject [of i "at (Evicting j)" j err s1 x b] assms(1) ev rest by (simp add: at_def Inl)
      with called full have "(send_step x b)\<^sup>*\<^sup>* y (y\<lparr>sy_senders := sy_senders y, sy_store := s1\<rparr>)"
        by (auto intro: converse_rtranclp_into_rtranclp)
      with False ev show ?thesis by (force simp: send_message_def maybe_evict_def Inl)
    next
      case (Inr u)
      define z where "z = (at (Pushing j))\<lparr>sy_store := s1,
        sy_evictions := (job_size j, freed (sy_store y)) # sy_evictions y\<rparr>"
      have "send_step x b (at (Evicting j)) z"
        using send_evict [of i "at (Evicting j)" j s1 x b] assms(1) ev by (simp add: at_def z_def Inr)
      with called full push [of z] have "(send_step x b)\<^sup>*\<^sup>* y (z\<lparr>sy_senders := sy_senders y,
          sy_store := snd (push_message x e k m (sy_store z))\<rparr>)"
        by (auto simp: z_def at_def intro: converse_rtranclp_into_rtranclp)
      with False ev show ?thesis by (force simp: send_message_def maybe_evict_def Inr z_def at_def)
    qed
  qed
qed

text \<open>
  C6. The capacity under concurrent sends, whose critical sections interleave in any order with each other
  and with the other operations.  With at most \<open>n\<close> calls at a time, none of more than \<open>b\<close> messages,
  the store holds at most \<open>n * b\<close> messages above one less than the configured maximum, plus what
  calls that evicted stored beyond what they freed.  Under a policy that rejects there are no evictions,
  so the first bound is the whole one; so it is when every call that evicts frees what it stores.  With one
  call at a time, of one message, no more than the maximum is stored as long as every eviction finds a
  message.
\<close>

theorem capacity_bounded:
  assumes "send_reachable x b c n y"
  shows "total_message_count (sy_store y) \<le> (max_messages c - 1) + n * b + overrun y \<and>
    (ev_policy c = RejectNew \<longrightarrow> sy_evictions y = []) \<and>
    ((\<forall>(size, f) \<in> set (sy_evictions y). size \<le> f) \<longrightarrow> total_message_count (sy_store y) \<le> (max_messages c - 1) + n * b) \<and>
    (n = 1 \<and> b = 1 \<and> 0 < max_messages c \<and> (\<forall>(size, f) \<in> set (sy_evictions y). 0 < f) \<longrightarrow>
      total_message_count (sy_store y) \<le> max_messages c)"
proof -
  have inv: "total_message_count (sy_store y) \<le> (max_messages c - 1) + n * b + overrun y"
    "\<forall>(size, f) \<in> set (sy_evictions y). size \<le> b" "ev_policy c = RejectNew \<longrightarrow> sy_evictions y = []"
    using send_reachable_inv [OF assms] by (simp_all add: send_inv_def)
  have "overrun y = 0" if "\<forall>(size, f) \<in> set (sy_evictions y). size \<le> f" using that by (intro no_overrun) auto
  moreover have "overrun y = 0" if "b = 1" "\<forall>(size, f) \<in> set (sy_evictions y). 0 < f"
    using that inv(2) by (intro no_overrun) fastforce
  ultimately show ?thesis using inv(1,3) by auto
qed

text \<open>Two callers that both count before either stores: the maximum is one, the store holds two.\<close>

definition tight_config :: in_memory_config where
  "tight_config = \<lparr> max_messages = 1, ev_policy = RejectNew \<rparr>"

definition tight_store :: "string \<Rightarrow> in_memory \<Rightarrow> in_memory" where
  "tight_store i s = snd (push_message sample_ext (sample_env 3) ''q'' (sample_message i) s)"

definition tight_system :: send_system where
  "tight_system = \<lparr> sy_senders = [Resting, Resting],
     sy_store = tight_store ''b'' (tight_store ''a''
       (snd (create_queue (sample_env 1) (sample_config ''q'' SqsStandard None) (with_config tight_config)))),
     sy_evictions = [] \<rparr>"

lemma tight_count: "total_message_count (sy_store tight_system) = 2"
  by (simp add: tight_system_def tight_store_def push_message_def create_queue_def with_config_def set_queue_def
      send_message_locked_def sample_config_def store_message_def total_message_count_def queue_message_count_def Let_def)

lemma tight_reachable: "send_reachable sample_ext 1 tight_config 2 tight_system"
proof -
  define j where "j i = SendOne (sample_env 3) ''q'' (sample_message i)" for i
  define s where "s = snd (create_queue (sample_env 1) (sample_config ''q'' SqsStandard None) (with_config tight_config))"
  have room: "has_room s"
    by (simp add: has_room_def s_def create_queue_def with_config_def set_queue_def total_message_count_def
        queue_message_count_def tight_config_def)
  define at where "at u v = \<lparr> sy_senders = [u, v], sy_store = s, sy_evictions = [] \<rparr>" for u v
  note more = send_more [where x = sample_ext and b = 1 and c = tight_config and n = 2]
  have "send_start tight_config 2 = \<lparr> sy_senders = [Resting, Resting], sy_store = with_config tight_config, sy_evictions = [] \<rparr>"
    by (simp add: send_start_def numeral_2_eq_2)
  then have "send_reachable sample_ext 1 tight_config 2 (at Resting Resting)"
    using more [OF send_init send_other [OF step_create_queue]] by (simp add: at_def s_def)
  from more [OF this send_call [of 0 _ "j ''a''"]] have "send_reachable sample_ext 1 tight_config 2 (at (Counting (j ''a'')) Resting)"
    by (simp add: at_def j_def)
  from more [OF this send_call [of 1 _ "j ''b''"]]
  have "send_reachable sample_ext 1 tight_config 2 (at (Counting (j ''a'')) (Counting (j ''b'')))"
    by (simp add: at_def j_def)
  from more [OF this send_room [of 0 _ "j ''a''"]]
  have "send_reachable sample_ext 1 tight_config 2 (at (Pushing (j ''a'')) (Counting (j ''b'')))"
    using room by (simp add: at_def)
  from more [OF this send_room [of 1 _ "j ''b''"]]
  have "send_reachable sample_ext 1 tight_config 2 (at (Pushing (j ''a'')) (Pushing (j ''b'')))"
    using room by (simp add: at_def)
  from more [OF this send_push [of 0 _ "j ''a''"]]
  have "send_reachable sample_ext 1 tight_config 2
      \<lparr> sy_senders = [Resting, Pushing (j ''b'')], sy_store = tight_store ''a'' s, sy_evictions = [] \<rparr>"
    by (simp add: at_def j_def tight_store_def)
  from more [OF this send_push [of 1 _ "j ''b''"]]
  show ?thesis by (simp add: at_def j_def tight_store_def tight_system_def s_def)
qed

theorem capacity_bounded_witness:
  "total_message_count (sy_store tight_system) = 2 \<and> total_message_count (sy_store tight_system) \<le> 2"
  using capacity_bounded [OF tight_reachable] tight_count by (simp add: tight_config_def tight_system_def overrun_def)

section \<open>Batches\<close>

lemma batch_stores_all:
  "qc_type (qd_config q) \<noteq> SqsFifo \<Longrightarrow> \<exists>q'. send_loop x e q ms sent = (Inr (sent @ ms), q') \<and>
     queue_message_count q' = queue_message_count q + length ms"
proof (induction ms arbitrary: e q sent)
  case (Cons m ms)
  define q1 where "q1 = store_message (now e 4) (q\<lparr>last_access := now e 0\<rparr>) m"
  have "send_message_locked x e q m = (Inr m, q1)"
    using Cons.prems by (simp add: send_message_locked_def Let_def q1_def)
  moreover have "qc_type (qd_config q1) \<noteq> SqsFifo" "queue_message_count q1 = Suc (queue_message_count q)"
    using Cons.prems by (simp_all add: q1_def queue_message_count_def store_message_def Let_def)
  ultimately show ?case using Cons.IH [of q1 "env_from 5 e" "sent @ [m]"] by auto
qed simp

text \<open>
  A batch counts once: on a full store that evicts, one message goes and all of the batch comes.
\<close>

lemma batch_overruns:
  assumes "mem_wf s" and "total_message_count s = max_messages (mem_config s)" and "ev_policy (mem_config s) \<noteq> RejectNew"
    and "freed s = 1" and "map_of (queues s) k = Some q" and "qc_type (qd_config q) \<noteq> SqsFifo"
  shows "Suc (total_message_count (snd (send_messages x e k ms s))) = max_messages (mem_config s) + length ms"
proof -
  obtain k' q0 where q0: "(k', q0) \<in> set (queues s)" "available_messages q0 \<noteq> []"
    using assms(4) by (auto simp: freed_def split: if_splits)
  obtain s1 where s1: "maybe_evict s = (Inr (), s1)" "Suc (total_message_count s1) = total_message_count s"
    using maybe_evict_full [OF assms(1) _ assms(3) q0] assms(2) by (cases "maybe_evict s") auto
  have wf: "mem_wf s1" using maybe_evict_wf [OF assms(1)] s1(1) by (metis snd_conv)
  have "\<exists>q1. map_of (queues (snd (maybe_evict s))) k = Some q1 \<and> qd_config q1 = qd_config q"
    by (rule maybe_evict_cases [of s]) (use assms(5) in \<open>auto simp: pop_front_of_def split: option.split list.split\<close>)
  then obtain q1 where q1: "map_of (queues s1) k = Some q1" "qd_config q1 = qd_config q" using s1(1) by auto
  obtain q2 where q2: "send_loop x e q1 ms [] = (Inr ms, q2)" "queue_message_count q2 = queue_message_count q1 + length ms"
    using batch_stores_all [of q1 x e ms "[]"] assms(6) q1(2) by auto
  have "send_messages x e k ms s = (Inr ms, set_queue k q2 s1)"
    using s1(1) q1(1) q2(1) by (simp add: send_messages_unfold)
  moreover have "total_message_count (set_queue k q2 s1) + queue_message_count q1 = total_message_count s1 + queue_message_count q2"
    using arg_cong [OF all_ids_set_queue [OF wf q1(1), of q2], of size] by (simp add: size_all_ids size_queue_ids)
  ultimately show ?thesis using q2(2) s1(2) assms(2) by simp
qed

end
