(* ===== verification/Receipt_Claims.thy ===== *)
theory Receipt_Claims
  imports Samples
begin

text \<open>The properties of receipt handles.\<close>

text \<open>
  C25. Unforgeability up to the MAC: a handle is accepted, with data \<open>d\<close>, exactly when it
  decodes to \<open>d\<close> with a signature that is the HMAC of \<open>d\<close> under the configured secret;
  in particular the constant-time comparison of the code decides equality.
\<close>

theorem receipt_authentic_iff: "parse_receipt_handle x h = Inr d \<longleftrightarrow> authentic x h d"
  using parse_authentic authentic_parse by blast

text \<open>
  Round trip: with the secret set, generation succeeds and the handle parses to the
  queue, message and nonce it was made from; without it generation panics.
\<close>

theorem receipt_handle_roundtrip:
  assumes "receipt_codecs_ok x"
  shows "case generate_receipt_handle x nonce queue_id message_id of
      None \<Rightarrow> receipt_secret x = None
    | Some h \<Rightarrow> receipt_secret x \<noteq> None \<and> parse_receipt_handle x h =
        Inr \<lparr> rh_queue_id = queue_id, rh_message_id = message_id, rh_nonce = nonce, rh_signature = None \<rparr>"
  using generate_None_iff [of x nonce queue_id message_id] generate_parse [OF assms, of nonce queue_id message_id]
  by (cases "generate_receipt_handle x nonce queue_id message_id") simp_all

theorem receipt_handle_roundtrip_witness:
  "case generate_receipt_handle sample_ext ''n'' ''q'' ''m'' of
      None \<Rightarrow> False
    | Some h \<Rightarrow> parse_receipt_handle sample_ext h =
        Inr \<lparr> rh_queue_id = ''q'', rh_message_id = ''m'', rh_nonce = ''n'', rh_signature = None \<rparr>"
  using receipt_handle_roundtrip [OF sample_codecs_ok, of "''q''" "''m''" "''n''"]
  by (auto split: option.splits)

end
