(* ===== verification/Sqs_Types.thy ===== *)
theory Sqs_Types
  imports Lclq_Types Samples "HOL-Library.List_Lexorder" "HOL-Library.Char_ord"
begin

text \<open>
  The SQS vocabulary (\<open>src/sqs/types.rs\<close>): actions, queue attributes, error codes, and the
  MD5 of a set of message attributes.  A constructor that clashes with another type of the
  development carries a prefix (\<open>Act\<close> for actions, \<open>QA_\<close> for attributes).
\<close>

section \<open>Actions\<close>

datatype sqs_action =
    ActCreateQueue
  | ActDeleteQueue
  | ActGetQueueUrl
  | ActGetQueueAttributes
  | ActSetQueueAttributes
  | ActListQueues
  | ActPurgeQueue
  | ActTagQueue
  | ActUntagQueue
  | ActListQueueTags
  | ActSendMessage
  | ActSendMessageBatch
  | ActReceiveMessage
  | ActDeleteMessage
  | ActDeleteMessageBatch
  | ActChangeMessageVisibility
  | ActChangeMessageVisibilityBatch

fun sqs_action_as_str :: "sqs_action \<Rightarrow> string" where
  "sqs_action_as_str ActCreateQueue = ''CreateQueue''"
| "sqs_action_as_str ActDeleteQueue = ''DeleteQueue''"
| "sqs_action_as_str ActGetQueueUrl = ''GetQueueUrl''"
| "sqs_action_as_str ActGetQueueAttributes = ''GetQueueAttributes''"
| "sqs_action_as_str ActSetQueueAttributes = ''SetQueueAttributes''"
| "sqs_action_as_str ActListQueues = ''ListQueues''"
| "sqs_action_as_str ActPurgeQueue = ''PurgeQueue''"
| "sqs_action_as_str ActTagQueue = ''TagQueue''"
| "sqs_action_as_str ActUntagQueue = ''UntagQueue''"
| "sqs_action_as_str ActListQueueTags = ''ListQueueTags''"
| "sqs_action_as_str ActSendMessage = ''SendMessage''"
| "sqs_action_as_str ActSendMessageBatch = ''SendMessageBatch''"
| "sqs_action_as_str ActReceiveMessage = ''ReceiveMessage''"
| "sqs_action_as_str ActDeleteMessage = ''DeleteMessage''"
| "sqs_action_as_str ActDeleteMessageBatch = ''DeleteMessageBatch''"
| "sqs_action_as_str ActChangeMessageVisibility = ''ChangeMessageVisibility''"
| "sqs_action_as_str ActChangeMessageVisibilityBatch = ''ChangeMessageVisibilityBatch''"

text \<open>\<open>SqsAction::from_str\<close>: the arms of the match, in the order of the source.\<close>

definition sqs_action_from_str :: "string \<Rightarrow> string + sqs_action" where
  "sqs_action_from_str s =
     (if s = ''CreateQueue'' then Inr ActCreateQueue
      else if s = ''DeleteQueue'' then Inr ActDeleteQueue
      else if s = ''GetQueueUrl'' then Inr ActGetQueueUrl
      else if s = ''GetQueueAttributes'' then Inr ActGetQueueAttributes
      else if s = ''SetQueueAttributes'' then Inr ActSetQueueAttributes
      else if s = ''ListQueues'' then Inr ActListQueues
      else if s = ''PurgeQueue'' then Inr ActPurgeQueue
      else if s = ''TagQueue'' then Inr ActTagQueue
      else if s = ''UntagQueue'' then Inr ActUntagQueue
      else if s = ''ListQueueTags'' then Inr ActListQueueTags
      else if s = ''SendMessage'' then Inr ActSendMessage
      else if s = ''SendMessageBatch'' then Inr ActSendMessageBatch
      else if s = ''ReceiveMessage'' then Inr ActReceiveMessage
      else if s = ''DeleteMessage'' then Inr ActDeleteMessage
      else if s = ''DeleteMessageBatch'' then Inr ActDeleteMessageBatch
      else if s = ''ChangeMessageVisibility'' then Inr ActChangeMessageVisibility
      else if s = ''ChangeMessageVisibilityBatch'' then Inr ActChangeMessageVisibilityBatch
      else Inl (''Unknown SQS action: '' @ s))"

section \<open>Queue attributes\<close>

datatype queue_attribute =
    QA_All
  | QA_ApproximateNumberOfMessages
  | QA_ApproximateNumberOfMessagesNotVisible
  | QA_ApproximateNumberOfMessagesDelayed
  | QA_CreatedTimestamp
  | QA_LastModifiedTimestamp
  | QA_VisibilityTimeout
  | QA_MaximumMessageSize
  | QA_MessageRetentionPeriod
  | QA_DelaySeconds
  | QA_RedrivePolicy
  | QA_RedriveAllowPolicy
  | QA_FifoQueue
  | QA_ContentBasedDeduplication
  | QA_QueueArn

fun queue_attribute_as_str :: "queue_attribute \<Rightarrow> string" where
  "queue_attribute_as_str QA_All = ''All''"
| "queue_attribute_as_str QA_ApproximateNumberOfMessages = ''ApproximateNumberOfMessages''"
| "queue_attribute_as_str QA_ApproximateNumberOfMessagesNotVisible = ''ApproximateNumberOfMessagesNotVisible''"
| "queue_attribute_as_str QA_ApproximateNumberOfMessagesDelayed = ''ApproximateNumberOfMessagesDelayed''"
| "queue_attribute_as_str QA_CreatedTimestamp = ''CreatedTimestamp''"
| "queue_attribute_as_str QA_LastModifiedTimestamp = ''LastModifiedTimestamp''"
| "queue_attribute_as_str QA_VisibilityTimeout = ''VisibilityTimeout''"
| "queue_attribute_as_str QA_MaximumMessageSize = ''MaximumMessageSize''"
| "queue_attribute_as_str QA_MessageRetentionPeriod = ''MessageRetentionPeriod''"
| "queue_attribute_as_str QA_DelaySeconds = ''DelaySeconds''"
| "queue_attribute_as_str QA_RedrivePolicy = ''RedrivePolicy''"
| "queue_attribute_as_str QA_RedriveAllowPolicy = ''RedriveAllowPolicy''"
| "queue_attribute_as_str QA_FifoQueue = ''FifoQueue''"
| "queue_attribute_as_str QA_ContentBasedDeduplication = ''ContentBasedDeduplication''"
| "queue_attribute_as_str QA_QueueArn = ''QueueArn''"

definition queue_attribute_from_str :: "string \<Rightarrow> string + queue_attribute" where
  "queue_attribute_from_str s =
     (if s = ''All'' then Inr QA_All
      else if s = ''ApproximateNumberOfMessages'' then Inr QA_ApproximateNumberOfMessages
      else if s = ''ApproximateNumberOfMessagesNotVisible'' then Inr QA_ApproximateNumberOfMessagesNotVisible
      else if s = ''ApproximateNumberOfMessagesDelayed'' then Inr QA_ApproximateNumberOfMessagesDelayed
      else if s = ''CreatedTimestamp'' then Inr QA_CreatedTimestamp
      else if s = ''LastModifiedTimestamp'' then Inr QA_LastModifiedTimestamp
      else if s = ''VisibilityTimeout'' then Inr QA_VisibilityTimeout
      else if s = ''MaximumMessageSize'' then Inr QA_MaximumMessageSize
      else if s = ''MessageRetentionPeriod'' then Inr QA_MessageRetentionPeriod
      else if s = ''DelaySeconds'' then Inr QA_DelaySeconds
      else if s = ''RedrivePolicy'' then Inr QA_RedrivePolicy
      else if s = ''RedriveAllowPolicy'' then Inr QA_RedriveAllowPolicy
      else if s = ''FifoQueue'' then Inr QA_FifoQueue
      else if s = ''ContentBasedDeduplication'' then Inr QA_ContentBasedDeduplication
      else if s = ''QueueArn'' then Inr QA_QueueArn
      else Inl (''Unknown queue attribute: '' @ s))"

section \<open>Error codes\<close>

datatype sqs_error_code =
    QueueDoesNotExist
  | CodeQueueAlreadyExists
  | InvalidParameterValue
  | MissingParameter
  | InvalidAttributeName
  | ReceiptHandleIsInvalid
  | BatchRequestTooLong
  | InternalError

fun sqs_error_code_as_str :: "sqs_error_code \<Rightarrow> string" where
  "sqs_error_code_as_str QueueDoesNotExist = ''AWS.SimpleQueueService.NonExistentQueue''"
| "sqs_error_code_as_str CodeQueueAlreadyExists = ''QueueAlreadyExists''"
| "sqs_error_code_as_str InvalidParameterValue = ''InvalidParameterValue''"
| "sqs_error_code_as_str MissingParameter = ''MissingParameter''"
| "sqs_error_code_as_str InvalidAttributeName = ''InvalidAttributeName''"
| "sqs_error_code_as_str ReceiptHandleIsInvalid = ''ReceiptHandleIsInvalid''"
| "sqs_error_code_as_str BatchRequestTooLong = ''AWS.SimpleQueueService.BatchRequestTooLong''"
| "sqs_error_code_as_str InternalError = ''InternalError''"

section \<open>Digests\<close>

record sqs_attribute_value =
  sa_data_type :: string
  sa_string_value :: "string option"
  sa_binary_value :: "string option"

type_synonym sqs_attributes = "(string \<times> sqs_attribute_value) list"

definition calculate_md5_of_body :: "ext \<Rightarrow> string \<Rightarrow> string" where
  "calculate_md5_of_body x s = md5_hex x s"

text \<open>\<open>(n as u32).to_be_bytes()\<close>.\<close>

definition be_bytes32 :: "nat \<Rightarrow> string" where
  "be_bytes32 n = map (\<lambda>k. char_of (n div 256 ^ k)) [3, 2, 1, 0]"

definition length_prefixed :: "string \<Rightarrow> string" where
  "length_prefixed s = be_bytes32 (length s) @ s"

definition attribute_bytes :: "ext \<Rightarrow> string \<times> sqs_attribute_value \<Rightarrow> string" where
  "attribute_bytes x p =
     (case p of (name, v) \<Rightarrow>
        length_prefixed name @ length_prefixed (sa_data_type v) @
        (case sa_string_value v of
           Some s \<Rightarrow> length_prefixed s
         | None \<Rightarrow>
            (case sa_binary_value v of
               None \<Rightarrow> []
             | Some b \<Rightarrow> (case b64_decode x b of None \<Rightarrow> [] | Some decoded \<Rightarrow> length_prefixed decoded))))"

definition attributes_buffer :: "ext \<Rightarrow> sqs_attributes \<Rightarrow> string" where
  "attributes_buffer x attrs = concat (map (attribute_bytes x) (sort_key fst attrs))"

definition calculate_md5_of_attributes :: "ext \<Rightarrow> sqs_attributes \<Rightarrow> string" where
  "calculate_md5_of_attributes x attrs = md5_hex x (attributes_buffer x attrs)"

section \<open>Round trips\<close>

lemma sqs_action_from_as_str [simp]: "sqs_action_from_str (sqs_action_as_str a) = Inr a"
  by (cases a) (simp_all add: sqs_action_from_str_def)

lemma queue_attribute_from_as_str [simp]: "queue_attribute_from_str (queue_attribute_as_str a) = Inr a"
  by (cases a) (simp_all add: queue_attribute_from_str_def)

lemma sqs_action_as_from_str: "sqs_action_from_str s = Inr a \<Longrightarrow> s = sqs_action_as_str a"
  by (auto simp: sqs_action_from_str_def split: if_splits)

lemma queue_attribute_as_from_str: "queue_attribute_from_str s = Inr a \<Longrightarrow> s = queue_attribute_as_str a"
  by (auto simp: queue_attribute_from_str_def split: if_splits)

text \<open>
  Actions parse exactly from their printed names: parsing accepts a string as an action
  if and only if it is that action's name.
\<close>

lemma sqs_action_parse_iff: "sqs_action_from_str s = Inr a \<longleftrightarrow> s = sqs_action_as_str a"
  using sqs_action_as_from_str by auto

section \<open>The digest input\<close>

lemma mset_short: "mset xs = mset ys \<Longrightarrow> length xs \<le> 1 \<Longrightarrow> xs = ys"
  by (cases xs) (auto dest: sym simp: mset_single_iff_right)

lemma attributes_sorted_unique:
  assumes "distinct (map fst attrs)" and "mset attrs = mset attrs'"
  shows "sort_key fst attrs = sort_key fst attrs'"
proof -
  have "filter (\<lambda>p. fst p = k) attrs = filter (\<lambda>p. fst p = k) attrs'" for k
  proof -
    have m: "mset (filter (\<lambda>p. fst p = k) attrs) = mset (filter (\<lambda>p. fst p = k) attrs')"
      by (simp add: assms(2) mset_filter)
    have "distinct (map fst (filter (\<lambda>p. fst p = k) attrs))"
      by (rule distinct_map_filter [OF assms(1)])
    moreover have "\<forall>p \<in> set (filter (\<lambda>p. fst p = k) attrs). fst p = k" by simp
    ultimately have "length (filter (\<lambda>p. fst p = k) attrs) \<le> 1"
      by (cases "filter (\<lambda>p. fst p = k) attrs" rule: remdups_adj.cases) auto
    then show ?thesis by (rule mset_short [OF m])
  qed
  then have "filter (\<lambda>p. fst q = fst p) (sort_key fst attrs') = filter (\<lambda>p. fst q = fst p) attrs" for q
    using sort_key_stable [of fst "fst q" attrs'] by (simp add: eq_commute [of "fst q"])
  then show ?thesis
    by (intro properties_for_sort_key) (simp_all add: assms(2))
qed


lemma be_bytes32_inj:
  assumes "be_bytes32 m = be_bytes32 n" and "m < 2 ^ 32" and "n < 2 ^ 32"
  shows "m = n"
proof -
  have val: "k = ((k div 256 ^ 3 mod 256 * 256 + k div 256 ^ 2 mod 256) * 256 + k div 256 ^ 1 mod 256) * 256
      + k div 256 ^ 0 mod 256" if "k < 2 ^ 32" for k :: nat
  proof -
    define a where "a = k div 256 ^ 1"
    define b where "b = k div 256 ^ 2"
    define c where "c = k div 256 ^ 3"
    have step: "a * 256 + k mod 256 = k" "b * 256 + a mod 256 = a" "c * 256 + b mod 256 = b"
      using div_mult_mod_eq [of k 256] div_mult_mod_eq [of a 256] div_mult_mod_eq [of b 256]
      by (simp_all add: a_def b_def c_def div_mult2_eq [symmetric])
    have "c mod 256 = c" "k div 256 ^ 0 = k"
      using that by (simp_all add: c_def div_less_iff_less_mult)
    then show ?thesis
      unfolding a_def [symmetric] b_def [symmetric] c_def [symmetric] by (simp only: step)
  qed
  have digits: "map (\<lambda>c. of_char c :: nat) (be_bytes32 k) = map (\<lambda>i. k div 256 ^ i mod 256) [3, 2, 1, 0]" for k
    unfolding be_bytes32_def map_map o_def of_char_of ..
  have "map (\<lambda>i. m div 256 ^ i mod 256) [3, 2, 1, 0 :: nat] = map (\<lambda>i. n div 256 ^ i mod 256) [3, 2, 1, 0]"
    unfolding digits [symmetric] assms(1) ..
  then show ?thesis
    using val [OF assms(2)] val [OF assms(3)] unfolding list.map list.inject by metis
qed

lemma length_prefixed_append:
  assumes "length_prefixed s @ u = length_prefixed t @ v" and "length s < 2 ^ 32" and "length t < 2 ^ 32"
  shows "s = t \<and> u = v"
proof -
  have four: "length (be_bytes32 n) = 4" for n by (simp add: be_bytes32_def)
  have "be_bytes32 (length s) = be_bytes32 (length t)"
    using assms(1) arg_cong [of _ _ "take 4"] by (fastforce simp: length_prefixed_def four)
  then have "length s = length t" using be_bytes32_inj assms(2,3) by blast
  then show ?thesis using assms(1) by (simp add: length_prefixed_def)
qed


text \<open>An attribute with a string value and no field of 4 GiB or more.\<close>

definition text_attribute :: "string \<times> sqs_attribute_value \<Rightarrow> bool" where
  "text_attribute p \<longleftrightarrow>
     sa_binary_value (snd p) = None \<and> length (fst p) < 2 ^ 32 \<and> length (sa_data_type (snd p)) < 2 ^ 32 \<and>
     (case sa_string_value (snd p) of None \<Rightarrow> False | Some s \<Rightarrow> length s < 2 ^ 32)"

lemma attribute_bytes_nonempty [simp]: "attribute_bytes x p \<noteq> []"
  by (cases p) (simp add: attribute_bytes_def length_prefixed_def be_bytes32_def)

lemma attribute_bytes_append:
  assumes "text_attribute p" and "text_attribute q"
    and "attribute_bytes x p @ u = attribute_bytes x q @ v"
  shows "p = q \<and> u = v"
proof -
  obtain n t s where p: "p = (n, \<lparr> sa_data_type = t, sa_string_value = Some s, sa_binary_value = None \<rparr>)"
    "length n < 2 ^ 32" "length t < 2 ^ 32" "length s < 2 ^ 32"
    using assms(1) by (cases p; cases "snd p") (auto simp: text_attribute_def split: option.splits)
  obtain n' t' s' where q: "q = (n', \<lparr> sa_data_type = t', sa_string_value = Some s', sa_binary_value = None \<rparr>)"
    "length n' < 2 ^ 32" "length t' < 2 ^ 32" "length s' < 2 ^ 32"
    using assms(2) by (cases q; cases "snd q") (auto simp: text_attribute_def split: option.splits)
  have "length_prefixed n @ length_prefixed t @ length_prefixed s @ u =
      length_prefixed n' @ length_prefixed t' @ length_prefixed s' @ v"
    using assms(3) by (simp add: p(1) q(1) attribute_bytes_def)
  then have "n = n' \<and> t = t' \<and> s = s' \<and> u = v"
    using length_prefixed_append p q by blast
  then show ?thesis by (simp add: p(1) q(1))
qed

lemma attribute_bytes_concat_inj:
  "list_all text_attribute as \<Longrightarrow> list_all text_attribute bs \<Longrightarrow>
     concat (map (attribute_bytes x) as) = concat (map (attribute_bytes x) bs) \<Longrightarrow> as = bs"
proof (induction as arbitrary: bs)
  case Nil
  then show ?case by (cases bs) simp_all
next
  case (Cons a as)
  show ?case
  proof (cases bs)
    case Nil
    with Cons.prems(3) show ?thesis by simp
  next
    case (Cons b bs')
    have "text_attribute a" "text_attribute b" "list_all text_attribute as" "list_all text_attribute bs'"
      using Cons.prems(1,2) Cons by simp_all
    moreover have "attribute_bytes x a @ concat (map (attribute_bytes x) as) =
        attribute_bytes x b @ concat (map (attribute_bytes x) bs')"
      using Cons.prems(3) Cons by simp
    ultimately show ?thesis
      using attribute_bytes_append Cons.IH Cons by metis
  qed
qed

text \<open>
  The attribute digest input identifies the attributes: for attributes with string
  values, two hash maps give the same bytes exactly when they hold the same entries, in
  whatever order their iterators yield them.
\<close>

theorem attributes_buffer_iff:
  assumes "distinct (map fst as)" and "list_all text_attribute as" and "list_all text_attribute bs"
  shows "attributes_buffer x as = attributes_buffer x bs \<longleftrightarrow> mset as = mset bs"
proof
  have sorted: "list_all text_attribute (sort_key fst as)" "list_all text_attribute (sort_key fst bs)"
    using assms(2,3) by (simp_all add: list_all_iff)
  assume "attributes_buffer x as = attributes_buffer x bs"
  then have "sort_key fst as = sort_key fst bs"
    using attribute_bytes_concat_inj [OF sorted] by (simp add: attributes_buffer_def)
  then show "mset as = mset bs" by (metis mset_sort)
next
  assume "mset as = mset bs"
  then show "attributes_buffer x as = attributes_buffer x bs"
    by (simp add: attributes_buffer_def attributes_sorted_unique [OF assms(1)])
qed

theorem attributes_buffer_iff_witness:
  "attributes_buffer sample_ext [(''b'', \<lparr> sa_data_type = ''String'', sa_string_value = Some ''1'', sa_binary_value = None \<rparr>),
                        (''a'', \<lparr> sa_data_type = ''Number'', sa_string_value = Some ''2'', sa_binary_value = None \<rparr>)] =
   attributes_buffer sample_ext [(''a'', \<lparr> sa_data_type = ''Number'', sa_string_value = Some ''2'', sa_binary_value = None \<rparr>),
                        (''b'', \<lparr> sa_data_type = ''String'', sa_string_value = Some ''1'', sa_binary_value = None \<rparr>)]"
  by (subst attributes_buffer_iff) (simp_all add: text_attribute_def add_mset_commute)

end
