(* ===== verification/Sqs_Request.thy ===== *)
theory Sqs_Request
  imports Sqs_Types Samples
begin

text \<open>
  Request parsing (\<open>src/sqs/request.rs\<close>): the form-encoded and the JSON protocol, both
  reduced to one map of string parameters, and the readers of numbered parameters.  The
  loops over an index end at the first index whose keys are missing; their fuel is one more
  than the number of parameters, and \<open>numbered_loop_run\<close> shows that it never runs out.
\<close>

type_synonym params = "(string \<times> string) list"

record sqs_request =
  rq_action :: sqs_action
  rq_params :: params
  rq_is_json :: bool

definition insert_param :: "string \<Rightarrow> string \<Rightarrow> params \<Rightarrow> params" where
  "insert_param k v ps = AList.update k v ps"

section \<open>The form protocol\<close>

definition form_pair :: "ext \<Rightarrow> string \<Rightarrow> params \<Rightarrow> params" where
  "form_pair x pair ps =
     (case split_once (CHR ''='') pair of
        None \<Rightarrow> ps
      | Some (key, value) \<Rightarrow>
         (let value_with_spaces = replace_char (CHR ''+'') '' '' value;
              decoded_key = (case url_decode x key of None \<Rightarrow> [] | Some k \<Rightarrow> k);
              decoded_value = (case url_decode x value_with_spaces of None \<Rightarrow> [] | Some v \<Rightarrow> v) in
          insert_param decoded_key decoded_value ps))"

definition parse_form_data :: "ext \<Rightarrow> string \<Rightarrow> params" where
  "parse_form_data x input = fold (form_pair x) (split_on (CHR ''&'') input) []"

definition parse :: "ext \<Rightarrow> string \<Rightarrow> string + sqs_request" where
  "parse x input =
     (let params = parse_form_data x input in
      case map_of params ''Action'' of
        None \<Rightarrow> Inl ''Missing or invalid Action parameter''
      | Some a \<Rightarrow>
         (case sqs_action_from_str a of
            Inl _ \<Rightarrow> Inl ''Missing or invalid Action parameter''
          | Inr action \<Rightarrow> Inr \<lparr> rq_action = action, rq_params = params, rq_is_json = False \<rparr>))"

section \<open>The JSON protocol\<close>

text \<open>\<open>char::is_whitespace\<close>, and the test \<open>trim().starts_with('{')\<close>.\<close>

definition is_whitespace :: "nat \<Rightarrow> bool" where
  "is_whitespace c =
     ((9 \<le> c \<and> c \<le> 13) \<or> c = 32 \<or> c = 133 \<or> c = 160 \<or> c = 5760 \<or> (8192 \<le> c \<and> c \<le> 8202) \<or>
      c = 8232 \<or> c = 8233 \<or> c = 8239 \<or> c = 8287 \<or> c = 12288)"

definition starts_with_brace :: "string \<Rightarrow> bool" where
  "starts_with_brace s = (case dropWhile is_whitespace (str_chars s) of [] \<Rightarrow> False | c # _ \<Rightarrow> c = 123)"

definition value_text :: "ext \<Rightarrow> json \<Rightarrow> string" where
  "value_text x v = (case v of JStr s \<Rightarrow> s | _ \<Rightarrow> json_show x v)"

definition flatten_attributes :: "ext \<Rightarrow> (string \<times> json) list \<Rightarrow> params \<Rightarrow> params" where
  "flatten_attributes x attrs ps = fold (\<lambda>(k, v). insert_param k (value_text x v)) attrs ps"

definition attribute_key :: "nat \<Rightarrow> string \<Rightarrow> string" where
  "attribute_key index field = ''MessageAttribute.'' @ show_nat index @ field"

text \<open>One field of a message attribute object: inserted only when it is a string.\<close>

definition insert_string_field :: "nat \<Rightarrow> (string \<times> json) list \<Rightarrow> string \<Rightarrow> params \<Rightarrow> params" where
  "insert_string_field index obj field ps =
     (case map_of obj field of
        Some (JStr s) \<Rightarrow> insert_param (attribute_key index (''.Value.'' @ field)) s ps
      | _ \<Rightarrow> ps)"

fun expand_message_attributes :: "nat \<Rightarrow> (string \<times> json) list \<Rightarrow> params \<Rightarrow> params" where
  "expand_message_attributes index [] ps = ps"
| "expand_message_attributes index ((attr_name, attr_value) # attrs) ps =
     (let ps1 = insert_param (attribute_key index ''.Name'') attr_name ps;
          ps2 = (case attr_value of
                   JObj obj \<Rightarrow>
                     insert_string_field index obj ''BinaryValue''
                       (insert_string_field index obj ''StringValue''
                         (insert_string_field index obj ''DataType'' ps1))
                 | _ \<Rightarrow> ps1) in
      expand_message_attributes (Suc index) attrs ps2)"

definition singular_key :: "string \<Rightarrow> string" where
  "singular_key key = (if ends_with ''s'' key then take (length key - 1) key else key)"

fun expand_array :: "ext \<Rightarrow> string \<Rightarrow> nat \<Rightarrow> json list \<Rightarrow> params \<Rightarrow> params" where
  "expand_array x key i [] ps = ps"
| "expand_array x key i (item # items) ps =
     expand_array x key (Suc i) items
       (insert_param (key @ ''.'' @ show_nat (i + 1)) (value_text x item) ps)"

text \<open>The general case of one member of the request object.\<close>

definition plain_member :: "ext \<Rightarrow> string \<Rightarrow> json \<Rightarrow> params \<Rightarrow> params" where
  "plain_member x key value ps =
     (case value of
        JStr s \<Rightarrow> insert_param key s ps
      | JNum n t \<Rightarrow> insert_param key (json_show x value) ps
      | JBool b \<Rightarrow> insert_param key (show_bool b) ps
      | JArr arr \<Rightarrow>
          (if key = ''Entries'' then insert_param key (json_show x value) ps
           else expand_array x (singular_key key) 0 arr ps)
      | JObj _ \<Rightarrow> insert_param key (json_show x value) ps
      | JNull \<Rightarrow> ps)"

definition json_member :: "ext \<Rightarrow> string \<Rightarrow> json \<Rightarrow> params \<Rightarrow> params" where
  "json_member x key value ps =
     (if key = ''Attributes'' then
        (case value of
           JObj attrs \<Rightarrow> flatten_attributes x attrs ps
         | JStr s \<Rightarrow>
             (if starts_with_brace s then
                (case json_parse x s of Some (JObj attrs) \<Rightarrow> flatten_attributes x attrs ps | _ \<Rightarrow> ps)
              else plain_member x key value ps)
         | _ \<Rightarrow> plain_member x key value ps)
      else if key = ''MessageAttributes'' then
        (case value of
           JObj attrs \<Rightarrow> expand_message_attributes 1 attrs ps
         | _ \<Rightarrow> plain_member x key value ps)
      else plain_member x key value ps)"

definition json_params :: "ext \<Rightarrow> json \<Rightarrow> params" where
  "json_params x v =
     (case v of JObj obj \<Rightarrow> fold (\<lambda>(key, value). json_member x key value) obj [] | _ \<Rightarrow> [])"

text \<open>\<open>target\<close> is the value of the header \<open>x-amz-target\<close>, where it is present and readable.\<close>

definition parse_json :: "ext \<Rightarrow> string option \<Rightarrow> string \<Rightarrow> string + sqs_request" where
  "parse_json x target input =
     (case target of None \<Rightarrow> Inl ''Missing X-Amz-Target header for JSON request'' | Some t \<Rightarrow>
      case strip_prefix ''AmazonSQS.'' t of None \<Rightarrow> Inl (''Invalid X-Amz-Target format: '' @ t) | Some action_str \<Rightarrow>
      case sqs_action_from_str action_str of Inl e \<Rightarrow> Inl (''Unknown action: '' @ e) | Inr action \<Rightarrow>
      case json_parse x input of None \<Rightarrow> Inl (''Failed to parse JSON body: '' @ json_error x input) | Some v \<Rightarrow>
        Inr \<lparr> rq_action = action, rq_params = json_params x v, rq_is_json = True \<rparr>)"

definition parse_with_headers :: "ext \<Rightarrow> string option \<Rightarrow> string \<Rightarrow> string + sqs_request" where
  "parse_with_headers x target input =
     (if starts_with_brace input then parse_json x target input else parse x input)"

section \<open>Reading parameters\<close>

definition get_param :: "sqs_request \<Rightarrow> string \<Rightarrow> string option" where
  "get_param r key = map_of (rq_params r) key"

definition get_required_param :: "sqs_request \<Rightarrow> string \<Rightarrow> string + string" where
  "get_required_param r key =
     (case get_param r key of None \<Rightarrow> Inl (''Missing required parameter: '' @ key) | Some v \<Rightarrow> Inr v)"

text \<open>\<open>loop { ... index += 1 ... else break }\<close>: the items found at \<open>index\<close>, \<open>index + 1\<close>, ...\<close>

fun numbered_loop :: "nat \<Rightarrow> nat \<Rightarrow> (nat \<Rightarrow> 'a option) \<Rightarrow> 'a list" where
  "numbered_loop 0 index f = []"
| "numbered_loop (Suc fuel) index f =
     (case f index of None \<Rightarrow> [] | Some a \<Rightarrow> a # numbered_loop fuel (Suc index) f)"

definition numbered :: "sqs_request \<Rightarrow> (nat \<Rightarrow> 'a option) \<Rightarrow> 'a list" where
  "numbered r f = numbered_loop (Suc (length (rq_params r))) 1 f"

definition numbered_key :: "string \<Rightarrow> nat \<Rightarrow> string \<Rightarrow> string" where
  "numbered_key prefix index suffix = prefix @ show_nat index @ suffix"

definition message_attribute_at :: "sqs_request \<Rightarrow> nat \<Rightarrow> (string \<times> sqs_attribute_value) option" where
  "message_attribute_at r index =
     (case (get_param r (numbered_key ''MessageAttribute.'' index ''.Name''),
            get_param r (numbered_key ''MessageAttribute.'' index ''.Value.DataType'')) of
        (Some name, Some ty) \<Rightarrow>
          Some (name, \<lparr> sa_data_type = ty,
             sa_string_value = get_param r (numbered_key ''MessageAttribute.'' index ''.Value.StringValue''),
             sa_binary_value = get_param r (numbered_key ''MessageAttribute.'' index ''.Value.BinaryValue'') \<rparr>)
      | _ \<Rightarrow> None)"

definition parse_message_attributes :: "sqs_request \<Rightarrow> sqs_attributes" where
  "parse_message_attributes r =
     fold (\<lambda>(k, v). AList.update k v) (numbered r (message_attribute_at r)) []"

definition known_attributes :: "string list" where
  "known_attributes =
     [''FifoQueue'', ''ContentBasedDeduplication'', ''VisibilityTimeout'', ''MessageRetentionPeriod'',
      ''DelaySeconds'', ''MaximumMessageSize'', ''ReceiveMessageWaitTimeSeconds'', ''RedrivePolicy'',
      ''RedriveAllowPolicy'']"

definition queue_attribute_at :: "sqs_request \<Rightarrow> nat \<Rightarrow> (string \<times> string) option" where
  "queue_attribute_at r index =
     (case (get_param r (numbered_key ''Attribute.'' index ''.Name''),
            get_param r (numbered_key ''Attribute.'' index ''.Value'')) of
        (Some name, Some value) \<Rightarrow> Some (name, value)
      | _ \<Rightarrow> None)"

definition parse_queue_attributes :: "sqs_request \<Rightarrow> params" where
  "parse_queue_attributes r =
     (let known = fold (\<lambda>k ps. case get_param r k of None \<Rightarrow> ps | Some v \<Rightarrow> insert_param k v ps)
                    known_attributes [] in
      fold (\<lambda>(k, v). insert_param k v) (numbered r (queue_attribute_at r)) known)"

text \<open>The array a JSON parameter holds, where it is one.\<close>

definition json_array_param :: "ext \<Rightarrow> sqs_request \<Rightarrow> string \<Rightarrow> json list option" where
  "json_array_param x r key =
     (case get_param r key of None \<Rightarrow> None | Some t \<Rightarrow>
      case json_parse x t of None \<Rightarrow> None | Some v \<Rightarrow> as_array v)"

definition filter_map :: "('a \<Rightarrow> 'b option) \<Rightarrow> 'a list \<Rightarrow> 'b list" where
  "filter_map f xs = concat (map (\<lambda>a. case f a of None \<Rightarrow> [] | Some b \<Rightarrow> [b]) xs)"

definition parse_attribute_names :: "ext \<Rightarrow> sqs_request \<Rightarrow> string list" where
  "parse_attribute_names x r =
     (case json_array_param x r ''AttributeNames'' of
        Some arr \<Rightarrow> filter_map as_str arr
      | None \<Rightarrow> numbered r (\<lambda>index. get_param r (numbered_key ''AttributeName.'' index [])))"


section \<open>Batch entries\<close>

record send_batch_entry =
  se_id :: string
  se_message_body :: string
  se_delay_seconds :: "u32 option"
  se_message_deduplication_id :: "string option"
  se_message_group_id :: "string option"

record delete_batch_entry =
  de_id :: string
  de_receipt_handle :: string

record visibility_batch_entry =
  ve_id :: string
  ve_receipt_handle :: string
  ve_visibility_timeout :: u32

text \<open>\<open>as u32\<close> of a \<open>u64\<close> keeps the low 32 bits.\<close>

definition as_u32 :: "u64 \<Rightarrow> u32" where
  "as_u32 n = ucast n"

definition json_send_entry :: "json \<Rightarrow> send_batch_entry option" where
  "json_send_entry entry =
     (case (as_str (json_get entry ''Id''), as_str (json_get entry ''MessageBody'')) of
        (Some i, Some b) \<Rightarrow>
          Some \<lparr> se_id = i, se_message_body = b,
                 se_delay_seconds = map_option as_u32 (as_u64 (json_get entry ''DelaySeconds'')),
                 se_message_deduplication_id = as_str (json_get entry ''MessageDeduplicationId''),
                 se_message_group_id = as_str (json_get entry ''MessageGroupId'') \<rparr>
      | _ \<Rightarrow> None)"

definition form_send_entry :: "sqs_request \<Rightarrow> nat \<Rightarrow> send_batch_entry option" where
  "form_send_entry r index =
     (let param = (\<lambda>f. get_param r (numbered_key ''SendMessageBatchRequestEntry.'' index f)) in
      case (param ''.Id'', param ''.MessageBody'') of
        (Some i, Some b) \<Rightarrow>
          Some \<lparr> se_id = i, se_message_body = b,
                 se_delay_seconds = (case param ''.DelaySeconds'' of None \<Rightarrow> None | Some s \<Rightarrow> parse_u32 s),
                 se_message_deduplication_id = param ''.MessageDeduplicationId'',
                 se_message_group_id = param ''.MessageGroupId'' \<rparr>
      | _ \<Rightarrow> None)"

definition parse_send_message_batch_entries :: "ext \<Rightarrow> sqs_request \<Rightarrow> send_batch_entry list" where
  "parse_send_message_batch_entries x r =
     (case json_array_param x r ''Entries'' of
        Some arr \<Rightarrow> filter_map json_send_entry arr
      | None \<Rightarrow> numbered r (form_send_entry r))"

definition json_delete_entry :: "json \<Rightarrow> delete_batch_entry option" where
  "json_delete_entry entry =
     (case (as_str (json_get entry ''Id''), as_str (json_get entry ''ReceiptHandle'')) of
        (Some i, Some h) \<Rightarrow> Some \<lparr> de_id = i, de_receipt_handle = h \<rparr>
      | _ \<Rightarrow> None)"

definition form_delete_entry :: "sqs_request \<Rightarrow> nat \<Rightarrow> delete_batch_entry option" where
  "form_delete_entry r index =
     (let param = (\<lambda>f. get_param r (numbered_key ''DeleteMessageBatchRequestEntry.'' index f)) in
      case (param ''.Id'', param ''.ReceiptHandle'') of
        (Some i, Some h) \<Rightarrow> Some \<lparr> de_id = i, de_receipt_handle = h \<rparr>
      | _ \<Rightarrow> None)"

definition parse_delete_message_batch_entries :: "ext \<Rightarrow> sqs_request \<Rightarrow> delete_batch_entry list" where
  "parse_delete_message_batch_entries x r =
     (case json_array_param x r ''Entries'' of
        Some arr \<Rightarrow> filter_map json_delete_entry arr
      | None \<Rightarrow> numbered r (form_delete_entry r))"

definition json_visibility_entry :: "json \<Rightarrow> visibility_batch_entry option" where
  "json_visibility_entry entry =
     (case (as_str (json_get entry ''Id''), as_str (json_get entry ''ReceiptHandle''),
            as_u64 (json_get entry ''VisibilityTimeout'')) of
        (Some i, Some h, Some n) \<Rightarrow>
          Some \<lparr> ve_id = i, ve_receipt_handle = h, ve_visibility_timeout = as_u32 n \<rparr>
      | _ \<Rightarrow> None)"

text \<open>An entry whose timeout does not parse is dropped, and the loop goes on.\<close>

definition form_visibility_entry :: "sqs_request \<Rightarrow> nat \<Rightarrow> visibility_batch_entry option option" where
  "form_visibility_entry r index =
     (let param = (\<lambda>f. get_param r (numbered_key ''ChangeMessageVisibilityBatchRequestEntry.'' index f)) in
      case (param ''.Id'', param ''.ReceiptHandle'', param ''.VisibilityTimeout'') of
        (Some i, Some h, Some timeout_str) \<Rightarrow>
          Some (case parse_u32 timeout_str of
                  None \<Rightarrow> None
                | Some n \<Rightarrow> Some \<lparr> ve_id = i, ve_receipt_handle = h, ve_visibility_timeout = n \<rparr>)
      | _ \<Rightarrow> None)"

definition parse_change_visibility_batch_entries :: "ext \<Rightarrow> sqs_request \<Rightarrow> visibility_batch_entry list" where
  "parse_change_visibility_batch_entries x r =
     (case json_array_param x r ''Entries'' of
        Some arr \<Rightarrow> filter_map json_visibility_entry arr
      | None \<Rightarrow> filter_map (\<lambda>e. e) (numbered r (form_visibility_entry r)))"

text \<open>\<open>split('/').next_back()\<close>, unless it is empty.\<close>

definition extract_queue_name_from_url :: "string \<Rightarrow> string option" where
  "extract_queue_name_from_url queue_url =
     (let s = last (split_on (CHR ''/'') queue_url) in if s = [] then None else Some s)"

section \<open>The numbered loops\<close>

lemma numbered_loop_run:
  "\<exists>n \<le> fuel. numbered_loop fuel index f = map (\<lambda>i. the (f i)) [index..<index + n] \<and>
     (\<forall>i \<in> {index..<index + n}. f i \<noteq> None) \<and> (n < fuel \<longrightarrow> f (index + n) = None)"
proof (induction fuel arbitrary: index)
  case 0
  show ?case by simp
next
  case (Suc fuel)
  show ?case
  proof (cases "f index")
    case None
    then show ?thesis by (intro exI [of _ 0]) simp
  next
    case (Some a)
    obtain n where n: "n \<le> fuel" "numbered_loop fuel (Suc index) f = map (\<lambda>i. the (f i)) [Suc index..<Suc index + n]"
      "\<forall>i \<in> {Suc index..<Suc index + n}. f i \<noteq> None" "n < fuel \<longrightarrow> f (Suc index + n) = None"
      using Suc.IH [of "Suc index"] by blast
    show ?thesis
    proof (intro exI [of _ "Suc n"] conjI)
      show "numbered_loop (Suc fuel) index f = map (\<lambda>i. the (f i)) [index..<index + Suc n]"
        using n(2) Some by (simp add: upt_conv_Cons [of index] del: upt_Suc)
      show "\<forall>i \<in> {index..<index + Suc n}. f i \<noteq> None"
      proof
        fix i
        assume "i \<in> {index..<index + Suc n}"
        then have "i = index \<or> i \<in> {Suc index..<Suc index + n}" by auto
        then show "f i \<noteq> None" using n(3) Some by auto
      qed
    qed (use n in auto)
  qed
qed

lemma numbered_key_inj: "numbered_key p i s = numbered_key p j s \<longleftrightarrow> i = j"
  by (simp add: numbered_key_def)

text \<open>The keys of \<open>n\<close> successive indices are \<open>n\<close> different parameters.\<close>

lemma numbered_fuel:
  assumes "\<forall>i \<in> {1..<1 + n}. get_param r (numbered_key p i s) \<noteq> None"
  shows "n \<le> length (rq_params r)"
proof -
  have "(\<lambda>i. numbered_key p i s) ` {1..<1 + n} \<subseteq> set (map fst (rq_params r))"
    using assms by (auto simp: get_param_def map_of_eq_None_iff)
  then have "card ((\<lambda>i. numbered_key p i s) ` {1..<1 + n}) \<le> card (set (map fst (rq_params r)))"
    by (intro card_mono) simp_all
  also have "\<dots> \<le> length (rq_params r)" using card_length [of "map fst (rq_params r)"] by simp
  finally show ?thesis by (simp add: card_image inj_on_def numbered_key_inj)
qed

text \<open>A reader of numbered items returns the maximal run of items from index one.\<close>

lemma numbered_run:
  assumes "\<And>i. f i \<noteq> None \<Longrightarrow> get_param r (numbered_key p i s) \<noteq> None"
  shows "\<exists>n. numbered r f = map (\<lambda>i. the (f i)) [1..<1 + n] \<and> (\<forall>i \<in> {1..<1 + n}. f i \<noteq> None) \<and> f (1 + n) = None"
proof -
  obtain n where n: "n \<le> Suc (length (rq_params r))" "numbered r f = map (\<lambda>i. the (f i)) [1..<1 + n]"
    "\<forall>i \<in> {1..<1 + n}. f i \<noteq> None" "n < Suc (length (rq_params r)) \<longrightarrow> f (1 + n) = None"
    using numbered_loop_run [of "Suc (length (rq_params r))" 1 f] unfolding numbered_def by blast
  have "n \<le> length (rq_params r)" by (rule numbered_fuel [of n r p s]) (use n(3) assms in blast)
  then show ?thesis using n by auto
qed


lemma show_nat_small: "show_nat (Suc 0) = ''1''" "show_nat 2 = ''2''"
  by code_simp+

text \<open>
  The loop that reads the entries of a form-encoded batch terminates and returns
  exactly the entries numbered from one up to the first missing number.
\<close>

theorem send_batch_entries_run:
  assumes "json_array_param x r ''Entries'' = None"
  shows "\<exists>n. parse_send_message_batch_entries x r = map (\<lambda>i. the (form_send_entry r i)) [1..<1 + n] \<and>
    (\<forall>i \<in> {1..<1 + n}. form_send_entry r i \<noteq> None) \<and> form_send_entry r (1 + n) = None"
proof -
  have "form_send_entry r i \<noteq> None \<Longrightarrow>
      get_param r (numbered_key ''SendMessageBatchRequestEntry.'' i ''.Id'') \<noteq> None" for i
    by (auto simp: form_send_entry_def Let_def split: option.splits)
  then have "\<exists>n. numbered r (form_send_entry r) = map (\<lambda>i. the (form_send_entry r i)) [1..<1 + n] \<and>
    (\<forall>i \<in> {1..<1 + n}. form_send_entry r i \<noteq> None) \<and> form_send_entry r (1 + n) = None"
    by (rule numbered_run)
  then show ?thesis by (simp only: parse_send_message_batch_entries_def assms option.case)
qed

theorem send_batch_entries_run_witness:
  "\<exists>n. parse_send_message_batch_entries sample_ext
       \<lparr> rq_action = ActSendMessageBatch,
         rq_params = [(''SendMessageBatchRequestEntry.1.Id'', ''m''), (''SendMessageBatchRequestEntry.1.MessageBody'', ''hi'')],
         rq_is_json = False \<rparr> =
     replicate n \<lparr> se_id = ''m'', se_message_body = ''hi'', se_delay_seconds = None,
       se_message_deduplication_id = None, se_message_group_id = None \<rparr> \<and> n = 1"
proof -
  define r where "r = \<lparr> rq_action = ActSendMessageBatch,
         rq_params = [(''SendMessageBatchRequestEntry.1.Id'', ''m''), (''SendMessageBatchRequestEntry.1.MessageBody'', ''hi'')],
         rq_is_json = False \<rparr>"
  have "json_array_param sample_ext r ''Entries'' = None"
    by (simp add: json_array_param_def get_param_def r_def)
  from send_batch_entries_run [OF this] obtain n where
    n: "parse_send_message_batch_entries sample_ext r = map (\<lambda>i. the (form_send_entry r i)) [1..<1 + n]"
      "\<forall>i \<in> {1..<1 + n}. form_send_entry r i \<noteq> None" "form_send_entry r (1 + n) = None" by blast
  have one: "form_send_entry r 1 = Some \<lparr> se_id = ''m'', se_message_body = ''hi'', se_delay_seconds = None,
       se_message_deduplication_id = None, se_message_group_id = None \<rparr>"
    by (simp add: form_send_entry_def numbered_key_def get_param_def r_def show_nat_small)
  have two: "form_send_entry r 2 = None"
    by (simp add: form_send_entry_def numbered_key_def get_param_def r_def show_nat_small)
  have "n = 1"
  proof (rule ccontr)
    assume "n \<noteq> 1"
    then have "n = 0 \<or> 2 \<in> {1..<1 + n}" by auto
    then show False
    proof
      assume "n = 0"
      then show False using n(3) one by simp
    next
      assume "2 \<in> {1..<1 + n}"
      then have "form_send_entry r 2 \<noteq> None" using n(2) by blast
      then show False using two by simp
    qed
  qed
  then show ?thesis using n(1) one unfolding r_def by simp
qed

section \<open>Round trips\<close>

definition form_encode :: "(string \<Rightarrow> string) \<Rightarrow> (string \<times> string) list \<Rightarrow> string" where
  "form_encode enc kvs = join ''&'' (map (\<lambda>(k, v). enc k @ ''='' @ enc v) kvs)"

lemma replace_char_none: "c \<notin> set s \<Longrightarrow> replace_char c r s = s"
  by (induction s) (auto simp: replace_char_def)

lemma split_once_append: "d \<notin> set a \<Longrightarrow> split_once d (a @ d # b) = Some (a, b)"
proof -
  assume d: "d \<notin> set a"
  then have "takeWhile (\<lambda>c. c \<noteq> d) (a @ d # b) = a" "dropWhile (\<lambda>c. c \<noteq> d) (a @ d # b) = d # b"
    by (induction a) auto
  then show ?thesis by (simp add: split_once_def)
qed

lemma alist_update_end: "k \<notin> fst ` set al \<Longrightarrow> AList.update k v al = al @ [(k, v)]"
  by (induction al) auto

text \<open>
  The form parser inverts form encoding: for any percent-encoder that the decoder
  inverts and that leaves no separator, parsing the encoded parameters gives them back in
  order.
\<close>

theorem parse_form_data_roundtrip:
  assumes "\<forall>s. url_decode x (enc s) = Some s"
    and "\<forall>s. CHR ''&'' \<notin> set (enc s) \<and> CHR ''='' \<notin> set (enc s) \<and> CHR ''+'' \<notin> set (enc s)"
    and "kvs \<noteq> []" and "distinct (map fst kvs)"
  shows "parse_form_data x (form_encode enc kvs) = kvs"
proof -
  have pair: "form_pair x (enc k @ ''='' @ enc v) ps = insert_param k v ps" for k v ps
    using assms(1,2) by (simp add: form_pair_def split_once_append replace_char_none)
  have "fold (form_pair x) (map (\<lambda>(k, v). enc k @ ''='' @ enc v) kvs) ps = ps @ kvs"
    if "distinct (map fst (ps @ kvs))" for ps
    using that
  proof (induction kvs arbitrary: ps)
    case (Cons p kvs)
    obtain k v where p: "p = (k, v)" by (cases p)
    have "form_pair x (enc k @ ''='' @ enc v) ps = ps @ [(k, v)]"
      unfolding pair using Cons.prems by (simp add: insert_param_def p alist_update_end)
    then show ?case using Cons.IH [of "ps @ [p]"] Cons.prems by (simp add: p)
  qed simp
  from this [of "[]"] have "fold (form_pair x) (map (\<lambda>(k, v). enc k @ ''='' @ enc v) kvs) [] = kvs"
    using assms(4) by simp
  moreover have "split_on (CHR ''&'') (form_encode enc kvs) = map (\<lambda>(k, v). enc k @ ''='' @ enc v) kvs"
    unfolding form_encode_def using assms(2,3) by (intro split_on_join) auto
  ultimately show ?thesis by (simp add: parse_form_data_def)
qed

theorem parse_form_data_roundtrip_witness:
  "parse_form_data (sample_ext\<lparr>url_decode := unletters\<rparr>) (form_encode letters [(''Action'', ''ListQueues''), (''A&b'', ''1=2+3'')]) =
     [(''Action'', ''ListQueues''), (''A&b'', ''1=2+3'')]"
proof (rule parse_form_data_roundtrip)
  show "\<forall>s. CHR ''&'' \<notin> set (letters s) \<and> CHR ''='' \<notin> set (letters s) \<and> CHR ''+'' \<notin> set (letters s)"
    using letters_range by fastforce
qed simp_all

end
