(* ===== verification/Sqs_Response.thy ===== *)
theory Sqs_Response
  imports Sqs_Types
begin

text \<open>
  XML responses (\<open>src/sqs/response.rs\<close>).  The argument \<open>rid\<close> is the UUID a builder draws
  for the request identifier.
\<close>

section \<open>Escaping\<close>

definition dquote :: char where "dquote = CHR 0x22"
definition squote :: char where "squote = CHR 0x27"
definition nl :: string where "nl = [CHR 0x0A]"

definition escape_xml :: "string \<Rightarrow> string" where
  "escape_xml s =
     replace_char squote ''&apos;''
       (replace_char dquote ''&quot;''
         (replace_char (CHR ''>'') ''&gt;''
           (replace_char (CHR ''<'') ''&lt;''
             (replace_char (CHR ''&'') ''&amp;'' s))))"

definition unescape_xml :: "string \<Rightarrow> string" where
  "unescape_xml s =
     replace_str ''&amp;'' ''&''
       (replace_str ''&gt;'' ''>''
         (replace_str ''&lt;'' ''<''
           (replace_str ''&apos;'' [squote]
             (replace_str ''&quot;'' [dquote] s))))"

section \<open>The builder\<close>

record xml_response_builder =
  xb_action :: string
  xb_request_id :: string
  xb_elements :: "(string \<times> string) list"

definition new_builder :: "string \<Rightarrow> string \<Rightarrow> xml_response_builder" where
  "new_builder rid action = \<lparr> xb_action = action, xb_request_id = rid, xb_elements = [] \<rparr>"

definition add_element :: "string \<Rightarrow> string \<Rightarrow> xml_response_builder \<Rightarrow> xml_response_builder" where
  "add_element name value b = b\<lparr>xb_elements := xb_elements b @ [(name, value)]\<rparr>"

definition xml_declaration :: string where
  "xml_declaration = ''<?xml version='' @ [dquote] @ ''1.0'' @ [dquote] @ ''?>''"

definition open_response :: "string \<Rightarrow> string" where
  "open_response tag =
     ''<'' @ tag @ '' xmlns='' @ [dquote] @ ''http://queue.amazonaws.com/doc/2012-11-05/'' @ [dquote] @ ''>''"

definition response_metadata :: "string \<Rightarrow> string" where
  "response_metadata rid =
     ''  <ResponseMetadata>'' @ nl @ ''    <RequestId>'' @ rid @ ''</RequestId>'' @ nl @
     ''  </ResponseMetadata>'' @ nl"

definition build :: "xml_response_builder \<Rightarrow> string" where
  "build b =
     xml_declaration @ nl @ open_response (xb_action b @ ''Response'') @ nl @
     ''  <'' @ xb_action b @ ''Result>'' @ nl @
     concat (map (\<lambda>(name, value).
        ''    <'' @ name @ ''>'' @ escape_xml value @ ''</'' @ name @ ''>'' @ nl) (xb_elements b)) @
     ''  </'' @ xb_action b @ ''Result>'' @ nl @
     response_metadata (xb_request_id b) @ ''</'' @ xb_action b @ ''Response>''"

definition build_error_response :: "string \<Rightarrow> sqs_error_code \<Rightarrow> string \<Rightarrow> string" where
  "build_error_response rid code message =
     xml_declaration @ nl @ open_response ''ErrorResponse'' @ nl @
     ''  <Error>'' @ nl @ ''    <Type>Sender</Type>'' @ nl @
     ''    <Code>'' @ sqs_error_code_as_str code @ ''</Code>'' @ nl @
     ''    <Message>'' @ escape_xml message @ ''</Message>'' @ nl @
     ''  </Error>'' @ nl @ ''  <RequestId>'' @ rid @ ''</RequestId>'' @ nl @ ''</ErrorResponse>''"

definition build_send_message_response :: "string \<Rightarrow> string \<Rightarrow> string \<Rightarrow> string option \<Rightarrow> string" where
  "build_send_message_response rid message_id md5_of_body md5_of_attrs =
     (let builder = add_element ''MD5OfMessageBody'' md5_of_body
            (add_element ''MessageId'' message_id (new_builder rid ''SendMessage'')) in
      case md5_of_attrs of
        Some md5 \<Rightarrow> build (add_element ''MD5OfMessageAttributes'' md5 builder)
      | None \<Rightarrow> build builder)"

section \<open>Batch responses\<close>

record batch_result_entry =
  br_id :: string
  br_message_id :: string
  br_md5_of_body :: string
  br_md5_of_attrs :: "string option"

record batch_error_entry =
  be_id :: string
  be_code :: string
  be_message :: string
  be_sender_fault :: bool

text \<open>One line \<open>      <Tag>text</Tag>\<close>.\<close>

definition entry_line :: "string \<Rightarrow> string \<Rightarrow> string" where
  "entry_line tag content = ''      <'' @ tag @ ''>'' @ content @ ''</'' @ tag @ ''>'' @ nl"

definition batch_result_xml :: "batch_result_entry \<Rightarrow> string" where
  "batch_result_xml entry =
     ''    <SendMessageBatchResultEntry>'' @ nl @
     entry_line ''Id'' (escape_xml (br_id entry)) @
     entry_line ''MessageId'' (escape_xml (br_message_id entry)) @
     entry_line ''MD5OfMessageBody'' (escape_xml (br_md5_of_body entry)) @
     (case br_md5_of_attrs entry of
        None \<Rightarrow> []
      | Some md5 \<Rightarrow> entry_line ''MD5OfMessageAttributes'' (escape_xml md5)) @
     ''    </SendMessageBatchResultEntry>'' @ nl"

definition batch_error_xml :: "batch_error_entry \<Rightarrow> string" where
  "batch_error_xml entry =
     ''    <BatchResultErrorEntry>'' @ nl @
     entry_line ''Id'' (escape_xml (be_id entry)) @
     entry_line ''Code'' (escape_xml (be_code entry)) @
     entry_line ''Message'' (escape_xml (be_message entry)) @
     entry_line ''SenderFault'' (show_bool (be_sender_fault entry)) @
     ''    </BatchResultErrorEntry>'' @ nl"

text \<open>A success entry that holds an identifier only.\<close>

definition id_entry_xml :: "string \<Rightarrow> string \<Rightarrow> string" where
  "id_entry_xml tag i =
     ''    <'' @ tag @ ''>'' @ nl @ entry_line ''Id'' (escape_xml i) @ ''    </'' @ tag @ ''>'' @ nl"

definition batch_response :: "string \<Rightarrow> string \<Rightarrow> string \<Rightarrow> string" where
  "batch_response rid action entries =
     xml_declaration @ nl @ open_response (action @ ''Response'') @ nl @
     ''  <'' @ action @ ''Result>'' @ nl @ entries @ ''  </'' @ action @ ''Result>'' @ nl @
     response_metadata rid @ ''</'' @ action @ ''Response>''"

definition build_send_message_batch_response ::
    "string \<Rightarrow> batch_result_entry list \<Rightarrow> batch_error_entry list \<Rightarrow> string" where
  "build_send_message_batch_response rid successful failed =
     batch_response rid ''SendMessageBatch''
       (concat (map batch_result_xml successful) @ concat (map batch_error_xml failed))"

definition build_delete_message_batch_response :: "string \<Rightarrow> string list \<Rightarrow> batch_error_entry list \<Rightarrow> string" where
  "build_delete_message_batch_response rid successful failed =
     batch_response rid ''DeleteMessageBatch''
       (concat (map (id_entry_xml ''DeleteMessageBatchResultEntry'') successful) @
        concat (map batch_error_xml failed))"

definition build_change_visibility_batch_response :: "string \<Rightarrow> string list \<Rightarrow> batch_error_entry list \<Rightarrow> string" where
  "build_change_visibility_batch_response rid successful failed =
     batch_response rid ''ChangeMessageVisibilityBatch''
       (concat (map (id_entry_xml ''ChangeMessageVisibilityBatchResultEntry'') successful) @
        concat (map batch_error_xml failed))"

section \<open>Receive responses\<close>

record message_attribute_info =
  mi_data_type :: string
  mi_string_value :: "string option"

record received_message_info =
  ri_message_id :: string
  ri_receipt_handle :: string
  ri_md5_of_body :: string
  ri_body :: string
  ri_attributes :: "(string \<times> string) list"
  ri_message_attributes :: "(string \<times> message_attribute_info) list"

definition attribute_xml :: "string \<times> string \<Rightarrow> string" where
  "attribute_xml p =
     (case p of (key, value) \<Rightarrow>
        ''      <Attribute>'' @ nl @
        ''        <Name>'' @ key @ ''</Name>'' @ nl @
        ''        <Value>'' @ escape_xml value @ ''</Value>'' @ nl @
        ''      </Attribute>'' @ nl)"

definition message_attribute_xml :: "string \<times> message_attribute_info \<Rightarrow> string" where
  "message_attribute_xml p =
     (case p of (key, value) \<Rightarrow>
        ''      <MessageAttribute>'' @ nl @
        ''        <Name>'' @ key @ ''</Name>'' @ nl @
        ''        <Value>'' @ nl @
        ''          <DataType>'' @ mi_data_type value @ ''</DataType>'' @ nl @
        (case mi_string_value value of
           None \<Rightarrow> []
         | Some s \<Rightarrow> ''          <StringValue>'' @ escape_xml s @ ''</StringValue>'' @ nl) @
        ''        </Value>'' @ nl @
        ''      </MessageAttribute>'' @ nl)"

definition message_xml :: "received_message_info \<Rightarrow> string" where
  "message_xml msg =
     ''    <Message>'' @ nl @
     entry_line ''MessageId'' (ri_message_id msg) @
     entry_line ''ReceiptHandle'' (ri_receipt_handle msg) @
     entry_line ''MD5OfBody'' (ri_md5_of_body msg) @
     entry_line ''Body'' (escape_xml (ri_body msg)) @
     concat (map attribute_xml (ri_attributes msg)) @
     concat (map message_attribute_xml (ri_message_attributes msg)) @
     ''    </Message>'' @ nl"

definition build_receive_message_response :: "string \<Rightarrow> received_message_info list \<Rightarrow> string" where
  "build_receive_message_response rid messages =
     batch_response rid ''ReceiveMessage'' (concat (map message_xml messages))"

section \<open>The other responses\<close>

definition build_create_queue_response :: "string \<Rightarrow> string \<Rightarrow> string" where
  "build_create_queue_response rid queue_url =
     build (add_element ''QueueUrl'' queue_url (new_builder rid ''CreateQueue''))"

definition build_get_queue_url_response :: "string \<Rightarrow> string \<Rightarrow> string" where
  "build_get_queue_url_response rid queue_url =
     build (add_element ''QueueUrl'' queue_url (new_builder rid ''GetQueueUrl''))"

definition build_delete_message_response :: "string \<Rightarrow> string" where
  "build_delete_message_response rid = build (new_builder rid ''DeleteMessage'')"

definition build_tag_queue_response :: "string \<Rightarrow> string" where
  "build_tag_queue_response rid = build (new_builder rid ''TagQueue'')"

definition build_untag_queue_response :: "string \<Rightarrow> string" where
  "build_untag_queue_response rid = build (new_builder rid ''UntagQueue'')"

definition build_change_message_visibility_response :: "string \<Rightarrow> string" where
  "build_change_message_visibility_response rid = build (new_builder rid ''ChangeMessageVisibility'')"

definition build_list_queues_response :: "string \<Rightarrow> string list \<Rightarrow> string" where
  "build_list_queues_response rid queue_urls =
     batch_response rid ''ListQueues''
       (concat (map (\<lambda>url. ''    <QueueUrl>'' @ escape_xml url @ ''</QueueUrl>'' @ nl) queue_urls))"

definition build_get_queue_attributes_response :: "string \<Rightarrow> (string \<times> string) list \<Rightarrow> string" where
  "build_get_queue_attributes_response rid attrs =
     batch_response rid ''GetQueueAttributes''
       (concat (map (\<lambda>(name, value).
          ''    <Attribute>'' @ nl @
          entry_line ''Name'' (escape_xml name) @
          entry_line ''Value'' (escape_xml value) @
          ''    </Attribute>'' @ nl) attrs))"

section \<open>The escape round trip\<close>

text \<open>The five replacements at once, one character at a time.\<close>

definition escape_char :: "char \<Rightarrow> string" where
  "escape_char c =
     (if c = CHR ''&'' then ''&amp;'' else if c = CHR ''<'' then ''&lt;'' else if c = CHR ''>'' then ''&gt;''
      else if c = dquote then ''&quot;'' else if c = squote then ''&apos;'' else [c])"

lemma replace_char_Cons [simp]:
  "replace_char d r (c # s) = (if c = d then r else [c]) @ replace_char d r s"
  by (simp add: replace_char_def)

lemma replace_char_Nil [simp]: "replace_char d r [] = []"
  by (simp add: replace_char_def)

lemma replace_char_append [simp]: "replace_char d r (s @ t) = replace_char d r s @ replace_char d r t"
  by (simp add: replace_char_def)

lemma escape_xml_eq: "escape_xml s = concat (map escape_char s)"
  by (induction s) (auto simp: escape_xml_def escape_char_def dquote_def squote_def)

text \<open>Replacing an entity in a text made of whole entities and characters other than \<open>&\<close>.\<close>

definition entity_word :: "string \<Rightarrow> bool" where
  "entity_word w \<longleftrightarrow>
     (case w of [] \<Rightarrow> False
      | c # r \<Rightarrow> (c \<noteq> CHR ''&'' \<and> r = []) \<or>
                 (c = CHR ''&'' \<and> r \<noteq> [] \<and> last r = CHR '';'' \<and> CHR '';'' \<notin> set (butlast r) \<and> CHR ''&'' \<notin> set r))"

lemma replace_str_skip:
  "CHR ''&'' \<notin> set w \<Longrightarrow> replace_str (CHR ''&'' # p) r (w @ t) = w @ replace_str (CHR ''&'' # p) r t"
  by (induction w) auto

lemma entity_prefix:
  assumes "CHR '';'' \<notin> set v" and "CHR '';'' \<notin> set p" and "starts_with (p @ [CHR '';'']) (v @ CHR '';'' # t)"
  shows "p = v"
  using assms by (induction p arbitrary: v) (case_tac v; auto)+

lemma replace_entity:
  assumes "entity_word w" and "CHR '';'' \<notin> set p" and "CHR ''&'' \<notin> set p"
  shows "replace_str (CHR ''&'' # p @ [CHR '';'']) r (w @ t) =
    (if w = CHR ''&'' # p @ [CHR '';''] then r else w) @ replace_str (CHR ''&'' # p @ [CHR '';'']) r t"
proof (cases w)
  case (Cons c v)
  show ?thesis
  proof (cases "c = CHR ''&''")
    case False
    then show ?thesis using assms(1) Cons by (auto simp: entity_word_def)
  next
    case True
    then have v: "v \<noteq> []" "last v = CHR '';''" "CHR '';'' \<notin> set (butlast v)" "CHR ''&'' \<notin> set v"
      using assms(1) Cons by (auto simp: entity_word_def)
    then have v': "v = butlast v @ [CHR '';'']" by (metis append_butlast_last_id)
    show ?thesis
    proof (cases "starts_with (p @ [CHR '';'']) (v @ t)")
      case hit: True
      then have "p = butlast v"
        using entity_prefix [OF v(3) assms(2), of t] v' by (metis append.assoc append_Cons append_Nil)
      then have "v = p @ [CHR '';'']" using v' by simp
      then show ?thesis using Cons True hit by simp
    next
      case miss: False
      have "v \<noteq> p @ [CHR '';'']"
        using miss starts_with_append [of "p @ [CHR '';'']" t] by blast
      then show ?thesis using Cons True miss replace_str_skip [OF v(4)] by simp
    qed
  qed
qed (use assms(1) in \<open>simp add: entity_word_def\<close>)

lemma replace_entity_concat:
  assumes "\<forall>c. entity_word (f c)" and "CHR '';'' \<notin> set p" and "CHR ''&'' \<notin> set p"
  shows "replace_str (CHR ''&'' # p @ [CHR '';'']) r (concat (map f s)) =
    concat (map (\<lambda>c. if f c = CHR ''&'' # p @ [CHR '';''] then r else f c) s)"
  by (induction s) (simp_all add: replace_entity [OF _ assms(2,3)] assms(1))


lemma dquote_squote: "dquote \<noteq> CHR ''&''" "squote \<noteq> CHR ''&''" "dquote \<noteq> squote"
  "dquote \<noteq> CHR ''<''" "squote \<noteq> CHR ''<''" "dquote \<noteq> CHR ''>''" "squote \<noteq> CHR ''>''"
  by (simp_all add: dquote_def squote_def)

text \<open>
  Escaping is undone by unescaping: every text survives the round trip, including texts
  that already contain entities.
\<close>

theorem unescape_escape_xml: "unescape_xml (escape_xml s) = s"
proof -
  note step = replace_entity_concat [where r = "[dquote]" and p = "''quot''"]
    replace_entity_concat [where r = "[squote]" and p = "''apos''"]
    replace_entity_concat [where r = "''<''" and p = "''lt''"]
    replace_entity_concat [where r = "''>''" and p = "''gt''"]
    replace_entity_concat [where r = "''&''" and p = "''amp''"]
  define f1 where "f1 = (\<lambda>c. if escape_char c = ''&quot;'' then [dquote] else escape_char c)"
  define f2 where "f2 = (\<lambda>c. if f1 c = ''&apos;'' then [squote] else f1 c)"
  define f3 where "f3 = (\<lambda>c. if f2 c = ''&lt;'' then ''<'' else f2 c)"
  define f4 where "f4 = (\<lambda>c. if f3 c = ''&gt;'' then ''>'' else f3 c)"
  have words: "\<forall>c. entity_word (escape_char c)" "\<forall>c. entity_word (f1 c)" "\<forall>c. entity_word (f2 c)"
    "\<forall>c. entity_word (f3 c)" "\<forall>c. entity_word (f4 c)"
    by (simp_all add: f1_def f2_def f3_def f4_def escape_char_def entity_word_def dquote_squote)
  have "(if f4 c = ''&amp;'' then ''&'' else f4 c) = [c]" for c
    by (simp add: f1_def f2_def f3_def f4_def escape_char_def)
  then have "unescape_xml (escape_xml s) = concat (map (\<lambda>c. [c]) s)"
    using step(1) [OF words(1)] step(2) [OF words(2)] step(3) [OF words(3)] step(4) [OF words(4)]
      step(5) [OF words(5)]
    unfolding unescape_xml_def escape_xml_eq by (simp add: f1_def f2_def f3_def f4_def)
  then show ?thesis by simp
qed

end
