(* ===== verification/Sqs_Json.thy ===== *)
theory Sqs_Json
  imports Sqs_Response
begin

text \<open>
  \<open>xml_to_json_response\<close> (\<open>src/sqs/handler.rs\<close>): the JSON protocol answers with a scrape of
  the XML answer.  A slice \<open>&xml[a..b]\<close> with \<open>a > b\<close> panics; the result of a conversion is
  a sum with the panic on the left.  A \<open>serde_json::Map\<close> is a \<open>BTreeMap\<close>, an association
  list sorted by key.
\<close>

section \<open>Slices and maps\<close>

definition and_then :: "'a result \<Rightarrow> ('a \<Rightarrow> 'b result) \<Rightarrow> 'b result" where
  "and_then r f = (case r of Inl e \<Rightarrow> Inl e | Inr a \<Rightarrow> f a)"

definition slice :: "nat \<Rightarrow> nat \<Rightarrow> string \<Rightarrow> string result" where
  "slice a b s =
     (if a \<le> b \<and> b \<le> length s then Inr (take (b - a) (drop a s))
      else Inl (Panic ''slice index out of range''))"

text \<open>\<open>if let Some(i) = s.find(open) { if let Some(j) = s.find(close) { &s[i + open.len()..j] } }\<close>\<close>

definition extract_between :: "string \<Rightarrow> string \<Rightarrow> string \<Rightarrow> string option result" where
  "extract_between open_tag close_tag s =
     (case find_sub open_tag s of None \<Rightarrow> Inr None | Some i \<Rightarrow>
      case find_sub close_tag s of None \<Rightarrow> Inr None | Some j \<Rightarrow>
        and_then (slice (i + length open_tag) j s) (\<lambda>t. Inr (Some t)))"

fun map_insert :: "string \<Rightarrow> 'v \<Rightarrow> (string \<times> 'v) list \<Rightarrow> (string \<times> 'v) list" where
  "map_insert k v [] = [(k, v)]"
| "map_insert k v ((k', v') # kvs) =
     (if k = k' then (k, v) # kvs
      else if k < k' then (k, v) # (k', v') # kvs
      else (k', v') # map_insert k v kvs)"

definition start_tag :: "string \<Rightarrow> string" where "start_tag t = ''<'' @ t @ ''>''"
definition end_tag :: "string \<Rightarrow> string" where "end_tag t = ''</'' @ t @ ''>''"

text \<open>
  \<open>while let Some(start) = xml[pos..].find(open) { if let Some(end) = xml[pos + start..].find(close) { ... } else { break } }\<close>:
  the pieces of the text from an opening tag to the end of the next closing tag.
\<close>

lemma find_sub_bound: "find_sub p s = Some i \<Longrightarrow> i + length p \<le> length s"
proof (induction s arbitrary: i)
  case (Cons c s)
  show ?case
  proof (cases "starts_with p (c # s)")
    case True
    then obtain t where "c # s = p @ t" by (auto simp: starts_with_iff)
    then have "length p \<le> length (c # s)" by (metis le_add1 length_append)
    then show ?thesis using Cons.prems True by simp
  next
    case False
    then obtain j where "find_sub p s = Some j" "i = Suc j" using Cons.prems by auto
    then show ?thesis using Cons.IH by fastforce
  qed
qed (auto split: if_splits)

function segments :: "string \<Rightarrow> string \<Rightarrow> string list" where
  "segments tag rest =
     (case find_sub (start_tag tag) rest of None \<Rightarrow> [] | Some start \<Rightarrow>
        (let r = drop start rest in
         case find_sub (end_tag tag) r of None \<Rightarrow> [] | Some stop \<Rightarrow>
           (let n = stop + length (end_tag tag) in
            take n r # segments tag (drop n r))))"
  by pat_completeness auto

termination
proof (relation "measure (\<lambda>(tag, rest). length rest)")
  fix tag rest start r stop n
  assume "find_sub (start_tag tag) rest = Some start" and r: "r = drop start rest"
    and stop: "find_sub (end_tag tag) r = Some stop" and n: "n = stop + length (end_tag tag)"
  have "0 < n" "n \<le> length r"
    using find_sub_bound [OF stop] n by (simp_all add: end_tag_def)
  then show "((tag, drop n r), tag, rest) \<in> measure (\<lambda>(tag, rest). length rest)"
    by (simp add: r)
qed simp

declare segments.simps [simp del]

fun traverse :: "('a \<Rightarrow> 'b result) \<Rightarrow> 'a list \<Rightarrow> 'b list result" where
  "traverse f [] = Inr []"
| "traverse f (a # as) = and_then (f a) (\<lambda>b. and_then (traverse f as) (\<lambda>bs. Inr (b # bs)))"

type_synonym json_map = "(string \<times> json) list"

text \<open>Insert the text of an element under a key, where the element occurs.\<close>

definition insert_field :: "string \<Rightarrow> string \<Rightarrow> string \<Rightarrow> json_map \<Rightarrow> json_map result" where
  "insert_field key tag xml obj =
     and_then (extract_between (start_tag tag) (end_tag tag) xml)
       (\<lambda>t. case t of None \<Rightarrow> Inr obj | Some s \<Rightarrow> Inr (map_insert key (JStr s) obj))"

definition insert_bool_field :: "string \<Rightarrow> string \<Rightarrow> string \<Rightarrow> json_map \<Rightarrow> json_map result" where
  "insert_bool_field key tag xml obj =
     and_then (extract_between (start_tag tag) (end_tag tag) xml)
       (\<lambda>t. case t of None \<Rightarrow> Inr obj | Some s \<Rightarrow> Inr (map_insert key (JBool (s = ''true'')) obj))"

text \<open>An \<open><Attribute>\<close> element added to a map, with a transformation of the value.\<close>

definition insert_attribute :: "(string \<Rightarrow> string) \<Rightarrow> string \<Rightarrow> json_map \<Rightarrow> json_map result" where
  "insert_attribute g attr_xml obj =
     and_then (extract_between (start_tag ''Name'') (end_tag ''Name'') attr_xml)
       (\<lambda>name. case name of None \<Rightarrow> Inr obj | Some k \<Rightarrow>
          and_then (extract_between (start_tag ''Value'') (end_tag ''Value'') attr_xml)
            (\<lambda>value. case value of None \<Rightarrow> Inr obj | Some v \<Rightarrow> Inr (map_insert k (JStr (g v)) obj)))"

definition insert_message_attribute :: "string \<Rightarrow> json_map \<Rightarrow> json_map result" where
  "insert_message_attribute attr_xml obj =
     and_then (extract_between (start_tag ''Name'') (end_tag ''Name'') attr_xml)
       (\<lambda>name. case name of None \<Rightarrow> Inr obj | Some k \<Rightarrow>
          and_then (insert_field ''DataType'' ''DataType'' attr_xml []) (\<lambda>o1.
          and_then (insert_field ''StringValue'' ''StringValue'' attr_xml o1) (\<lambda>o2.
          and_then (insert_field ''BinaryValue'' ''BinaryValue'' attr_xml o2) (\<lambda>o3.
            Inr (map_insert k (JObj o3) obj)))))"

fun insert_all :: "(string \<Rightarrow> json_map \<Rightarrow> json_map result) \<Rightarrow> string list \<Rightarrow> json_map \<Rightarrow> json_map result" where
  "insert_all f [] obj = Inr obj"
| "insert_all f (s # ss) obj = and_then (f s obj) (insert_all f ss)"

section \<open>The branches\<close>

definition message_json :: "string \<Rightarrow> json result" where
  "message_json msg_xml =
     and_then (insert_field ''MessageId'' ''MessageId'' msg_xml []) (\<lambda>m1.
     and_then (insert_field ''ReceiptHandle'' ''ReceiptHandle'' msg_xml m1) (\<lambda>m2.
     and_then (insert_field ''Body'' ''Body'' msg_xml m2) (\<lambda>m3.
     and_then (insert_field ''MD5OfBody'' ''MD5OfBody'' msg_xml m3) (\<lambda>m4.
     and_then (insert_all (insert_attribute (\<lambda>v. v)) (segments ''Attribute'' msg_xml) []) (\<lambda>attrs.
       (let m5 = (if attrs = [] then m4 else map_insert ''Attributes'' (JObj attrs) m4) in
        and_then (insert_all insert_message_attribute (segments ''MessageAttribute'' msg_xml) []) (\<lambda>mattrs.
          Inr (JObj (if mattrs = [] then m5
                     else map_insert ''MessageAttributes'' (JObj mattrs) m5)))))))))"

definition send_entry_json :: "string \<Rightarrow> json result" where
  "send_entry_json entry_xml =
     and_then (insert_field ''Id'' ''Id'' entry_xml []) (\<lambda>e1.
     and_then (insert_field ''MessageId'' ''MessageId'' entry_xml e1) (\<lambda>e2.
     and_then (insert_field ''MD5OfMessageBody'' ''MD5OfMessageBody'' entry_xml e2) (\<lambda>e3. Inr (JObj e3))))"

definition error_entry_json :: "string \<Rightarrow> json result" where
  "error_entry_json entry_xml =
     and_then (insert_field ''Id'' ''Id'' entry_xml []) (\<lambda>e1.
     and_then (insert_field ''Code'' ''Code'' entry_xml e1) (\<lambda>e2.
     and_then (insert_field ''Message'' ''Message'' entry_xml e2) (\<lambda>e3.
     and_then (insert_bool_field ''SenderFault'' ''SenderFault'' entry_xml e3) (\<lambda>e4. Inr (JObj e4)))))"

definition id_entry_json :: "string \<Rightarrow> json result" where
  "id_entry_json entry_xml =
     and_then (insert_field ''Id'' ''Id'' entry_xml []) (\<lambda>e. Inr (JObj e))"

definition receive_json :: "string \<Rightarrow> json result" where
  "receive_json xml =
     and_then (traverse message_json (segments ''Message'' xml)) (\<lambda>ms. Inr (JObj [(''Messages'', JArr ms)]))"

text \<open>The reply of a batch send leaves out an empty list.\<close>

definition send_batch_json :: "string \<Rightarrow> json result" where
  "send_batch_json xml =
     and_then (traverse send_entry_json (segments ''SendMessageBatchResultEntry'' xml)) (\<lambda>successful.
     and_then (traverse error_entry_json (segments ''BatchResultErrorEntry'' xml)) (\<lambda>failed.
       (let r1 = (if successful = [] then [] else map_insert ''Successful'' (JArr successful) []);
            r2 = (if failed = [] then r1 else map_insert ''Failed'' (JArr failed) r1) in
        Inr (JObj r2))))"

definition both_lists :: "json list \<Rightarrow> json list \<Rightarrow> json" where
  "both_lists successful failed =
     JObj (map_insert ''Failed'' (JArr failed) (map_insert ''Successful'' (JArr successful) []))"

text \<open>A second branch with the same test follows in the source; it is never reached.\<close>

definition send_batch_json_again :: "string \<Rightarrow> json result" where
  "send_batch_json_again xml =
     and_then (traverse send_entry_json (segments ''SendMessageBatchResultEntry'' xml)) (\<lambda>successful.
     and_then (traverse error_entry_json (segments ''BatchResultErrorEntry'' xml)) (\<lambda>failed.
       Inr (both_lists successful failed)))"

definition list_queues_json :: "string \<Rightarrow> json result" where
  "list_queues_json xml =
     and_then (traverse (\<lambda>s. slice 10 (length s - 11) s) (segments ''QueueUrl'' xml)) (\<lambda>urls.
       Inr (JObj [(''QueueUrls'', JArr (map JStr urls))]))"

definition get_attributes_json :: "string \<Rightarrow> json result" where
  "get_attributes_json xml =
     and_then (insert_all (insert_attribute unescape_xml) (segments ''Attribute'' xml) []) (\<lambda>attrs.
       Inr (JObj [(''Attributes'', JObj attrs)]))"

definition id_batch_json :: "string \<Rightarrow> json result" where
  "id_batch_json xml =
     (let success_tag = (if contains ''DeleteMessageBatch'' xml then ''DeleteMessageBatchResultEntry''
                         else ''ChangeMessageVisibilityBatchResultEntry'') in
      and_then (traverse id_entry_json (segments success_tag xml)) (\<lambda>successful.
      and_then (traverse error_entry_json (segments ''BatchResultErrorEntry'' xml)) (\<lambda>failed.
        Inr (both_lists successful failed))))"

text \<open>The last tests: a single queue URL, then a single message identifier, then \<open>{}\<close>.\<close>

definition simple_json :: "string \<Rightarrow> json result" where
  "simple_json xml =
     and_then (extract_between (start_tag ''QueueUrl'') (end_tag ''QueueUrl'') xml) (\<lambda>url.
       case url of Some u \<Rightarrow> Inr (JObj [(''QueueUrl'', JStr u)]) | None \<Rightarrow>
     and_then (extract_between (start_tag ''MessageId'') (end_tag ''MessageId'') xml) (\<lambda>mid.
       case mid of
         None \<Rightarrow> Inr (JObj [])
       | Some m \<Rightarrow>
           and_then (insert_field ''MD5OfMessageBody'' ''MD5OfMessageBody'' xml [(''MessageId'', JStr m)])
             (\<lambda>obj. Inr (JObj obj))))"

definition response_json :: "string \<Rightarrow> json result" where
  "response_json xml =
     (if contains ''DeleteMessageResponse'' xml \<or> contains ''PurgeQueueResponse'' xml then Inr (JObj [])
      else if contains ''<Message>'' xml \<and> contains ''ReceiveMessageResponse'' xml then receive_json xml
      else if contains ''SendMessageBatchResponse'' xml \<or> contains ''SendMessageBatchResult'' xml then send_batch_json xml
      else if contains ''ListQueuesResponse'' xml \<or> contains ''ListQueuesResult'' xml then list_queues_json xml
      else if contains ''GetQueueAttributesResponse'' xml \<or> contains ''GetQueueAttributesResult'' xml then
        get_attributes_json xml
      else if contains ''SendMessageBatchResponse'' xml \<or> contains ''SendMessageBatchResult'' xml then
        send_batch_json_again xml
      else if contains ''DeleteMessageBatchResponse'' xml \<or> contains ''DeleteMessageBatchResult'' xml \<or>
              contains ''ChangeMessageVisibilityBatchResponse'' xml \<or>
              contains ''ChangeMessageVisibilityBatchResult'' xml then id_batch_json xml
      else simple_json xml)"

definition xml_to_json_response :: "ext \<Rightarrow> string \<Rightarrow> string result" where
  "xml_to_json_response x xml = and_then (response_json xml) (\<lambda>v. Inr (json_show x v))"

end
