(* ===== verification/Validation.thy ===== *)
theory Validation
  imports Lclq_Types
begin

text \<open>
  Name and size validation: \<open>src/types/validation.rs\<close> (SQS queue names, and the Pub/Sub
  checks of the shared module).  \<open>len()\<close> counts bytes, \<open>chars()\<close> runs over the decoded
  scalar values.
\<close>

definition invalid :: "validation_error \<Rightarrow> unit result" where
  "invalid v = Inl (Validation v)"

fun validate_queue_name_chars_loop :: "ext \<Rightarrow> nat list \<Rightarrow> unit result" where
  "validate_queue_name_chars_loop x [] = Inr ()"
| "validate_queue_name_chars_loop x (ch # chs) =
     (if \<not> is_alphanumeric x ch \<and> ch \<noteq> of_char (CHR ''-'') \<and> ch \<noteq> of_char (CHR ''_'')
      then invalid (InvalidQueueName (''Queue name contains invalid character: '' @ quoted_char ch))
      else validate_queue_name_chars_loop x chs)"

definition validate_queue_name_chars :: "ext \<Rightarrow> string \<Rightarrow> unit result" where
  "validate_queue_name_chars x name = validate_queue_name_chars_loop x (str_chars name)"

definition validate_sqs_queue_name :: "ext \<Rightarrow> string \<Rightarrow> unit result" where
  "validate_sqs_queue_name x name =
     (if name = [] \<or> 80 < length name then
        invalid (InvalidQueueName (''Queue name must be 1-80 characters, got '' @ show_nat (length name)))
      else case strip_suffix ''.fifo'' name of
        Some base_name \<Rightarrow>
          (if base_name = [] \<or> 75 < length base_name then
             invalid (InvalidQueueName
               (''FIFO queue base name must be 1-75 characters, got '' @ show_nat (length base_name)))
           else validate_queue_name_chars x base_name)
      | None \<Rightarrow> validate_queue_name_chars x name)"

definition pubsub_id_char :: "ext \<Rightarrow> nat \<Rightarrow> bool" where
  "pubsub_id_char x ch =
     (is_alphanumeric x ch \<or> ch \<in> set (map of_char ''-_.~+%''))"

fun validate_pubsub_chars :: "ext \<Rightarrow> (string \<Rightarrow> validation_error) \<Rightarrow> nat list \<Rightarrow> unit result" where
  "validate_pubsub_chars x mk [] = Inr ()"
| "validate_pubsub_chars x mk (ch # chs) =
     (if \<not> pubsub_id_char x ch then invalid (mk (quoted_char ch)) else validate_pubsub_chars x mk chs)"

definition first_is_letter :: "nat list \<Rightarrow> bool" where
  "first_is_letter cs = (case cs of [] \<Rightarrow> True | c # _ \<Rightarrow> is_ascii_alphabetic c)"

definition validate_pubsub_topic_id :: "ext \<Rightarrow> string \<Rightarrow> unit result" where
  "validate_pubsub_topic_id x topic_id =
     (if length topic_id < 3 \<or> 255 < length topic_id then
        invalid (InvalidTopicId (''Topic ID must be 3-255 characters, got '' @ show_nat (length topic_id)))
      else if \<not> first_is_letter (str_chars topic_id) then
        invalid (InvalidTopicId ''Topic ID must start with a letter'')
      else validate_pubsub_chars x (\<lambda>q. InvalidTopicId (''Topic ID contains invalid character: '' @ q))
             (str_chars topic_id))"

definition validate_pubsub_subscription_id :: "ext \<Rightarrow> string \<Rightarrow> unit result" where
  "validate_pubsub_subscription_id x subscription_id =
     (if length subscription_id < 3 \<or> 255 < length subscription_id then
        invalid (InvalidSubscriptionId
          (''Subscription ID must be 3-255 characters, got '' @ show_nat (length subscription_id)))
      else if \<not> first_is_letter (str_chars subscription_id) then
        invalid (InvalidSubscriptionId ''Subscription ID must start with a letter'')
      else validate_pubsub_chars x
             (\<lambda>q. InvalidSubscriptionId (''Subscription ID contains invalid character: '' @ q))
             (str_chars subscription_id))"

definition validate_message_size :: "nat \<Rightarrow> nat \<Rightarrow> unit result" where
  "validate_message_size actual limit =
     (if limit < actual then invalid (MessageTooLarge actual limit) else Inr ())"

definition SQS_MAX_MESSAGE_SIZE :: nat where
  "SQS_MAX_MESSAGE_SIZE = 262144"

definition PUBSUB_MAX_MESSAGE_SIZE :: nat where
  "PUBSUB_MAX_MESSAGE_SIZE = 10485760"

section \<open>What the checks accept\<close>

definition queue_char :: "ext \<Rightarrow> nat \<Rightarrow> bool" where
  "queue_char x ch \<longleftrightarrow> is_alphanumeric x ch \<or> ch = of_char (CHR ''-'') \<or> ch = of_char (CHR ''_'')"

lemma invalid_neq_ok [simp]: "invalid v \<noteq> Inr ()"
  by (simp add: invalid_def)

lemma validate_queue_name_chars_loop_ok:
  "validate_queue_name_chars_loop x chs = Inr () \<longleftrightarrow> list_all (queue_char x) chs"
  by (induction chs) (auto simp: queue_char_def)

lemma validate_queue_name_chars_ok:
  "validate_queue_name_chars x name = Inr () \<longleftrightarrow> list_all (queue_char x) (str_chars name)"
  by (simp add: validate_queue_name_chars_def validate_queue_name_chars_loop_ok)

lemma validate_pubsub_chars_ok:
  "validate_pubsub_chars x mk chs = Inr () \<longleftrightarrow> list_all (pubsub_id_char x) chs"
  by (induction chs) auto

lemma strip_suffix_length:
  "strip_suffix p s = Some t \<Longrightarrow> length s = length t + length p"
  by (auto simp: strip_suffix_Some)

text \<open>
  Exact acceptance condition of the SQS name check: between 1 and 80 bytes, and the
  name, less one \<open>.fifo\<close> suffix, is non-empty and made of letters, digits, hyphens and
  underscores.  The separate bound of 75 on the base name of a FIFO queue never rejects
  anything the bound of 80 accepts.
\<close>

theorem validate_sqs_queue_name_iff:
  "validate_sqs_queue_name x name = Inr () \<longleftrightarrow>
     1 \<le> length name \<and> length name \<le> 80 \<and>
     (let base_name = (case strip_suffix ''.fifo'' name of Some b \<Rightarrow> b | None \<Rightarrow> name) in
      base_name \<noteq> [] \<and> list_all (queue_char x) (str_chars base_name))"
proof (cases "strip_suffix ''.fifo'' name")
  case None
  then show ?thesis
    by (auto simp: validate_sqs_queue_name_def validate_queue_name_chars_ok Let_def Suc_le_eq)
next
  case (Some base_name)
  then have "length name = length base_name + 5"
    using strip_suffix_length [OF Some] by simp
  with Some show ?thesis
    by (auto simp: validate_sqs_queue_name_def validate_queue_name_chars_ok Let_def Suc_le_eq)
qed

end
