(* ===== verification/Sqs_Handler.thy ===== *)
theory Sqs_Handler
  imports Sqs_Request Sqs_Json Validation Storage_Api
begin

text \<open>
  The SQS actions (\<open>src/sqs/handler.rs\<close>) over any storage backend, and the HTTP entry point
  (\<open>src/sqs/server.rs\<close>).  A handler takes the readings \<open>es\<close>: \<open>es 0\<close> are its own clock and
  UUID readings in the order it makes them, \<open>es 1\<close>, \<open>es 2\<close>, ... those of its successive
  backend calls.  Its result is the response body, or the panic of a backend call, with the
  new state of the backend.
\<close>

type_synonym 's reply = "string result \<times> 's"

record 's sqs_handler =
  h_backend :: "'s backend"
  h_base_url :: string

definition get_queue_url :: "'s sqs_handler \<Rightarrow> string \<Rightarrow> string" where
  "get_queue_url h queue_name = h_base_url h @ ''/queue/'' @ queue_name"

text \<open>\<open>Err(e) => response\<close>, where a panic of the call is not an error but goes on.\<close>

definition on_error :: "error \<Rightarrow> string \<Rightarrow> string result" where
  "on_error e response = (case e of Panic m \<Rightarrow> Inl (Panic m) | _ \<Rightarrow> Inr response)"

definition invalid_parameter :: "string \<Rightarrow> string \<Rightarrow> string result" where
  "invalid_parameter rid message = Inr (build_error_response rid InvalidParameterValue message)"

definition missing_parameter :: "string \<Rightarrow> string \<Rightarrow> string result" where
  "missing_parameter rid message = Inr (build_error_response rid MissingParameter message)"

definition no_such_queue :: "string \<Rightarrow> string result" where
  "no_such_queue rid =
     Inr (build_error_response rid QueueDoesNotExist ''The specified queue does not exist'')"

definition queue_missing :: "string \<Rightarrow> string \<Rightarrow> string" where
  "queue_missing rid queue_name =
     build_error_response rid QueueDoesNotExist
       (''Queue '' @ [squote] @ queue_name @ [squote] @ '' does not exist'')"

text \<open>The two checks most handlers begin with: the URL is there, and it names a queue.\<close>

definition with_queue_name :: "string \<Rightarrow> sqs_request \<Rightarrow> 's \<Rightarrow> (string \<Rightarrow> 's reply) \<Rightarrow> 's reply" where
  "with_queue_name rid r s k =
     (case get_required_param r ''QueueUrl'' of
        Inl e \<Rightarrow> (missing_parameter rid e, s)
      | Inr queue_url \<Rightarrow>
         (case extract_queue_name_from_url queue_url of
            None \<Rightarrow> (invalid_parameter rid ''Invalid QueueUrl'', s)
          | Some queue_name \<Rightarrow> k queue_name))"

section \<open>Queue management\<close>

definition last_of_arn :: "string \<Rightarrow> string" where
  "last_of_arn arn = last (split_on (CHR '':'') arn)"

definition u32_attribute :: "params \<Rightarrow> string \<Rightarrow> u32 \<Rightarrow> u32" where
  "u32_attribute attrs key default_value =
     (case map_of attrs key of None \<Rightarrow> default_value | Some v \<Rightarrow>
      case parse_u32 v of None \<Rightarrow> default_value | Some n \<Rightarrow> n)"

definition create_dlq :: "ext \<Rightarrow> params \<Rightarrow> dlq_target option" where
  "create_dlq x attrs =
     (case map_of attrs ''RedrivePolicy'' of None \<Rightarrow> None | Some redrive_policy \<Rightarrow>
      case json_parse x redrive_policy of None \<Rightarrow> None | Some policy \<Rightarrow>
       (let count = (case as_str (json_get policy ''maxReceiveCount'') of None \<Rightarrow> 5 | Some v \<Rightarrow>
                      case parse_u32 v of None \<Rightarrow> 5 | Some n \<Rightarrow> n);
            target_arn = (case as_str (json_get policy ''deadLetterTargetArn'') of None \<Rightarrow> [] | Some a \<Rightarrow> a) in
        Some \<lparr> target_queue_id = last_of_arn target_arn, max_receive_count = count \<rparr>))"

definition source_arns :: "json \<Rightarrow> string list" where
  "source_arns policy =
     (case as_array (json_get policy ''sourceQueueArns'') of None \<Rightarrow> [] | Some arr \<Rightarrow> filter_map as_str arr)"

definition permission_of :: "json \<Rightarrow> string \<Rightarrow> redrive_permission option" where
  "permission_of policy perm =
     (if perm = ''allowAll'' then Some AllowAll
      else if perm = ''denyAll'' then Some DenyAll
      else if perm = ''byQueue'' then Some (ByQueue (source_arns policy))
      else None)"

definition create_allow_policy :: "ext \<Rightarrow> params \<Rightarrow> redrive_permission option" where
  "create_allow_policy x attrs =
     (case map_of attrs ''RedriveAllowPolicy'' of None \<Rightarrow> None | Some rap_json \<Rightarrow>
      case json_parse x rap_json of None \<Rightarrow> None | Some policy \<Rightarrow>
      case as_str (json_get policy ''redrivePermission'') of None \<Rightarrow> None | Some perm \<Rightarrow>
        permission_of policy perm)"

definition create_config :: "ext \<Rightarrow> string \<Rightarrow> params \<Rightarrow> queue_config" where
  "create_config x queue_name attrs =
     (let is_fifo = (ends_with ''.fifo'' queue_name \<or> map_of attrs ''FifoQueue'' = Some ''true'') in
      \<lparr> qc_id = queue_name, qc_name = queue_name,
        qc_type = (if is_fifo then SqsFifo else SqsStandard),
        visibility_timeout = u32_attribute attrs ''VisibilityTimeout'' 30,
        message_retention_period = u32_attribute attrs ''MessageRetentionPeriod'' 345600,
        max_message_size = SQS_MAX_MESSAGE_SIZE,
        delay_seconds = u32_attribute attrs ''DelaySeconds'' 0,
        dlq_config = create_dlq x attrs,
        content_based_deduplication = (map_of attrs ''ContentBasedDeduplication'' = Some ''true''),
        tags = [],
        redrive_allow_policy = create_allow_policy x attrs \<rparr>)"

definition handle_create_queue ::
    "ext \<Rightarrow> 's sqs_handler \<Rightarrow> envs \<Rightarrow> sqs_request \<Rightarrow> 's \<Rightarrow> 's reply" where
  "handle_create_queue x h es r s =
     (let rid = uuid (es 0) 0 in
      case get_required_param r ''QueueName'' of Inl e \<Rightarrow> (missing_parameter rid e, s) | Inr queue_name \<Rightarrow>
      case validate_sqs_queue_name x queue_name of
        Inl e \<Rightarrow> (invalid_parameter rid (error_to_string e), s)
      | Inr _ \<Rightarrow>
         (case be_create_queue (h_backend h) (es 1) (create_config x queue_name (parse_queue_attributes r)) s of
            (Inr config, s') \<Rightarrow> (Inr (build_create_queue_response rid (get_queue_url h (qc_name config))), s')
          | (Inl e, s') \<Rightarrow>
              (on_error e (build_error_response rid InternalError (error_to_string e)), s')))"

definition handle_get_queue_url :: "'s sqs_handler \<Rightarrow> envs \<Rightarrow> sqs_request \<Rightarrow> 's \<Rightarrow> 's reply" where
  "handle_get_queue_url h es r s =
     (let rid = uuid (es 0) 0 in
      case get_required_param r ''QueueName'' of Inl e \<Rightarrow> (missing_parameter rid e, s) | Inr queue_name \<Rightarrow>
      case be_get_queue (h_backend h) queue_name s of
        Inr _ \<Rightarrow> (Inr (build_get_queue_url_response rid (get_queue_url h queue_name)), s)
      | Inl e \<Rightarrow> (on_error e (queue_missing rid queue_name), s))"

definition handle_delete_queue :: "'s sqs_handler \<Rightarrow> envs \<Rightarrow> sqs_request \<Rightarrow> 's \<Rightarrow> 's reply" where
  "handle_delete_queue h es r s =
     (let rid = uuid (es 0) 0 in
      with_queue_name rid r s (\<lambda>queue_name.
        case be_delete_queue (h_backend h) queue_name s of
          (Inr _, s') \<Rightarrow> (Inr (build_delete_message_response rid), s')
        | (Inl e, s') \<Rightarrow> (on_error e (queue_missing rid queue_name), s')))"

definition handle_list_queues :: "'s sqs_handler \<Rightarrow> envs \<Rightarrow> sqs_request \<Rightarrow> 's \<Rightarrow> 's reply" where
  "handle_list_queues h es r s =
     (let rid = uuid (es 0) 0;
          f = map_option (\<lambda>prefix. \<lparr> name_prefix = Some prefix \<rparr>) (get_param r ''QueueNamePrefix'') in
      case be_list_queues (h_backend h) f s of
        Inr configs \<Rightarrow> (Inr (build_list_queues_response rid (map (\<lambda>c. get_queue_url h (qc_name c)) configs)), s)
      | Inl e \<Rightarrow> (on_error e (build_error_response rid InternalError (error_to_string e)), s))"

definition handle_purge_queue :: "'s sqs_handler \<Rightarrow> envs \<Rightarrow> sqs_request \<Rightarrow> 's \<Rightarrow> 's reply" where
  "handle_purge_queue h es r s =
     (let rid = uuid (es 0) 0 in
      with_queue_name rid r s (\<lambda>queue_name.
        case be_purge_queue (h_backend h) queue_name s of
          (Inr _, s') \<Rightarrow> (Inr (build_delete_message_response rid), s')
        | (Inl e, s') \<Rightarrow> (on_error e (build_error_response rid InternalError (error_to_string e)), s')))"

section \<open>Sending\<close>

definition message_attributes_of :: "ext \<Rightarrow> sqs_attributes \<Rightarrow> (string \<times> message_attribute_value) list" where
  "message_attributes_of x attrs =
     fold (\<lambda>(key, value). AList.update key
        \<lparr> data_type = sa_data_type value, string_value = sa_string_value value,
          binary_value = (case sa_binary_value value of None \<Rightarrow> None | Some b64 \<Rightarrow> b64_decode x b64) \<rparr>)
       attrs []"

definition u32_param :: "sqs_request \<Rightarrow> string \<Rightarrow> u32 option" where
  "u32_param r key = (case get_param r key of None \<Rightarrow> None | Some v \<Rightarrow> parse_u32 v)"

definition send_request_message :: "ext \<Rightarrow> env \<Rightarrow> sqs_request \<Rightarrow> string \<Rightarrow> string \<Rightarrow> message" where
  "send_request_message x e r queue_name message_body =
     \<lparr> msg_id = uuid e 0, body = message_body,
       attributes = message_attributes_of x (parse_message_attributes r),
       msg_queue_id = queue_name, sent_timestamp = now e 0, receive_count = 0,
       message_group_id = get_param r ''MessageGroupId'',
       deduplication_id = get_param r ''MessageDeduplicationId'',
       sequence_number = None, msg_delay_seconds = u32_param r ''DelaySeconds'' \<rparr>"

text \<open>
  The identifier of the message is the first UUID; where no message is made, the response
  draws the first one.
\<close>

definition handle_send_message :: "ext \<Rightarrow> 's sqs_handler \<Rightarrow> envs \<Rightarrow> sqs_request \<Rightarrow> 's \<Rightarrow> 's reply" where
  "handle_send_message x h es r s =
     (case get_required_param r ''QueueUrl'' of
        Inl e \<Rightarrow> (missing_parameter (uuid (es 0) 0) e, s) | Inr queue_url \<Rightarrow>
      case get_required_param r ''MessageBody'' of
        Inl e \<Rightarrow> (missing_parameter (uuid (es 0) 0) e, s) | Inr message_body \<Rightarrow>
      case extract_queue_name_from_url queue_url of
        None \<Rightarrow> (invalid_parameter (uuid (es 0) 0) ''Invalid QueueUrl'', s) | Some queue_name \<Rightarrow>
       (let rid = uuid (es 0) 1; sqs_attrs = parse_message_attributes r in
        case be_send_message (h_backend h) (es 1) queue_name
               (send_request_message x (es 0) r queue_name message_body) s of
          (Inr sent, s') \<Rightarrow>
            (Inr (build_send_message_response rid (msg_id sent) (calculate_md5_of_body x (body sent))
                (if sqs_attrs \<noteq> [] then Some (calculate_md5_of_attributes x sqs_attrs) else None)), s')
        | (Inl e, s') \<Rightarrow>
            (on_error e (build_error_response rid InternalError (error_to_string e)), s')))"

definition too_long :: "send_batch_entry \<Rightarrow> batch_error_entry" where
  "too_long entry =
     \<lparr> be_id = se_id entry, be_code = ''MessageTooLong'',
       be_message = ''Message body size '' @ show_nat (length (se_message_body entry)) @
         '' exceeds maximum '' @ show_nat SQS_MAX_MESSAGE_SIZE,
       be_sender_fault = True \<rparr>"

definition batch_message :: "env \<Rightarrow> nat \<Rightarrow> string \<Rightarrow> send_batch_entry \<Rightarrow> message" where
  "batch_message e n queue_name entry =
     \<lparr> msg_id = uuid e n, body = se_message_body entry, attributes = [], msg_queue_id = queue_name,
       sent_timestamp = now e n, receive_count = 0,
       message_group_id = se_message_group_id entry,
       deduplication_id = se_message_deduplication_id entry,
       sequence_number = None, msg_delay_seconds = se_delay_seconds entry \<rparr>"

text \<open>
  The loop over the entries; \<open>n\<close> counts the messages made, which is the number of UUIDs
  drawn and of backend calls done.  A panic stops it.
\<close>

fun send_batch_loop ::
    "ext \<Rightarrow> 's backend \<Rightarrow> envs \<Rightarrow> string \<Rightarrow> nat \<Rightarrow> send_batch_entry list \<Rightarrow>
     batch_result_entry list \<Rightarrow> batch_error_entry list \<Rightarrow> 's \<Rightarrow>
     (nat \<times> batch_result_entry list \<times> batch_error_entry list) result \<times> 's" where
  "send_batch_loop x b es queue_name n [] successful failed s = (Inr (n, successful, failed), s)"
| "send_batch_loop x b es queue_name n (entry # entries) successful failed s =
     (if SQS_MAX_MESSAGE_SIZE < length (se_message_body entry) then
        send_batch_loop x b es queue_name n entries successful (failed @ [too_long entry]) s
      else
       (case be_send_message b (es (Suc n)) queue_name (batch_message (es 0) n queue_name entry) s of
          (Inr sent, s') \<Rightarrow>
            send_batch_loop x b es queue_name (Suc n) entries
              (successful @ [\<lparr> br_id = se_id entry, br_message_id = msg_id sent,
                 br_md5_of_body = calculate_md5_of_body x (body sent), br_md5_of_attrs = None \<rparr>]) failed s'
        | (Inl (Panic m), s') \<Rightarrow> (Inl (Panic m), s')
        | (Inl e, s') \<Rightarrow>
            send_batch_loop x b es queue_name (Suc n) entries successful
              (failed @ [\<lparr> be_id = se_id entry, be_code = ''InternalError'',
                 be_message = error_to_string e, be_sender_fault = False \<rparr>]) s'))"

text \<open>The size checks all batch handlers share.\<close>

definition with_batch :: "string \<Rightarrow> 'e list \<Rightarrow> 's \<Rightarrow> 's reply \<Rightarrow> 's reply" where
  "with_batch rid entries s k =
     (if entries = [] then (invalid_parameter rid ''No batch entries provided'', s)
      else if 10 < length entries then (invalid_parameter rid ''Maximum 10 batch entries allowed'', s)
      else k)"

definition handle_send_message_batch ::
    "ext \<Rightarrow> 's sqs_handler \<Rightarrow> envs \<Rightarrow> sqs_request \<Rightarrow> 's \<Rightarrow> 's reply" where
  "handle_send_message_batch x h es r s =
     with_queue_name (uuid (es 0) 0) r s (\<lambda>queue_name.
       let entries = parse_send_message_batch_entries x r in
       with_batch (uuid (es 0) 0) entries s
        (case send_batch_loop x (h_backend h) es queue_name 0 entries [] [] s of
           (Inl e, s') \<Rightarrow> (Inl e, s')
         | (Inr (n, successful, failed), s') \<Rightarrow>
             (Inr (build_send_message_batch_response (uuid (es 0) n) successful failed), s')))"


section \<open>Receiving and acknowledging\<close>

definition received_info :: "ext \<Rightarrow> int \<Rightarrow> received_message \<Rightarrow> received_message_info" where
  "received_info x t received =
     (let m = rm_message received in
      \<lparr> ri_message_id = msg_id m, ri_receipt_handle = receipt_handle received,
        ri_md5_of_body = calculate_md5_of_body x (body m), ri_body = body m,
        ri_attributes =
          [(''SenderId'', ''AIDAIT2UOQQY3AUEKVGXU''),
           (''SentTimestamp'', show_int (timestamp_millis (sent_timestamp m))),
           (''ApproximateReceiveCount'', show_nat (unat (receive_count m))),
           (''ApproximateFirstReceiveTimestamp'', show_int (timestamp_millis t))],
        ri_message_attributes =
          map (\<lambda>(key, value). (key, \<lparr> mi_data_type = data_type value, mi_string_value = string_value value \<rparr>))
            (attributes m) \<rparr>)"

definition receive_request_options :: "sqs_request \<Rightarrow> receive_options" where
  "receive_request_options r =
     \<lparr> ro_max_messages =
         u32_min (case u32_param r ''MaxNumberOfMessages'' of None \<Rightarrow> 1 | Some n \<Rightarrow> n) 10,
       ro_visibility_timeout = u32_param r ''VisibilityTimeout'',
       wait_time_seconds = (case u32_param r ''WaitTimeSeconds'' of None \<Rightarrow> 0 | Some n \<Rightarrow> n),
       attribute_names = [], message_attribute_names = [] \<rparr>"

text \<open>The \<open>i\<close>-th message is converted with the \<open>i\<close>-th reading of the clock.\<close>

definition handle_receive_message :: "ext \<Rightarrow> 's sqs_handler \<Rightarrow> envs \<Rightarrow> sqs_request \<Rightarrow> 's \<Rightarrow> 's reply" where
  "handle_receive_message x h es r s =
     (let rid = uuid (es 0) 0 in
      with_queue_name rid r s (\<lambda>queue_name.
        case be_receive_messages (h_backend h) (es 1) queue_name (receive_request_options r) s of
          (Inr messages, s') \<Rightarrow>
            (Inr (build_receive_message_response rid
               (map (\<lambda>(i, m). received_info x (now (es 0) i) m) (enumerate 0 messages))), s')
        | (Inl e, s') \<Rightarrow>
            (on_error e (build_error_response rid InternalError (error_to_string e)), s')))"

definition invalid_handle :: "string \<Rightarrow> string" where
  "invalid_handle rid = build_error_response rid ReceiptHandleIsInvalid ''Receipt handle is invalid''"

definition handle_delete_message :: "'s sqs_handler \<Rightarrow> envs \<Rightarrow> sqs_request \<Rightarrow> 's \<Rightarrow> 's reply" where
  "handle_delete_message h es r s =
     (let rid = uuid (es 0) 0 in
      case get_required_param r ''QueueUrl'' of Inl e \<Rightarrow> (missing_parameter rid e, s) | Inr queue_url \<Rightarrow>
      case get_required_param r ''ReceiptHandle'' of Inl e \<Rightarrow> (missing_parameter rid e, s) | Inr handle \<Rightarrow>
      case extract_queue_name_from_url queue_url of
        None \<Rightarrow> (invalid_parameter rid ''Invalid QueueUrl'', s)
      | Some queue_name \<Rightarrow>
         (case be_delete_message (h_backend h) queue_name handle s of
            (Inr _, s') \<Rightarrow> (Inr (build_delete_message_response rid), s')
          | (Inl e, s') \<Rightarrow> (on_error e (invalid_handle rid), s')))"

definition batch_failure :: "string \<Rightarrow> error \<Rightarrow> batch_error_entry" where
  "batch_failure i e =
     \<lparr> be_id = i, be_code = ''ReceiptHandleIsInvalid'', be_message = error_to_string e,
       be_sender_fault = True \<rparr>"

fun delete_batch_loop ::
    "'s backend \<Rightarrow> string \<Rightarrow> delete_batch_entry list \<Rightarrow> string list \<Rightarrow> batch_error_entry list \<Rightarrow> 's \<Rightarrow>
     (string list \<times> batch_error_entry list) result \<times> 's" where
  "delete_batch_loop b queue_name [] ok failed s = (Inr (ok, failed), s)"
| "delete_batch_loop b queue_name (entry # entries) ok failed s =
     (case be_delete_message b queue_name (de_receipt_handle entry) s of
        (Inr _, s') \<Rightarrow> delete_batch_loop b queue_name entries (ok @ [de_id entry]) failed s'
      | (Inl (Panic m), s') \<Rightarrow> (Inl (Panic m), s')
      | (Inl e, s') \<Rightarrow> delete_batch_loop b queue_name entries ok (failed @ [batch_failure (de_id entry) e]) s')"

definition handle_delete_message_batch ::
    "ext \<Rightarrow> 's sqs_handler \<Rightarrow> envs \<Rightarrow> sqs_request \<Rightarrow> 's \<Rightarrow> 's reply" where
  "handle_delete_message_batch x h es r s =
     (let rid = uuid (es 0) 0 in
      with_queue_name rid r s (\<lambda>queue_name.
       let entries = parse_delete_message_batch_entries x r in
       with_batch rid entries s
        (case delete_batch_loop (h_backend h) queue_name entries [] [] s of
           (Inl e, s') \<Rightarrow> (Inl e, s')
         | (Inr (ok, failed), s') \<Rightarrow> (Inr (build_delete_message_batch_response rid ok failed), s'))))"

definition timeout_message :: string where
  "timeout_message = ''VisibilityTimeout must be between 0 and 43200 seconds''"

definition handle_change_message_visibility :: "'s sqs_handler \<Rightarrow> envs \<Rightarrow> sqs_request \<Rightarrow> 's \<Rightarrow> 's reply" where
  "handle_change_message_visibility h es r s =
     (let rid = uuid (es 0) 0 in
      case get_required_param r ''QueueUrl'' of Inl e \<Rightarrow> (missing_parameter rid e, s) | Inr queue_url \<Rightarrow>
      case get_required_param r ''ReceiptHandle'' of Inl e \<Rightarrow> (missing_parameter rid e, s) | Inr handle \<Rightarrow>
      case get_required_param r ''VisibilityTimeout'' of Inl e \<Rightarrow> (missing_parameter rid e, s) | Inr timeout_str \<Rightarrow>
      case (case parse_u32 timeout_str of None \<Rightarrow> None | Some n \<Rightarrow> if n \<le> 43200 then Some n else None) of
        None \<Rightarrow> (invalid_parameter rid timeout_message, s) | Some vt \<Rightarrow>
      case extract_queue_name_from_url queue_url of
        None \<Rightarrow> (invalid_parameter rid ''Invalid QueueUrl'', s)
      | Some queue_name \<Rightarrow>
         (case be_change_visibility (h_backend h) (es 1) queue_name handle vt s of
            (Inr _, s') \<Rightarrow> (Inr (build_change_message_visibility_response rid), s')
          | (Inl e, s') \<Rightarrow> (on_error e (invalid_handle rid), s')))"

text \<open>\<open>n\<close> counts the backend calls made.\<close>

fun visibility_batch_loop ::
    "'s backend \<Rightarrow> envs \<Rightarrow> string \<Rightarrow> nat \<Rightarrow> visibility_batch_entry list \<Rightarrow> string list \<Rightarrow>
     batch_error_entry list \<Rightarrow> 's \<Rightarrow> (string list \<times> batch_error_entry list) result \<times> 's" where
  "visibility_batch_loop b es queue_name n [] ok failed s = (Inr (ok, failed), s)"
| "visibility_batch_loop b es queue_name n (entry # entries) ok failed s =
     (if 43200 < ve_visibility_timeout entry then
        visibility_batch_loop b es queue_name n entries ok
          (failed @ [\<lparr> be_id = ve_id entry, be_code = ''InvalidParameterValue'',
             be_message = timeout_message, be_sender_fault = True \<rparr>]) s
      else
       (case be_change_visibility b (es (Suc n)) queue_name (ve_receipt_handle entry)
               (ve_visibility_timeout entry) s of
          (Inr _, s') \<Rightarrow> visibility_batch_loop b es queue_name (Suc n) entries (ok @ [ve_id entry]) failed s'
        | (Inl (Panic m), s') \<Rightarrow> (Inl (Panic m), s')
        | (Inl e, s') \<Rightarrow>
            visibility_batch_loop b es queue_name (Suc n) entries ok
              (failed @ [batch_failure (ve_id entry) e]) s'))"

definition handle_change_message_visibility_batch ::
    "ext \<Rightarrow> 's sqs_handler \<Rightarrow> envs \<Rightarrow> sqs_request \<Rightarrow> 's \<Rightarrow> 's reply" where
  "handle_change_message_visibility_batch x h es r s =
     (let rid = uuid (es 0) 0 in
      with_queue_name rid r s (\<lambda>queue_name.
       let entries = parse_change_visibility_batch_entries x r in
       with_batch rid entries s
        (case visibility_batch_loop (h_backend h) es queue_name 0 entries [] [] s of
           (Inl e, s') \<Rightarrow> (Inl e, s')
         | (Inr (ok, failed), s') \<Rightarrow> (Inr (build_change_visibility_batch_response rid ok failed), s'))))"

section \<open>Queue attributes\<close>

definition redrive_policy_text :: "dlq_target \<Rightarrow> string" where
  "redrive_policy_text d =
     ''{'' @ [dquote] @ ''deadLetterTargetArn'' @ [dquote] @ '':'' @ [dquote] @
     ''arn:aws:sqs:us-east-1:000000000000:'' @ target_queue_id d @ [dquote] @ '','' @
     [dquote] @ ''maxReceiveCount'' @ [dquote] @ '':'' @ show_nat (unat (max_receive_count d)) @ ''}''"

definition permission_prefix :: string where
  "permission_prefix = ''{'' @ [dquote] @ ''redrivePermission'' @ [dquote] @ '':'' @ [dquote]"

definition allow_policy_text :: "redrive_permission \<Rightarrow> string" where
  "allow_policy_text p =
     (case p of
        AllowAll \<Rightarrow> permission_prefix @ ''allowAll'' @ [dquote] @ ''}''
      | DenyAll \<Rightarrow> permission_prefix @ ''denyAll'' @ [dquote] @ ''}''
      | ByQueue arns \<Rightarrow>
          permission_prefix @ ''byQueue'' @ [dquote] @ '','' @ [dquote] @ ''sourceQueueArns'' @ [dquote] @ '':['' @
          join '','' (map (\<lambda>arn. [dquote] @ arn @ [dquote]) arns) @ '']}'')"

text \<open>One attribute other than \<open>All\<close>; \<open>t\<close> is the clock in seconds.\<close>

definition one_attribute :: "int \<Rightarrow> queue_config \<Rightarrow> queue_stats \<Rightarrow> queue_attribute \<Rightarrow> (string \<times> string) list" where
  "one_attribute t c st attr =
     (let n = queue_attribute_as_str attr in
      case attr of
        QA_All \<Rightarrow> []
      | QA_VisibilityTimeout \<Rightarrow> [(n, show_nat (unat (visibility_timeout c)))]
      | QA_DelaySeconds \<Rightarrow> [(n, show_nat (unat (delay_seconds c)))]
      | QA_MaximumMessageSize \<Rightarrow> [(n, show_nat (max_message_size c))]
      | QA_MessageRetentionPeriod \<Rightarrow> [(n, show_nat (unat (message_retention_period c)))]
      | QA_ApproximateNumberOfMessages \<Rightarrow> [(n, show_nat (st_available_messages st))]
      | QA_ApproximateNumberOfMessagesNotVisible \<Rightarrow> [(n, show_nat (st_in_flight_messages st))]
      | QA_ApproximateNumberOfMessagesDelayed \<Rightarrow> [(n, ''0'')]
      | QA_QueueArn \<Rightarrow> [(n, ''arn:aws:sqs:us-east-1:000000000000:'' @ qc_name c)]
      | QA_FifoQueue \<Rightarrow> [(n, show_bool (qc_type c = SqsFifo))]
      | QA_ContentBasedDeduplication \<Rightarrow> [(n, show_bool (content_based_deduplication c))]
      | QA_RedrivePolicy \<Rightarrow> (case dlq_config c of None \<Rightarrow> [] | Some d \<Rightarrow> [(n, redrive_policy_text d)])
      | QA_RedriveAllowPolicy \<Rightarrow>
          (case redrive_allow_policy c of None \<Rightarrow> [] | Some p \<Rightarrow> [(n, allow_policy_text p)])
      | QA_CreatedTimestamp \<Rightarrow> [(n, show_int t)]
      | QA_LastModifiedTimestamp \<Rightarrow> [(n, show_int t)])"

text \<open>The attributes \<open>All\<close> expands to.\<close>

definition all_attributes :: "queue_config \<Rightarrow> queue_attribute list" where
  "all_attributes c =
     [QA_VisibilityTimeout, QA_DelaySeconds, QA_MaximumMessageSize, QA_MessageRetentionPeriod,
      QA_ApproximateNumberOfMessages, QA_ApproximateNumberOfMessagesNotVisible, QA_QueueArn] @
     (if qc_type c = SqsFifo then [QA_FifoQueue, QA_ContentBasedDeduplication] else []) @
     (if dlq_config c \<noteq> None then [QA_RedrivePolicy] else []) @
     (if redrive_allow_policy c \<noteq> None then [QA_RedriveAllowPolicy] else [])"

definition add_queue_attribute :: "int \<Rightarrow> queue_config \<Rightarrow> queue_stats \<Rightarrow> queue_attribute \<Rightarrow> (string \<times> string) list" where
  "add_queue_attribute t c st attr =
     (if attr = QA_All then concat (map (one_attribute t c st) (all_attributes c))
      else one_attribute t c st attr)"

text \<open>The \<open>i\<close>-th requested attribute reads the clock, where it does, for the \<open>i\<close>-th time.\<close>

definition handle_get_queue_attributes ::
    "ext \<Rightarrow> 's sqs_handler \<Rightarrow> envs \<Rightarrow> sqs_request \<Rightarrow> 's \<Rightarrow> 's reply" where
  "handle_get_queue_attributes x h es r s =
     (let rid = uuid (es 0) 0 in
      with_queue_name rid r s (\<lambda>queue_name.
        let names = parse_attribute_names x r;
            requested = (if names = [] then [''All''] else names) in
        case be_get_queue (h_backend h) queue_name s of
          Inl e \<Rightarrow> (on_error e (build_error_response rid QueueDoesNotExist ''The specified queue does not exist''), s)
        | Inr c \<Rightarrow>
           (case be_get_stats (h_backend h) queue_name s of
              Inl e \<Rightarrow> (on_error e (build_error_response rid InternalError (error_to_string e)), s)
            | Inr st \<Rightarrow>
                (Inr (build_get_queue_attributes_response rid
                   (concat (map (\<lambda>(i, name).
                      case queue_attribute_from_str name of
                        Inl _ \<Rightarrow> []
                      | Inr attr \<Rightarrow> add_queue_attribute (now (es 0) i div 1000000000) c st attr)
                     (enumerate 0 requested)))), s))))"


section \<open>Setting attributes\<close>

text \<open>
  \<open>to_lowercase\<close> before a comparison with an ASCII word: no character outside ASCII has a
  lower-case form made of the letters of \<open>true\<close> and \<open>false\<close>.
\<close>

definition ascii_lower :: "string \<Rightarrow> string" where
  "ascii_lower s =
     map (\<lambda>c. let n = of_char c :: nat in if 65 \<le> n \<and> n \<le> 90 then char_of (n + 32) else c) s"

definition set_dlq :: "ext \<Rightarrow> string \<Rightarrow> queue_config \<Rightarrow> string + queue_config" where
  "set_dlq x value c =
     (case json_parse x value of None \<Rightarrow> Inl ''Invalid RedrivePolicy JSON'' | Some policy \<Rightarrow>
      case (as_str (json_get policy ''deadLetterTargetArn''), as_u64 (json_get policy ''maxReceiveCount'')) of
        (Some arn, Some max_count) \<Rightarrow>
          Inr (c\<lparr>dlq_config := Some \<lparr> target_queue_id = last_of_arn arn, max_receive_count = as_u32 max_count \<rparr>\<rparr>)
      | _ \<Rightarrow> Inl ''Invalid RedrivePolicy format'')"

definition set_allow_policy :: "ext \<Rightarrow> string \<Rightarrow> queue_config \<Rightarrow> string + queue_config" where
  "set_allow_policy x value c =
     (case json_parse x value of None \<Rightarrow> Inl ''Invalid RedriveAllowPolicy JSON'' | Some policy \<Rightarrow>
      case as_str (json_get policy ''redrivePermission'') of
        None \<Rightarrow> Inl ''Missing redrivePermission in RedriveAllowPolicy''
      | Some perm \<Rightarrow>
         (case permission_of policy perm of
            None \<Rightarrow> Inl ''Invalid redrivePermission value (must be allowAll, denyAll, or byQueue)''
          | Some p \<Rightarrow> Inr (c\<lparr>redrive_allow_policy := Some p\<rparr>)))"

text \<open>One arm of the match: the updated configuration, or the message of the error response.\<close>

definition set_attribute :: "ext \<Rightarrow> string \<Rightarrow> string \<Rightarrow> queue_config \<Rightarrow> string + queue_config" where
  "set_attribute x key value c =
     (if key = ''VisibilityTimeout'' then
        (case parse_u32 value of
           None \<Rightarrow> Inl timeout_message
         | Some n \<Rightarrow> if n \<le> 43200 then Inr (c\<lparr>visibility_timeout := n\<rparr>) else Inl timeout_message)
      else if key = ''MessageRetentionPeriod'' then
        (let message = ''MessageRetentionPeriod must be between 60 and 1209600 seconds'' in
         case parse_u32 value of
           None \<Rightarrow> Inl message
         | Some n \<Rightarrow> if 60 \<le> n \<and> n \<le> 1209600 then Inr (c\<lparr>message_retention_period := n\<rparr>) else Inl message)
      else if key = ''MaximumMessageSize'' then
        (let message = ''MaximumMessageSize must be between 1024 and 262144 bytes'' in
         case parse_usize value of
           None \<Rightarrow> Inl message
         | Some n \<Rightarrow> if 1024 \<le> n \<and> n \<le> 262144 then Inr (c\<lparr>max_message_size := n\<rparr>) else Inl message)
      else if key = ''DelaySeconds'' then
        (let message = ''DelaySeconds must be between 0 and 900 seconds'' in
         case parse_u32 value of
           None \<Rightarrow> Inl message
         | Some n \<Rightarrow> if n \<le> 900 then Inr (c\<lparr>delay_seconds := n\<rparr>) else Inl message)
      else if key = ''ContentBasedDeduplication'' then
        (if qc_type c \<noteq> SqsFifo then Inl ''ContentBasedDeduplication is only valid for FIFO queues''
         else if ascii_lower value = ''true'' then Inr (c\<lparr>content_based_deduplication := True\<rparr>)
         else if ascii_lower value = ''false'' then Inr (c\<lparr>content_based_deduplication := False\<rparr>)
         else Inl (''ContentBasedDeduplication must be '' @ [squote] @ ''true'' @ [squote] @ '' or '' @
                   [squote] @ ''false'' @ [squote]))
      else if key = ''RedrivePolicy'' then set_dlq x value c
      else if key = ''RedriveAllowPolicy'' then set_allow_policy x value c
      else if key = ''FifoQueue'' then Inl ''FifoQueue attribute cannot be modified''
      else Inr c)"

fun set_attributes :: "ext \<Rightarrow> params \<Rightarrow> queue_config \<Rightarrow> string + queue_config" where
  "set_attributes x [] c = Inr c"
| "set_attributes x ((key, value) # attrs) c =
     (case set_attribute x key value c of
        Inl message \<Rightarrow> Inl message
      | Inr c' \<Rightarrow> set_attributes x attrs c')"

text \<open>The update that ends the three handlers that change a configuration.\<close>

definition finish_update :: "'s sqs_handler \<Rightarrow> envs \<Rightarrow> string \<Rightarrow> string \<Rightarrow> queue_config \<Rightarrow> 's \<Rightarrow> 's reply" where
  "finish_update h es rid response c s =
     (case be_update_queue (h_backend h) (es 1) c s of
        (Inr _, s') \<Rightarrow> (Inr response, s')
      | (Inl e, s') \<Rightarrow> (on_error e (build_error_response rid InternalError (error_to_string e)), s'))"

definition with_config_of :: "'s sqs_handler \<Rightarrow> string \<Rightarrow> string \<Rightarrow> 's \<Rightarrow> (queue_config \<Rightarrow> 's reply) \<Rightarrow> 's reply" where
  "with_config_of h rid queue_name s k =
     (case be_get_queue (h_backend h) queue_name s of
        Inl e \<Rightarrow> (on_error e (build_error_response rid QueueDoesNotExist ''The specified queue does not exist''), s)
      | Inr c \<Rightarrow> k c)"

definition handle_set_queue_attributes ::
    "ext \<Rightarrow> 's sqs_handler \<Rightarrow> envs \<Rightarrow> sqs_request \<Rightarrow> 's \<Rightarrow> 's reply" where
  "handle_set_queue_attributes x h es r s =
     (let rid = uuid (es 0) 0 in
      with_queue_name rid r s (\<lambda>queue_name.
      with_config_of h rid queue_name s (\<lambda>c.
        case set_attributes x (parse_queue_attributes r) c of
          Inl message \<Rightarrow> (invalid_parameter rid message, s)
        | Inr c' \<Rightarrow> finish_update h es rid (build_delete_message_response rid) c' s)))"

section \<open>Tags\<close>

definition request_tag :: "sqs_request \<Rightarrow> nat \<Rightarrow> (string \<times> string) option" where
  "request_tag r i =
     (case (get_param r (numbered_key ''Tag.'' i ''.Key''), get_param r (numbered_key ''Tag.'' i ''.Value'')) of
        (Some key, Some value) \<Rightarrow> Some (key, value)
      | _ \<Rightarrow> None)"

definition add_tags :: "(string \<times> string) list \<Rightarrow> queue_config \<Rightarrow> queue_config" where
  "add_tags kvs c = c\<lparr>tags := fold (\<lambda>(k, v). AList.update k v) kvs (tags c)\<rparr>"

definition remove_tags :: "string list \<Rightarrow> queue_config \<Rightarrow> queue_config" where
  "remove_tags ks c = c\<lparr>tags := fold AList.delete ks (tags c)\<rparr>"

definition handle_tag_queue :: "'s sqs_handler \<Rightarrow> envs \<Rightarrow> sqs_request \<Rightarrow> 's \<Rightarrow> 's reply" where
  "handle_tag_queue h es r s =
     (let rid = uuid (es 0) 0 in
      with_queue_name rid r s (\<lambda>queue_name.
      with_config_of h rid queue_name s (\<lambda>c.
        finish_update h es rid (build_tag_queue_response rid)
          (add_tags (numbered r (request_tag r)) c) s)))"

definition handle_untag_queue :: "'s sqs_handler \<Rightarrow> envs \<Rightarrow> sqs_request \<Rightarrow> 's \<Rightarrow> 's reply" where
  "handle_untag_queue h es r s =
     (let rid = uuid (es 0) 0 in
      with_queue_name rid r s (\<lambda>queue_name.
      with_config_of h rid queue_name s (\<lambda>c.
        finish_update h es rid (build_untag_queue_response rid)
          (remove_tags (numbered r (\<lambda>i. get_param r (numbered_key ''TagKey.'' i []))) c) s)))"

definition list_tags_response :: "string \<Rightarrow> (string \<times> string) list \<Rightarrow> string" where
  "list_tags_response rid kvs =
     xml_declaration @ open_response ''ListQueueTagsResponse'' @ ''<ListQueueTagsResult>'' @
     concat (map (\<lambda>(key, value).
        ''<Tag><Key>'' @ escape_xml key @ ''</Key><Value>'' @ escape_xml value @ ''</Value></Tag>'') kvs) @
     ''</ListQueueTagsResult><ResponseMetadata><RequestId>'' @ rid @
     ''</RequestId></ResponseMetadata></ListQueueTagsResponse>''"

definition handle_list_queue_tags :: "'s sqs_handler \<Rightarrow> envs \<Rightarrow> sqs_request \<Rightarrow> 's \<Rightarrow> 's reply" where
  "handle_list_queue_tags h es r s =
     (let rid = uuid (es 0) 0 in
      with_queue_name rid r s (\<lambda>queue_name.
      with_config_of h rid queue_name s (\<lambda>c. (Inr (list_tags_response rid (tags c)), s))))"

section \<open>Dispatch\<close>

definition dispatch :: "ext \<Rightarrow> 's sqs_handler \<Rightarrow> envs \<Rightarrow> sqs_request \<Rightarrow> 's \<Rightarrow> 's reply" where
  "dispatch x h es r s =
     (case rq_action r of
        ActCreateQueue \<Rightarrow> handle_create_queue x h es r s
      | ActGetQueueUrl \<Rightarrow> handle_get_queue_url h es r s
      | ActDeleteQueue \<Rightarrow> handle_delete_queue h es r s
      | ActListQueues \<Rightarrow> handle_list_queues h es r s
      | ActSendMessage \<Rightarrow> handle_send_message x h es r s
      | ActSendMessageBatch \<Rightarrow> handle_send_message_batch x h es r s
      | ActReceiveMessage \<Rightarrow> handle_receive_message x h es r s
      | ActDeleteMessage \<Rightarrow> handle_delete_message h es r s
      | ActDeleteMessageBatch \<Rightarrow> handle_delete_message_batch x h es r s
      | ActChangeMessageVisibility \<Rightarrow> handle_change_message_visibility h es r s
      | ActChangeMessageVisibilityBatch \<Rightarrow> handle_change_message_visibility_batch x h es r s
      | ActPurgeQueue \<Rightarrow> handle_purge_queue h es r s
      | ActGetQueueAttributes \<Rightarrow> handle_get_queue_attributes x h es r s
      | ActSetQueueAttributes \<Rightarrow> handle_set_queue_attributes x h es r s
      | ActTagQueue \<Rightarrow> handle_tag_queue h es r s
      | ActUntagQueue \<Rightarrow> handle_untag_queue h es r s
      | ActListQueueTags \<Rightarrow> handle_list_queue_tags h es r s)"

text \<open>The body and the content type of the answer.\<close>

definition handle_request ::
    "ext \<Rightarrow> 's sqs_handler \<Rightarrow> envs \<Rightarrow> sqs_request \<Rightarrow> 's \<Rightarrow> (string \<times> string) result \<times> 's" where
  "handle_request x h es r s =
     (case dispatch x h es r s of
        (Inl e, s') \<Rightarrow> (Inl e, s')
      | (Inr response_xml, s') \<Rightarrow>
          (if rq_is_json r then
             (and_then (xml_to_json_response x response_xml)
                (\<lambda>json_response. Inr (json_response, ''application/x-amz-json-1.0'')), s')
           else (Inr (response_xml, ''application/xml''), s')))"

record http_response =
  http_status :: nat
  http_content_type :: string
  http_body :: string

text \<open>\<open>handle_sqs_request\<close> of the server; a plain text answer has the type axum gives strings.\<close>

definition handle_sqs_request ::
    "ext \<Rightarrow> 's sqs_handler \<Rightarrow> envs \<Rightarrow> string option \<Rightarrow> string \<Rightarrow> 's \<Rightarrow> http_response result \<times> 's" where
  "handle_sqs_request x h es target bytes s =
     (let bad = (\<lambda>t. \<lparr> http_status = 400, http_content_type = ''text/plain; charset=utf-8'', http_body = t \<rparr>) in
      case from_utf8 bytes of None \<Rightarrow> (Inr (bad ''Invalid request body encoding''), s) | Some body_str \<Rightarrow>
      case parse_with_headers x target body_str of
        Inl e \<Rightarrow> (Inr (bad (''Invalid request: '' @ e)), s)
      | Inr request \<Rightarrow>
         (case handle_request x h es request s of
            (Inl e, s') \<Rightarrow> (Inl e, s')
          | (Inr (response_body, content_type), s') \<Rightarrow>
              (Inr \<lparr> http_status = 200, http_content_type = content_type, http_body = response_body \<rparr>, s')))"

end
