(* ===== verification/Backend_Contract.thy ===== *)
theory Backend_Contract
  imports Sqs_Handler
begin

text \<open>
  What the SQS handlers rely on in a storage backend: a locale with the part of the trait
  that concerns the table of queues, and the properties of the handlers proved once for any
  backend that keeps it.
\<close>

section \<open>The contract\<close>

text \<open>
  \<open>lookup\<close> is the table of queues as a map.  A backend may restrict the names of new queues
  (\<open>name_free\<close>) and the sizes it can store (\<open>size_ok\<close>); an update keeps the name and the type.  A stored
  configuration may be read back with its tags in another order (\<open>reread\<close>).
\<close>

locale queue_store =
  fixes b :: "'s backend" and inv :: "'s \<Rightarrow> bool" and lookup :: "'s \<Rightarrow> string \<Rightarrow> queue_config option"
    and name_free :: "'s \<Rightarrow> string \<Rightarrow> bool" and size_ok :: "nat \<Rightarrow> bool"
    and reread :: "queue_config \<Rightarrow> queue_config"
  assumes get_queue: "inv s \<Longrightarrow> be_get_queue b k s =
      (case lookup s k of None \<Rightarrow> Inl (QueueNotFound k) | Some c \<Rightarrow> Inr c)"
    and lookup_id: "inv s \<Longrightarrow> lookup s k = Some c \<Longrightarrow> qc_id c = k"
    and size_small: "n \<le> 10485760 \<Longrightarrow> size_ok n"
    and lookup_size: "inv s \<Longrightarrow> lookup s k = Some c \<Longrightarrow> size_ok (max_message_size c)"
    and reread_same: "inv s \<Longrightarrow> same_config c (reread c)"
    and create_new: "inv s \<Longrightarrow> lookup s (qc_id c) = None \<Longrightarrow> name_free s (qc_name c) \<Longrightarrow>
      size_ok (max_message_size c) \<Longrightarrow>
      \<exists>s'. be_create_queue b e c s = (Inr c, s') \<and> inv s' \<and> lookup s' = (lookup s)(qc_id c \<mapsto> reread c)"
    and create_old: "inv s \<Longrightarrow> lookup s (qc_id c) \<noteq> None \<Longrightarrow>
      be_create_queue b e c s = (Inl (QueueAlreadyExists (qc_id c)), s)"
    and update_old: "inv s \<Longrightarrow> lookup s (qc_id c) = Some c0 \<Longrightarrow> qc_name c = qc_name c0 \<Longrightarrow>
      qc_type c = qc_type c0 \<Longrightarrow> size_ok (max_message_size c) \<Longrightarrow>
      \<exists>s'. be_update_queue b e c s = (Inr c, s') \<and> inv s' \<and> lookup s' = (lookup s)(qc_id c \<mapsto> reread c)"
    and delete_old: "inv s \<Longrightarrow> lookup s k \<noteq> None \<Longrightarrow>
      \<exists>s'. be_delete_queue b k s = (Inr (), s') \<and> inv s' \<and> lookup s' = (lookup s)(k := None)"
    and delete_none: "inv s \<Longrightarrow> lookup s k = None \<Longrightarrow> be_delete_queue b k s = (Inl (QueueNotFound k), s)"
    and stats: "inv s \<Longrightarrow> lookup s k \<noteq> None \<Longrightarrow> \<exists>st. be_get_stats b k s = Inr st"
    and send_none: "inv s \<Longrightarrow> lookup s k = None \<Longrightarrow> \<exists>err s'. be_send_message b e k m s = (Inl err, s')"
    and send_same: "be_send_message b e k m s = (Inr m', s') \<Longrightarrow> msg_id m' = msg_id m \<and> body m' = body m"
    and send_keeps: "inv s \<Longrightarrow> inv (snd (be_send_message b e k m s)) \<and>
      lookup (snd (be_send_message b e k m s)) = lookup s"
    and receive_keeps: "inv s \<Longrightarrow> inv (snd (be_receive_messages b e k ro s)) \<and>
      lookup (snd (be_receive_messages b e k ro s)) = lookup s"
    and delete_message_keeps: "inv s \<Longrightarrow> inv (snd (be_delete_message b k h s)) \<and>
      lookup (snd (be_delete_message b k h s)) = lookup s"
    and change_visibility_keeps: "inv s \<Longrightarrow> inv (snd (be_change_visibility b e k h vt s)) \<and>
      lookup (snd (be_change_visibility b e k h vt s)) = lookup s"
    and purge_keeps: "inv s \<Longrightarrow> inv (snd (be_purge_queue b k s)) \<and>
      lookup (snd (be_purge_queue b k s)) = lookup s"

section \<open>Limits of the settable attributes\<close>

definition sqs_bounds :: "queue_config \<Rightarrow> bool" where
  "sqs_bounds c \<longleftrightarrow>
     visibility_timeout c \<le> 43200 \<and>
     60 \<le> message_retention_period c \<and> message_retention_period c \<le> 1209600 \<and>
     1024 \<le> max_message_size c \<and> max_message_size c \<le> 262144 \<and> delay_seconds c \<le> 900"

lemma set_attribute_keeps:
  assumes "set_attribute x key value c = Inr c'"
  shows "qc_id c' = qc_id c \<and> qc_name c' = qc_name c \<and> qc_type c' = qc_type c \<and> tags c' = tags c \<and>
    (max_message_size c' = max_message_size c \<or> max_message_size c' \<le> 262144) \<and>
    (sqs_bounds c \<longrightarrow> sqs_bounds c')"
  using assms
  by (auto simp: set_attribute_def set_dlq_def set_allow_policy_def sqs_bounds_def Let_def
      split: if_splits option.splits)

lemma set_attributes_keeps:
  "set_attributes x attrs c = Inr c' \<Longrightarrow>
     qc_id c' = qc_id c \<and> qc_name c' = qc_name c \<and> qc_type c' = qc_type c \<and> tags c' = tags c \<and>
     (max_message_size c' = max_message_size c \<or> max_message_size c' \<le> 262144) \<and>
     (sqs_bounds c \<longrightarrow> sqs_bounds c')"
proof (induction x attrs c rule: set_attributes.induct)
  case (2 x key v attrs c)
  then obtain c1 where c1: "set_attribute x key v c = Inr c1" "set_attributes x attrs c1 = Inr c'"
    by (cases "set_attribute x key v c") simp_all
  from 2(1) [OF c1] set_attribute_keeps [OF c1(1)] show ?case by auto
qed simp

text \<open>A configuration after which an attribute has been set, as printed.\<close>

lemma set_printed_attribute:
  assumes "sqs_bounds c"
  shows "set_attribute x ''VisibilityTimeout'' (show_nat (unat (visibility_timeout c))) c = Inr c"
    and "set_attribute x ''MessageRetentionPeriod'' (show_nat (unat (message_retention_period c))) c = Inr c"
    and "set_attribute x ''MaximumMessageSize'' (show_nat (max_message_size c)) c = Inr c"
    and "set_attribute x ''DelaySeconds'' (show_nat (unat (delay_seconds c))) c = Inr c"
  using assms by (simp_all add: set_attribute_def parse_u32_show parse_usize_show sqs_bounds_def)

section \<open>The handlers over any such backend\<close>

context queue_store begin

lemma reread_plain: "inv s \<Longrightarrow> tags c = [] \<Longrightarrow> reread c = c"
  using same_config_plain [OF reread_same] .

text \<open>Storing a configuration that has no tags yet.\<close>

lemma create_untagged:
  assumes "inv s" and "lookup s (qc_id c) = None" and "name_free s (qc_name c)" and "size_ok (max_message_size c)"
    and "tags c = []"
  shows "\<exists>s'. be_create_queue b e c s = (Inr c, s') \<and> inv s' \<and> lookup s' = (lookup s)(qc_id c \<mapsto> c)"
  using create_new [OF assms(1-4)] reread_plain [OF assms(1,5)] by simp

lemma create_queue_reply:
  assumes "inv s" and "h_backend h = b" and "get_param r ''QueueName'' = Some name"
    and "validate_sqs_queue_name x name = Inr ()" and "lookup s name = None" and "name_free s name"
  shows "\<exists>s'. handle_create_queue x h es r s =
      (Inr (build_create_queue_response (uuid (es 0) 0) (get_queue_url h name)), s') \<and> inv s' \<and>
    lookup s' = (lookup s)(name \<mapsto> create_config x name (parse_queue_attributes r))"
  using create_untagged [OF assms(1), of "create_config x name (parse_queue_attributes r)" "es 1"] assms(2-6)
    size_small [of 262144]
  by (fastforce simp: handle_create_queue_def get_required_param_def create_config_def Let_def
      SQS_MAX_MESSAGE_SIZE_def)

lemma create_queue_again:
  assumes "inv s" and "h_backend h = b" and "get_param r ''QueueName'' = Some name"
    and "validate_sqs_queue_name x name = Inr ()" and "lookup s name \<noteq> None"
  shows "handle_create_queue x h es r s =
    (Inr (build_error_response (uuid (es 0) 0) InternalError (''Queue already exists: '' @ name)), s)"
  using create_old [of s "create_config x name (parse_queue_attributes r)" "es 1"] assms
  by (simp add: handle_create_queue_def get_required_param_def create_config_def Let_def on_error_def)

lemma get_queue_url_reply:
  assumes "inv s" and "h_backend h = b" and "get_param r ''QueueName'' = Some name"
  shows "handle_get_queue_url h es r s =
    (Inr (if lookup s name = None then queue_missing (uuid (es 0) 0) name
          else build_get_queue_url_response (uuid (es 0) 0) (get_queue_url h name)), s)"
  using assms by (auto simp: handle_get_queue_url_def get_required_param_def get_queue on_error_def Let_def
      split: option.split)

lemma extract_queue_url: "\<lbrakk>name \<noteq> []; CHR ''/'' \<notin> set name\<rbrakk> \<Longrightarrow>
    extract_queue_name_from_url (get_queue_url h name) = Some name"
proof -
  assume name: "name \<noteq> []" "CHR ''/'' \<notin> set name"
  have "last (split_on (CHR ''/'') (u @ CHR ''/'' # name)) = name" for u
  proof (induction u)
    case Nil
    show ?case using split_on_append [of "CHR ''/''" "[]" name] name by (simp add: split_on_no_sep)
  next
    case (Cons c u)
    have "split_on (CHR ''/'') (u @ CHR ''/'' # name) \<noteq> []" by simp
    moreover have "length (split_on (CHR ''/'') (u @ CHR ''/'' # name)) \<ge> 2"
      by (induction u) (auto simp: split_on_no_sep [OF name(2)] split: list.splits)
    ultimately show ?case using Cons.IH
      by (cases "split_on (CHR ''/'') (u @ CHR ''/'' # name)") (auto simp: Let_def)
  qed
  from this [of "h_base_url h @ ''/queue''"] name(1) show ?thesis
    by (simp add: extract_queue_name_from_url_def get_queue_url_def Let_def)
qed

text \<open>Setting attributes is all or nothing.\<close>

lemma set_queue_attributes_cases:
  assumes "inv s" and "h_backend h = b" and "get_param r ''QueueUrl'' = Some url"
    and "extract_queue_name_from_url url = Some name" and "lookup s name = Some c"
  shows "(\<exists>message. set_attributes x (parse_queue_attributes r) c = Inl message \<and>
      handle_set_queue_attributes x h es r s = (invalid_parameter (uuid (es 0) 0) message, s)) \<or>
    (\<exists>c' s'. set_attributes x (parse_queue_attributes r) c = Inr c' \<and>
      handle_set_queue_attributes x h es r s = (Inr (build_delete_message_response (uuid (es 0) 0)), s') \<and>
      inv s' \<and> lookup s' = (lookup s)(name \<mapsto> reread c'))"
proof (cases "set_attributes x (parse_queue_attributes r) c")
  case (Inl message)
  then show ?thesis
    using assms by (simp add: handle_set_queue_attributes_def with_queue_name_def with_config_of_def
        get_required_param_def get_queue Let_def)
next
  case (Inr c')
  note keeps = set_attributes_keeps [OF Inr]
  have "size_ok (max_message_size c')"
    using keeps size_small [of "max_message_size c'"] lookup_size [OF assms(1,5)] by auto
  moreover have "qc_id c' = name" using keeps lookup_id [OF assms(1,5)] by simp
  ultimately obtain s' where
    "be_update_queue b (es 1) c' s = (Inr c', s')" "inv s'" "lookup s' = (lookup s)(name \<mapsto> reread c')"
    using update_old [OF assms(1), of c' c "es 1"] keeps assms(5) by auto
  then show ?thesis
    using assms Inr by (simp add: handle_set_queue_attributes_def with_queue_name_def with_config_of_def
        get_required_param_def get_queue finish_update_def Let_def)
qed

lemma tag_queue_reply:
  assumes "inv s" and "h_backend h = b" and "get_param r ''QueueUrl'' = Some url"
    and "extract_queue_name_from_url url = Some name" and "lookup s name = Some c"
  shows "\<exists>s'. handle_tag_queue h es r s = (Inr (build_tag_queue_response (uuid (es 0) 0)), s') \<and>
    inv s' \<and> lookup s' = (lookup s)(name \<mapsto> reread (add_tags (numbered r (request_tag r)) c))"
proof -
  define c' where "c' = add_tags (numbered r (request_tag r)) c"
  have "qc_id c' = name" "qc_name c' = qc_name c" "qc_type c' = qc_type c" "max_message_size c' = max_message_size c"
    using lookup_id [OF assms(1,5)] by (simp_all add: c'_def add_tags_def)
  with update_old [OF assms(1), of c' c "es 1"] lookup_size [OF assms(1,5)] assms(5) obtain s' where
    "be_update_queue b (es 1) c' s = (Inr c', s')" "inv s'" "lookup s' = (lookup s)(name \<mapsto> reread c')" by auto
  then show ?thesis
    using assms by (simp add: handle_tag_queue_def with_queue_name_def with_config_of_def
        get_required_param_def get_queue finish_update_def Let_def c'_def)
qed

lemma delete_queue_then_gone:
  assumes "inv s" and "h_backend h = b" and "get_param r ''QueueUrl'' = Some url"
    and "extract_queue_name_from_url url = Some name" and "lookup s name \<noteq> None"
    and "get_param r' ''QueueName'' = Some name"
  shows "\<exists>s'. handle_delete_queue h es r s = (Inr (build_delete_message_response (uuid (es 0) 0)), s') \<and>
    handle_get_queue_url h es' r' s' = (Inr (queue_missing (uuid (es' 0) 0) name), s')"
proof -
  obtain s' where "be_delete_queue b name s = (Inr (), s')" "inv s'" "lookup s' = (lookup s)(name := None)"
    using delete_old [OF assms(1,5)] by blast
  then show ?thesis
    using get_queue_url_reply [OF _ assms(2,6)] assms(2-4)
    by (simp add: handle_delete_queue_def with_queue_name_def get_required_param_def Let_def)
qed

end

end
