(* ===== verification/Memory_Contract.thy ===== *)
theory Memory_Contract
  imports Memory_Sending Backend_Contract
begin

text \<open>
  The in-memory backend keeps the contract the SQS handlers rely on: the interpretation of
  \<open>queue_store\<close> on \<open>memory_backend\<close>.
\<close>

definition queue_lookup :: "in_memory \<Rightarrow> string \<Rightarrow> queue_config option" where
  "queue_lookup s k = map_option qd_config (map_of (queues s) k)"

lemma lookup_set_queue: "queue_lookup (set_queue k q s) = (queue_lookup s)(k \<mapsto> qd_config q)"
  by (simp add: queue_lookup_def fun_eq_iff)

lemma lookup_set_same:
  "map_of (queues s) k = Some q \<Longrightarrow> qd_config q' = qd_config q \<Longrightarrow> queue_lookup (set_queue k q' s) = queue_lookup s"
  by (simp add: queue_lookup_def fun_eq_iff)

lemma lookup_evict: "queue_lookup (snd (maybe_evict s)) = queue_lookup s"
proof (rule maybe_evict_cases [of s])
  fix k q m ms
  assume "maybe_evict s = (Inr (), pop_front_of k s)"
  then show ?thesis
    by (cases rule: pop_front_of_cases [of k s]) (simp_all add: lookup_set_same)
qed simp_all

lemma send_locked_config: "qd_config (snd (send_message_locked x e q m)) = qd_config q"
  by (rule send_locked_cases [of x e q m]) simp_all

lemma send_locked_same:
  "send_message_locked x e q m = (Inr m', q') \<Longrightarrow> msg_id m' = msg_id m \<and> body m' = body m"
  by (auto simp: send_message_locked_def Let_def split: if_splits option.splits)

lemma send_message_lookup: "queue_lookup (snd (send_message x e k m s)) = queue_lookup s"
  by (rule send_message_states [of x e k m s])
    (simp_all add: lookup_evict lookup_set_same send_locked_config)

lemma send_message_same:
  assumes "send_message x e k m s = (Inr m', s')"
  shows "msg_id m' = msg_id m \<and> body m' = body m"
  using assms by (auto simp: send_message_unfold split: prod.splits sum.splits option.splits dest: send_locked_same)

lemma send_message_none: "queue_lookup s k = None \<Longrightarrow> \<exists>err s'. send_message x e k m s = (Inl err, s')"
  using maybe_evict_keys [of s k]
  by (auto simp: send_message_unfold queue_lookup_def split: prod.split sum.split option.split)

lemma take_loop_config: "qd_config (tk_queue (fst (take_loop x e k vt t idxs st))) = qd_config (tk_queue st)"
proof (induction idxs arbitrary: st e)
  case (Cons i idxs)
  show ?case
    by (rule take_loop_cases [of x e k vt t i idxs st])
      (simp_all add: Cons.IH taken_queue_def del: take_loop.simps(2))
qed simp

lemma dlq_loop_config: "queue_lookup (dlq_loop e t moves s) = queue_lookup s"
  by (simp add: queue_lookup_def dlq_loop_lookup fun_eq_iff option.map_comp o_def)

lemma receive_messages_lookup:
  assumes "mem_wf s"
  shows "queue_lookup (snd (receive_messages x e k ro s)) = queue_lookup s"
proof (cases "map_of (queues s) k")
  case (Some q)
  obtain st panicked vt idxs where
    loc: "take_loop x e k vt (now e 1) idxs (take_start e q) = (st, panicked)"
    and res: "receive_messages x e k ro s =
       (if panicked then (Inl secret_unset, set_queue k (tk_queue st) s)
        else (Inr (rev (tk_received st)),
              dlq_loop (env_from 2 e) (now e 1) (tk_dlq st) (set_queue k (tk_queue st) s)))"
    by (rule receive_messages_states [OF Some])
  have "qd_config (tk_queue (take_start e q)) = qd_config q"
    using mem_wf_in_flight [OF assms Some] by (simp add: take_start_def return_expired_eq)
  then have "qd_config (tk_queue st) = qd_config q"
    using take_loop_config [of x e k vt "now e 1" idxs "take_start e q"] unfolding loc by simp
  then show ?thesis by (simp add: res dlq_loop_config lookup_set_same [OF Some])
qed (simp add: receive_messages_def)

lemma delete_message_lookup: "queue_lookup (snd (delete_message x k h s)) = queue_lookup s"
  by (auto simp: delete_message_def lookup_set_same split: sum.split option.split)

lemma change_visibility_lookup: "queue_lookup (snd (change_visibility x e k h vt s)) = queue_lookup s"
  by (auto simp: change_visibility_def lookup_set_same split: sum.split option.split)

lemma purge_queue_lookup: "queue_lookup (snd (purge_queue k s)) = queue_lookup s"
  by (auto simp: purge_queue_def lookup_set_same split: option.split)

lemma delete_queue_lookup:
  "queue_lookup s k \<noteq> None \<Longrightarrow>
     \<exists>s'. delete_queue k s = (Inr (), s') \<and> queue_lookup s' = (queue_lookup s)(k := None)"
  by (auto simp: delete_queue_def queue_lookup_def AList.delete_conv' fun_eq_iff split: option.split)

interpretation mem: queue_store "memory_backend x" mem_wf queue_lookup "\<lambda>_ _. True" "\<lambda>_. True" "\<lambda>c. c" for x
proof
  show "be_get_queue (memory_backend x) k s =
      (case queue_lookup s k of None \<Rightarrow> Inl (QueueNotFound k) | Some c \<Rightarrow> Inr c)" for k s
    by (simp add: memory_backend_def get_queue_def queue_lookup_def split: option.split)
next
  fix s :: in_memory and k :: string and c :: queue_config
  assume "mem_wf s" and "queue_lookup s k = Some c"
  then show "qc_id c = k" by (auto simp: queue_lookup_def queue_wf_def dest: mem_wf_lookup)
next
  fix s :: in_memory and c :: queue_config and e :: env
  assume "mem_wf s" and "queue_lookup s (qc_id c) = None"
  then show "\<exists>s'. be_create_queue (memory_backend x) e c s = (Inr c, s') \<and> mem_wf s' \<and>
      queue_lookup s' = (queue_lookup s)(qc_id c \<mapsto> c)"
    using create_queue_wf [of s e c] by (auto simp: memory_backend_def create_queue_def queue_lookup_def fun_eq_iff)
next
  fix s :: in_memory and c :: queue_config and e :: env
  assume "queue_lookup s (qc_id c) \<noteq> None"
  then show "be_create_queue (memory_backend x) e c s = (Inl (QueueAlreadyExists (qc_id c)), s)"
    by (auto simp: memory_backend_def create_queue_def queue_lookup_def)
next
  fix s :: in_memory and c c0 :: queue_config and e :: env
  assume "mem_wf s" and "queue_lookup s (qc_id c) = Some c0"
  then show "\<exists>s'. be_update_queue (memory_backend x) e c s = (Inr c, s') \<and> mem_wf s' \<and>
      queue_lookup s' = (queue_lookup s)(qc_id c \<mapsto> c)"
    using update_queue_wf [of s c] by (auto simp: memory_backend_def update_queue_def queue_lookup_def fun_eq_iff)
next
  fix s :: in_memory and k :: string
  assume "mem_wf s" and "queue_lookup s k \<noteq> None"
  then show "\<exists>s'. be_delete_queue (memory_backend x) k s = (Inr (), s') \<and> mem_wf s' \<and>
      queue_lookup s' = (queue_lookup s)(k := None)"
    using delete_queue_lookup [of s k] delete_queue_wf [of s k] by (auto simp: memory_backend_def)
qed (auto simp: memory_backend_def delete_queue_def get_stats_def send_message_none send_message_same
    send_message_wf send_message_lookup receive_messages_wf receive_messages_lookup delete_message_wf
    delete_message_lookup change_visibility_wf change_visibility_lookup purge_queue_wf purge_queue_lookup
    queue_lookup_def split: option.splits)

end
