(* ===== verification/Sqs_Claims.thy ===== *)
theory Sqs_Claims
  imports Memory_Contract
begin

text \<open>
  The SQS front end over the in-memory backend: the properties of the handlers, obtained
  from the contract of the backend.
\<close>

definition sqs_over_memory :: "ext \<Rightarrow> string \<Rightarrow> in_memory sqs_handler" where
  "sqs_over_memory x url = \<lparr> h_backend = memory_backend x, h_base_url = url \<rparr>"

lemma sqs_over_memory_backend [simp]: "h_backend (sqs_over_memory x url) = memory_backend x"
  by (simp add: sqs_over_memory_def)

text \<open>
  C38. A queue that CreateQueue accepts exists from then on: the reply carries its URL,
  GetQueueUrl answers with the same URL, from which the handlers recover its name, the same
  CreateQueue sent once more answers InternalError (the README of the Python example calls the
  operation idempotent, which this code does not make it), and no other queue changes.
\<close>

theorem create_queue_lifecycle:
  assumes "mem_wf s" and "get_param r ''QueueName'' = Some name"
    and "validate_sqs_queue_name x name = Inr ()" and "queue_lookup s name = None"
    and "name \<noteq> []" and "CHR ''/'' \<notin> set name"
  shows "\<exists>s'. handle_create_queue x (sqs_over_memory x base) es r s =
      (Inr (build_create_queue_response (uuid (es 0) 0) (get_queue_url (sqs_over_memory x base) name)), s') \<and>
    queue_lookup s' = (queue_lookup s)(name \<mapsto> create_config x name (parse_queue_attributes r)) \<and>
    handle_get_queue_url (sqs_over_memory x base) es' r s' =
      (Inr (build_get_queue_url_response (uuid (es' 0) 0) (get_queue_url (sqs_over_memory x base) name)), s') \<and>
    extract_queue_name_from_url (get_queue_url (sqs_over_memory x base) name) = Some name \<and>
    handle_create_queue x (sqs_over_memory x base) es' r s' =
      (Inr (build_error_response (uuid (es' 0) 0) InternalError (''Queue already exists: '' @ name)), s')"
proof -
  define h where "h = sqs_over_memory x base"
  have b: "h_backend h = memory_backend x" by (simp add: h_def)
  obtain s' where s': "handle_create_queue x h es r s =
      (Inr (build_create_queue_response (uuid (es 0) 0) (get_queue_url h name)), s')"
    and wf: "mem_wf s'" and look: "queue_lookup s' = (queue_lookup s)(name \<mapsto> create_config x name (parse_queue_attributes r))"
    using mem.create_queue_reply [OF assms(1) b assms(2-4)] by blast
  have exists: "queue_lookup s' name \<noteq> None" by (simp add: look)
  show ?thesis
    using s' look exists mem.get_queue_url_reply [OF wf b assms(2), of es'] mem.extract_queue_url [OF assms(5,6)]
      mem.create_queue_again [OF wf b assms(2,3) exists, of es'] unfolding h_def by auto
qed

definition sample_request :: "sqs_action \<Rightarrow> params \<Rightarrow> sqs_request" where
  "sample_request a ps = \<lparr> rq_action = a, rq_params = ps, rq_is_json = False \<rparr>"

theorem create_queue_lifecycle_witness:
  "\<exists>s'. handle_create_queue sample_ext (sqs_over_memory sample_ext ''http://h'') (\<lambda>_. sample_env 1)
      (sample_request ActCreateQueue [(''QueueName'', ''jobs'')]) (sample_mem SqsStandard None []) =
      (Inr (build_create_queue_response ''0'' ''http://h/queue/jobs''), s') \<and>
    queue_lookup s' ''jobs'' \<noteq> None"
proof -
  define r where "r = sample_request ActCreateQueue [(''QueueName'', ''jobs'')]"
  have name: "get_param r ''QueueName'' = Some ''jobs''" by (simp add: r_def sample_request_def get_param_def)
  have valid: "validate_sqs_queue_name sample_ext ''jobs'' = Inr ()" by code_simp
  have fresh: "queue_lookup (sample_mem SqsStandard None []) ''jobs'' = None"
    by (simp add: queue_lookup_def sample_mem_def)
  have zero: "show_nat 0 = ''0''" by code_simp
  have url: "get_queue_url (sqs_over_memory sample_ext ''http://h'') ''jobs'' = ''http://h/queue/jobs''"
    by (simp add: get_queue_url_def sqs_over_memory_def)
  show ?thesis
    using create_queue_lifecycle [OF sample_wf name valid fresh, of "''http://h''" "\<lambda>_. sample_env 1"]
    by (fastforce simp: url zero r_def)
qed

text \<open>
  SetQueueAttributes is all or nothing and keeps the documented limits: either some
  attribute is invalid, the reply is an error and the backend is unchanged; or every
  attribute is applied, to this queue only, and limits that held before still hold.
\<close>

lemma set_queue_attributes_atomic:
  assumes "mem_wf s" and "get_param r ''QueueUrl'' = Some url"
    and "extract_queue_name_from_url url = Some name" and "queue_lookup s name = Some c"
  shows "(\<exists>message. set_attributes x (parse_queue_attributes r) c = Inl message \<and>
      handle_set_queue_attributes x (sqs_over_memory x base) es r s = (invalid_parameter (uuid (es 0) 0) message, s)) \<or>
    (\<exists>c' s'. set_attributes x (parse_queue_attributes r) c = Inr c' \<and>
      handle_set_queue_attributes x (sqs_over_memory x base) es r s = (Inr (build_delete_message_response (uuid (es 0) 0)), s') \<and>
      queue_lookup s' = (queue_lookup s)(name \<mapsto> c') \<and>
      qc_type c' = qc_type c \<and> tags c' = tags c \<and> (sqs_bounds c \<longrightarrow> sqs_bounds c'))"
  using mem.set_queue_attributes_cases [OF assms(1) _ assms(2-4), of "sqs_over_memory x base" x x es] set_attributes_keeps
  by fastforce

lemma set_queue_attributes_atomic_sample:
  "\<exists>s'. handle_set_queue_attributes sample_ext (sqs_over_memory sample_ext ''http://h'') (\<lambda>_. sample_env 1)
      (sample_request ActSetQueueAttributes [(''QueueUrl'', ''http://h/queue/q''), (''VisibilityTimeout'', ''60'')])
      (sample_mem SqsStandard None []) = (Inr (build_delete_message_response ''0''), s') \<and>
    map_option visibility_timeout (queue_lookup s' ''q'') = Some 60"
proof -
  define r where "r = sample_request ActSetQueueAttributes
    [(''QueueUrl'', ''http://h/queue/q''), (''VisibilityTimeout'', ''60'')]"
  define c where "c = sample_config ''q'' SqsStandard None"
  have url: "get_param r ''QueueUrl'' = Some ''http://h/queue/q''"
    by (simp add: r_def sample_request_def get_param_def)
  have name: "extract_queue_name_from_url ''http://h/queue/q'' = Some ''q''" by code_simp
  have look: "queue_lookup (sample_mem SqsStandard None []) ''q'' = Some c"
    by (simp add: queue_lookup_def sample_mem_def sample_queue_def c_def)
  have "parse_queue_attributes r = [(''VisibilityTimeout'', ''60'')]" 
    by (simp add: r_def sample_request_def parse_queue_attributes_def known_attributes_def get_param_def
        numbered_def queue_attribute_at_def numbered_key_def show_nat_small insert_param_def)
  moreover have "show_nat 60 = ''60''" by code_simp
  then have "parse_u32 ''60'' = Some 60" using parse_u32_show [of 60] by simp
  ultimately have set: "set_attributes sample_ext (parse_queue_attributes r) c = Inr (c\<lparr>visibility_timeout := 60\<rparr>)"
    by (simp add: set_attribute_def)
  have zero: "show_nat 0 = ''0''" by code_simp
  show ?thesis
    unfolding r_def [symmetric]
    using set_queue_attributes_atomic [OF sample_wf url name look, of sample_ext "''http://h''" "\<lambda>_. sample_env 1"]
    by (auto simp: set zero)
qed

text \<open>
  Attributes survive a round trip: setting a numeric attribute to the text
  GetQueueAttributes prints for it is accepted and changes nothing, for a configuration
  within the limits.
\<close>

theorem printed_attributes_accepted:
  assumes "sqs_bounds c"
    and "attr \<in> {QA_VisibilityTimeout, QA_MessageRetentionPeriod, QA_MaximumMessageSize, QA_DelaySeconds}"
  shows "set_attributes x (add_queue_attribute t c st attr) c = Inr c"
  using assms(2) set_printed_attribute [OF assms(1)]
  by (auto simp: add_queue_attribute_def one_attribute_def)

theorem printed_attributes_accepted_witness:
  "set_attributes sample_ext (add_queue_attribute 0 (sample_config ''q'' SqsStandard None)
     \<lparr> st_available_messages = 0, st_in_flight_messages = 0, st_dlq_messages = 0, oldest_message_timestamp = None \<rparr>
     QA_VisibilityTimeout) (sample_config ''q'' SqsStandard None) = Inr (sample_config ''q'' SqsStandard None)"
  by (rule printed_attributes_accepted) (simp_all add: sqs_bounds_def sample_config_def)


section \<open>Batches\<close>

lemma send_batch_loop_accounts:
  "send_batch_loop x b es k n entries ok failed s = (Inr (n', ok', failed'), s') \<Longrightarrow>
     mset (map br_id ok') + mset (map be_id failed') =
       mset (map br_id ok) + mset (map be_id failed) + mset (map se_id entries) \<and>
     n' \<le> n + length entries"
proof (induction entries arbitrary: n ok failed s)
  case (Cons entry entries)
  show ?case
  proof (cases "SQS_MAX_MESSAGE_SIZE < length (se_message_body entry)")
    case True
    then show ?thesis using Cons.IH [of n ok "failed @ [too_long entry]" s] Cons.prems by (simp add: too_long_def)
  next
    case False
    obtain res s1 where sent: "be_send_message b (es (Suc n)) k (batch_message (es 0) n k entry) s = (res, s1)"
      by (cases "be_send_message b (es (Suc n)) k (batch_message (es 0) n k entry) s")
    show ?thesis
    proof (cases res)
      case (Inr m)
      then show ?thesis using Cons.prems False sent by (simp) (drule Cons.IH, simp)
    next
      case (Inl err)
      then show ?thesis using Cons.prems False sent
        by (cases err) (simp_all, (drule Cons.IH, simp)+)
    qed
  qed
qed simp

text \<open>
  A batch send reports on every entry exactly once: over any backend, unless it panics,
  the identifiers of the entries reported as sent and of those reported as failed are
  together the identifiers of the request.
\<close>

theorem send_batch_reports_all:
  assumes "send_batch_loop x b es queue_name 0 entries [] [] s = (Inr (n, successful, failed), s')"
  shows "mset (map br_id successful) + mset (map be_id failed) = mset (map se_id entries)"
  using send_batch_loop_accounts [OF assms] by simp

text \<open>CreateQueue does not enforce the limits SetQueueAttributes enforces.\<close>

lemma create_queue_unbounded:
  "visibility_timeout (create_config x ''q'' [(''VisibilityTimeout'', show_nat 4294967295)]) = 4294967295"
  using parse_u32_show [of 4294967295] by (simp add: create_config_def u32_attribute_def Let_def)

end
