(* ===== verification/Push_Queue.thy ===== *)
theory Push_Queue
  imports Lclq_Types
begin

text \<open>
  The delivery queue of push subscriptions (\<open>src/pubsub/push_queue.rs\<close>): tasks in a
  \<open>BinaryHeap\<close> ordered so that the earliest scheduled time comes first, the operation that takes a
  task whose time has come, and the loop that waits for one.

  The standard library promises that \<open>peek\<close> and \<open>pop\<close> yield a greatest element and leaves open
  which one among equals.  The model keeps the tasks in a list and takes the first greatest one;
  the facts about the queue are proved in the locale \<open>delivery_heap\<close> from the promise alone.
\<close>

section \<open>Tasks and their order\<close>

text \<open>An \<open>Instant\<close> is read as nanoseconds.\<close>

record delivery_task =
  dt_message :: message
  dt_subscription :: subscription_config
  attempt :: u32
  scheduled_time :: int

datatype cmp_result = Less | Equal | Greater

definition instant_cmp :: "int \<Rightarrow> int \<Rightarrow> cmp_result" where
  "instant_cmp a b = (if a < b then Less else if a = b then Equal else Greater)"

definition task_eq :: "delivery_task \<Rightarrow> delivery_task \<Rightarrow> bool" where
  "task_eq a b = (scheduled_time a = scheduled_time b)"

definition task_cmp :: "delivery_task \<Rightarrow> delivery_task \<Rightarrow> cmp_result" where
  "task_cmp a b = instant_cmp (scheduled_time b) (scheduled_time a)"

section \<open>The heap\<close>

type_synonym binary_heap = "delivery_task list"

definition heap_push :: "delivery_task \<Rightarrow> binary_heap \<Rightarrow> binary_heap" where
  "heap_push t h = h @ [t]"

fun heap_peek :: "binary_heap \<Rightarrow> delivery_task option" where
  "heap_peek [] = None"
| "heap_peek (t # ts) =
     (case heap_peek ts of
        None \<Rightarrow> Some t
      | Some u \<Rightarrow> if task_cmp u t = Greater then Some u else Some t)"

definition heap_pop :: "binary_heap \<Rightarrow> delivery_task option \<times> binary_heap" where
  "heap_pop h = (case heap_peek h of None \<Rightarrow> (None, h) | Some t \<Rightarrow> (Some t, remove1 t h))"

section \<open>The queue\<close>

text \<open>
  \<open>notified\<close> stands for \<open>notify_one\<close>: every enqueue calls it, and a waiting loop may then look at
  the heap again.
\<close>

record delivery_queue =
  dq_heap :: binary_heap
  notified :: bool

definition new_delivery_queue :: delivery_queue where
  "new_delivery_queue = \<lparr> dq_heap = [], notified = False \<rparr>"

definition enqueue :: "delivery_task \<Rightarrow> delivery_queue \<Rightarrow> delivery_queue" where
  "enqueue task q = q\<lparr>dq_heap := heap_push task (dq_heap q), notified := True\<rparr>"

definition dequeue_ready :: "int \<Rightarrow> delivery_queue \<Rightarrow> delivery_task option \<times> delivery_queue" where
  "dequeue_ready clock q =
     (case heap_peek (dq_heap q) of
        None \<Rightarrow> (None, q)
      | Some task \<Rightarrow>
          (if scheduled_time task \<le> clock then
             (case heap_pop (dq_heap q) of (r, h) \<Rightarrow> (r, q\<lparr>dq_heap := h\<rparr>))
           else (None, q)))"

definition one_milli :: int where
  "one_milli = 1000000"

text \<open>How long the loop sleeps; \<open>None\<close> is a wait for a notification alone.\<close>

definition wait_duration :: "int \<Rightarrow> delivery_queue \<Rightarrow> int option" where
  "wait_duration clock q =
     (case heap_peek (dq_heap q) of
        None \<Rightarrow> None
      | Some task \<Rightarrow>
          (if clock < scheduled_time task then Some (scheduled_time task - clock) else Some one_milli))"

text \<open>
  One turn of the loop of \<open>wait_and_dequeue\<close>: the clock when it looks for a ready task, the clock
  when it computes its sleep, and what other threads enqueue before it looks again.  The loop runs
  until a turn finds a ready task; \<open>None\<close> means that it is still waiting after the given turns.
\<close>

record wait_turn =
  look_clock :: int
  sleep_clock :: int
  arrivals :: "delivery_task list"

fun wait_and_dequeue :: "wait_turn list \<Rightarrow> delivery_queue \<Rightarrow> (delivery_task \<times> delivery_queue) option" where
  "wait_and_dequeue [] q = None"
| "wait_and_dequeue (turn # turns) q =
     (case dequeue_ready (look_clock turn) q of
        (Some task, q') \<Rightarrow> Some (task, q')
      | (None, q') \<Rightarrow> wait_and_dequeue turns (fold enqueue (arrivals turn) q'))"

text \<open>
  Turns a run of the loop can make: after a turn that computed a sleep of \<open>d\<close> and was not notified,
  the next look is at least \<open>d\<close> later (the promise of \<open>tokio::time::sleep\<close>).
\<close>

fun turns_sleep :: "wait_turn list \<Rightarrow> delivery_queue \<Rightarrow> bool" where
  "turns_sleep (turn # turn' # turns) q \<longleftrightarrow>
     (case wait_duration (sleep_clock turn) q of
        None \<Rightarrow> arrivals turn \<noteq> []
      | Some d \<Rightarrow> arrivals turn \<noteq> [] \<or> sleep_clock turn + d \<le> look_clock turn')"
| "turns_sleep turns q \<longleftrightarrow> True"

definition queue_len :: "delivery_queue \<Rightarrow> nat" where
  "queue_len q = length (dq_heap q)"

definition queue_is_empty :: "delivery_queue \<Rightarrow> bool" where
  "queue_is_empty q = (dq_heap q = [])"

section \<open>The contract of the heap\<close>

lemma task_cmp_simps [simp]:
  "task_cmp a b = Greater \<longleftrightarrow> scheduled_time a < scheduled_time b"
  "task_cmp a b = Equal \<longleftrightarrow> scheduled_time a = scheduled_time b"
  "task_cmp a b = Less \<longleftrightarrow> scheduled_time b < scheduled_time a"
  by (auto simp: task_cmp_def instant_cmp_def)

locale delivery_heap =
  fixes push :: "delivery_task \<Rightarrow> 'h \<Rightarrow> 'h" and peek :: "'h \<Rightarrow> delivery_task option"
    and pop :: "'h \<Rightarrow> delivery_task option \<times> 'h" and tasks :: "'h \<Rightarrow> delivery_task multiset"
  assumes tasks_push: "tasks (push t h) = add_mset t (tasks h)"
    and peek_None: "peek h = None \<longleftrightarrow> tasks h = {#}"
    and peek_member: "peek h = Some t \<Longrightarrow> t \<in># tasks h"
    and peek_greatest: "peek h = Some t \<Longrightarrow> u \<in># tasks h \<Longrightarrow> task_cmp u t \<noteq> Greater"
    and pop_result: "fst (pop h) = peek h"
    and pop_tasks: "peek h = Some t \<Longrightarrow> tasks (snd (pop h)) = tasks h - {#t#}"
begin

lemma peek_earliest: "peek h = Some t \<Longrightarrow> u \<in># tasks h \<Longrightarrow> scheduled_time t \<le> scheduled_time u"
  using peek_greatest [of h t u] by auto

lemma pop_conserves: "peek h = Some t \<Longrightarrow> tasks h = add_mset t (tasks (snd (pop h)))"
  using peek_member pop_tasks by simp

text \<open>A task is ready exactly when some task of the heap is.\<close>

lemma ready_iff:
  "(\<exists>t. peek h = Some t \<and> scheduled_time t \<le> clock) \<longleftrightarrow> (\<exists>u. u \<in># tasks h \<and> scheduled_time u \<le> clock)"
proof
  assume "\<exists>u. u \<in># tasks h \<and> scheduled_time u \<le> clock"
  then obtain u where u: "u \<in># tasks h" "scheduled_time u \<le> clock" by blast
  then obtain t where t: "peek h = Some t" using peek_None [of h] by (cases "peek h") auto
  then have "scheduled_time t \<le> clock" using peek_earliest [OF t u(1)] u(2) by simp
  with t show "\<exists>t. peek h = Some t \<and> scheduled_time t \<le> clock" by blast
qed (use peek_member in blast)

text \<open>Taking tasks until none is left yields them in the order of their times.\<close>

lemma pop_then_later:
  assumes "peek h = Some t" and "peek (snd (pop h)) = Some u"
  shows "scheduled_time t \<le> scheduled_time u"
proof -
  have "u \<in># tasks (snd (pop h))" using assms(2) by (rule peek_member)
  then have "u \<in># tasks h" using pop_conserves [OF assms(1)] by (metis insert_iff set_mset_add_mset_insert)
  then show ?thesis by (rule peek_earliest [OF assms(1)])
qed

end

lemma heap_peek_None: "heap_peek h = None \<longleftrightarrow> h = []"
  by (cases h) (auto split: option.splits)

lemma heap_peek_member: "heap_peek h = Some t \<Longrightarrow> t \<in> set h"
  by (induction h arbitrary: t) (auto split: option.splits if_splits)

lemma heap_peek_least: "heap_peek h = Some t \<Longrightarrow> u \<in> set h \<Longrightarrow> scheduled_time t \<le> scheduled_time u"
  by (induction h arbitrary: t) (force simp: heap_peek_None split: option.splits if_splits)+

interpretation tasks: delivery_heap heap_push heap_peek heap_pop mset
proof
  show "heap_peek h = Some t \<Longrightarrow> u \<in># mset h \<Longrightarrow> task_cmp u t \<noteq> Greater" for h t u
    using heap_peek_least [of h t u] by auto
qed (auto simp: heap_push_def heap_pop_def heap_peek_None heap_peek_member split: option.split)

section \<open>Taking ready tasks\<close>

definition queued :: "delivery_queue \<Rightarrow> delivery_task multiset" where
  "queued q = mset (dq_heap q)"

lemma queued_new [simp]: "queued new_delivery_queue = {#}"
  by (simp add: queued_def new_delivery_queue_def)

lemma queued_enqueue [simp]: "queued (enqueue t q) = add_mset t (queued q)"
  by (simp add: queued_def enqueue_def tasks.tasks_push)

lemma queued_fold_enqueue [simp]: "queued (fold enqueue ts q) = queued q + mset ts"
  by (induction ts arbitrary: q) simp_all

lemma dequeue_ready_None:
  "fst (dequeue_ready clock q) = None \<longleftrightarrow> (\<forall>u \<in># queued q. clock < scheduled_time u)"
proof -
  have "fst (dequeue_ready clock q) = None \<longleftrightarrow>
      \<not> (\<exists>t. heap_peek (dq_heap q) = Some t \<and> scheduled_time t \<le> clock)"
    using tasks.pop_result [of "dq_heap q"] by (auto simp: dequeue_ready_def split: option.split prod.split)
  then show ?thesis unfolding tasks.ready_iff by (auto simp: queued_def not_le)
qed

lemma dequeue_ready_Some:
  assumes "dequeue_ready clock q = (Some t, q')"
  shows "queued q = add_mset t (queued q')" and "scheduled_time t \<le> clock"
    and "u \<in># queued q \<Longrightarrow> scheduled_time t \<le> scheduled_time u"
proof -
  obtain v where v: "heap_peek (dq_heap q) = Some v" and "scheduled_time v \<le> clock"
    using assms by (auto simp: dequeue_ready_def split: option.splits if_splits)
  with assms have "fst (heap_pop (dq_heap q)) = Some t" and q': "dq_heap q' = snd (heap_pop (dq_heap q))"
    by (auto simp: dequeue_ready_def split: prod.splits)
  then have vt: "v = t" using tasks.pop_result v by simp
  with \<open>scheduled_time v \<le> clock\<close> show "scheduled_time t \<le> clock" by simp
  show "queued q = add_mset t (queued q')"
    using tasks.pop_conserves [OF v] by (simp add: queued_def q' vt)
  show "u \<in># queued q \<Longrightarrow> scheduled_time t \<le> scheduled_time u"
    using tasks.peek_earliest [OF v, of u] by (simp add: queued_def vt)
qed

lemma dequeue_ready_unchanged: "dequeue_ready clock q = (None, q') \<Longrightarrow> q' = q"
  using tasks.pop_result [of "dq_heap q"]
  by (auto simp: dequeue_ready_def split: option.splits if_splits prod.splits)

text \<open>
  Taking a task: \<open>dequeue_ready\<close> takes a task of the queue exactly when one is due, the one it
  takes is due and none is due earlier, every other task stays, and with no task due the queue is
  left alone.
\<close>

lemma dequeue_ready_earliest:
  assumes "dequeue_ready clock q = (r, q')"
  shows "(r = None \<longleftrightarrow> (\<forall>u \<in># queued q. clock < scheduled_time u)) \<and>
    (case r of
       None \<Rightarrow> q' = q
     | Some t \<Rightarrow> queued q = add_mset t (queued q') \<and> scheduled_time t \<le> clock \<and>
         (\<forall>u \<in># queued q. scheduled_time t \<le> scheduled_time u))"
proof (cases r)
  case None
  with assms dequeue_ready_None [of clock q] dequeue_ready_unchanged [of clock q q'] show ?thesis by simp
next
  case (Some t)
  then have "fst (dequeue_ready clock q) \<noteq> None" using assms by simp
  then have "\<not> (\<forall>u \<in># queued q. clock < scheduled_time u)"
    unfolding dequeue_ready_None .
  with Some dequeue_ready_Some [of clock q t q'] assms show ?thesis by auto
qed

definition sample_task :: "int \<Rightarrow> delivery_task" where
  "sample_task t =
     \<lparr> dt_message = \<lparr> msg_id = ''m'', body = [], attributes = [], msg_queue_id = ''p:s'',
         sent_timestamp = 0, receive_count = 0, message_group_id = None, deduplication_id = None,
         sequence_number = None, msg_delay_seconds = None \<rparr>,
       dt_subscription = \<lparr> sub_id = ''p:s'', sub_name = ''projects/p/subscriptions/s'', sub_topic_id = ''p:t'',
         ack_deadline_seconds = 10, message_retention_duration = 60, enable_message_ordering = False,
         sub_filter = None, dead_letter_policy = None,
         push_config = Some \<lparr> endpoint = ''http://h'', retry_policy = None, timeout_seconds = None \<rparr> \<rparr>,
       attempt = 0, scheduled_time = t \<rparr>"

definition sample_delivery_queue :: delivery_queue where
  "sample_delivery_queue = enqueue (sample_task 7) (enqueue (sample_task 5) (enqueue (sample_task 9) new_delivery_queue))"

lemma scheduled_sample_task [simp]: "scheduled_time (sample_task t) = t"
  by (simp add: sample_task_def)

lemmas sample_queue_defs = sample_delivery_queue_def enqueue_def heap_push_def new_delivery_queue_def

lemma dequeue_ready_sample:
  "fst (dequeue_ready 4 sample_delivery_queue) = None \<and>
   (\<exists>q'. dequeue_ready 8 sample_delivery_queue = (Some (sample_task 5), q') \<and>
     queued sample_delivery_queue = add_mset (sample_task 5) (queued q'))"
proof -
  obtain r q' where r: "dequeue_ready 8 sample_delivery_queue = (r, q')" by fastforce
  have "r = Some (sample_task 5)"
    using r by (auto simp: dequeue_ready_def heap_pop_def sample_queue_defs)
  with dequeue_ready_earliest [OF r] r show ?thesis
    by (auto simp: dequeue_ready_def sample_queue_defs)
qed

section \<open>Waiting\<close>

lemma wait_duration_None: "wait_duration clock q = None \<longleftrightarrow> queued q = {#}"
  using heap_peek_None [of "dq_heap q"]
  by (auto simp: wait_duration_def queued_def split: option.split)

lemma wait_duration_due:
  assumes "wait_duration clock q = Some d" and "clock + d \<le> later"
  shows "\<exists>u \<in># queued q. scheduled_time u \<le> later" and "0 < d"
proof -
  obtain u where u: "heap_peek (dq_heap q) = Some u"
    and d: "d = (if clock < scheduled_time u then scheduled_time u - clock else one_milli)"
    using assms(1) by (auto simp: wait_duration_def split: option.splits if_splits)
  have "scheduled_time u \<le> later" using d assms(2) by (auto simp: one_milli_def split: if_splits)
  moreover have "u \<in># queued q" using tasks.peek_member [OF u] by (simp add: queued_def)
  ultimately show "\<exists>u \<in># queued q. scheduled_time u \<le> later" by blast
  show "0 < d" using d by (auto simp: one_milli_def split: if_splits)
qed

text \<open>
  The waiting loop does not oversleep: after one sleep that ends without a notification, of the
  length the loop computed, its next look finds a due task, so the loop returns; and what it returns
  is due at one of its two looks.
\<close>

lemma wait_returns_after_sleep:
  assumes "turns_sleep (a # b # turns) q" and "arrivals a = []" and "look_clock a \<le> look_clock b"
  shows "\<exists>t q'. wait_and_dequeue (a # b # turns) q = Some (t, q') \<and> t \<in># queued q \<and>
    scheduled_time t \<le> look_clock b \<and> queued q = add_mset t (queued q')"
proof -
  obtain r q1 where first: "dequeue_ready (look_clock a) q = (r, q1)" by fastforce
  show ?thesis
  proof (cases r)
    case (Some t)
    then show ?thesis using dequeue_ready_Some [of "look_clock a" q t q1] first assms(3) by auto
  next
    case None
    then have q1: "q1 = q" using dequeue_ready_unchanged first by blast
    obtain d where "wait_duration (sleep_clock a) q = Some d" "sleep_clock a + d \<le> look_clock b"
      using assms(1,2) by (auto split: option.splits)
    then have "\<exists>u \<in># queued q. scheduled_time u \<le> look_clock b" by (rule wait_duration_due)
    then have "fst (dequeue_ready (look_clock b) q) \<noteq> None"
      by (auto simp: dequeue_ready_None not_less)
    then obtain t q' where "dequeue_ready (look_clock b) q = (Some t, q')"
      by (cases "dequeue_ready (look_clock b) q") auto
    with None q1 first assms(2) dequeue_ready_Some [of "look_clock b" q t q'] show ?thesis by auto
  qed
qed

lemma wait_returns_after_sleep_sample:
  "\<exists>t q'. wait_and_dequeue [\<lparr> look_clock = 1, sleep_clock = 2, arrivals = [] \<rparr>,
       \<lparr> look_clock = 5, sleep_clock = 6, arrivals = [] \<rparr>] sample_delivery_queue = Some (t, q') \<and>
     scheduled_time t \<le> 5"
  using wait_returns_after_sleep [of "\<lparr> look_clock = 1, sleep_clock = 2, arrivals = [] \<rparr>"
      "\<lparr> look_clock = 5, sleep_clock = 6, arrivals = [] \<rparr>" "[]" sample_delivery_queue]
  by (auto simp: wait_duration_def sample_queue_defs)

end
