(* ===== verification/Push_Worker.thy ===== *)
theory Push_Worker
  imports Push_Queue Storage_Api
begin

text \<open>
  Push delivery over HTTP (\<open>src/pubsub/push_worker.rs\<close>): the request a worker posts, the retry with
  exponential back-off, and what happens to a message whose attempts are used up.  The HTTP client is
  a parameter: a function from the request to its outcome, one per call.  \<open>ext_push\<close> holds the
  formatting functions of third-party crates.
\<close>

section \<open>One delivery\<close>

record ext_push =
  to_rfc3339 :: "int \<Rightarrow> string"
  status_to_string :: "nat \<Rightarrow> string"

record http_request =
  hr_url :: string
  hr_headers :: "(string \<times> string) list"
  hr_timeout_seconds :: u64
  hr_json :: json

datatype http_outcome = RequestFailed string | ResponseStatus nat

definition DEFAULT_TIMEOUT_SECONDS :: u32 where
  "DEFAULT_TIMEOUT_SECONDS = 30"

definition crate_version :: string where
  "crate_version = ''0.2.2''"

text \<open>\<open>StatusCode::is_success\<close>.\<close>

definition is_success :: "nat \<Rightarrow> bool" where
  "is_success status \<longleftrightarrow> 200 \<le> status \<and> status < 300"

definition push_payload :: "ext_push \<Rightarrow> message \<Rightarrow> string \<Rightarrow> json" where
  "push_payload p m subscription_name =
     JObj [(''message'', JObj
              [(''data'', JStr (body m)),
               (''attributes'', JObj (map (\<lambda>(k, v).
                  (k, JStr (case string_value v of Some s \<Rightarrow> s | None \<Rightarrow> []))) (attributes m))),
               (''messageId'', JStr (msg_id m)),
               (''publishTime'', JStr (to_rfc3339 p (sent_timestamp m)))]),
           (''subscription'', JStr subscription_name)]"

definition push_request :: "ext_push \<Rightarrow> string \<Rightarrow> message \<Rightarrow> string \<Rightarrow> u32 \<Rightarrow> http_request" where
  "push_request p url m subscription_name timeout =
     \<lparr> hr_url = url,
       hr_headers = [(''Content-Type'', ''application/json''), (''User-Agent'', ''lclq-push/'' @ crate_version)],
       hr_timeout_seconds = ucast timeout,
       hr_json = push_payload p m subscription_name \<rparr>"

definition deliver_message ::
    "ext_push \<Rightarrow> (http_request \<Rightarrow> http_outcome) \<Rightarrow> string \<Rightarrow> message \<Rightarrow> string \<Rightarrow> u32 \<Rightarrow> unit result" where
  "deliver_message p post url m subscription_name timeout =
     (case post (push_request p url m subscription_name timeout) of
        RequestFailed reason \<Rightarrow> Inl (Internal (''HTTP request failed: '' @ reason))
      | ResponseStatus status \<Rightarrow>
          (if is_success status then Inr ()
           else Inl (Internal (''HTTP request failed with status: '' @ status_to_string p status))))"

section \<open>Retry\<close>

text \<open>\<open>attempt + 1\<close> is an addition of \<open>u32\<close>; that it never wraps for a queued task is part of the invariant of the pool.\<close>

definition backoff_secs :: "retry_policy_rec \<Rightarrow> u32 \<Rightarrow> u32" where
  "backoff_secs policy n =
     u32_min (saturating_mul32 (min_backoff_seconds policy) (saturating_pow32 2 n)) (max_backoff_seconds policy)"

definition calculate_retry :: "int \<Rightarrow> delivery_task \<Rightarrow> retry_policy_rec \<Rightarrow> delivery_task option" where
  "calculate_retry clock task policy =
     (let next_attempt = attempt task + 1 in
      if max_attempts policy \<le> next_attempt then None
      else Some \<lparr> dt_message = dt_message task, dt_subscription = dt_subscription task,
                  attempt = next_attempt,
                  scheduled_time = clock + seconds (int (unat (backoff_secs policy (attempt task)))) \<rparr>)"

section \<open>Attempts used up\<close>

definition string_attribute :: "string \<Rightarrow> message_attribute_value" where
  "string_attribute s = \<lparr> data_type = ''String'', string_value = Some s, binary_value = None \<rparr>"

definition dlt_attributes :: "delivery_task \<Rightarrow> subscription_config \<Rightarrow> (string \<times> message_attribute_value) list" where
  "dlt_attributes task subscription =
     AList.update ''attempts'' (string_attribute (show_nat (unat (attempt task))))
       (AList.update ''failure_reason'' (string_attribute ''max_push_attempts_exceeded'')
         (AList.update ''original_subscription'' (string_attribute (sub_name subscription))
           (attributes (dt_message task))))"

definition dlt_message :: "env \<Rightarrow> delivery_task \<Rightarrow> subscription_config \<Rightarrow> string \<Rightarrow> message" where
  "dlt_message e task subscription topic =
     \<lparr> msg_id = uuid e 0, body = body (dt_message task), attributes = dlt_attributes task subscription,
       msg_queue_id = topic, sent_timestamp = now e 0, receive_count = 0, message_group_id = None,
       deduplication_id = None, sequence_number = None, msg_delay_seconds = None \<rparr>"

text \<open>An error of the send is only logged.\<close>

definition handle_max_retries ::
    "env \<Rightarrow> 's backend \<Rightarrow> delivery_task \<Rightarrow> subscription_config \<Rightarrow> 's \<Rightarrow> 's" where
  "handle_max_retries e b task subscription s =
     (case dead_letter_policy subscription of
        None \<Rightarrow> s
      | Some dlp \<Rightarrow>
          snd (be_send_message b (env_from 1 e) (dead_letter_topic dlp)
                 (dlt_message e task subscription (dead_letter_topic dlp)) s))"

section \<open>A task\<close>

text \<open>The three ways a task leaves the worker, besides a task without a push configuration.\<close>

datatype task_outcome = Skipped | Delivered | Retried delivery_task | GaveUp

definition task_outcome ::
    "ext_push \<Rightarrow> (http_request \<Rightarrow> http_outcome) \<Rightarrow> int \<Rightarrow> delivery_task \<Rightarrow> task_outcome" where
  "task_outcome p post clock task =
     (case push_config (dt_subscription task) of
        None \<Rightarrow> Skipped
      | Some pc \<Rightarrow>
         (case deliver_message p post (endpoint pc) (dt_message task) (sub_name (dt_subscription task))
                 (case timeout_seconds pc of Some t \<Rightarrow> t | None \<Rightarrow> DEFAULT_TIMEOUT_SECONDS) of
            Inr _ \<Rightarrow> Delivered
          | Inl _ \<Rightarrow>
             (let policy = (case retry_policy pc of Some r \<Rightarrow> r | None \<Rightarrow> default_retry_policy) in
              case calculate_retry clock task policy of
                Some retry_task \<Rightarrow> Retried retry_task
              | None \<Rightarrow> GaveUp)))"

definition handle_delivery_task ::
    "ext_push \<Rightarrow> (http_request \<Rightarrow> http_outcome) \<Rightarrow> env \<Rightarrow> int \<Rightarrow> 's backend \<Rightarrow> delivery_task \<Rightarrow>
     delivery_queue \<times> 's \<Rightarrow> delivery_queue \<times> 's" where
  "handle_delivery_task p post e clock b task qs =
     (case task_outcome p post clock task of
        Retried retry_task \<Rightarrow> (enqueue retry_task (fst qs), snd qs)
      | GaveUp \<Rightarrow> (fst qs, handle_max_retries e b task (dt_subscription task) (snd qs))
      | _ \<Rightarrow> qs)"

section \<open>The back-off\<close>

text \<open>
  The back-off is exact although it is computed in saturating 32-bit arithmetic: it is the least
  of \<open>min_backoff * 2 ^ attempt\<close> and \<open>max_backoff\<close> over the natural numbers, so it never shrinks
  from one attempt to the next and never exceeds the maximum.
\<close>

theorem backoff_exact:
  "unat (backoff_secs policy n) =
     min (unat (min_backoff_seconds policy) * 2 ^ unat n) (unat (max_backoff_seconds policy)) \<and>
   (n \<le> n' \<longrightarrow> backoff_secs policy n \<le> backoff_secs policy n')"
proof -
  have exact: "unat (backoff_secs policy k) =
     min (unat (min_backoff_seconds policy) * 2 ^ unat k) (unat (max_backoff_seconds policy))" for k
  proof -
    let ?a = "unat (min_backoff_seconds policy)" and ?p = "(2::nat) ^ unat k"
    have max: "unat (max_backoff_seconds policy) \<le> 2 ^ 32 - 1"
      using unsigned_less [of "max_backoff_seconds policy", where ?'a = nat] by simp
    have "unat (backoff_secs policy k) =
        min (min (?a * min ?p (2 ^ 32 - 1)) (2 ^ 32 - 1)) (unat (max_backoff_seconds policy))"
      by (simp add: backoff_secs_def unat_u32_min unat_saturating_mul32 unat_saturating_pow32)
    also have "min (?a * min ?p (2 ^ 32 - 1)) (2 ^ 32 - 1) = min (?a * ?p) (2 ^ 32 - 1)"
    proof (cases "?p \<le> 2 ^ 32 - 1 \<or> ?a = 0")
      case False
      then have "1 \<le> ?a" "2 ^ 32 - 1 \<le> ?p" by auto
      then have "2 ^ 32 - 1 \<le> ?a * (2 ^ 32 - 1)" "2 ^ 32 - 1 \<le> ?a * ?p"
        using mult_le_mono [of 1 ?a "2 ^ 32 - 1"] mult_le_mono [of 1 ?a "2 ^ 32 - 1" ?p] by auto
      with \<open>2 ^ 32 - 1 \<le> ?p\<close> show ?thesis by (simp add: min_absorb2)
    qed auto
    finally show ?thesis using max by simp
  qed
  have "backoff_secs policy n \<le> backoff_secs policy n'" if "n \<le> n'"
  proof -
    have "(2::nat) ^ unat n \<le> 2 ^ unat n'" using that by (simp add: word_le_nat_alt)
    then have "unat (min_backoff_seconds policy) * 2 ^ unat n \<le> unat (min_backoff_seconds policy) * 2 ^ unat n'"
      by (rule mult_le_mono2)
    then show ?thesis by (simp add: word_le_nat_alt exact min.coboundedI1)
  qed
  with exact show ?thesis by blast
qed

theorem backoff_exact_witness:
  "unat (backoff_secs default_retry_policy 3) = 80 \<and>
   backoff_secs default_retry_policy 3 \<le> backoff_secs default_retry_policy 40"
  using backoff_exact [of default_retry_policy 3 40] by (simp add: default_retry_policy_def)

end
