(* ===== verification/Push_Pool.thy ===== *)
theory Push_Pool
  imports Push_Worker Samples Memory
begin

text \<open>
  The worker pool as a transition system: publishers enqueue tasks, workers take due tasks and handle
  them, time passes, and other clients change the backend.  The steps interleave freely, so the
  invariants hold for any number of workers.  The state carries a history of the published tasks,
  the posts, the failed ones among them, and the ways tasks ended, which no step reads.
\<close>

section \<open>Steps\<close>

record 's push_pool =
  pp_queue :: delivery_queue
  pp_held :: "delivery_task list"
  pp_backend :: 's
  pp_clock :: int
  pp_published :: "delivery_task list"
  pp_posts :: "(int \<times> delivery_task) list"
  pp_failed :: "(int \<times> delivery_task) list"
  pp_delivered :: "delivery_task list"
  pp_gave_up :: "delivery_task list"

definition new_pool :: "'s \<Rightarrow> int \<Rightarrow> 's push_pool" where
  "new_pool s0 clock =
     \<lparr> pp_queue = new_delivery_queue, pp_held = [], pp_backend = s0, pp_clock = clock,
       pp_published = [], pp_posts = [], pp_failed = [], pp_delivered = [], pp_gave_up = [] \<rparr>"

text \<open>Whether the endpoint takes the message: any other response than a status of the class 2xx is a failure.\<close>

definition post_succeeds :: "ext_push \<Rightarrow> (http_request \<Rightarrow> http_outcome) \<Rightarrow> delivery_task \<Rightarrow> bool" where
  "post_succeeds p post t =
     (case push_config (dt_subscription t) of
        None \<Rightarrow> False
      | Some pc \<Rightarrow>
         (case post (push_request p (endpoint pc) (dt_message t) (sub_name (dt_subscription t))
                 (case timeout_seconds pc of Some n \<Rightarrow> n | None \<Rightarrow> DEFAULT_TIMEOUT_SECONDS)) of
            RequestFailed reason \<Rightarrow> False
          | ResponseStatus status \<Rightarrow> 200 \<le> status \<and> status < 300))"

text \<open>A worker finishes the task \<open>t\<close> it holds; the retry is scheduled from the clock after the post.\<close>

definition finish_task ::
    "ext_push \<Rightarrow> (http_request \<Rightarrow> http_outcome) \<Rightarrow> env \<Rightarrow> int \<Rightarrow> 's backend \<Rightarrow> delivery_task \<Rightarrow>
     's push_pool \<Rightarrow> 's push_pool" where
  "finish_task p post e clock b t s =
     (case handle_delivery_task p post e clock b t (pp_queue s, pp_backend s) of (q', s') \<Rightarrow>
        s\<lparr>pp_queue := q', pp_backend := s', pp_clock := clock, pp_held := remove1 t (pp_held s),
          pp_posts := (if task_outcome p post clock t = Skipped then pp_posts s else (pp_clock s, t) # pp_posts s),
          pp_failed := (if push_config (dt_subscription t) = None \<or> post_succeeds p post t then pp_failed s
            else (pp_clock s, t) # pp_failed s),
          pp_delivered := (if task_outcome p post clock t = Delivered then t # pp_delivered s else pp_delivered s),
          pp_gave_up := (if task_outcome p post clock t = GaveUp then t # pp_gave_up s else pp_gave_up s)\<rparr>)"

inductive pool_step :: "ext_push \<Rightarrow> 's backend \<Rightarrow> 's push_pool \<Rightarrow> 's push_pool \<Rightarrow> bool"
  for p :: ext_push and b :: "'s backend" where
  publish: "\<lbrakk>attempt t = 0; scheduled_time t \<le> pp_clock s; push_config (dt_subscription t) \<noteq> None\<rbrakk> \<Longrightarrow>
    pool_step p b s (s\<lparr>pp_queue := enqueue t (pp_queue s), pp_published := t # pp_published s\<rparr>)"
| take: "dequeue_ready (pp_clock s) (pp_queue s) = (Some t, q') \<Longrightarrow>
    pool_step p b s (s\<lparr>pp_queue := q', pp_held := t # pp_held s\<rparr>)"
| finish: "\<lbrakk>t \<in> set (pp_held s); pp_clock s \<le> clock\<rbrakk> \<Longrightarrow>
    pool_step p b s (finish_task p post e clock b t s)"
| tick: "pp_clock s \<le> clock \<Longrightarrow> pool_step p b s (s\<lparr>pp_clock := clock\<rparr>)"
| other: "pool_step p b s (s\<lparr>pp_backend := s'\<rparr>)"

inductive pool_reachable :: "ext_push \<Rightarrow> 's backend \<Rightarrow> 's push_pool \<Rightarrow> bool"
  for p :: ext_push and b :: "'s backend" where
  start: "pool_reachable p b (new_pool s0 clock)"
| step: "\<lbrakk>pool_reachable p b s; pool_step p b s s'\<rbrakk> \<Longrightarrow> pool_reachable p b s'"

inductive_cases pool_step_cases: "pool_step p b s s'"

section \<open>Outcomes\<close>

text \<open>What a delivery is about: the message and the subscription; a retry keeps both.\<close>

definition task_key :: "delivery_task \<Rightarrow> message \<times> subscription_config" where
  "task_key t = (dt_message t, dt_subscription t)"

definition policy_of :: "delivery_task \<Rightarrow> retry_policy_rec" where
  "policy_of t =
     (case push_config (dt_subscription t) of
        Some pc \<Rightarrow> (case retry_policy pc of Some r \<Rightarrow> r | None \<Rightarrow> default_retry_policy)
      | None \<Rightarrow> default_retry_policy)"

definition attempt_limit :: "delivery_task \<Rightarrow> nat" where
  "attempt_limit t = max 1 (unat (max_attempts (policy_of t)))"

lemma policy_of_key: "task_key t = task_key u \<Longrightarrow> policy_of t = policy_of u"
  by (simp add: task_key_def policy_of_def)

lemma attempt_limit_key: "task_key t = task_key u \<Longrightarrow> attempt_limit t = attempt_limit u"
  by (simp only: attempt_limit_def policy_of_key [of t u])

lemma attempt_suc:
  assumes "unat (attempt t) < attempt_limit t"
  shows "unat (attempt t + 1) = Suc (unat (attempt t))"
proof -
  have "attempt_limit t \<le> 2 ^ 32 - 1"
    using unsigned_less [of "max_attempts (policy_of t)", where ?'a = nat]
    by (auto simp: attempt_limit_def)
  with assms show ?thesis by (simp add: unat_word_ariths)
qed

text \<open>The decision of \<open>calculate_retry\<close> under the bound every task of the pool keeps.\<close>

lemma calculate_retry_cases:
  assumes "unat (attempt t) < attempt_limit t"
  shows "calculate_retry clock t (policy_of t) =
    (if Suc (unat (attempt t)) < attempt_limit t
     then Some \<lparr> dt_message = dt_message t, dt_subscription = dt_subscription t, attempt = attempt t + 1,
       scheduled_time = clock + seconds (int (unat (backoff_secs (policy_of t) (attempt t)))) \<rparr>
     else None)"
  using attempt_suc [OF assms] assms
  by (auto simp: calculate_retry_def Let_def word_le_nat_alt attempt_limit_def max_def split: if_splits)

lemma task_outcome_policy:
  "task_outcome p post clock t =
     (if push_config (dt_subscription t) = None then Skipped
      else case deliver_message p post (endpoint (the (push_config (dt_subscription t)))) (dt_message t)
              (sub_name (dt_subscription t))
              (case timeout_seconds (the (push_config (dt_subscription t))) of
                 Some n \<Rightarrow> n | None \<Rightarrow> DEFAULT_TIMEOUT_SECONDS) of
             Inr _ \<Rightarrow> Delivered
           | Inl _ \<Rightarrow>
               (case calculate_retry clock t (policy_of t) of Some u \<Rightarrow> Retried u | None \<Rightarrow> GaveUp))"
  by (cases "push_config (dt_subscription t)")
    (simp_all add: task_outcome_def policy_of_def Let_def split: sum.split)

lemma retried_task:
  assumes "task_outcome p post clock t = Retried u" and "unat (attempt t) < attempt_limit t"
  shows "task_key u = task_key t" and "unat (attempt u) = Suc (unat (attempt t))"
    and "unat (attempt u) < attempt_limit t"
    and "scheduled_time u = clock + seconds (int (unat (backoff_secs (policy_of t) (attempt t))))"
  using assms attempt_suc [OF assms(2)]
  by (auto simp: task_outcome_policy calculate_retry_cases task_key_def split: if_splits sum.splits)

lemma gave_up_attempt:
  assumes "task_outcome p post clock t = GaveUp" and "unat (attempt t) < attempt_limit t"
  shows "Suc (unat (attempt t)) = attempt_limit t"
  using assms by (auto simp: task_outcome_policy calculate_retry_cases split: if_splits sum.splits)

lemma skipped_iff: "task_outcome p post clock t = Skipped \<longleftrightarrow> push_config (dt_subscription t) = None"
  by (auto simp: task_outcome_policy split: sum.split option.split)

lemma outcome_success:
  assumes "push_config (dt_subscription t) \<noteq> None"
  shows "task_outcome p post clock t = Delivered \<longleftrightarrow> post_succeeds p post t"
  using assms
  by (auto simp: task_outcome_policy post_succeeds_def deliver_message_def is_success_def
      split: http_outcome.split option.split if_splits)

section \<open>The invariant\<close>

definition pending :: "'s push_pool \<Rightarrow> delivery_task multiset" where
  "pending s = queued (pp_queue s) + mset (pp_held s)"

definition finished :: "'s push_pool \<Rightarrow> delivery_task multiset" where
  "finished s = mset (pp_delivered s) + mset (pp_gave_up s)"

text \<open>The posts made for a key.\<close>

definition posts_for :: "message \<times> subscription_config \<Rightarrow> 's push_pool \<Rightarrow> nat" where
  "posts_for k s = length (filter (\<lambda>(_, t). task_key t = k) (pp_posts s))"

definition attempts_for :: "message \<times> subscription_config \<Rightarrow> delivery_task \<Rightarrow> nat" where
  "attempts_for k t = (if task_key t = k then unat (attempt t) else 0)"

definition posts_of_finished :: "message \<times> subscription_config \<Rightarrow> delivery_task \<Rightarrow> nat" where
  "posts_of_finished k t = (if task_key t = k then Suc (unat (attempt t)) else 0)"

text \<open>A task that is not a first attempt was scheduled by a failed post, a back-off later.\<close>

definition scheduled_by_post :: "'s push_pool \<Rightarrow> delivery_task \<Rightarrow> bool" where
  "scheduled_by_post s t \<longleftrightarrow>
     (attempt t \<noteq> 0 \<longrightarrow>
       (\<exists>(c, u) \<in> set (pp_failed s). task_key u = task_key t \<and> unat (attempt t) = Suc (unat (attempt u)) \<and>
          c + seconds (int (unat (backoff_secs (policy_of u) (attempt u)))) \<le> scheduled_time t))"

definition pool_inv :: "'s push_pool \<Rightarrow> bool" where
  "pool_inv s \<longleftrightarrow>
     (\<forall>t \<in># pending s. unat (attempt t) < attempt_limit t \<and> push_config (dt_subscription t) \<noteq> None \<and>
        scheduled_by_post s t) \<and>
     (\<forall>t \<in> set (pp_held s). scheduled_time t \<le> pp_clock s) \<and>
     (\<forall>(c, t) \<in> set (pp_posts s). c \<le> pp_clock s \<and> scheduled_time t \<le> c \<and> scheduled_by_post s t) \<and>
     set (pp_failed s) \<subseteq> set (pp_posts s) \<and>
     (\<forall>t \<in> set (pp_delivered s). unat (attempt t) < attempt_limit t) \<and>
     (\<forall>t \<in> set (pp_gave_up s). Suc (unat (attempt t)) = attempt_limit t) \<and>
     image_mset task_key (mset (pp_published s)) = image_mset task_key (pending s + finished s) \<and>
     (\<forall>k. posts_for k s =
        (\<Sum>t \<in># pending s. attempts_for k t) + (\<Sum>t \<in># finished s. posts_of_finished k t))"

lemma pool_inv_new: "pool_inv (new_pool s0 clock)"
  by (simp add: pool_inv_def new_pool_def pending_def finished_def posts_for_def)

lemma attempt_limit_pos: "0 < attempt_limit t"
  by (simp add: attempt_limit_def)

lemma scheduled_by_post_mono:
  "scheduled_by_post s t \<Longrightarrow> set (pp_failed s) \<subseteq> set (pp_failed s') \<Longrightarrow> scheduled_by_post s' t"
  unfolding scheduled_by_post_def by blast

lemma pool_inv_publish:
  assumes "pool_inv s" and "attempt t = 0" and "push_config (dt_subscription t) \<noteq> None"
  shows "pool_inv (s\<lparr>pp_queue := enqueue t (pp_queue s), pp_published := t # pp_published s\<rparr>)"
  using assms attempt_limit_pos [of t]
  by (auto simp: pool_inv_def pending_def finished_def posts_for_def scheduled_by_post_def attempts_for_def)

lemma pool_inv_take:
  assumes "pool_inv s" and "dequeue_ready (pp_clock s) (pp_queue s) = (Some t, q')"
  shows "pool_inv (s\<lparr>pp_queue := q', pp_held := t # pp_held s\<rparr>)"
proof -
  have "pending (s\<lparr>pp_queue := q', pp_held := t # pp_held s\<rparr>) = pending s"
    using dequeue_ready_Some(1) [OF assms(2)] by (simp add: pending_def)
  moreover have "scheduled_time t \<le> pp_clock s" by (rule dequeue_ready_Some(2) [OF assms(2)])
  ultimately show ?thesis
    using assms(1) by (auto simp: pool_inv_def finished_def posts_for_def scheduled_by_post_def)
qed

text \<open>What finishing a task changes, for the three outcomes a task of the pool can have.\<close>

lemma finish_task_cases:
  assumes "t \<in> set (pp_held s)" and "push_config (dt_subscription t) \<noteq> None"
    and "unat (attempt t) < attempt_limit t"
  obtains (delivered) s' where
      "finish_task p post e clock b t s = s\<lparr>pp_backend := s', pp_clock := clock, pp_held := remove1 t (pp_held s),
         pp_posts := (pp_clock s, t) # pp_posts s, pp_delivered := t # pp_delivered s\<rparr>"
  | (retried) u where "task_key u = task_key t" "unat (attempt u) = Suc (unat (attempt t))"
      "unat (attempt u) < attempt_limit t"
      "scheduled_time u = clock + seconds (int (unat (backoff_secs (policy_of t) (attempt t))))"
      "finish_task p post e clock b t s = s\<lparr>pp_queue := enqueue u (pp_queue s), pp_clock := clock,
         pp_held := remove1 t (pp_held s), pp_posts := (pp_clock s, t) # pp_posts s,
         pp_failed := (pp_clock s, t) # pp_failed s\<rparr>"
  | (gave_up) s' where "Suc (unat (attempt t)) = attempt_limit t"
      "finish_task p post e clock b t s = s\<lparr>pp_backend := s', pp_clock := clock, pp_held := remove1 t (pp_held s),
         pp_posts := (pp_clock s, t) # pp_posts s, pp_failed := (pp_clock s, t) # pp_failed s,
         pp_gave_up := t # pp_gave_up s\<rparr>"
proof (cases "task_outcome p post clock t")
  case Skipped
  with assms(2) show thesis by (simp add: skipped_iff)
next
  case Delivered
  with outcome_success [OF assms(2), of p post clock] show thesis
    by (intro delivered [of "pp_backend s"]) (simp add: finish_task_def handle_delivery_task_def)
next
  case (Retried u)
  show thesis
    using Retried outcome_success [OF assms(2), of p post clock] assms(2) by (intro retried [OF retried_task [OF Retried assms(3)]])
      (simp add: finish_task_def handle_delivery_task_def)
next
  case GaveUp
  have "\<not> post_succeeds p post t" using GaveUp outcome_success [OF assms(2), of p post clock] by simp
  then show thesis
    using GaveUp assms(2)
    by (intro gave_up [OF gave_up_attempt [OF GaveUp assms(3)],
          of "handle_max_retries e b t (dt_subscription t) (pp_backend s)"])
      (simp add: finish_task_def handle_delivery_task_def del: not_None_eq)
qed

lemma pool_inv_finish:
  assumes inv: "pool_inv s" and t: "t \<in> set (pp_held s)" and clock: "pp_clock s \<le> clock"
  shows "pool_inv (finish_task p post e clock b t s)"
proof -
  define rest where "rest = queued (pp_queue s) + mset (remove1 t (pp_held s))"
  have pend: "pending s = add_mset t rest" using t by (simp add: pending_def rest_def)
  have tp: "unat (attempt t) < attempt_limit t" "push_config (dt_subscription t) \<noteq> None" "scheduled_by_post s t"
    using inv by (auto simp: pool_inv_def pend)
  have due: "scheduled_time t \<le> pp_clock s" using inv t by (auto simp: pool_inv_def)
  note parts = inv [unfolded pool_inv_def pend]
  have held: "\<forall>u \<in> set (remove1 t (pp_held s)). scheduled_time u \<le> clock"
    using parts clock by (meson in_set_remove1 notin_set_remove1 order_trans)
  let ?posts = "(pp_clock s, t) # pp_posts s"
  show ?thesis
  proof (rule finish_task_cases [OF t tp(2,1), of p post e clock b])
    fix s'
    let ?s = "s\<lparr>pp_backend := s', pp_clock := clock, pp_held := remove1 t (pp_held s),
         pp_posts := ?posts, pp_delivered := t # pp_delivered s\<rparr>"
    assume "finish_task p post e clock b t s = ?s"
    moreover have "pending ?s = rest" by (simp add: pending_def rest_def)
    moreover have "scheduled_by_post s u \<Longrightarrow> scheduled_by_post ?s u" for u
      by (erule scheduled_by_post_mono) auto
    ultimately show ?thesis
      using parts held due clock tp unfolding pool_inv_def
      by (auto simp: finished_def posts_for_def posts_of_finished_def attempts_for_def)
  next
    fix s'
    let ?s = "s\<lparr>pp_backend := s', pp_clock := clock, pp_held := remove1 t (pp_held s),
         pp_posts := ?posts, pp_failed := (pp_clock s, t) # pp_failed s, pp_gave_up := t # pp_gave_up s\<rparr>"
    assume "Suc (unat (attempt t)) = attempt_limit t" "finish_task p post e clock b t s = ?s"
    moreover have "pending ?s = rest" by (simp add: pending_def rest_def)
    moreover have "scheduled_by_post s u \<Longrightarrow> scheduled_by_post ?s u" for u
      by (erule scheduled_by_post_mono) auto
    ultimately show ?thesis
      using parts held due clock tp unfolding pool_inv_def
      by (auto simp: finished_def posts_for_def posts_of_finished_def attempts_for_def)
  next
    fix u
    let ?s = "s\<lparr>pp_queue := enqueue u (pp_queue s), pp_clock := clock,
         pp_held := remove1 t (pp_held s), pp_posts := ?posts, pp_failed := (pp_clock s, t) # pp_failed s\<rparr>"
    assume u: "task_key u = task_key t" "unat (attempt u) = Suc (unat (attempt t))"
      "unat (attempt u) < attempt_limit t"
      "scheduled_time u = clock + seconds (int (unat (backoff_secs (policy_of t) (attempt t))))"
    assume eq: "finish_task p post e clock b t s = ?s"
    have "pending ?s = add_mset u rest" by (simp add: pending_def rest_def)
    moreover have "scheduled_by_post s v \<Longrightarrow> scheduled_by_post ?s v" for v
      by (erule scheduled_by_post_mono) auto
    moreover have "scheduled_by_post ?s u"
      using u clock unfolding scheduled_by_post_def by auto
    moreover have "push_config (dt_subscription u) \<noteq> None" using u(1) tp(2) by (simp add: task_key_def)
    moreover have "attempt_limit u = attempt_limit t" by (rule attempt_limit_key [OF u(1)])
    moreover have "attempts_for k u = (if task_key t = k then Suc (attempts_for k t) else attempts_for k t)" for k
      using u(1,2) by (simp add: attempts_for_def)
    ultimately show ?thesis
      using parts held due clock tp u(1,3) unfolding pool_inv_def eq
      by (auto simp: finished_def posts_for_def)
  qed
qed

lemma pool_inv_step:
  assumes "pool_step p b s s'" and "pool_inv s"
  shows "pool_inv s'"
  using assms
proof cases
  case (tick clock)
  with assms(2) show ?thesis
    by (fastforce simp: pool_inv_def pending_def finished_def posts_for_def scheduled_by_post_def)
next
  case (other s'')
  with assms(2) show ?thesis
    by (simp add: pool_inv_def pending_def finished_def posts_for_def scheduled_by_post_def)
qed (simp_all add: pool_inv_publish pool_inv_take pool_inv_finish)

lemma pool_reachable_inv: "pool_reachable p b s \<Longrightarrow> pool_inv s"
  by (induction rule: pool_reachable.induct) (auto intro: pool_inv_new pool_inv_step)

section \<open>A run of the pool\<close>

text \<open>A task published at time 5: its first post fails, the retry ten seconds later succeeds.\<close>

definition sample_push_ext :: ext_push where
  "sample_push_ext = \<lparr> to_rfc3339 = show_int, status_to_string = show_nat \<rparr>"

definition sample_retry :: delivery_task where
  "sample_retry = (sample_task (6 + seconds 10))\<lparr>attempt := 1\<rparr>"

definition published_pool :: "in_memory push_pool" where
  "published_pool =
     (new_pool (with_config default_in_memory_config) 5)
       \<lparr>pp_queue := enqueue (sample_task 5) new_delivery_queue, pp_published := [sample_task 5]\<rparr>"

definition retrying_pool :: "in_memory push_pool" where
  "retrying_pool = published_pool\<lparr>pp_queue := enqueue sample_retry (new_delivery_queue\<lparr>notified := True\<rparr>),
     pp_clock := 6, pp_posts := [(5, sample_task 5)], pp_failed := [(5, sample_task 5)]\<rparr>"

definition delivered_pool :: "in_memory push_pool" where
  "delivered_pool = retrying_pool\<lparr>pp_queue := new_delivery_queue\<lparr>notified := True\<rparr>, pp_clock := 6 + seconds 10,
     pp_posts := [(6 + seconds 10, sample_retry), (5, sample_task 5)], pp_delivered := [sample_retry]\<rparr>"

lemmas sample_pool_defs = published_pool_def retrying_pool_def delivered_pool_def sample_retry_def
  sample_task_def new_pool_def new_delivery_queue_def enqueue_def heap_push_def

lemma sample_first_post:
  "finish_task sample_push_ext (\<lambda>r. ResponseStatus 503) (sample_env 6) 6 b (sample_task 5)
     (published_pool\<lparr>pp_queue := new_delivery_queue\<lparr>notified := True\<rparr>, pp_held := [sample_task 5]\<rparr>) = retrying_pool"
  by (simp add: finish_task_def handle_delivery_task_def task_outcome_def deliver_message_def is_success_def
      post_succeeds_def calculate_retry_def default_retry_policy_def backoff_secs_def sample_pool_defs
      u32_min_def saturating_mul32_def saturating_pow32_def seconds_def word_le_nat_alt word_less_nat_alt)

lemma sample_second_post:
  "finish_task sample_push_ext (\<lambda>r. ResponseStatus 200) (sample_env 6) (6 + seconds 10) b sample_retry
     (retrying_pool\<lparr>pp_queue := new_delivery_queue\<lparr>notified := True\<rparr>, pp_clock := 6 + seconds 10,
        pp_held := [sample_retry]\<rparr>) = delivered_pool"
  by (simp add: finish_task_def handle_delivery_task_def task_outcome_def deliver_message_def is_success_def
      post_succeeds_def sample_pool_defs)

lemma sample_take:
  "scheduled_time t \<le> clock \<Longrightarrow>
     dequeue_ready clock (enqueue t (new_delivery_queue\<lparr>notified := n\<rparr>)) =
       (Some t, new_delivery_queue\<lparr>notified := True\<rparr>)"
  by (simp add: dequeue_ready_def heap_pop_def enqueue_def heap_push_def new_delivery_queue_def)

lemma delivered_pool_reachable:
  "pool_reachable sample_push_ext (memory_backend sample_ext) delivered_pool"
proof -
  let ?R = "pool_reachable sample_push_ext (memory_backend sample_ext)"
  let ?q = "new_delivery_queue\<lparr>notified := True\<rparr>"
  have "?R published_pool"
    unfolding published_pool_def
    by (rule pool_reachable.step [OF pool_reachable.start])
      (use pool_step.publish [of "sample_task 5" "new_pool (with_config default_in_memory_config) 5"]
       in \<open>simp add: new_pool_def sample_task_def\<close>)
  then have "?R (published_pool\<lparr>pp_queue := ?q, pp_held := [sample_task 5]\<rparr>)"
    by (rule pool_reachable.step)
      (use pool_step.take [of published_pool "sample_task 5" ?q] sample_take [of "sample_task 5" 5 False]
       in \<open>simp add: published_pool_def new_pool_def new_delivery_queue_def\<close>)
  then have "?R retrying_pool"
    unfolding sample_first_post [of "memory_backend sample_ext", symmetric]
    by (rule pool_reachable.step) (rule pool_step.finish, simp_all add: published_pool_def new_pool_def)
  then have "?R (retrying_pool\<lparr>pp_clock := 6 + seconds 10\<rparr>)"
    by (rule pool_reachable.step) (rule pool_step.tick, simp add: retrying_pool_def)
  then have "?R (retrying_pool\<lparr>pp_queue := ?q, pp_clock := 6 + seconds 10, pp_held := [sample_retry]\<rparr>)"
    by (rule pool_reachable.step)
      (use pool_step.take [of "retrying_pool\<lparr>pp_clock := 6 + seconds 10\<rparr>" sample_retry ?q]
         sample_take [of sample_retry "6 + seconds 10" True]
       in \<open>simp add: retrying_pool_def published_pool_def new_pool_def sample_retry_def\<close>)
  then show ?thesis
    unfolding sample_second_post [of "memory_backend sample_ext", symmetric]
    by (rule pool_reachable.step) (rule pool_step.finish, simp_all)
qed

section \<open>What the pool guarantees\<close>

text \<open>
  C27. No delivery is lost or doubled by the pool, for any number of workers and any interleaving: at
  every moment each published delivery (a message for a subscription) is in exactly one place, in the
  queue, with a worker, delivered, or given up.
\<close>

theorem pool_conserves:
  assumes "pool_reachable p b s"
  shows "image_mset task_key (mset (pp_published s)) =
    image_mset task_key (queued (pp_queue s)) + image_mset task_key (mset (pp_held s)) +
    image_mset task_key (mset (pp_delivered s)) + image_mset task_key (mset (pp_gave_up s))"
  using pool_reachable_inv [OF assms] by (simp add: pool_inv_def pending_def finished_def ac_simps)

theorem pool_conserves_witness:
  "image_mset task_key (mset (pp_published delivered_pool)) = {# task_key sample_retry #}"
  using pool_conserves [OF delivered_pool_reachable]
  by (simp add: delivered_pool_def retrying_pool_def published_pool_def new_pool_def queued_def new_delivery_queue_def)

lemma attempts_sum_bound:
  assumes "\<And>t. t \<in># M \<Longrightarrow> f k t \<le> (if task_key t = k then n else (0::nat))"
  shows "(\<Sum>t \<in># M. f k t) \<le> count (image_mset task_key M) k * n"
  using assms
proof (induction M)
  case (add t M)
  have "f k t \<le> (if task_key t = k then n else 0)" by (rule add.prems) simp
  moreover have "(\<Sum>t \<in># M. f k t) \<le> count (image_mset task_key M) k * n"
    by (rule add.IH) (use add.prems in simp)
  ultimately show ?case by (auto split: if_splits)
qed simp

text \<open>
  C28. The number of posts is bounded: a delivery published \<open>n\<close> times is posted at most \<open>n\<close> times
  the attempt limit of its subscription (at least one, \<open>max_attempts\<close> otherwise), and a delivery is
  given up only on its last attempt.
\<close>

theorem push_attempts_bounded:
  assumes "pool_reachable p b s"
  shows "posts_for (task_key t) s \<le>
      count (image_mset task_key (mset (pp_published s))) (task_key t) * attempt_limit t \<and>
    (\<forall>u \<in> set (pp_gave_up s). Suc (unat (attempt u)) = attempt_limit u)"
proof -
  have inv: "pool_inv s" by (rule pool_reachable_inv [OF assms])
  let ?k = "task_key t" and ?n = "attempt_limit t"
  have "(\<Sum>u \<in># pending s. attempts_for ?k u) \<le> count (image_mset task_key (pending s)) ?k * ?n"
  proof (rule attempts_sum_bound)
    fix u assume "u \<in># pending s"
    then have "unat (attempt u) < attempt_limit u" using inv by (auto simp: pool_inv_def)
    then show "attempts_for ?k u \<le> (if task_key u = ?k then ?n else 0)"
      using attempt_limit_key [of u t] by (auto simp: attempts_for_def)
  qed
  moreover have "(\<Sum>u \<in># finished s. posts_of_finished ?k u) \<le> count (image_mset task_key (finished s)) ?k * ?n"
  proof (rule attempts_sum_bound)
    fix u assume "u \<in># finished s"
    then have "Suc (unat (attempt u)) \<le> attempt_limit u"
      using inv by (auto simp: pool_inv_def finished_def)
    then show "posts_of_finished ?k u \<le> (if task_key u = ?k then ?n else 0)"
      using attempt_limit_key [of u t] by (auto simp: posts_of_finished_def)
  qed
  moreover have "posts_for ?k s =
      (\<Sum>u \<in># pending s. attempts_for ?k u) + (\<Sum>u \<in># finished s. posts_of_finished ?k u)"
    using inv unfolding pool_inv_def by blast
  moreover have "image_mset task_key (mset (pp_published s)) =
      image_mset task_key (pending s) + image_mset task_key (finished s)"
    and "\<forall>u \<in> set (pp_gave_up s). Suc (unat (attempt u)) = attempt_limit u"
    using inv unfolding pool_inv_def by simp_all
  ultimately show ?thesis by (simp add: add_mult_distrib)
qed

theorem push_attempts_bounded_witness:
  "posts_for (task_key sample_retry) delivered_pool \<le> 5"
proof -
  have "attempt_limit sample_retry = 5"
    by (simp add: attempt_limit_def policy_of_def sample_retry_def sample_task_def default_retry_policy_def)
  then show ?thesis
    using push_attempts_bounded [OF delivered_pool_reachable, of sample_retry] pool_reachable_inv [OF delivered_pool_reachable]
    by (simp add: delivered_pool_def retrying_pool_def published_pool_def new_pool_def sample_retry_def task_key_def
        sample_task_def)
qed

text \<open>
  C29. The back-off is respected: a post is never made before the time its task was scheduled for,
  and every retry is preceded by a post of the same delivery, numbered one less, that the endpoint did
  not take, at least \<open>min_backoff * 2 ^ n\<close> seconds earlier, or \<open>max_backoff\<close> where that is less, \<open>n\<close> being
  the number of the failed attempt.
\<close>

theorem push_backoff_respected:
  assumes "pool_reachable p b s" and "(c, t) \<in> set (pp_posts s)"
  shows "scheduled_time t \<le> c \<and>
    (attempt t = 0 \<or>
      (\<exists>(c', u) \<in> set (pp_failed s). (c', u) \<in> set (pp_posts s) \<and> task_key u = task_key t \<and>
         unat (attempt t) = Suc (unat (attempt u)) \<and>
         c' + seconds (int (min (unat (min_backoff_seconds (policy_of t)) * 2 ^ unat (attempt u))
            (unat (max_backoff_seconds (policy_of t))))) \<le> c))"
proof -
  have inv: "scheduled_time t \<le> c" "scheduled_by_post s t" "set (pp_failed s) \<subseteq> set (pp_posts s)"
    using pool_reachable_inv [OF assms(1)] assms(2) by (auto simp: pool_inv_def)
  show ?thesis
  proof (cases "attempt t = 0")
    case False
    then obtain c' u where u: "(c', u) \<in> set (pp_failed s)" "task_key u = task_key t"
        "unat (attempt t) = Suc (unat (attempt u))"
        "c' + seconds (int (unat (backoff_secs (policy_of u) (attempt u)))) \<le> scheduled_time t"
      using inv(2) unfolding scheduled_by_post_def by blast
    have "c' + seconds (int (min (unat (min_backoff_seconds (policy_of t)) * 2 ^ unat (attempt u))
        (unat (max_backoff_seconds (policy_of t))))) \<le> c"
      using u(4) inv(1) unfolding policy_of_key [OF u(2)] backoff_exact [THEN conjunct1] by linarith
    with u(1-3) inv(1,3) show ?thesis by blast
  qed (simp add: inv(1))
qed

theorem push_backoff_respected_witness:
  "\<exists>(c, u) \<in> set (pp_failed delivered_pool). task_key u = task_key sample_retry \<and> attempt u = 0 \<and>
     c + seconds 10 \<le> 6 + seconds 10"
proof -
  have posts: "pp_posts delivered_pool = [(6 + seconds 10, sample_retry), (5, sample_task 5)]"
    and failed: "pp_failed delivered_pool = [(5, sample_task 5)]"
    by (simp_all add: delivered_pool_def retrying_pool_def)
  have "policy_of sample_retry = default_retry_policy"
    by (simp add: policy_of_def sample_retry_def sample_task_def)
  moreover have "unat (attempt sample_retry) = 1" "attempt sample_retry \<noteq> 0" by (simp_all add: sample_retry_def)
  ultimately show ?thesis
    using push_backoff_respected [OF delivered_pool_reachable, of "6 + seconds 10" sample_retry]
    unfolding posts failed by (auto simp: sample_task_def default_retry_policy_def)
qed

end
