(* ===== verification/Pubsub_Types.thy ===== *)
theory Pubsub_Types
  imports Validation
begin

text \<open>
  Pub/Sub resource names and identifiers (\<open>src/pubsub/types.rs\<close>): the parser and printer of
  \<open>projects/{project}/topics/{id}\<close>, the key under which the services store a resource, and the
  validators of topic, subscription and project identifiers.
\<close>

section \<open>Resource names\<close>

datatype resource_name =
    ResTopic string string
  | ResSubscription string string
  | ResSnapshot string string

definition parse_resource_name :: "string \<Rightarrow> resource_name result" where
  "parse_resource_name name =
     (let parts = split_on (CHR ''/'') name in
      if length parts \<noteq> 4 \<or> parts ! 0 \<noteq> ''projects'' then
        Inl (Validation (InvalidParameter ''resource_name'' (''Invalid resource name format: '' @ name)))
      else
        (let prj = parts ! 1; resource_type = parts ! 2; rid = parts ! 3 in
         if resource_type = ''topics'' then Inr (ResTopic prj rid)
         else if resource_type = ''subscriptions'' then Inr (ResSubscription prj rid)
         else if resource_type = ''snapshots'' then Inr (ResSnapshot prj rid)
         else Inl (Validation (InvalidParameter ''resource_type'' (''Unknown resource type: '' @ resource_type)))))"

fun resource_project :: "resource_name \<Rightarrow> string" where
  "resource_project (ResTopic p t) = p"
| "resource_project (ResSubscription p t) = p"
| "resource_project (ResSnapshot p t) = p"

fun resource_id :: "resource_name \<Rightarrow> string" where
  "resource_id (ResTopic p t) = t"
| "resource_id (ResSubscription p t) = t"
| "resource_id (ResSnapshot p t) = t"

definition format_topic :: "string \<Rightarrow> string \<Rightarrow> string" where
  "format_topic p t = ''projects/'' @ p @ ''/topics/'' @ t"

definition format_subscription :: "string \<Rightarrow> string \<Rightarrow> string" where
  "format_subscription p t = ''projects/'' @ p @ ''/subscriptions/'' @ t"

definition format_snapshot :: "string \<Rightarrow> string \<Rightarrow> string" where
  "format_snapshot p t = ''projects/'' @ p @ ''/snapshots/'' @ t"

fun resource_to_string :: "resource_name \<Rightarrow> string" where
  "resource_to_string (ResTopic p t) = ''projects/'' @ p @ ''/topics/'' @ t"
| "resource_to_string (ResSubscription p t) = ''projects/'' @ p @ ''/subscriptions/'' @ t"
| "resource_to_string (ResSnapshot p t) = ''projects/'' @ p @ ''/snapshots/'' @ t"

text \<open>\<open>format!("{}:{}", project, resource_id)\<close>, the identifier of a topic or subscription.\<close>

definition resource_key :: "resource_name \<Rightarrow> string" where
  "resource_key r = resource_project r @ CHR '':'' # resource_id r"

section \<open>Identifiers\<close>

text \<open>The \<open>matches!\<close> patterns of the validators, on scalar values.\<close>

definition topic_char :: "nat \<Rightarrow> bool" where
  "topic_char ch \<longleftrightarrow> ascii_alphanumeric ch \<or> ch \<in> set (map of_char ''-_.~+%'')"

definition project_char :: "nat \<Rightarrow> bool" where
  "project_char ch \<longleftrightarrow> is_ascii_lowercase ch \<or> (48 \<le> ch \<and> ch \<le> 57) \<or> ch = of_char (CHR ''-'')"

fun check_chars :: "(nat \<Rightarrow> bool) \<Rightarrow> (string \<Rightarrow> validation_error) \<Rightarrow> nat list \<Rightarrow> unit result" where
  "check_chars ok mk [] = Inr ()"
| "check_chars ok mk (ch # chs) =
     (if \<not> ok ch then invalid (mk (utf8_encode ch)) else check_chars ok mk chs)"

definition no_first_char :: "string \<Rightarrow> error" where
  "no_first_char what = Panic (what @ '' is guaranteed to be non-empty by length check above'')"

definition validate_topic_id :: "string \<Rightarrow> unit result" where
  "validate_topic_id topic_id =
     (if length topic_id < 3 \<or> 255 < length topic_id then
        invalid (InvalidTopicId ''Topic ID must be 3-255 characters'')
      else case str_chars topic_id of
        [] \<Rightarrow> Inl (no_first_char ''topic_id'')
      | first_char # _ \<Rightarrow>
          (if \<not> is_ascii_alphabetic first_char then
             invalid (InvalidTopicId ''Topic ID must start with a letter'')
           else check_chars topic_char
                  (\<lambda>ch. InvalidTopicId (''Topic ID contains invalid character: '' @ ch)) (str_chars topic_id)))"

definition validate_subscription_id :: "string \<Rightarrow> unit result" where
  "validate_subscription_id subscription_id =
     (if length subscription_id < 3 \<or> 255 < length subscription_id then
        invalid (InvalidSubscriptionId ''Subscription ID must be 3-255 characters'')
      else case str_chars subscription_id of
        [] \<Rightarrow> Inl (no_first_char ''subscription_id'')
      | first_char # _ \<Rightarrow>
          (if \<not> is_ascii_alphabetic first_char then
             invalid (InvalidSubscriptionId ''Subscription ID must start with a letter'')
           else check_chars topic_char
                  (\<lambda>ch. InvalidSubscriptionId (''Subscription ID contains invalid character: '' @ ch))
                  (str_chars subscription_id)))"

definition validate_project_id :: "string \<Rightarrow> unit result" where
  "validate_project_id project_id =
     (if length project_id < 6 \<or> 30 < length project_id then
        invalid (InvalidParameter ''project_id'' ''Project ID must be 6-30 characters'')
      else case str_chars project_id of
        [] \<Rightarrow> Inl (no_first_char ''project_id'')
      | first_char # _ \<Rightarrow>
          (if \<not> is_ascii_lowercase first_char then
             invalid (InvalidParameter ''project_id'' ''Project ID must start with a lowercase letter'')
           else check_chars project_char
                  (\<lambda>ch. InvalidParameter ''project_id'' (''Project ID contains invalid character: '' @ ch))
                  (str_chars project_id)))"

text \<open>\<open>validate_message_size\<close> of this module.\<close>

definition validate_pubsub_message_size :: "string \<Rightarrow> unit result" where
  "validate_pubsub_message_size data =
     (if PUBSUB_MAX_MESSAGE_SIZE < length data then
        invalid (MessageTooLarge (length data) PUBSUB_MAX_MESSAGE_SIZE)
      else Inr ())"

section \<open>Parsing and printing\<close>

definition slash_free :: "resource_name \<Rightarrow> bool" where
  "slash_free r \<longleftrightarrow> CHR ''/'' \<notin> set (resource_project r) \<and> CHR ''/'' \<notin> set (resource_id r)"

lemma resource_to_string_join:
  "resource_to_string r = join ''/'' [''projects'', resource_project r,
     (case r of ResTopic p t \<Rightarrow> ''topics'' | ResSubscription p t \<Rightarrow> ''subscriptions''
        | ResSnapshot p t \<Rightarrow> ''snapshots''), resource_id r]"
  by (cases r) simp_all

lemma parse_resource_to_string: "slash_free r \<Longrightarrow> parse_resource_name (resource_to_string r) = Inr r"
proof -
  assume r: "slash_free r"
  have "split_on (CHR ''/'') (resource_to_string r) = [''projects'', resource_project r,
     (case r of ResTopic p t \<Rightarrow> ''topics'' | ResSubscription p t \<Rightarrow> ''subscriptions''
        | ResSnapshot p t \<Rightarrow> ''snapshots''), resource_id r]"
    unfolding resource_to_string_join
    by (rule split_on_join) (use r in \<open>auto simp: slash_free_def split: resource_name.splits\<close>)
  then show ?thesis by (cases r) (simp_all add: parse_resource_name_def)
qed

lemma list4: "length ws = 4 \<Longrightarrow> ws = [ws ! 0, ws ! 1, ws ! 2, ws ! 3]"
  by (simp add: list_eq_iff_nth_eq less_Suc_eq eval_nat_numeral nth_Cons split: nat.split)

lemma parse_resource_name_Inr:
  assumes "parse_resource_name s = Inr r"
  shows "s = resource_to_string r \<and> slash_free r"
proof -
  let ?ws = "split_on (CHR ''/'') s"
  have ws: "length ?ws = 4" "?ws ! 0 = ''projects''"
    using assms by (auto simp: parse_resource_name_def Let_def split: if_splits)
  have free: "CHR ''/'' \<notin> set (?ws ! i)" if "i < 4" for i
    using that ws(1) by (intro split_on_no_sep_parts [of _ _ s]) simp
  have "s = join ''/'' ?ws" by (simp add: join_split_on)
  also have "\<dots> = join ''/'' [?ws ! 0, ?ws ! 1, ?ws ! 2, ?ws ! 3]" using list4 [OF ws(1)] by simp
  finally show ?thesis
    using assms ws free [of 1] free [of 3]
    by (auto simp: parse_resource_name_def Let_def slash_free_def split: if_splits)
qed

text \<open>
  The resource names the parser accepts are exactly the printed ones, and parsing inverts
  printing: a name is accepted with result \<open>r\<close> if and only if it is the text of \<open>r\<close> and
  neither the project nor the identifier contains a slash (either may be empty).
\<close>

theorem resource_name_parse_iff:
  "parse_resource_name s = Inr r \<longleftrightarrow> s = resource_to_string r \<and> slash_free r"
  using parse_resource_name_Inr parse_resource_to_string by blast

section \<open>What the validators accept\<close>

lemma check_chars_ok: "check_chars ok mk chs = Inr () \<longleftrightarrow> list_all ok chs"
  by (induction chs) auto

lemma utf8_chars_small:
  "utf8_chars s = Some cs \<Longrightarrow> list_all (\<lambda>c. c < 128) cs \<Longrightarrow> is_ascii s"
proof (induction s arbitrary: cs rule: utf8_chars.induct)
  case (2 c cs ds)
  let ?b = "of_char c :: nat"
  show ?case
  proof (cases "?b < 128")
    case True
    with 2 show ?thesis by (auto simp: is_ascii_def)
  next
    case False
    then have "\<not> list_all (\<lambda>c. c < 128) ds"
      using "2.prems"(1) by (auto simp: Let_def split: if_splits list.splits)
    with "2.prems"(2) show ?thesis by simp
  qed
qed (simp add: is_ascii_def)

lemma topic_char_small: "topic_char c \<Longrightarrow> c < 128"
  by (auto simp: topic_char_def ascii_alphanumeric_def)

lemma project_char_small: "project_char c \<Longrightarrow> c < 128"
  by (auto simp: project_char_def is_ascii_lowercase_def)

text \<open>An accepted text is ASCII, so the check can be read byte by byte.\<close>

lemma chars_checked_bytes:
  assumes "utf8_chars s \<noteq> None" and "\<And>c. ok c \<Longrightarrow> c < 128"
  shows "list_all ok (str_chars s) \<longleftrightarrow> list_all (\<lambda>c. ok (of_char c)) s"
proof
  assume ok: "list_all ok (str_chars s)"
  then have "list_all (\<lambda>c. c < 128) (str_chars s)" using assms(2) by (simp add: list_all_iff)
  then have "is_ascii s" using assms(1) utf8_chars_small [of s] by (auto simp: str_chars_def)
  then show "list_all (\<lambda>c. ok (of_char c)) s" using ok by (simp add: str_chars_ascii list_all_length)
next
  assume ok: "list_all (\<lambda>c. ok (of_char c)) s"
  then have "is_ascii s" using assms(2) by (simp add: is_ascii_def list_all_iff)
  then show "list_all ok (str_chars s)" using ok by (simp add: str_chars_ascii list_all_length)
qed

text \<open>The shape all three validators share.\<close>

lemma first_char_checked:
  assumes "utf8_chars t \<noteq> None" and "t \<noteq> []" and "\<And>c. ok c \<Longrightarrow> c < 128"
  shows "(case str_chars t of [] \<Rightarrow> Inl e
      | c # _ \<Rightarrow> (if \<not> first c then invalid v else check_chars ok mk (str_chars t))) = Inr () \<longleftrightarrow>
    first (of_char (hd t)) \<and> list_all (\<lambda>c. ok (of_char c)) t"
proof (cases "list_all ok (str_chars t)")
  case True
  then have bytes: "list_all (\<lambda>c. ok (of_char c)) t" by (simp add: chars_checked_bytes assms(1,3))
  then have "is_ascii t" using assms(3) by (simp add: is_ascii_def list_all_iff)
  then have "str_chars t = of_char (hd t) # map of_char (tl t)"
    using assms(2) by (cases t) (simp_all add: str_chars_ascii)
  with True bytes show ?thesis by (simp add: check_chars_ok)
next
  case False
  then have "\<not> list_all (\<lambda>c. ok (of_char c)) t" by (simp add: chars_checked_bytes assms(1,3))
  with False show ?thesis by (auto simp: check_chars_ok split: list.split)
qed

lemma topic_id_bytes:
  assumes "utf8_chars t \<noteq> None" and "validate_topic_id t = Inr ()"
  shows "list_all (\<lambda>c. topic_char (of_char c)) t"
proof -
  have "t \<noteq> []" using assms(2) by (auto simp: validate_topic_id_def)
  then show ?thesis
    using assms(2) first_char_checked [OF assms(1) _ topic_char_small]
    by (auto simp: validate_topic_id_def split: if_splits)
qed

text \<open>
  Which topic identifiers \<open>CreateTopic\<close> accepts: 3 to 255 bytes, the first an ASCII letter,
  each an ASCII letter, a digit or one of \<open>-_.~+%\<close>.  The subscription check accepts the same
  texts, and whatever it accepts the Unicode-tolerant check of the shared module accepts too.
\<close>

theorem topic_id_accepted_iff:
  assumes "utf8_chars t \<noteq> None"
  shows "(validate_topic_id t = Inr () \<longleftrightarrow>
       3 \<le> length t \<and> length t \<le> 255 \<and> is_ascii_alphabetic (of_char (hd t)) \<and>
       list_all (\<lambda>c. topic_char (of_char c)) t) \<and>
    (validate_subscription_id t = Inr () \<longleftrightarrow> validate_topic_id t = Inr ()) \<and>
    (validate_topic_id t = Inr () \<longrightarrow> validate_pubsub_topic_id x t = Inr ())"
proof (cases "length t < 3 \<or> 255 < length t")
  case True
  then show ?thesis by (auto simp: validate_topic_id_def validate_subscription_id_def)
next
  case False
  then have "t \<noteq> []" by auto
  note checked = first_char_checked [OF assms this topic_char_small]
  have topic: "validate_topic_id t = Inr () \<longleftrightarrow>
      is_ascii_alphabetic (of_char (hd t)) \<and> list_all (\<lambda>c. topic_char (of_char c)) t"
    using False checked by (simp add: validate_topic_id_def)
  have sub: "validate_subscription_id t = Inr () \<longleftrightarrow>
      is_ascii_alphabetic (of_char (hd t)) \<and> list_all (\<lambda>c. topic_char (of_char c)) t"
    using False checked by (simp add: validate_subscription_id_def)
  have "validate_pubsub_topic_id x t = Inr ()"
    if ok: "is_ascii_alphabetic (of_char (hd t))" "list_all (\<lambda>c. topic_char (of_char c)) t"
  proof -
    have "is_ascii t" using ok(2) topic_char_small by (simp add: is_ascii_def list_all_iff)
    then have chars: "str_chars t = map of_char t" by (rule str_chars_ascii)
    have "first_is_letter (str_chars t)"
      using ok(1) \<open>t \<noteq> []\<close> by (auto simp: chars first_is_letter_def neq_Nil_conv)
    moreover have "list_all (pubsub_id_char x) (str_chars t)"
      using ok(2) topic_char_small
      by (auto simp: chars list_all_iff pubsub_id_char_def topic_char_def is_alphanumeric_def)
    ultimately show ?thesis using False by (simp add: validate_pubsub_topic_id_def validate_pubsub_chars_ok)
  qed
  with topic sub False show ?thesis by auto
qed

theorem topic_id_accepted_iff_witness:
  "validate_topic_id ''jobs.v1'' = Inr () \<and> validate_topic_id ''9jobs'' \<noteq> Inr ()"
proof -
  have utf8: "utf8_chars ''jobs.v1'' \<noteq> None" "utf8_chars ''9jobs'' \<noteq> None" by code_simp+
  note iff = utf8 [THEN topic_id_accepted_iff, THEN conjunct1]
  show ?thesis unfolding iff by code_simp
qed

lemma last_separator:
  assumes "d \<notin> set ys" and "d \<notin> set ys'"
  shows "xs @ d # ys = xs' @ d # ys' \<longleftrightarrow> xs = xs' \<and> ys = ys'"
  using assms by (auto simp: append_eq_append_conv2 Cons_eq_append_conv append_eq_Cons_conv)

text \<open>
  The identifier \<open>project:id\<close> under which the services store a resource determines the
  project and the identifier (checked identifiers contain no colon, although the project is never
  checked), but not the kind: a topic and a subscription of the same project and name are stored
  under the same key.
\<close>

theorem resource_key_iff:
  assumes "utf8_chars (resource_id r) \<noteq> None" and "validate_topic_id (resource_id r) = Inr ()"
    and "utf8_chars (resource_id r') \<noteq> None" and "validate_topic_id (resource_id r') = Inr ()"
  shows "resource_key r = resource_key r' \<longleftrightarrow>
    resource_project r = resource_project r' \<and> resource_id r = resource_id r'"
proof -
  have no_colon: "CHR '':'' \<notin> set t"
    if "utf8_chars t \<noteq> None" "validate_topic_id t = Inr ()" for t
  proof
    assume "CHR '':'' \<in> set t"
    moreover have "list_all (\<lambda>c. topic_char (of_char c)) t"
      using topic_id_bytes [OF that(1)] that(2) by simp
    ultimately have "topic_char (of_char (CHR '':''))" by (simp only: list_all_iff)
    then show False by (simp add: topic_char_def ascii_alphanumeric_def)
  qed
  show ?thesis
    using no_colon [OF assms(1,2)] no_colon [OF assms(3,4)]
    by (simp add: resource_key_def last_separator)
qed

theorem resource_key_iff_witness:
  "resource_key (ResTopic ''proj'' ''jobs'') = resource_key (ResSubscription ''proj'' ''jobs'')"
proof -
  have "utf8_chars ''jobs'' \<noteq> None" "validate_topic_id ''jobs'' = Inr ()" by code_simp+
  then show ?thesis by (subst resource_key_iff) simp_all
qed

end
