(* ===== verification/Pubsub_Api.thy ===== *)
theory Pubsub_Api
  imports Pubsub_Types Push_Queue Storage_Api
begin

text \<open>
  What the gRPC and REST front ends of Pub/Sub share: the state they work on, failures, and the
  protocol-buffer messages of \<open>proto/google/pubsub/v1/pubsub.proto\<close> as prost generates them (an
  \<open>int32\<close> is a 32-bit word read as signed, an \<open>int64\<close> a 64-bit one, a \<open>map\<close> an association list).
\<close>

section \<open>State and failures\<close>

text \<open>The storage and, where push delivery is on, the delivery queue.\<close>

record 's pubsub =
  storage :: 's
  delivery_queue :: "delivery_queue option"

datatype 'e failure = Failed 'e | Panicked string

type_synonym ('e, 'a, 's) service_reply = "('e failure + 'a) \<times> 's"

text \<open>\<open>map_err\<close> on the result of a backend call; a panic is not an error value and passes through.\<close>

fun map_err :: "(error \<Rightarrow> 'e) \<Rightarrow> 'a result \<Rightarrow> 'e failure + 'a" where
  "map_err f (Inl (Panic m)) = Inl (Panicked m)"
| "map_err f (Inl e) = Inl (Failed (f e))"
| "map_err f (Inr v) = Inr v"

text \<open>The operator \<open>?\<close>: return the failure with the state reached, or go on with the value.\<close>

definition or_return :: "'e failure + 'a \<Rightarrow> 's \<Rightarrow> ('a \<Rightarrow> ('e, 'b, 's) service_reply) \<Rightarrow> ('e, 'b, 's) service_reply" where
  "or_return r s k = (case r of Inl e \<Rightarrow> (Inl e, s) | Inr v \<Rightarrow> k v)"

definition on_storage :: "'a result \<times> 's \<Rightarrow> 's pubsub \<Rightarrow> 'a result \<times> 's pubsub" where
  "on_storage r st = (fst r, st\<lparr>storage := snd r\<rparr>)"

lemma or_return_simps [simp]:
  "or_return (Inl e) s k = (Inl e, s)" "or_return (Inr v) s k = k v"
  by (simp_all add: or_return_def)

lemma map_err_Inr [simp]: "map_err f r = Inr v \<longleftrightarrow> r = Inr v"
  by (cases "(f, r)" rule: map_err.cases) simp_all

section \<open>gRPC status\<close>

datatype status_code = InvalidArgument | NotFound | AlreadyExists | InternalStatus | Unimplemented

record status =
  st_code :: status_code
  st_message :: string

definition invalid_argument :: "string \<Rightarrow> status" where
  "invalid_argument m = \<lparr> st_code = InvalidArgument, st_message = m \<rparr>"

definition not_found :: "string \<Rightarrow> status" where
  "not_found m = \<lparr> st_code = NotFound, st_message = m \<rparr>"

definition already_exists :: "string \<Rightarrow> status" where
  "already_exists m = \<lparr> st_code = AlreadyExists, st_message = m \<rparr>"

definition internal :: "string \<Rightarrow> status" where
  "internal m = \<lparr> st_code = InternalStatus, st_message = m \<rparr>"

definition unimplemented :: "string \<Rightarrow> status" where
  "unimplemented m = \<lparr> st_code = Unimplemented, st_message = m \<rparr>"

lemmas status_defs = invalid_argument_def not_found_def already_exists_def internal_def unimplemented_def

type_synonym ('a, 's) grpc = "(status, 'a, 's pubsub) service_reply"

section \<open>Messages\<close>

type_synonym i32 = "32 word"
type_synonym i64 = "64 word"

record proto_duration =
  du_seconds :: i64
  du_nanos :: i32

record proto_timestamp =
  ts_seconds :: i64
  ts_nanos :: i32

record schema_settings =
  ss_schema :: string
  ss_encoding :: i32
  ss_first_revision_id :: string
  ss_last_revision_id :: string

record topic =
  tp_name :: string
  tp_labels :: "(string \<times> string) list"
  tp_message_storage_policy :: "string list option"
  tp_kms_key_name :: string
  tp_schema_settings :: "schema_settings option"
  tp_satisfies_pzs :: bool
  tp_message_retention_duration :: "proto_duration option"

record pubsub_message =
  pm_data :: string
  pm_attributes :: "(string \<times> string) list"
  pm_message_id :: string
  pm_publish_time :: "proto_timestamp option"
  pm_ordering_key :: string

record proto_push_config =
  pc_push_endpoint :: string
  pc_attributes :: "(string \<times> string) list"
  pc_authentication_method :: "(string \<times> string) option"

record proto_dead_letter_policy =
  pd_dead_letter_topic :: string
  pd_max_delivery_attempts :: i32

record proto_retry_policy =
  pr_minimum_backoff :: "proto_duration option"
  pr_maximum_backoff :: "proto_duration option"

record subscription =
  sb_name :: string
  sb_topic :: string
  sb_push_config :: "proto_push_config option"
  sb_ack_deadline_seconds :: i32
  sb_retain_acked_messages :: bool
  sb_message_retention_duration :: "proto_duration option"
  sb_labels :: "(string \<times> string) list"
  sb_enable_message_ordering :: bool
  sb_expiration_policy :: "proto_duration option option"
  sb_filter :: string
  sb_dead_letter_policy :: "proto_dead_letter_policy option"
  sb_retry_policy :: "proto_retry_policy option"
  sb_detached :: bool
  sb_enable_exactly_once_delivery :: bool
  sb_topic_message_retention_duration :: "proto_duration option"
  sb_state :: i32

record proto_received_message =
  rc_ack_id :: string
  rc_message :: "pubsub_message option"
  rc_delivery_attempt :: i32

record streaming_pull_request =
  sp_subscription :: string
  sp_ack_ids :: "string list"
  sp_modify_deadline_seconds :: "i32 list"
  sp_modify_deadline_ack_ids :: "string list"
  sp_stream_ack_deadline_seconds :: i32

record streaming_pull_response =
  sr_received_messages :: "proto_received_message list"
  sr_exactly_once_delivery_enabled :: bool
  sr_message_ordering_enabled :: bool

definition seconds_of :: "proto_duration \<Rightarrow> u32" where
  "seconds_of d = ucast (du_seconds d)"

definition duration_of :: "u32 \<Rightarrow> proto_duration" where
  "duration_of n = \<lparr> du_seconds = ucast n, du_nanos = 0 \<rparr>"

text \<open>\<open>DateTime::timestamp\<close> and \<open>timestamp_subsec_nanos\<close> of a time in nanoseconds.\<close>

definition timestamp_of :: "int \<Rightarrow> proto_timestamp" where
  "timestamp_of t =
     \<lparr> ts_seconds = word_of_int (t div nanos_per_second), ts_nanos = word_of_int (t mod nanos_per_second) \<rparr>"

definition seven_days :: u32 where
  "seven_days = 604800"

definition ten_megabytes :: nat where
  "ten_megabytes = 10 * 1024 * 1024"

section \<open>Queues of topics and subscriptions\<close>

text \<open>The configuration both front ends build for a topic, and for the queue of a subscription.\<close>

definition topic_queue_config :: "string \<Rightarrow> string \<Rightarrow> u32 \<Rightarrow> (string \<times> string) list \<Rightarrow> queue_config" where
  "topic_queue_config qid name retention labels =
     \<lparr> qc_id = qid, qc_name = name, qc_type = PubSubTopic, visibility_timeout = 60,
       message_retention_period = retention, max_message_size = ten_megabytes, delay_seconds = 0,
       dlq_config = None, content_based_deduplication = False, tags = labels,
       redrive_allow_policy = None \<rparr>"

definition subscription_queue_config :: "subscription_config \<Rightarrow> queue_config" where
  "subscription_queue_config c =
     \<lparr> qc_id = sub_id c, qc_name = sub_name c, qc_type = PubSubTopic,
       visibility_timeout = ack_deadline_seconds c, message_retention_period = seven_days,
       max_message_size = ten_megabytes, delay_seconds = 0, dlq_config = None,
       content_based_deduplication = False, tags = [], redrive_allow_policy = None \<rparr>"

text \<open>A published message as it is stored; \<open>grp\<close> is its ordering key.\<close>

definition published_message ::
    "ext \<Rightarrow> int \<Rightarrow> string \<Rightarrow> string \<Rightarrow> (string \<times> string) list \<Rightarrow> string option \<Rightarrow> string \<Rightarrow> message" where
  "published_message x clock mid data attrs grp topic_id =
     \<lparr> msg_id = mid, body = b64_encode x data,
       attributes = fold (\<lambda>(k, v). AList.update k
          \<lparr> data_type = ''String'', string_value = Some v, binary_value = None \<rparr>) attrs [],
       msg_queue_id = topic_id, sent_timestamp = clock, receive_count = 0, message_group_id = grp,
       deduplication_id = None, sequence_number = None, msg_delay_seconds = None \<rparr>"

text \<open>The copy of the messages a subscription gets.\<close>

definition for_subscription :: "subscription_config \<Rightarrow> message list \<Rightarrow> message list" where
  "for_subscription sub messages = map (\<lambda>m. m\<lparr>msg_queue_id := sub_id sub\<rparr>) messages"

definition topic_subscriptions :: "string \<Rightarrow> subscription_config list \<Rightarrow> subscription_config list" where
  "topic_subscriptions topic_id subs = filter (\<lambda>c. sub_topic_id c = topic_id) subs"

text \<open>
  The push tasks of a publish: one for each push subscription and message, the \<open>i\<close>-th scheduled at
  the \<open>i\<close>-th reading of the clock.
\<close>

definition push_pairs :: "subscription_config list \<Rightarrow> message list \<Rightarrow> (subscription_config \<times> message) list" where
  "push_pairs subs messages =
     concat (map (\<lambda>sub. if push_config sub \<noteq> None then map (Pair sub) messages else []) subs)"

fun enqueue_pairs ::
    "env \<Rightarrow> (subscription_config \<times> message) list \<Rightarrow> delivery_queue \<Rightarrow> delivery_queue" where
  "enqueue_pairs e [] q = q"
| "enqueue_pairs e ((sub, m) # ps) q =
     enqueue_pairs (env_from 1 e) ps
       (enqueue \<lparr> dt_message = m, dt_subscription = sub, attempt = 0, scheduled_time = now e 0 \<rparr> q)"

definition enqueue_push_subscriptions ::
    "env \<Rightarrow> subscription_config list \<Rightarrow> message list \<Rightarrow> 's pubsub \<Rightarrow> 's pubsub" where
  "enqueue_push_subscriptions e subs messages st =
     st\<lparr>delivery_queue := map_option (enqueue_pairs e (push_pairs subs messages)) (delivery_queue st)\<rparr>"

text \<open>The fan-out loop of the gRPC method: \<open>mk\<close> builds the failure of a subscription whose queue cannot be written.\<close>

fun fan_out ::
    "'s backend \<Rightarrow> (subscription_config \<Rightarrow> error \<Rightarrow> 'e) \<Rightarrow> envs \<Rightarrow> message list \<Rightarrow> subscription_config list \<Rightarrow>
     string list \<Rightarrow> 's pubsub \<Rightarrow> ('e, string list, 's pubsub) service_reply" where
  "fan_out b mk es messages [] ids st = (Inr ids, st)"
| "fan_out b mk es messages (sub # subs) ids st =
     (case on_storage (be_send_messages b (es 0) (sub_id sub) (for_subscription sub messages) (storage st)) st of
        (r, st') \<Rightarrow>
          or_return (map_err (mk sub) r) st' (\<lambda>published.
            fan_out b mk (\<lambda>n. es (Suc n)) messages subs
              (if ids = [] then map msg_id published else ids) st'))"

definition publish_messages ::
    "'s backend \<Rightarrow> (subscription_config \<Rightarrow> error \<Rightarrow> 'e) \<Rightarrow> envs \<Rightarrow> message list \<Rightarrow> subscription_config list \<Rightarrow>
     's pubsub \<Rightarrow> ('e, string list, 's pubsub) service_reply" where
  "publish_messages b mk es messages subs st =
     (if subs = [] then (Inr (map msg_id messages), st)
      else
       (case fan_out b mk (\<lambda>n. es (Suc n)) messages subs [] st of
          (r, st') \<Rightarrow>
            or_return r st' (\<lambda>ids. (Inr ids, enqueue_push_subscriptions (es 0) subs messages st'))))"

end
