(* ===== verification/Pubsub_Publisher.thy ===== *)
theory Pubsub_Publisher
  imports Pubsub_Api
begin

text \<open>
  The gRPC publisher service (\<open>src/pubsub/publisher.rs\<close>), one definition per method of
  \<open>impl Publisher\<close>, over any storage backend.  \<open>es 0\<close> are the readings of the method itself,
  \<open>es 1\<close> those of its first backend call (or, in \<open>publish\<close>, of the push queue).
\<close>

section \<open>Conversions\<close>

definition topic_to_queue_config :: "topic \<Rightarrow> queue_config result" where
  "topic_to_queue_config t =
     (case parse_resource_name (tp_name t) of
        Inl e \<Rightarrow> Inl e
      | Inr resource_name \<Rightarrow>
          Inr (topic_queue_config (resource_key resource_name) (tp_name t)
                 (case tp_message_retention_duration t of Some d \<Rightarrow> seconds_of d | None \<Rightarrow> seven_days)
                 (tp_labels t)))"

definition queue_config_to_topic :: "queue_config \<Rightarrow> topic" where
  "queue_config_to_topic c =
     \<lparr> tp_name = qc_name c, tp_labels = tags c, tp_message_storage_policy = None, tp_kms_key_name = [],
       tp_schema_settings = None, tp_satisfies_pzs = False,
       tp_message_retention_duration = Some (duration_of (message_retention_period c)) \<rparr>"

definition pubsub_message_to_message :: "ext \<Rightarrow> int \<Rightarrow> string \<Rightarrow> string \<Rightarrow> pubsub_message \<Rightarrow> message" where
  "pubsub_message_to_message x clock mid topic_id m =
     published_message x clock mid (pm_data m) (pm_attributes m)
       (if pm_ordering_key m = [] then None else Some (pm_ordering_key m)) topic_id"

fun convert_messages :: "ext \<Rightarrow> env \<Rightarrow> string \<Rightarrow> pubsub_message list \<Rightarrow> message list" where
  "convert_messages x e topic_id [] = []"
| "convert_messages x e topic_id (m # ms) =
     pubsub_message_to_message x (now e 0) (uuid e 0) topic_id m # convert_messages x (env_from 1 e) topic_id ms"

text \<open>The first lines of every method that takes the name of a topic.\<close>

definition with_topic_name ::
    "string \<Rightarrow> 's pubsub \<Rightarrow> (resource_name \<Rightarrow> ('a, 's) grpc) \<Rightarrow> ('a, 's) grpc" where
  "with_topic_name name st k =
     or_return (map_err (\<lambda>e. invalid_argument (''Invalid topic name: '' @ error_to_string e))
        (parse_resource_name name)) st k"

definition topic_missing :: "string \<Rightarrow> error \<Rightarrow> status" where
  "topic_missing name e = not_found (''Topic not found: '' @ name)"

section \<open>Methods\<close>

definition create_topic :: "'s backend \<Rightarrow> envs \<Rightarrow> topic \<Rightarrow> 's pubsub \<Rightarrow> (topic, 's) grpc" where
  "create_topic b es t st =
     with_topic_name (tp_name t) st (\<lambda>resource_name.
     or_return (map_err (\<lambda>e. invalid_argument (''Invalid topic ID: '' @ error_to_string e))
        (validate_topic_id (resource_id resource_name))) st (\<lambda>_.
     or_return (map_err (\<lambda>e. internal (''Failed to convert topic: '' @ error_to_string e))
        (topic_to_queue_config t)) st (\<lambda>config.
       case on_storage (be_create_queue b (es 1) config (storage st)) st of
         (r, st') \<Rightarrow>
           or_return (map_err (\<lambda>e. case e of
                QueueAlreadyExists _ \<Rightarrow> already_exists (''Topic already exists: '' @ tp_name t)
              | _ \<Rightarrow> internal (''Failed to create topic: '' @ error_to_string e)) r) st'
             (\<lambda>created. (Inr (queue_config_to_topic created), st')))))"

definition update_topic :: "'s backend \<Rightarrow> envs \<Rightarrow> topic option \<Rightarrow> 's pubsub \<Rightarrow> (topic, 's) grpc" where
  "update_topic b es request st =
     (case request of
        None \<Rightarrow> (Inl (Failed (invalid_argument ''Topic is required'')), st)
      | Some t \<Rightarrow>
          or_return (map_err (\<lambda>e. internal (''Failed to convert topic: '' @ error_to_string e))
             (topic_to_queue_config t)) st (\<lambda>config.
            case on_storage (be_update_queue b (es 1) config (storage st)) st of
              (r, st') \<Rightarrow>
                or_return (map_err (\<lambda>e. internal (''Failed to update topic: '' @ error_to_string e)) r) st'
                  (\<lambda>updated. (Inr (queue_config_to_topic updated), st'))))"

definition publish_failure :: "subscription_config \<Rightarrow> error \<Rightarrow> status" where
  "publish_failure sub e =
     internal (''Failed to publish messages to subscription '' @ sub_id sub @ '': '' @ error_to_string e)"

definition publish ::
    "ext \<Rightarrow> 's backend \<Rightarrow> envs \<Rightarrow> string \<Rightarrow> pubsub_message list \<Rightarrow> 's pubsub \<Rightarrow> (string list, 's) grpc" where
  "publish x b es name msgs st =
     with_topic_name name st (\<lambda>resource_name.
     let topic_id = resource_key resource_name in
     or_return (map_err (topic_missing name) (be_get_queue b topic_id (storage st))) st (\<lambda>_.
     let messages = convert_messages x (es 0) topic_id msgs in
     or_return (map_err (\<lambda>e. internal (''Failed to list subscriptions: '' @ error_to_string e))
        (be_list_subscriptions b (storage st))) st (\<lambda>all_subscriptions.
       publish_messages b publish_failure (\<lambda>n. es (Suc n)) messages
         (topic_subscriptions topic_id all_subscriptions) st)))"

definition get_topic :: "'s backend \<Rightarrow> string \<Rightarrow> 's pubsub \<Rightarrow> (topic, 's) grpc" where
  "get_topic b name st =
     with_topic_name name st (\<lambda>resource_name.
     or_return (map_err (topic_missing name) (be_get_queue b (resource_key resource_name) (storage st))) st
       (\<lambda>config. (Inr (queue_config_to_topic config), st)))"

text \<open>The project a list request names, with or without its prefix; whether a name belongs to it.\<close>

definition requested_project :: "string \<Rightarrow> string" where
  "requested_project prj = (case strip_prefix ''projects/'' prj of Some p \<Rightarrow> p | None \<Rightarrow> prj)"

definition name_in_project :: "string \<Rightarrow> string \<Rightarrow> bool" where
  "name_in_project project_id name =
     (case parse_resource_name name of Inr r \<Rightarrow> resource_project r = project_id | Inl _ \<Rightarrow> False)"

definition list_topics :: "'s backend \<Rightarrow> string \<Rightarrow> 's pubsub \<Rightarrow> (topic list, 's) grpc" where
  "list_topics b prj st =
     or_return (map_err (\<lambda>e. internal (''Failed to list topics: '' @ error_to_string e))
        (be_list_queues b None (storage st))) st (\<lambda>configs.
       (Inr (map queue_config_to_topic
          (filter (\<lambda>c. name_in_project (requested_project prj) (qc_name c))
            (filter (\<lambda>c. qc_type c = PubSubTopic) configs))), st))"

definition list_topic_subscriptions :: "'s backend \<Rightarrow> string \<Rightarrow> 's pubsub \<Rightarrow> (string list, 's) grpc" where
  "list_topic_subscriptions b name st =
     with_topic_name name st (\<lambda>resource_name.
     let topic_id = resource_key resource_name in
     or_return (map_err (topic_missing name) (be_get_queue b topic_id (storage st))) st (\<lambda>_.
     or_return (map_err (\<lambda>e. internal (''Failed to list subscriptions: '' @ error_to_string e))
        (be_list_subscriptions b (storage st))) st (\<lambda>all_subs.
       (Inr (map sub_name (topic_subscriptions topic_id all_subs)), st))))"

definition delete_topic :: "'s backend \<Rightarrow> string \<Rightarrow> 's pubsub \<Rightarrow> (unit, 's) grpc" where
  "delete_topic b name st =
     with_topic_name name st (\<lambda>resource_name.
       case on_storage (be_delete_queue b (resource_key resource_name) (storage st)) st of
         (r, st') \<Rightarrow> or_return (map_err (topic_missing name) r) st' (\<lambda>_. (Inr (), st')))"

definition detach_subscription :: "string \<Rightarrow> 's pubsub \<Rightarrow> (unit, 's) grpc" where
  "detach_subscription subscription st =
     (Inl (Failed (unimplemented ''DetachSubscription not yet implemented'')), st)"

end
