(* ===== verification/Pubsub_Subscriber.thy ===== *)
theory Pubsub_Subscriber
  imports Pubsub_Publisher
begin

text \<open>
  The gRPC subscriber service (\<open>src/pubsub/subscriber.rs\<close>), one definition per method of
  \<open>impl Subscriber\<close>, and the task behind a \<open>StreamingPull\<close> as a step function on its local
  variables.
\<close>

section \<open>Conversions\<close>

definition push_conf_of :: "proto_retry_policy option \<Rightarrow> proto_push_config \<Rightarrow> push_conf" where
  "push_conf_of retry pc =
     \<lparr> endpoint = pc_push_endpoint pc,
       retry_policy = map_option (\<lambda>rp.
         \<lparr> min_backoff_seconds = (case pr_minimum_backoff rp of Some d \<Rightarrow> seconds_of d | None \<Rightarrow> 10),
           max_backoff_seconds = (case pr_maximum_backoff rp of Some d \<Rightarrow> seconds_of d | None \<Rightarrow> 600),
           max_attempts = 5 \<rparr>) retry,
       timeout_seconds = Some 30 \<rparr>"

definition subscription_to_config :: "subscription \<Rightarrow> subscription_config result" where
  "subscription_to_config sb =
     (case parse_resource_name (sb_name sb) of
        Inl e \<Rightarrow> Inl e
      | Inr resource_name \<Rightarrow>
         (case parse_resource_name (sb_topic sb) of
            Inl e \<Rightarrow> Inl e
          | Inr topic_resource \<Rightarrow>
              Inr \<lparr> sub_id = resource_key resource_name, sub_name = sb_name sb,
                    sub_topic_id = resource_key topic_resource,
                    ack_deadline_seconds = sb_ack_deadline_seconds sb,
                    message_retention_duration =
                      (case sb_message_retention_duration sb of Some d \<Rightarrow> seconds_of d | None \<Rightarrow> seven_days),
                    enable_message_ordering = sb_enable_message_ordering sb,
                    sub_filter = (if sb_filter sb = [] then None else Some (sb_filter sb)),
                    dead_letter_policy = map_option (\<lambda>dlp.
                      \<lparr> dead_letter_topic = pd_dead_letter_topic dlp,
                        max_delivery_attempts = pd_max_delivery_attempts dlp \<rparr>) (sb_dead_letter_policy sb),
                    push_config = map_option (push_conf_of (sb_retry_policy sb)) (sb_push_config sb) \<rparr>))"

text \<open>The name of the topic a stored subscription belongs to, rebuilt from the two identifiers.\<close>

definition topic_name_of :: "subscription_config \<Rightarrow> string" where
  "topic_name_of c =
     (let parts = split_on (CHR '':'') (sub_id c);
          prj = (if length parts = 2 then parts ! 0 else ''default'');
          topic_parts = split_on (CHR '':'') (sub_topic_id c);
          (topic_project, topic_name) =
            (if length topic_parts = 2 then (topic_parts ! 0, topic_parts ! 1) else (prj, sub_topic_id c)) in
      ''projects/'' @ topic_project @ ''/topics/'' @ topic_name)"

definition config_to_subscription :: "subscription_config \<Rightarrow> subscription" where
  "config_to_subscription c =
     \<lparr> sb_name = sub_name c, sb_topic = topic_name_of c,
       sb_push_config = map_option (\<lambda>pc.
         \<lparr> pc_push_endpoint = endpoint pc, pc_attributes = [], pc_authentication_method = None \<rparr>) (push_config c),
       sb_ack_deadline_seconds = ack_deadline_seconds c,
       sb_retain_acked_messages = False,
       sb_message_retention_duration = Some (duration_of (message_retention_duration c)),
       sb_labels = [],
       sb_enable_message_ordering = enable_message_ordering c,
       sb_expiration_policy = None,
       sb_filter = (case sub_filter c of Some f \<Rightarrow> f | None \<Rightarrow> []),
       sb_dead_letter_policy = map_option (\<lambda>dlp.
         \<lparr> pd_dead_letter_topic = dead_letter_topic dlp,
           pd_max_delivery_attempts = max_delivery_attempts dlp \<rparr>) (dead_letter_policy c),
       sb_retry_policy =
         (case push_config c of
            None \<Rightarrow> None
          | Some pc \<Rightarrow> map_option (\<lambda>rp.
              \<lparr> pr_minimum_backoff = Some (duration_of (min_backoff_seconds rp)),
                pr_maximum_backoff = Some (duration_of (max_backoff_seconds rp)) \<rparr>) (retry_policy pc)),
       sb_detached = False,
       sb_enable_exactly_once_delivery = False,
       sb_topic_message_retention_duration = None,
       sb_state = 1 \<rparr>"

section \<open>Methods\<close>

definition with_subscription_name ::
    "string \<Rightarrow> 's pubsub \<Rightarrow> (resource_name \<Rightarrow> ('a, 's) grpc) \<Rightarrow> ('a, 's) grpc" where
  "with_subscription_name name st k =
     or_return (map_err (\<lambda>e. invalid_argument (''Invalid subscription name: '' @ error_to_string e))
        (parse_resource_name name)) st k"

definition subscription_missing :: "string \<Rightarrow> error \<Rightarrow> status" where
  "subscription_missing name e = not_found (''Subscription not found: '' @ name)"

definition create_subscription_grpc ::
    "'s backend \<Rightarrow> envs \<Rightarrow> subscription \<Rightarrow> 's pubsub \<Rightarrow> (subscription, 's) grpc" where
  "create_subscription_grpc b es sb st =
     with_subscription_name (sb_name sb) st (\<lambda>resource_name.
     or_return (map_err (\<lambda>e. invalid_argument (''Invalid subscription ID: '' @ error_to_string e))
        (validate_subscription_id (resource_id resource_name))) st (\<lambda>_.
     with_topic_name (sb_topic sb) st (\<lambda>topic_resource.
     or_return (map_err (topic_missing (sb_topic sb))
        (be_get_queue b (resource_key topic_resource) (storage st))) st (\<lambda>_.
     or_return (map_err (\<lambda>e. internal (''Failed to convert subscription: '' @ error_to_string e))
        (subscription_to_config sb)) st (\<lambda>config.
       case on_storage (be_create_queue b (es 1) (subscription_queue_config config) (storage st)) st of
         (r, st1) \<Rightarrow>
           or_return (map_err (\<lambda>e. internal (''Failed to create subscription queue: '' @ error_to_string e)) r) st1
            (\<lambda>_. case on_storage (be_create_subscription b (es 2) config (storage st1)) st1 of
               (r2, st2) \<Rightarrow>
                 or_return (map_err (\<lambda>e. internal (''Failed to create subscription: '' @ error_to_string e)) r2) st2
                   (\<lambda>created. (Inr (config_to_subscription created), st2))))))))"

text \<open>The lookup every other method on a subscription begins with.\<close>

definition with_subscription ::
    "'s backend \<Rightarrow> string \<Rightarrow> 's pubsub \<Rightarrow> (string \<Rightarrow> subscription_config \<Rightarrow> ('a, 's) grpc) \<Rightarrow> ('a, 's) grpc" where
  "with_subscription b name st k =
     with_subscription_name name st (\<lambda>resource_name.
     or_return (map_err (subscription_missing name)
        (be_get_subscription b (resource_key resource_name) (storage st))) st
       (k (resource_key resource_name)))"

definition get_subscription_grpc :: "'s backend \<Rightarrow> string \<Rightarrow> 's pubsub \<Rightarrow> (subscription, 's) grpc" where
  "get_subscription_grpc b name st =
     with_subscription b name st (\<lambda>sid c. (Inr (config_to_subscription c), st))"

definition update_subscription_grpc :: "subscription option \<Rightarrow> 's pubsub \<Rightarrow> (subscription, 's) grpc" where
  "update_subscription_grpc request st =
     (Inl (Failed (unimplemented ''UpdateSubscription not yet implemented'')), st)"

definition list_subscriptions_grpc :: "'s backend \<Rightarrow> string \<Rightarrow> 's pubsub \<Rightarrow> (subscription list, 's) grpc" where
  "list_subscriptions_grpc b prj st =
     or_return (map_err (\<lambda>e. internal (''Failed to list subscriptions: '' @ error_to_string e))
        (be_list_subscriptions b (storage st))) st (\<lambda>configs.
       (Inr (map config_to_subscription
          (filter (\<lambda>c. name_in_project (requested_project prj) (sub_name c)) configs)), st))"

text \<open>The result of deleting the queue is ignored (a panic of the call would not be).\<close>

definition delete_subscription_grpc :: "'s backend \<Rightarrow> string \<Rightarrow> 's pubsub \<Rightarrow> (unit, 's) grpc" where
  "delete_subscription_grpc b name st =
     with_subscription_name name st (\<lambda>resource_name.
       case on_storage (be_delete_queue b (resource_key resource_name) (storage st)) st of
         (Inl (Panic m), st1) \<Rightarrow> (Inl (Panicked m), st1)
       | (_, st1) \<Rightarrow>
           (case on_storage (be_delete_subscription b (resource_key resource_name) (storage st1)) st1 of
              (r, st2) \<Rightarrow> or_return (map_err (subscription_missing name) r) st2 (\<lambda>_. (Inr (), st2))))"

text \<open>The loops over the acknowledgement identifiers stop at the first error.\<close>

fun visibility_loop ::
    "'s backend \<Rightarrow> (error \<Rightarrow> 'e) \<Rightarrow> envs \<Rightarrow> string \<Rightarrow> u32 \<Rightarrow> string list \<Rightarrow> 's pubsub \<Rightarrow> ('e, unit, 's pubsub) service_reply" where
  "visibility_loop b mk es sid deadline [] st = (Inr (), st)"
| "visibility_loop b mk es sid deadline (ack_id # ack_ids) st =
     (case on_storage (be_change_visibility b (es 0) sid ack_id deadline (storage st)) st of
        (r, st') \<Rightarrow>
          or_return (map_err mk r) st' (\<lambda>_.
            visibility_loop b mk (\<lambda>n. es (Suc n)) sid deadline ack_ids st'))"

fun acknowledge_loop ::
    "'s backend \<Rightarrow> (error \<Rightarrow> 'e) \<Rightarrow> string \<Rightarrow> string list \<Rightarrow> 's pubsub \<Rightarrow> ('e, unit, 's pubsub) service_reply" where
  "acknowledge_loop b mk sid [] st = (Inr (), st)"
| "acknowledge_loop b mk sid (ack_id # ack_ids) st =
     (case on_storage (be_delete_message b sid ack_id (storage st)) st of
        (r, st') \<Rightarrow> or_return (map_err mk r) st' (\<lambda>_. acknowledge_loop b mk sid ack_ids st'))"

definition modify_ack_deadline ::
    "'s backend \<Rightarrow> envs \<Rightarrow> string \<Rightarrow> string list \<Rightarrow> i32 \<Rightarrow> 's pubsub \<Rightarrow> (unit, 's) grpc" where
  "modify_ack_deadline b es name ack_ids deadline st =
     with_subscription b name st (\<lambda>sid c.
       visibility_loop b (\<lambda>e. internal (''Failed to modify ack deadline: '' @ error_to_string e))
         (\<lambda>n. es (Suc n)) sid deadline ack_ids st)"

definition acknowledge :: "'s backend \<Rightarrow> string \<Rightarrow> string list \<Rightarrow> 's pubsub \<Rightarrow> (unit, 's) grpc" where
  "acknowledge b name ack_ids st =
     with_subscription b name st (\<lambda>sid c.
       acknowledge_loop b (\<lambda>e. internal (''Failed to acknowledge message: '' @ error_to_string e)) sid ack_ids st)"

definition pull_options :: "i32 \<Rightarrow> u32 \<Rightarrow> receive_options" where
  "pull_options n deadline =
     \<lparr> ro_max_messages = n, ro_visibility_timeout = Some deadline, wait_time_seconds = 0,
       attribute_names = [], message_attribute_names = [] \<rparr>"

text \<open>A body that is not base64 is sent as it is.\<close>

definition message_data :: "ext \<Rightarrow> message \<Rightarrow> string" where
  "message_data x m = (case b64_decode x (body m) of Some d \<Rightarrow> d | None \<Rightarrow> body m)"

definition string_attributes :: "(string \<times> message_attribute_value) list \<Rightarrow> (string \<times> string) list" where
  "string_attributes attrs =
     fold (\<lambda>(k, v) acc. case string_value v of Some s \<Rightarrow> AList.update k s acc | None \<Rightarrow> acc) attrs []"

definition all_attributes_as_strings ::
    "(string \<times> message_attribute_value) list \<Rightarrow> (string \<times> string) list" where
  "all_attributes_as_strings attrs =
     fold (\<lambda>(k, v). AList.update k (case string_value v of Some s \<Rightarrow> s | None \<Rightarrow> [])) attrs []"

definition proto_message :: "ext \<Rightarrow> (string \<times> string) list \<Rightarrow> message \<Rightarrow> pubsub_message" where
  "proto_message x attrs m =
     \<lparr> pm_data = message_data x m, pm_attributes = attrs, pm_message_id = msg_id m,
       pm_publish_time = Some (timestamp_of (sent_timestamp m)),
       pm_ordering_key = (case message_group_id m of Some g \<Rightarrow> g | None \<Rightarrow> []) \<rparr>"

definition pulled_message :: "ext \<Rightarrow> received_message \<Rightarrow> proto_received_message" where
  "pulled_message x rm =
     \<lparr> rc_ack_id = receipt_handle rm,
       rc_message = Some (proto_message x (string_attributes (attributes (rm_message rm))) (rm_message rm)),
       rc_delivery_attempt = receive_count (rm_message rm) \<rparr>"

definition pull ::
    "ext \<Rightarrow> 's backend \<Rightarrow> envs \<Rightarrow> string \<Rightarrow> i32 \<Rightarrow> 's pubsub \<Rightarrow> (proto_received_message list, 's) grpc" where
  "pull x b es name n st =
     with_subscription b name st (\<lambda>sid c.
       case on_storage (be_receive_messages b (es 1) sid (pull_options n (ack_deadline_seconds c)) (storage st)) st of
         (r, st') \<Rightarrow>
           or_return (map_err (\<lambda>e. internal (''Failed to pull messages: '' @ error_to_string e)) r) st'
             (\<lambda>messages. (Inr (map (pulled_message x) messages), st')))"

definition modify_push_config :: "'s pubsub \<Rightarrow> (unit, 's) grpc" where
  "modify_push_config st = (Inl (Failed (unimplemented ''ModifyPushConfig not yet implemented'')), st)"

definition seek :: "'s pubsub \<Rightarrow> (unit, 's) grpc" where
  "seek st = (Inl (Failed (unimplemented ''Seek not yet implemented'')), st)"

section \<open>Streaming pull\<close>

text \<open>The local variables of the spawned task; \<open>sl_open\<close> says that its loop is still running.\<close>

record stream_loop =
  sl_subscription_id :: "string option"
  sl_topic_id :: "string option"
  sl_ack_deadline :: u32
  sl_ordering_enabled :: bool
  sl_open :: bool

definition new_stream :: stream_loop where
  "new_stream =
     \<lparr> sl_subscription_id = None, sl_topic_id = None, sl_ack_deadline = 10, sl_ordering_enabled = False,
       sl_open = True \<rparr>"

text \<open>
  What the \<open>select!\<close> of the loop can see: a request or an error of the client, or the poll timer, with
  whether the client still takes responses.
\<close>

datatype stream_event = ClientRequest streaming_pull_request | ClientError | PollTimer bool

type_synonym stream_output = "status + streaming_pull_response"

definition init_stream ::
    "'s backend \<Rightarrow> streaming_pull_request \<Rightarrow> 's pubsub \<Rightarrow> stream_loop \<Rightarrow> stream_loop \<times> stream_output list" where
  "init_stream b req st l =
     (if sl_subscription_id l \<noteq> None then (l, [])
      else case parse_resource_name (sp_subscription req) of
        Inl e \<Rightarrow> (l\<lparr>sl_open := False\<rparr>, [Inl (invalid_argument (''Invalid subscription name: '' @ error_to_string e))])
      | Inr resource_name \<Rightarrow>
         (case be_get_subscription b (resource_key resource_name) (storage st) of
            Inl e \<Rightarrow> (l\<lparr>sl_open := False\<rparr>, [Inl (not_found (''Subscription not found: '' @ error_to_string e))])
          | Inr c \<Rightarrow>
              (l\<lparr>sl_subscription_id := Some (resource_key resource_name),
                 sl_topic_id := Some (sub_topic_id c),
                 sl_ordering_enabled := enable_message_ordering c,
                 sl_ack_deadline := (if 0 < sint (sp_stream_ack_deadline_seconds req)
                    then sp_stream_ack_deadline_seconds req else sl_ack_deadline l)\<rparr>, [])))"

text \<open>
  The two loops ignore the errors of single messages; the flag says whether a call panicked, which
  ends the task.
\<close>

definition is_panic :: "'a result \<Rightarrow> bool" where
  "is_panic r = (case r of Inl (Panic _) \<Rightarrow> True | _ \<Rightarrow> False)"

fun stream_acks :: "'s backend \<Rightarrow> string \<Rightarrow> string list \<Rightarrow> 's pubsub \<Rightarrow> bool \<times> 's pubsub" where
  "stream_acks b sid [] st = (False, st)"
| "stream_acks b sid (ack_id # ack_ids) st =
     (case on_storage (be_delete_message b sid ack_id (storage st)) st of
        (r, st') \<Rightarrow> if is_panic r then (True, st') else stream_acks b sid ack_ids st')"

fun stream_deadlines ::
    "'s backend \<Rightarrow> envs \<Rightarrow> string \<Rightarrow> i32 list \<Rightarrow> string list \<Rightarrow> 's pubsub \<Rightarrow> bool \<times> 's pubsub" where
  "stream_deadlines b es sid deadlines [] st = (False, st)"
| "stream_deadlines b es sid deadlines (ack_id # ack_ids) st =
     (case on_storage (be_change_visibility b (es 0) sid ack_id
             (case deadlines of [] \<Rightarrow> 10 | d # _ \<Rightarrow> d) (storage st)) st of
        (r, st') \<Rightarrow>
          if is_panic r then (True, st')
          else stream_deadlines b (\<lambda>n. es (Suc n)) sid (tl deadlines) ack_ids st')"

definition streamed_message :: "ext \<Rightarrow> received_message \<Rightarrow> proto_received_message" where
  "streamed_message x rm =
     \<lparr> rc_ack_id = receipt_handle rm,
       rc_message = Some (proto_message x (all_attributes_as_strings (attributes (rm_message rm))) (rm_message rm)),
       rc_delivery_attempt = receive_count (rm_message rm) \<rparr>"

definition stream_request ::
    "'s backend \<Rightarrow> envs \<Rightarrow> streaming_pull_request \<Rightarrow> 's pubsub \<Rightarrow> stream_loop \<Rightarrow>
     stream_output list \<times> stream_loop \<times> 's pubsub" where
  "stream_request b es req st l0 =
     (case init_stream b req st l0 of
        (l, out) \<Rightarrow>
          (if \<not> sl_open l then (out, l, st)
           else case (sl_topic_id l, sl_subscription_id l) of
             (Some _, Some sid) \<Rightarrow>
               (case stream_acks b sid (sp_ack_ids req) st of
                  (True, st1) \<Rightarrow> (out, l\<lparr>sl_open := False\<rparr>, st1)
                | (False, st1) \<Rightarrow>
                    (case stream_deadlines b (\<lambda>n. es (Suc n)) sid (sp_modify_deadline_seconds req)
                            (sp_modify_deadline_ack_ids req) st1 of
                       (panicked, st2) \<Rightarrow> (out, (if panicked then l\<lparr>sl_open := False\<rparr> else l), st2)))
           | _ \<Rightarrow> (out, l, st)))"

definition stream_poll ::
    "ext \<Rightarrow> 's backend \<Rightarrow> envs \<Rightarrow> bool \<Rightarrow> 's pubsub \<Rightarrow> stream_loop \<Rightarrow>
     stream_output list \<times> stream_loop \<times> 's pubsub" where
  "stream_poll x b es connected st l =
     (case (sl_topic_id l, sl_subscription_id l) of
        (Some _, Some sid) \<Rightarrow>
          (case on_storage (be_receive_messages b (es 1) sid (pull_options 10 (sl_ack_deadline l)) (storage st)) st of
             (Inl e, st') \<Rightarrow>
               ([], (if is_panic (Inl e :: received_message list result) then l\<lparr>sl_open := False\<rparr> else l), st')
           | (Inr messages, st') \<Rightarrow>
               (if messages = [] then ([], l, st')
                else if connected then
                  ([Inr \<lparr> sr_received_messages = map (streamed_message x) messages,
                          sr_exactly_once_delivery_enabled = False,
                          sr_message_ordering_enabled = sl_ordering_enabled l \<rparr>], l, st')
                else ([], l\<lparr>sl_open := False\<rparr>, st')))
      | _ \<Rightarrow> ([], l, st))"

definition stream_step ::
    "ext \<Rightarrow> 's backend \<Rightarrow> envs \<Rightarrow> stream_event \<Rightarrow> stream_loop \<times> 's pubsub \<Rightarrow>
     stream_output list \<times> stream_loop \<times> 's pubsub" where
  "stream_step x b es ev lst =
     (case lst of (l, st) \<Rightarrow>
        if \<not> sl_open l then ([], l, st)
        else case ev of
          ClientRequest req \<Rightarrow> stream_request b es req st l
        | ClientError \<Rightarrow> ([], l\<lparr>sl_open := False\<rparr>, st)
        | PollTimer connected \<Rightarrow> stream_poll x b es connected st l)"

text \<open>The snapshot methods.\<close>

definition snapshot_method :: "string \<Rightarrow> 's pubsub \<Rightarrow> (unit, 's) grpc" where
  "snapshot_method name st = (Inl (Failed (unimplemented (name @ '' not yet implemented''))), st)"

end
