(* ===== verification/Pubsub_Rest.thy ===== *)
theory Pubsub_Rest
  imports Pubsub_Subscriber Push_Worker
begin

text \<open>
  The REST front end of Pub/Sub (\<open>src/pubsub/rest.rs\<close>): the JSON resource types, the conversions and
  one definition per handler, over the same storage as the gRPC services.  Path parameters arrive
  decoded and bodies typed; the (de)serialisers serde derives from the type declarations are the
  parameter \<open>ext_rest\<close>.
\<close>

section \<open>Resource types\<close>

record rest_topic =
  rt_name :: "string option"
  rt_labels :: "(string \<times> string) list option"
  rt_message_retention_duration :: "string option"

record rest_message =
  rm_data :: string
  rm_attributes :: "(string \<times> string) list option"
  rm_message_id :: "string option"
  rm_publish_time :: "string option"
  rm_ordering_key :: "string option"

record rest_push_config =
  rp_push_endpoint :: string
  rp_attributes :: "(string \<times> string) list option"

record rest_dead_letter_policy =
  rd_dead_letter_topic :: string
  rd_max_delivery_attempts :: "i32 option"

record rest_subscription =
  rs_name :: "string option"
  rs_topic :: string
  rs_push_config :: "rest_push_config option"
  rs_ack_deadline_seconds :: "i32 option"
  rs_retain_acked_messages :: "bool option"
  rs_message_retention_duration :: "string option"
  rs_labels :: "(string \<times> string) list option"
  rs_enable_message_ordering :: "bool option"
  rs_expiration_policy :: "string option"
  rs_filter :: "string option"
  rs_dead_letter_policy :: "rest_dead_letter_policy option"

record rest_pull_request =
  pl_max_messages :: i32
  pl_return_immediately :: bool

record rest_received_message =
  rr_ack_id :: string
  rr_message :: rest_message
  rr_delivery_attempt :: "i32 option"

record rest_modify_request =
  mo_ack_ids :: "string list"
  mo_ack_deadline_seconds :: i32

text \<open>The bodies and results of the custom methods, as the derived (de)serialisers read and write them.\<close>

record ext_rest =
  de_publish_request :: "json \<Rightarrow> string + rest_message list"
  de_pull_request :: "json \<Rightarrow> string + rest_pull_request"
  de_acknowledge_request :: "json \<Rightarrow> string + string list"
  de_modify_request :: "json \<Rightarrow> string + rest_modify_request"
  ser_publish_response :: "string list \<Rightarrow> string + json"

section \<open>Errors\<close>

datatype http_status = OK | NoContent | BadRequest | HttpNotFound | Conflict | UnprocessableEntity | InternalServerError

fun status_code_number :: "http_status \<Rightarrow> nat" where
  "status_code_number OK = 200"
| "status_code_number NoContent = 204"
| "status_code_number BadRequest = 400"
| "status_code_number HttpNotFound = 404"
| "status_code_number Conflict = 409"
| "status_code_number UnprocessableEntity = 422"
| "status_code_number InternalServerError = 500"

record error_response =
  er_code :: nat
  er_message :: string
  er_status :: string

definition error_response_new :: "http_status \<Rightarrow> string \<Rightarrow> error_response" where
  "error_response_new code m =
     \<lparr> er_code = status_code_number code, er_message = m,
       er_status =
         (case code of
            BadRequest \<Rightarrow> ''INVALID_ARGUMENT''
          | HttpNotFound \<Rightarrow> ''NOT_FOUND''
          | Conflict \<Rightarrow> ''ALREADY_EXISTS''
          | InternalServerError \<Rightarrow> ''INTERNAL''
          | UnprocessableEntity \<Rightarrow> ''FAILED_PRECONDITION''
          | _ \<Rightarrow> ''UNKNOWN'') \<rparr>"

type_synonym ('a, 's) rest = "(error_response, 'a, 's pubsub) service_reply"

definition rest_internal :: "string \<Rightarrow> error \<Rightarrow> error_response" where
  "rest_internal what e = error_response_new InternalServerError (what @ error_to_string e)"

definition rest_bad_request :: "string \<Rightarrow> error \<Rightarrow> error_response" where
  "rest_bad_request what e = error_response_new BadRequest (what @ error_to_string e)"

definition rest_missing :: "string \<Rightarrow> string \<Rightarrow> error \<Rightarrow> error_response" where
  "rest_missing what prj_name e = error_response_new HttpNotFound (what @ '' not found: '' @ prj_name)"

section \<open>Conversions\<close>

text \<open>\<open>format!("{}:{}", project, name)\<close> and \<open>format!("{}/{}", project, name)\<close>.\<close>

definition rest_key :: "string \<Rightarrow> string \<Rightarrow> string" where
  "rest_key prj name = prj @ '':'' @ name"

definition rest_path :: "string \<Rightarrow> string \<Rightarrow> string" where
  "rest_path prj name = prj @ ''/'' @ name"

text \<open>A duration such as \<open>604800s\<close>; anything else counts as seven days.\<close>

definition rest_duration :: "string option \<Rightarrow> u32" where
  "rest_duration d =
     (case d of
        None \<Rightarrow> seven_days
      | Some t \<Rightarrow>
         (case strip_suffix ''s'' t of
            None \<Rightarrow> seven_days
          | Some digits \<Rightarrow> (case parse_u32 digits of None \<Rightarrow> seven_days | Some n \<Rightarrow> n)))"

definition show_duration :: "u32 \<Rightarrow> string" where
  "show_duration n = show_nat (unat n) @ ''s''"

definition rest_topic_to_queue_config :: "rest_topic \<Rightarrow> string \<Rightarrow> string \<Rightarrow> queue_config result" where
  "rest_topic_to_queue_config t prj topic_name =
     Inr (topic_queue_config (rest_key prj topic_name) (format_topic prj topic_name)
            (rest_duration (rt_message_retention_duration t))
            (case rt_labels t of Some l \<Rightarrow> l | None \<Rightarrow> []))"

definition rest_queue_config_to_topic :: "queue_config \<Rightarrow> rest_topic" where
  "rest_queue_config_to_topic c =
     \<lparr> rt_name = Some (qc_name c), rt_labels = (if tags c = [] then None else Some (tags c)),
       rt_message_retention_duration = Some (show_duration (message_retention_period c)) \<rparr>"

text \<open>The identifier of the topic a subscription names, which must be a topic name.\<close>

definition rest_topic_key :: "string \<Rightarrow> string option" where
  "rest_topic_key name =
     (let parts = split_on (CHR ''/'') name in
      if length parts = 4 \<and> parts ! 0 = ''projects'' \<and> parts ! 2 = ''topics''
      then Some (rest_key (parts ! 1) (parts ! 3)) else None)"

definition rest_push_conf :: "rest_push_config \<Rightarrow> push_conf" where
  "rest_push_conf pc =
     \<lparr> endpoint = rp_push_endpoint pc,
       retry_policy = Some \<lparr> min_backoff_seconds = 10, max_backoff_seconds = 600, max_attempts = 5 \<rparr>,
       timeout_seconds = Some 30 \<rparr>"

definition rest_subscription_to_config ::
    "rest_subscription \<Rightarrow> string \<Rightarrow> string \<Rightarrow> subscription_config result" where
  "rest_subscription_to_config sb prj sname =
     (case rest_topic_key (rs_topic sb) of
        None \<Rightarrow> Inl (Validation (InvalidParameter ''topic'' (''Invalid topic name format: '' @ rs_topic sb)))
      | Some topic_id \<Rightarrow>
          Inr \<lparr> sub_id = rest_key prj sname, sub_name = format_subscription prj sname, sub_topic_id = topic_id,
                ack_deadline_seconds = (case rs_ack_deadline_seconds sb of Some n \<Rightarrow> n | None \<Rightarrow> 10),
                message_retention_duration = rest_duration (rs_message_retention_duration sb),
                enable_message_ordering = (case rs_enable_message_ordering sb of Some o' \<Rightarrow> o' | None \<Rightarrow> False),
                sub_filter = rs_filter sb,
                dead_letter_policy = map_option (\<lambda>dlp.
                  \<lparr> dead_letter_topic = rd_dead_letter_topic dlp,
                    max_delivery_attempts = (case rd_max_delivery_attempts dlp of Some n \<Rightarrow> n | None \<Rightarrow> 5) \<rparr>)
                  (rs_dead_letter_policy sb),
                push_config = map_option rest_push_conf (rs_push_config sb) \<rparr>)"

definition rest_config_to_subscription :: "subscription_config \<Rightarrow> rest_subscription" where
  "rest_config_to_subscription c =
     \<lparr> rs_name = Some (sub_name c), rs_topic = topic_name_of c,
       rs_push_config = map_option (\<lambda>pc. \<lparr> rp_push_endpoint = endpoint pc, rp_attributes = None \<rparr>) (push_config c),
       rs_ack_deadline_seconds = Some (ack_deadline_seconds c),
       rs_retain_acked_messages = Some False,
       rs_message_retention_duration = Some (show_duration (message_retention_duration c)),
       rs_labels = None,
       rs_enable_message_ordering = Some (enable_message_ordering c),
       rs_expiration_policy = None,
       rs_filter = sub_filter c,
       rs_dead_letter_policy = map_option (\<lambda>dlp.
         \<lparr> rd_dead_letter_topic = dead_letter_topic dlp,
           rd_max_delivery_attempts = Some (max_delivery_attempts dlp) \<rparr>) (dead_letter_policy c) \<rparr>"

definition rest_message_to_message :: "ext \<Rightarrow> int \<Rightarrow> string \<Rightarrow> string \<Rightarrow> rest_message \<Rightarrow> message" where
  "rest_message_to_message x clock mid topic_id m =
     (let attrs =
        (case rm_attributes m of
           None \<Rightarrow> []
         | Some given \<Rightarrow>
             fold (\<lambda>(key, value) attrs. AList.update key
               \<lparr> data_type = ''String'', string_value = Some value, binary_value = None \<rparr> attrs) given []);
          encoded = b64_encode x (rm_data m) in
      \<lparr> msg_id = mid, body = encoded, attributes = attrs, msg_queue_id = topic_id, sent_timestamp = clock,
        receive_count = 0, message_group_id = rm_ordering_key m, deduplication_id = None,
        sequence_number = None, msg_delay_seconds = None \<rparr>)"

fun rest_convert_messages :: "ext \<Rightarrow> env \<Rightarrow> string \<Rightarrow> rest_message list \<Rightarrow> message list" where
  "rest_convert_messages x e topic_id [] = []"
| "rest_convert_messages x e topic_id (m # ms) =
     rest_message_to_message x (now e 0) (uuid e 0) topic_id m # rest_convert_messages x (env_from 1 e) topic_id ms"

definition message_to_rest_message :: "ext \<Rightarrow> ext_push \<Rightarrow> message \<Rightarrow> rest_message" where
  "message_to_rest_message x p m =
     (let attrs = string_attributes (attributes m) in
      \<lparr> rm_data = (case b64_decode x (body m) of Some d \<Rightarrow> d | None \<Rightarrow> []),
        rm_attributes = (if attrs = [] then None else Some attrs),
        rm_message_id = Some (msg_id m),
        rm_publish_time = Some (to_rfc3339 p (sent_timestamp m)),
        rm_ordering_key = message_group_id m \<rparr>)"

section \<open>Topics\<close>

text \<open>The name the handler fills into the body is not read again: the path decides.\<close>

definition rest_create_topic ::
    "'s backend \<Rightarrow> envs \<Rightarrow> string \<Rightarrow> string \<Rightarrow> rest_topic \<Rightarrow> 's pubsub \<Rightarrow> (rest_topic, 's) rest" where
  "rest_create_topic b es prj tname payload0 st =
     or_return (map_err (rest_bad_request ''Invalid topic ID: '') (validate_topic_id tname)) st (\<lambda>_.
     let payload = (if rt_name payload0 = None then payload0\<lparr>rt_name := Some (format_topic prj tname)\<rparr>
                    else payload0) in
     or_return (map_err (rest_bad_request ''Invalid topic: '') (rest_topic_to_queue_config payload prj tname)) st
      (\<lambda>config.
       case on_storage (be_create_queue b (es 1) config (storage st)) st of
         (r, st') \<Rightarrow>
           or_return (map_err (\<lambda>e. case e of
                QueueAlreadyExists _ \<Rightarrow>
                  error_response_new Conflict (''Topic already exists: '' @ rest_path prj tname)
              | _ \<Rightarrow> rest_internal ''Failed to create topic: '' e) r) st'
             (\<lambda>created. (Inr (rest_queue_config_to_topic created), st'))))"

definition rest_get_topic :: "'s backend \<Rightarrow> string \<Rightarrow> string \<Rightarrow> 's pubsub \<Rightarrow> (rest_topic, 's) rest" where
  "rest_get_topic b prj tname st =
     or_return (map_err (rest_missing ''Topic'' (rest_path prj tname))
        (be_get_queue b (rest_key prj tname) (storage st))) st
       (\<lambda>config. (Inr (rest_queue_config_to_topic config), st))"

definition rest_delete_topic :: "'s backend \<Rightarrow> string \<Rightarrow> string \<Rightarrow> 's pubsub \<Rightarrow> (http_status, 's) rest" where
  "rest_delete_topic b prj tname st =
     (case on_storage (be_delete_queue b (rest_key prj tname) (storage st)) st of
        (r, st') \<Rightarrow>
          or_return (map_err (rest_missing ''Topic'' (rest_path prj tname)) r) st' (\<lambda>_. (Inr NoContent, st')))"

definition key_in_project :: "string \<Rightarrow> string \<Rightarrow> bool" where
  "key_in_project prj key = (let parts = split_on (CHR '':'') key in length parts = 2 \<and> parts ! 0 = prj)"

definition rest_list_topics :: "'s backend \<Rightarrow> string \<Rightarrow> 's pubsub \<Rightarrow> (rest_topic list, 's) rest" where
  "rest_list_topics b prj st =
     or_return (map_err (rest_internal ''Failed to list topics: '') (be_list_queues b None (storage st))) st
      (\<lambda>configs.
       (Inr (map rest_queue_config_to_topic
          (filter (\<lambda>c. key_in_project prj (qc_id c)) (filter (\<lambda>c. qc_type c = PubSubTopic) configs))), st))"

definition rest_publish_failure :: "subscription_config \<Rightarrow> error \<Rightarrow> error_response" where
  "rest_publish_failure sub e =
     rest_internal (''Failed to publish messages to subscription '' @ sub_id sub @ '': '') e"

text \<open>
  The loops of the handler, which has its own copy of what the gRPC method does: the copies sent to the
  queue of each subscription, and the push tasks, whose clock readings go on from one subscription to
  the next.
\<close>

fun rest_fan_out ::
    "'s backend \<Rightarrow> envs \<Rightarrow> message list \<Rightarrow> subscription_config list \<Rightarrow> string list \<Rightarrow> 's pubsub \<Rightarrow>
     (string list, 's) rest" where
  "rest_fan_out b es messages [] message_ids st = (Inr message_ids, st)"
| "rest_fan_out b es messages (sub # subs) message_ids st =
     (let sub_messages = map (\<lambda>m. m\<lparr>msg_queue_id := sub_id sub\<rparr>) messages in
      case on_storage (be_send_messages b (es 0) (sub_id sub) sub_messages (storage st)) st of
        (r, st') \<Rightarrow>
          or_return (map_err (rest_publish_failure sub) r) st' (\<lambda>published.
            let message_ids' = (if message_ids = [] then map msg_id published else message_ids) in
            rest_fan_out b (\<lambda>n. es (Suc n)) messages subs message_ids' st'))"

fun rest_enqueue_messages ::
    "env \<Rightarrow> subscription_config \<Rightarrow> message list \<Rightarrow> delivery_queue \<Rightarrow> env \<times> delivery_queue" where
  "rest_enqueue_messages e sub [] queue = (e, queue)"
| "rest_enqueue_messages e sub (m # ms) queue =
     (let task = \<lparr> dt_message = m, dt_subscription = sub, attempt = 0, scheduled_time = now e 0 \<rparr> in
      rest_enqueue_messages (env_from 1 e) sub ms (enqueue task queue))"

fun rest_enqueue_subscriptions ::
    "env \<Rightarrow> subscription_config list \<Rightarrow> message list \<Rightarrow> delivery_queue \<Rightarrow> delivery_queue" where
  "rest_enqueue_subscriptions e [] messages queue = queue"
| "rest_enqueue_subscriptions e (sub # subs) messages queue =
     (if push_config sub \<noteq> None then
        (case rest_enqueue_messages e sub messages queue of
           (e', queue') \<Rightarrow> rest_enqueue_subscriptions e' subs messages queue')
      else rest_enqueue_subscriptions e subs messages queue)"

definition rest_publish ::
    "ext \<Rightarrow> 's backend \<Rightarrow> envs \<Rightarrow> string \<Rightarrow> string \<Rightarrow> rest_message list \<Rightarrow> 's pubsub \<Rightarrow> (string list, 's) rest" where
  "rest_publish x b es prj tname msgs st =
     (let topic_id = rest_key prj tname in
      or_return (map_err (rest_missing ''Topic'' (rest_path prj tname))
        (be_get_queue b topic_id (storage st))) st (\<lambda>_.
      let messages = rest_convert_messages x (es 0) topic_id msgs in
      or_return (map_err (rest_internal ''Failed to list subscriptions: '')
        (be_list_subscriptions b (storage st))) st (\<lambda>all_subscriptions.
      let subs = filter (\<lambda>c. sub_topic_id c = topic_id) all_subscriptions in
      if subs = [] then (Inr (map msg_id messages), st)
      else
       (case rest_fan_out b (\<lambda>n. es (n + 2)) messages subs [] st of
          (r, st') \<Rightarrow>
            or_return r st' (\<lambda>message_ids.
              (Inr message_ids,
               (case delivery_queue st' of
                  None \<Rightarrow> st'
                | Some queue \<Rightarrow>
                    st'\<lparr>delivery_queue := Some (rest_enqueue_subscriptions (es 1) subs messages queue)\<rparr>)))))))"

section \<open>Subscriptions\<close>

definition rest_create_subscription ::
    "'s backend \<Rightarrow> envs \<Rightarrow> string \<Rightarrow> string \<Rightarrow> rest_subscription \<Rightarrow> 's pubsub \<Rightarrow> (rest_subscription, 's) rest" where
  "rest_create_subscription b es prj sname payload0 st =
     or_return (map_err (rest_bad_request ''Invalid subscription ID: '') (validate_subscription_id sname)) st (\<lambda>_.
     let payload = (if rs_name payload0 = None then payload0\<lparr>rs_name := Some (format_subscription prj sname)\<rparr>
                    else payload0) in
     case rest_topic_key (rs_topic payload) of
       None \<Rightarrow> (Inl (Failed (error_response_new BadRequest (''Invalid topic name: '' @ rs_topic payload))), st)
     | Some topic_id \<Rightarrow>
         or_return (map_err (rest_missing ''Topic'' (rs_topic payload)) (be_get_queue b topic_id (storage st))) st
          (\<lambda>_.
         or_return (map_err (rest_bad_request ''Invalid subscription: '')
            (rest_subscription_to_config payload prj sname)) st (\<lambda>config.
           case on_storage (be_create_queue b (es 1) (subscription_queue_config config) (storage st)) st of
             (r, st1) \<Rightarrow>
               or_return (map_err (rest_internal ''Failed to create subscription queue: '') r) st1 (\<lambda>_.
                 case on_storage (be_create_subscription b (es 2) config (storage st1)) st1 of
                   (r2, st2) \<Rightarrow>
                     or_return (map_err (rest_internal ''Failed to create subscription: '') r2) st2
                       (\<lambda>created. (Inr (rest_config_to_subscription created), st2))))))"

definition rest_with_subscription ::
    "'s backend \<Rightarrow> string \<Rightarrow> string \<Rightarrow> 's pubsub \<Rightarrow> (subscription_config \<Rightarrow> ('a, 's) rest) \<Rightarrow> ('a, 's) rest" where
  "rest_with_subscription b prj sname st k =
     or_return (map_err (rest_missing ''Subscription'' (rest_path prj sname))
        (be_get_subscription b (rest_key prj sname) (storage st))) st k"

definition rest_get_subscription ::
    "'s backend \<Rightarrow> string \<Rightarrow> string \<Rightarrow> 's pubsub \<Rightarrow> (rest_subscription, 's) rest" where
  "rest_get_subscription b prj sname st =
     rest_with_subscription b prj sname st (\<lambda>c. (Inr (rest_config_to_subscription c), st))"

text \<open>Unlike the gRPC method this one leaves the queue of the subscription in place.\<close>

definition rest_delete_subscription :: "'s backend \<Rightarrow> string \<Rightarrow> string \<Rightarrow> 's pubsub \<Rightarrow> (http_status, 's) rest" where
  "rest_delete_subscription b prj sname st =
     (case on_storage (be_delete_subscription b (rest_key prj sname) (storage st)) st of
        (r, st') \<Rightarrow>
          or_return (map_err (rest_missing ''Subscription'' (rest_path prj sname)) r) st'
            (\<lambda>_. (Inr NoContent, st')))"

definition rest_list_subscriptions :: "'s backend \<Rightarrow> string \<Rightarrow> 's pubsub \<Rightarrow> (rest_subscription list, 's) rest" where
  "rest_list_subscriptions b prj st =
     or_return (map_err (rest_internal ''Failed to list subscriptions: '')
        (be_list_subscriptions b (storage st))) st (\<lambda>configs.
       (Inr (map rest_config_to_subscription (filter (\<lambda>c. key_in_project prj (sub_id c)) configs)), st))"

definition rest_received :: "ext \<Rightarrow> ext_push \<Rightarrow> received_message \<Rightarrow> rest_received_message" where
  "rest_received x p rm =
     \<lparr> rr_ack_id = receipt_handle rm, rr_message = message_to_rest_message x p (rm_message rm),
       rr_delivery_attempt = Some (receive_count (rm_message rm)) \<rparr>"

definition rest_pull ::
    "ext \<Rightarrow> ext_push \<Rightarrow> 's backend \<Rightarrow> envs \<Rightarrow> string \<Rightarrow> string \<Rightarrow> rest_pull_request \<Rightarrow> 's pubsub \<Rightarrow>
     (rest_received_message list option, 's) rest" where
  "rest_pull x p b es prj sname payload st =
     rest_with_subscription b prj sname st (\<lambda>c.
       case on_storage (be_receive_messages b (es 1) (rest_key prj sname)
              (pull_options (pl_max_messages payload) (ack_deadline_seconds c)) (storage st)) st of
         (r, st') \<Rightarrow>
           or_return (map_err (rest_internal ''Failed to pull messages: '') r) st' (\<lambda>messages.
             let received = map (rest_received x p) messages in
             (Inr (if received = [] then None else Some received), st')))"

text \<open>The loops of the two handlers stop at the first error.\<close>

fun rest_acknowledge_loop :: "'s backend \<Rightarrow> string \<Rightarrow> string list \<Rightarrow> 's pubsub \<Rightarrow> (unit, 's) rest" where
  "rest_acknowledge_loop b sid [] st = (Inr (), st)"
| "rest_acknowledge_loop b sid (ack_id # ack_ids) st =
     (case on_storage (be_delete_message b sid ack_id (storage st)) st of
        (r, st') \<Rightarrow>
          or_return (map_err (rest_internal ''Failed to acknowledge message: '') r) st'
            (\<lambda>_. rest_acknowledge_loop b sid ack_ids st'))"

fun rest_visibility_loop ::
    "'s backend \<Rightarrow> envs \<Rightarrow> string \<Rightarrow> u32 \<Rightarrow> string list \<Rightarrow> 's pubsub \<Rightarrow> (unit, 's) rest" where
  "rest_visibility_loop b es sid deadline [] st = (Inr (), st)"
| "rest_visibility_loop b es sid deadline (ack_id # ack_ids) st =
     (case on_storage (be_change_visibility b (es 0) sid ack_id deadline (storage st)) st of
        (r, st') \<Rightarrow>
          or_return (map_err (rest_internal ''Failed to modify ack deadline: '') r) st'
            (\<lambda>_. rest_visibility_loop b (\<lambda>n. es (Suc n)) sid deadline ack_ids st'))"

definition rest_acknowledge ::
    "'s backend \<Rightarrow> string \<Rightarrow> string \<Rightarrow> string list \<Rightarrow> 's pubsub \<Rightarrow> (http_status, 's) rest" where
  "rest_acknowledge b prj sname ack_ids st =
     rest_with_subscription b prj sname st (\<lambda>c.
       case rest_acknowledge_loop b (rest_key prj sname) ack_ids st of
         (r, st') \<Rightarrow> or_return r st' (\<lambda>_. (Inr OK, st')))"

definition rest_modify_ack_deadline ::
    "'s backend \<Rightarrow> envs \<Rightarrow> string \<Rightarrow> string \<Rightarrow> rest_modify_request \<Rightarrow> 's pubsub \<Rightarrow> (http_status, 's) rest" where
  "rest_modify_ack_deadline b es prj sname payload st =
     rest_with_subscription b prj sname st (\<lambda>c.
       case rest_visibility_loop b (\<lambda>n. es (Suc n)) (rest_key prj sname) (mo_ack_deadline_seconds payload) (mo_ack_ids payload) st of
         (r, st') \<Rightarrow> or_return r st' (\<lambda>_. (Inr OK, st')))"

section \<open>Custom methods\<close>

text \<open>\<open>str::rsplit_once\<close> at a character.\<close>

definition rsplit_once :: "char \<Rightarrow> string \<Rightarrow> (string \<times> string) option" where
  "rsplit_once d s = map_option (\<lambda>(a, b). (rev b, rev a)) (split_once d (rev s))"

definition with_body :: "string + 'a \<Rightarrow> 's pubsub \<Rightarrow> ('a \<Rightarrow> ('b, 's) rest) \<Rightarrow> ('b, 's) rest" where
  "with_body r st k =
     (case r of
        Inl e \<Rightarrow> (Inl (Failed (error_response_new BadRequest (''Invalid request: '' @ e))), st)
      | Inr v \<Rightarrow> k v)"

definition handle_topic_action ::
    "ext \<Rightarrow> ext_rest \<Rightarrow> 's backend \<Rightarrow> envs \<Rightarrow> string \<Rightarrow> string \<Rightarrow> json \<Rightarrow> 's pubsub \<Rightarrow> (json, 's) rest" where
  "handle_topic_action x d b es prj topic_action payload st =
     (case rsplit_once (CHR '':'') topic_action of
        None \<Rightarrow>
          (Inl (Failed (error_response_new BadRequest ''Invalid topic action format (expected topic:action)'')), st)
      | Some (tname, action) \<Rightarrow>
          (if action = ''publish'' then
             with_body (de_publish_request d payload) st (\<lambda>msgs.
               case rest_publish x b es prj tname msgs st of
                 (r, st') \<Rightarrow> or_return r st' (\<lambda>ids.
                   case ser_publish_response d ids of
                     Inl e \<Rightarrow>
                       (Inl (Failed (error_response_new InternalServerError
                          (''Failed to serialize response: '' @ e))), st')
                   | Inr v \<Rightarrow> (Inr v, st')))
           else
             (Inl (Failed (error_response_new HttpNotFound (''Unknown topic action: '' @ action))), st)))"

datatype action_response = Pulled "rest_received_message list option" | EmptyJson http_status

definition handle_subscription_action ::
    "ext \<Rightarrow> ext_push \<Rightarrow> ext_rest \<Rightarrow> 's backend \<Rightarrow> envs \<Rightarrow> string \<Rightarrow> string \<Rightarrow> json \<Rightarrow> 's pubsub \<Rightarrow>
     (action_response, 's) rest" where
  "handle_subscription_action x p d b es prj subscription_action payload st =
     (case rsplit_once (CHR '':'') subscription_action of
        None \<Rightarrow>
          (Inl (Failed (error_response_new BadRequest
             ''Invalid subscription action format (expected subscription:action)'')), st)
      | Some (sname, action) \<Rightarrow>
          (if action = ''pull'' then
             with_body (de_pull_request d payload) st (\<lambda>req.
               case rest_pull x p b es prj sname req st of
                 (r, st') \<Rightarrow> or_return r st' (\<lambda>v. (Inr (Pulled v), st')))
           else if action = ''acknowledge'' then
             with_body (de_acknowledge_request d payload) st (\<lambda>ack_ids.
               case rest_acknowledge b prj sname ack_ids st of
                 (r, st') \<Rightarrow> or_return r st' (\<lambda>v. (Inr (EmptyJson v), st')))
           else if action = ''modifyAckDeadline'' then
             with_body (de_modify_request d payload) st (\<lambda>req.
               case rest_modify_ack_deadline b es prj sname req st of
                 (r, st') \<Rightarrow> or_return r st' (\<lambda>v. (Inr (EmptyJson v), st')))
           else
             (Inl (Failed (error_response_new HttpNotFound (''Unknown subscription action: '' @ action))), st)))"

end
