(* ===== verification/Pubsub_Contract.thy ===== *)
theory Pubsub_Contract
  imports Pubsub_Rest Memory_Contract
begin

text \<open>
  What the Pub/Sub services rely on in a storage backend: the queue table of \<open>queue_store\<close> and the
  table of subscriptions beside it.  The facts about creating and deleting subscriptions are proved
  once for any backend that keeps this contract; the in-memory backend is interpreted at the end.
\<close>

text \<open>
  A backend may restrict the names of new subscriptions (\<open>sub_name_free\<close>), require the topic to exist
  and delete the subscriptions of a deleted topic (\<open>cascades\<close>).
\<close>

locale pubsub_store = queue_store b inv lookup name_free size_ok reread
  for b :: "'s backend" and inv :: "'s \<Rightarrow> bool" and lookup :: "'s \<Rightarrow> string \<Rightarrow> queue_config option"
    and name_free :: "'s \<Rightarrow> string \<Rightarrow> bool" and size_ok :: "nat \<Rightarrow> bool"
    and reread :: "queue_config \<Rightarrow> queue_config" +
  fixes sub_lookup :: "'s \<Rightarrow> string \<Rightarrow> subscription_config option"
    and sub_name_free :: "'s \<Rightarrow> string \<Rightarrow> bool" and cascades :: bool
  assumes get_sub: "be_get_subscription b k s =
      (case sub_lookup s k of None \<Rightarrow> Inl (SubscriptionNotFound k) | Some c \<Rightarrow> Inr c)"
    and create_sub_new: "inv s \<Longrightarrow> sub_lookup s (sub_id c) = None \<Longrightarrow> lookup s (sub_topic_id c) \<noteq> None \<Longrightarrow>
      sub_name_free s (sub_name c) \<Longrightarrow>
      \<exists>s'. be_create_subscription b e c s = (Inr c, s') \<and> inv s' \<and> lookup s' = lookup s \<and>
        sub_lookup s' = (sub_lookup s)(sub_id c \<mapsto> c)"
    and delete_sub_old: "inv s \<Longrightarrow> sub_lookup s k \<noteq> None \<Longrightarrow>
      \<exists>s'. be_delete_subscription b k s = (Inr (), s') \<and> inv s' \<and> lookup s' = lookup s \<and>
        sub_lookup s' = (sub_lookup s)(k := None)"
    and create_queue_subs: "sub_lookup (snd (be_create_queue b e qc s)) = sub_lookup s \<and>
      sub_name_free (snd (be_create_queue b e qc s)) = sub_name_free s"
    and delete_queue_subs: "inv s \<Longrightarrow>
      cascades \<longrightarrow> (\<forall>j c. sub_lookup s j = Some c \<longrightarrow> sub_topic_id c \<noteq> k) \<Longrightarrow>
      sub_lookup (snd (be_delete_queue b k s)) = sub_lookup s"

text \<open>A create request that passes the checks, with the configuration it stands for.\<close>

definition subscription_request :: "subscription \<Rightarrow> string \<Rightarrow> subscription_config \<Rightarrow> bool" where
  "subscription_request sb topic_id c \<longleftrightarrow>
     (\<exists>r tr. parse_resource_name (sb_name sb) = Inr r \<and> validate_subscription_id (resource_id r) = Inr () \<and>
        parse_resource_name (sb_topic sb) = Inr tr \<and> resource_key tr = topic_id) \<and>
     subscription_to_config sb = Inr c"

lemma subscription_request_key:
  "subscription_request sb topic_id c \<Longrightarrow> parse_resource_name (sb_name sb) = Inr r \<Longrightarrow> sub_id c = resource_key r"
  by (auto simp: subscription_request_def subscription_to_config_def split: sum.splits)

lemma subscription_request_name: "subscription_request sb topic_id c \<Longrightarrow> sub_name c = sb_name sb"
  by (auto simp: subscription_request_def subscription_to_config_def split: sum.splits)

definition rest_subscription_request ::
    "string \<Rightarrow> string \<Rightarrow> rest_subscription \<Rightarrow> string \<Rightarrow> subscription_config \<Rightarrow> bool" where
  "rest_subscription_request prj sname sb topic_id c \<longleftrightarrow>
     validate_subscription_id sname = Inr () \<and> rest_topic_key (rs_topic sb) = Some topic_id \<and>
     rest_subscription_to_config sb prj sname = Inr c"

lemma rest_subscription_request_key: "rest_subscription_request prj sname sb topic_id c \<Longrightarrow> sub_id c = rest_key prj sname"
  by (auto simp: rest_subscription_request_def rest_subscription_to_config_def)

lemma rest_config_name_irrelevant [simp]:
  "rest_subscription_to_config (sb\<lparr>rs_name := n\<rparr>) prj sname = rest_subscription_to_config sb prj sname"
  by (simp add: rest_subscription_to_config_def split: option.split)

lemma on_storage_pair: "on_storage (r, s) st = (r, st\<lparr>storage := s\<rparr>)"
  by (simp add: on_storage_def)

context pubsub_store begin

text \<open>The two backend calls of a create, on a free identifier.\<close>

lemma create_both:
  assumes "inv s" and "lookup s (sub_id c) = None" and "sub_lookup s (sub_id c) = None"
    and "lookup s (sub_topic_id c) \<noteq> None" and "name_free s (sub_name c)" and "sub_name_free s (sub_name c)"
  shows "\<exists>s1 s2. be_create_queue b e (subscription_queue_config c) s = (Inr (subscription_queue_config c), s1) \<and>
    be_create_subscription b e' c s1 = (Inr c, s2) \<and> inv s2 \<and>
    lookup s2 = (lookup s)(sub_id c \<mapsto> subscription_queue_config c) \<and>
    sub_lookup s2 = (sub_lookup s)(sub_id c \<mapsto> c)"
proof -
  have qid: "qc_id (subscription_queue_config c) = sub_id c" "qc_name (subscription_queue_config c) = sub_name c"
    "max_message_size (subscription_queue_config c) = 10485760" "tags (subscription_queue_config c) = []"
    by (simp_all add: subscription_queue_config_def ten_megabytes_def)
  obtain s1 where s1: "be_create_queue b e (subscription_queue_config c) s = (Inr (subscription_queue_config c), s1)"
    "inv s1" "lookup s1 = (lookup s)(sub_id c \<mapsto> subscription_queue_config c)"
    using create_untagged [of s "subscription_queue_config c" e] assms(1,2,5) size_small [of 10485760] unfolding qid by auto
  have "sub_lookup s1 = sub_lookup s" "sub_name_free s1 = sub_name_free s"
    using create_queue_subs [of e "subscription_queue_config c" s] s1(1) by simp_all
  then show ?thesis
    using create_sub_new [OF s1(2), of c e'] assms(3,4,6) s1 by auto
qed

lemma grpc_create_subscription:
  assumes "inv (storage st)" and req: "subscription_request sb topic_id c"
    and "lookup (storage st) topic_id \<noteq> None"
    and "lookup (storage st) (sub_id c) = None" and "sub_lookup (storage st) (sub_id c) = None"
    and "name_free (storage st) (sub_name c)" and "sub_name_free (storage st) (sub_name c)"
  shows "\<exists>s'. create_subscription_grpc b es sb st = (Inr (config_to_subscription c), st\<lparr>storage := s'\<rparr>) \<and> inv s' \<and>
    lookup s' = (lookup (storage st))(sub_id c \<mapsto> subscription_queue_config c) \<and>
    sub_lookup s' = (sub_lookup (storage st))(sub_id c \<mapsto> c)"
proof -
  have topic: "sub_topic_id c = topic_id"
    using req by (auto simp: subscription_request_def subscription_to_config_def split: sum.splits)
  obtain s1 s2 where calls:
    "be_create_queue b (es 1) (subscription_queue_config c) (storage st) = (Inr (subscription_queue_config c), s1)"
    "be_create_subscription b (es 2) c s1 = (Inr c, s2)" and rest: "inv s2"
    "lookup s2 = (lookup (storage st))(sub_id c \<mapsto> subscription_queue_config c)"
    "sub_lookup s2 = (sub_lookup (storage st))(sub_id c \<mapsto> c)"
    using create_both [OF assms(1,4,5), of "es 1" "es 2"] assms(3,6,7) topic by blast
  have "create_subscription_grpc b es sb st = (Inr (config_to_subscription c), st\<lparr>storage := s2\<rparr>)"
    using req assms(3) calls
    by (auto simp: subscription_request_def create_subscription_grpc_def with_subscription_name_def
        with_topic_name_def get_queue [OF assms(1)] on_storage_pair)
  with rest show ?thesis by blast
qed

lemma grpc_delete_subscription:
  assumes "inv (storage st)" and "parse_resource_name name = Inr r"
    and "lookup (storage st) (resource_key r) \<noteq> None" and "sub_lookup (storage st) (resource_key r) \<noteq> None"
    and "cascades \<longrightarrow> (\<forall>j c. sub_lookup (storage st) j = Some c \<longrightarrow> sub_topic_id c \<noteq> resource_key r)"
  shows "\<exists>s'. delete_subscription_grpc b name st = (Inr (), st\<lparr>storage := s'\<rparr>) \<and> inv s' \<and>
    lookup s' = (lookup (storage st))(resource_key r := None) \<and>
    sub_lookup s' = (sub_lookup (storage st))(resource_key r := None)"
proof -
  obtain s1 where s1: "be_delete_queue b (resource_key r) (storage st) = (Inr (), s1)" "inv s1"
    "lookup s1 = (lookup (storage st))(resource_key r := None)"
    using delete_old [OF assms(1,3)] by blast
  then have "sub_lookup s1 = sub_lookup (storage st)"
    using delete_queue_subs [OF assms(1,5)] by simp
  then obtain s2 where "be_delete_subscription b (resource_key r) s1 = (Inr (), s2)" "inv s2"
    "lookup s2 = lookup s1" "sub_lookup s2 = (sub_lookup (storage st))(resource_key r := None)"
    using delete_sub_old [OF s1(2)] assms(4) by metis
  with s1 assms(2) show ?thesis
    by (auto simp: delete_subscription_grpc_def with_subscription_name_def on_storage_pair)
qed

lemma rest_create:
  assumes "inv (storage st)" and req: "rest_subscription_request prj sname sb topic_id c"
    and "lookup (storage st) topic_id \<noteq> None"
    and "lookup (storage st) (sub_id c) = None" and "sub_lookup (storage st) (sub_id c) = None"
    and "name_free (storage st) (sub_name c)" and "sub_name_free (storage st) (sub_name c)"
  shows "\<exists>s'. rest_create_subscription b es prj sname sb st =
      (Inr (rest_config_to_subscription c), st\<lparr>storage := s'\<rparr>) \<and> inv s' \<and>
    lookup s' = (lookup (storage st))(sub_id c \<mapsto> subscription_queue_config c) \<and>
    sub_lookup s' = (sub_lookup (storage st))(sub_id c \<mapsto> c)"
proof -
  have topic: "sub_topic_id c = topic_id"
    using req by (auto simp: rest_subscription_request_def rest_subscription_to_config_def)
  obtain s1 s2 where calls:
    "be_create_queue b (es 1) (subscription_queue_config c) (storage st) = (Inr (subscription_queue_config c), s1)"
    "be_create_subscription b (es 2) c s1 = (Inr c, s2)" and rest: "inv s2"
    "lookup s2 = (lookup (storage st))(sub_id c \<mapsto> subscription_queue_config c)"
    "sub_lookup s2 = (sub_lookup (storage st))(sub_id c \<mapsto> c)"
    using create_both [OF assms(1,4,5), of "es 1" "es 2"] assms(3,6,7) topic by blast
  have "rest_create_subscription b es prj sname sb st =
      (Inr (rest_config_to_subscription c), st\<lparr>storage := s2\<rparr>)"
    using req assms(3) calls
    by (auto simp: rest_subscription_request_def rest_create_subscription_def Let_def get_queue [OF assms(1)] on_storage_pair)
  with rest show ?thesis by blast
qed

lemma rest_delete:
  assumes "inv (storage st)" and "sub_lookup (storage st) (rest_key prj sname) \<noteq> None"
  shows "\<exists>s'. rest_delete_subscription b prj sname st = (Inr NoContent, st\<lparr>storage := s'\<rparr>) \<and> inv s' \<and>
    lookup s' = lookup (storage st) \<and> sub_lookup s' = (sub_lookup (storage st))(rest_key prj sname := None)"
  using delete_sub_old [OF assms] by (auto simp: rest_delete_subscription_def on_storage_pair)

text \<open>Creating a subscription whose queue exists fails, whatever the table of subscriptions says.\<close>

lemma rest_create_taken:
  assumes "inv (storage st)" and req: "rest_subscription_request prj sname sb topic_id c"
    and "lookup (storage st) topic_id \<noteq> None" and "lookup (storage st) (sub_id c) \<noteq> None"
  shows "rest_create_subscription b es prj sname sb st =
    (Inl (Failed (error_response_new InternalServerError
       (''Failed to create subscription queue: Queue already exists: '' @ sub_id c))), st)"
proof -
  have "be_create_queue b (es 1) (subscription_queue_config c) (storage st) =
      (Inl (QueueAlreadyExists (sub_id c)), storage st)"
    using create_old [of "storage st" "subscription_queue_config c" "es 1"] assms(1,4)
    by (simp add: subscription_queue_config_def)
  then show ?thesis
    using req assms(1,3)
    by (auto simp: rest_subscription_request_def rest_create_subscription_def Let_def get_queue [OF assms(1)] on_storage_pair
        rest_internal_def)
qed

text \<open>A topic is looked up in the same table, so a subscription answers as one.\<close>

lemma get_topic_any:
  assumes "inv (storage st)" and "parse_resource_name name = Inr r"
  shows "get_topic b name st =
    (case lookup (storage st) (resource_key r) of
       None \<Rightarrow> Inl (Failed (not_found (''Topic not found: '' @ name)))
     | Some c \<Rightarrow> Inr (queue_config_to_topic c), st)"
  using assms(2) by (simp add: get_topic_def with_topic_name_def get_queue [OF assms(1)] topic_missing_def split: option.split)

end

section \<open>The in-memory backend\<close>

definition subscription_lookup :: "in_memory \<Rightarrow> string \<Rightarrow> subscription_config option" where
  "subscription_lookup s k = map_of (subscriptions s) k"

interpretation mem_pubsub: pubsub_store "memory_backend x" mem_wf queue_lookup "\<lambda>_ _. True" "\<lambda>_. True" "\<lambda>c. c"
    subscription_lookup "\<lambda>_ _. True" False for x
proof
  fix s :: in_memory and c :: subscription_config and e :: env
  assume "mem_wf s" and "subscription_lookup s (sub_id c) = None"
  then show "\<exists>s'. be_create_subscription (memory_backend x) e c s = (Inr c, s') \<and> mem_wf s' \<and>
      queue_lookup s' = queue_lookup s \<and> subscription_lookup s' = (subscription_lookup s)(sub_id c \<mapsto> c)"
    using create_subscription_wf [of s c]
    by (auto simp: memory_backend_def create_subscription_def subscription_lookup_def queue_lookup_def fun_eq_iff
        AList.update_conv')
next
  fix s :: in_memory and k :: string
  assume "mem_wf s" and "subscription_lookup s k \<noteq> None"
  then show "\<exists>s'. be_delete_subscription (memory_backend x) k s = (Inr (), s') \<and> mem_wf s' \<and>
      queue_lookup s' = queue_lookup s \<and> subscription_lookup s' = (subscription_lookup s)(k := None)"
    using delete_subscription_wf [of s k]
    by (auto simp: memory_backend_def delete_subscription_def subscription_lookup_def queue_lookup_def fun_eq_iff
        AList.delete_conv' split: option.split)
qed (auto simp: memory_backend_def get_subscription_def subscription_lookup_def create_queue_def delete_queue_def
    split: option.splits)

end
