(* ===== verification/Pubsub_Fanout.thy ===== *)
theory Pubsub_Fanout
  imports Pubsub_Contract
begin

text \<open>
  Publishing over the in-memory backend: the fan-out to the queues of the subscriptions, the push
  tasks, and the agreement of the gRPC and REST front ends.
\<close>

section \<open>Sending a batch to a standard queue\<close>

definition stored_messages :: "queue_data \<Rightarrow> message list" where
  "stored_messages q = map sm_message (available_messages q)"

definition stored_in :: "in_memory \<Rightarrow> string \<Rightarrow> message list" where
  "stored_in s k = (case map_of (queues s) k of None \<Rightarrow> [] | Some q \<Rightarrow> stored_messages q)"

lemma send_locked_standard:
  assumes "qc_type (qd_config q) \<noteq> SqsFifo"
  shows "\<exists>q'. send_message_locked x e q m = (Inr m, q') \<and> qd_config q' = qd_config q \<and>
    in_flight_messages q' = in_flight_messages q \<and> stored_messages q' = stored_messages q @ [m]"
  using assms by (simp add: send_message_locked_def store_message_def stored_messages_def Let_def)

lemma send_loop_standard:
  assumes "qc_type (qd_config q) \<noteq> SqsFifo"
  shows "\<exists>q'. send_loop x e q ms sent = (Inr (sent @ ms), q') \<and> qd_config q' = qd_config q \<and>
    in_flight_messages q' = in_flight_messages q \<and> stored_messages q' = stored_messages q @ ms"
  using assms
proof (induction ms arbitrary: q e sent)
  case (Cons m ms)
  obtain q1 where q1: "send_message_locked x e q m = (Inr m, q1)" "qd_config q1 = qd_config q"
    "in_flight_messages q1 = in_flight_messages q" "stored_messages q1 = stored_messages q @ [m]"
    using send_locked_standard [OF Cons.prems] by blast
  then show ?case using Cons.IH [of q1 "env_from 5 e" "sent @ [m]"] Cons.prems by auto
qed simp

lemma queue_count_stored:
  "queue_message_count q = length (stored_messages q) + length (in_flight_messages q)"
  by (simp add: queue_message_count_def stored_messages_def)

text \<open>With room in the store, the batch is appended and nothing else changes.\<close>

lemma send_messages_standard:
  assumes "mem_wf s" and q: "map_of (queues s) k = Some q" and "qc_type (qd_config q) \<noteq> SqsFifo"
    and "total_message_count s < max_messages (mem_config s)"
  shows "\<exists>s'. send_messages x e k ms s = (Inr ms, s') \<and> mem_wf s' \<and> mem_config s' = mem_config s \<and>
    subscriptions s' = subscriptions s \<and> queue_lookup s' = queue_lookup s \<and>
    total_message_count s' = total_message_count s + length ms \<and>
    stored_in s' = (stored_in s)(k := stored_in s k @ ms)"
proof -
  obtain q' where q': "send_loop x e q ms [] = (Inr ms, q')" "qd_config q' = qd_config q"
    "in_flight_messages q' = in_flight_messages q" "stored_messages q' = stored_messages q @ ms"
    using send_loop_standard [OF assms(3), of x e ms "[]"] by auto
  have sent: "send_messages x e k ms s = (Inr ms, set_queue k q' s)"
    using assms(4) q q'(1) by (simp add: send_messages_unfold maybe_evict_unfold)
  have "total_message_count (set_queue k q' s) + queue_message_count q = total_message_count s + queue_message_count q'"
    using sum_vals_update [OF mem_wf_distinct [OF assms(1)] q] by (simp add: total_message_count_def set_queue_def)
  then have "total_message_count (set_queue k q' s) = total_message_count s + length ms"
    by (simp add: queue_count_stored q')
  moreover have "mem_wf (set_queue k q' s)"
    using send_messages_wf [OF assms(1), of x e k ms] sent by simp
  moreover have "stored_in (set_queue k q' s) = (stored_in s)(k := stored_in s k @ ms)"
    by (simp add: stored_in_def fun_eq_iff q q'(4))
  ultimately show ?thesis using sent lookup_set_same [OF q q'(2)] by auto
qed

section \<open>The fan-out\<close>

definition queue_of_subscription :: "in_memory \<Rightarrow> subscription_config \<Rightarrow> bool" where
  "queue_of_subscription s c \<longleftrightarrow> (\<exists>qc. queue_lookup s (sub_id c) = Some qc \<and> qc_type qc \<noteq> SqsFifo)"

lemma for_subscription_ids [simp]: "map msg_id (for_subscription sub ms) = map msg_id ms"
  by (simp add: for_subscription_def o_def)

lemma length_for_subscription [simp]: "length (for_subscription sub ms) = length ms"
  by (simp add: for_subscription_def)

text \<open>What a subscription queue gains in a fan-out.\<close>

definition fanned_out :: "message list \<Rightarrow> subscription_config list \<Rightarrow> string \<Rightarrow> message list" where
  "fanned_out messages subs k = concat (map (\<lambda>sub. if sub_id sub = k then for_subscription sub messages else []) subs)"

lemma fan_out_memory:
  assumes "messages \<noteq> []" and "mem_wf (storage st)"
    and "\<forall>sub \<in> set subs. queue_of_subscription (storage st) sub"
    and "total_message_count (storage st) + length messages * length subs \<le> max_messages (mem_config (storage st))"
    and "ids = [] \<or> ids = map msg_id messages"
  shows "\<exists>s'. fan_out (memory_backend x) mk es messages subs ids st =
      (Inr (if subs = [] then ids else map msg_id messages), st\<lparr>storage := s'\<rparr>) \<and>
    mem_wf s' \<and> mem_config s' = mem_config (storage st) \<and> subscriptions s' = subscriptions (storage st) \<and>
    queue_lookup s' = queue_lookup (storage st) \<and>
    stored_in s' = (\<lambda>k. stored_in (storage st) k @ fanned_out messages subs k)"
  using assms(2-)
proof (induction subs arbitrary: st es ids)
  case Nil
  then show ?case by (intro exI [of _ "storage st"]) (simp add: fanned_out_def)
next
  case (Cons sub subs)
  obtain qc where "queue_lookup (storage st) (sub_id sub) = Some qc" "qc_type qc \<noteq> SqsFifo"
    using Cons.prems(2) by (auto simp: queue_of_subscription_def)
  then obtain q where q: "map_of (queues (storage st)) (sub_id sub) = Some q" "qc_type (qd_config q) \<noteq> SqsFifo"
    by (auto simp: queue_lookup_def)
  have room: "total_message_count (storage st) < max_messages (mem_config (storage st))"
    using Cons.prems(3) assms(1) by (cases messages) simp_all
  let ?ms = "for_subscription sub messages"
  obtain s1 where s1: "send_messages x (es 0) (sub_id sub) ?ms (storage st) = (Inr ?ms, s1)" "mem_wf s1"
    "mem_config s1 = mem_config (storage st)" "subscriptions s1 = subscriptions (storage st)"
    "queue_lookup s1 = queue_lookup (storage st)"
    "total_message_count s1 = total_message_count (storage st) + length messages"
    "stored_in s1 = (stored_in (storage st))(sub_id sub := stored_in (storage st) (sub_id sub) @ ?ms)"
    using send_messages_standard [OF Cons.prems(1) q room, of x "es 0" ?ms] by auto
  let ?ids = "if ids = [] then map msg_id messages else ids"
  have "\<exists>s'. fan_out (memory_backend x) mk (\<lambda>n. es (Suc n)) messages subs ?ids (st\<lparr>storage := s1\<rparr>) =
      (Inr (if subs = [] then ?ids else map msg_id messages), (st\<lparr>storage := s1\<rparr>)\<lparr>storage := s'\<rparr>) \<and>
    mem_wf s' \<and> mem_config s' = mem_config s1 \<and> subscriptions s' = subscriptions s1 \<and>
    queue_lookup s' = queue_lookup s1 \<and>
    stored_in s' = (\<lambda>k. stored_in s1 k @ fanned_out messages subs k)"
    using Cons.IH [of "st\<lparr>storage := s1\<rparr>" ?ids "\<lambda>n. es (Suc n)"] Cons.prems(2,3,4) s1
    by (auto simp: queue_of_subscription_def)
  then obtain s' where s': "fan_out (memory_backend x) mk (\<lambda>n. es (Suc n)) messages subs ?ids (st\<lparr>storage := s1\<rparr>) =
      (Inr (if subs = [] then ?ids else map msg_id messages), st\<lparr>storage := s'\<rparr>)"
    "mem_wf s'" "mem_config s' = mem_config s1" "subscriptions s' = subscriptions s1"
    "queue_lookup s' = queue_lookup s1" "stored_in s' = (\<lambda>k. stored_in s1 k @ fanned_out messages subs k)"
    by auto
  have "fan_out (memory_backend x) mk es messages (sub # subs) ids st =
      fan_out (memory_backend x) mk (\<lambda>n. es (Suc n)) messages subs ?ids (st\<lparr>storage := s1\<rparr>)"
    using s1(1) by (simp add: memory_backend_def on_storage_pair del: map_map)
  moreover have "stored_in s' = (\<lambda>k. stored_in (storage st) k @ fanned_out messages (sub # subs) k)"
    by (simp add: s'(6) s1(7) fanned_out_def fun_eq_iff)
  ultimately show ?case using s' s1 Cons.prems(4) by auto
qed

lemma queued_enqueue_pairs:
  "image_mset (\<lambda>t. (dt_subscription t, dt_message t)) (queued (enqueue_pairs e ps q)) =
     image_mset (\<lambda>t. (dt_subscription t, dt_message t)) (queued q) + mset ps"
  by (induction ps arbitrary: e q) auto

lemma convert_messages_length [simp]: "length (convert_messages x e k ms) = length ms"
  by (induction ms arbitrary: e) simp_all

text \<open>The subscriptions of a topic have distinct identifiers, so each queue gets one copy.\<close>

lemma fanned_out_once:
  assumes "distinct (map sub_id subs)" and "sub \<in> set subs"
  shows "fanned_out messages subs (sub_id sub) = for_subscription sub messages"
  using assms
proof (induction subs)
  case (Cons a subs)
  have rest: "fanned_out messages subs k = []" if "k \<notin> sub_id ` set subs" for k
    using that by (auto simp: fanned_out_def)
  show ?case
  proof (cases "sub = a")
    case True
    have "sub_id a \<notin> sub_id ` set subs" using Cons.prems(1) by simp
    then show ?thesis using rest True by (simp add: fanned_out_def)
  next
    case False
    then have "sub \<in> set subs" "sub_id a \<noteq> sub_id sub" using Cons.prems by auto
    then show ?thesis using Cons by (simp add: fanned_out_def)
  qed
qed simp

end
