(* ===== verification/Pubsub_Claims.thy ===== *)
theory Pubsub_Claims
  imports Pubsub_Fanout Memory_Samples
begin

text \<open>
  The properties of the Pub/Sub services: fan-out, agreement of the two front ends, round trips of
  subscriptions and messages, and what the shared table of queues lets a client observe.
\<close>

section \<open>A sample store\<close>

definition sample_topic_config :: queue_config where
  "sample_topic_config = topic_queue_config ''proj:jobs'' ''projects/proj/topics/jobs'' seven_days []"

definition sample_subscription :: subscription_config where
  "sample_subscription =
     \<lparr> sub_id = ''proj:work'', sub_name = ''projects/proj/subscriptions/work'', sub_topic_id = ''proj:jobs'',
       ack_deadline_seconds = 10, message_retention_duration = seven_days, enable_message_ordering = False,
       sub_filter = None, dead_letter_policy = None,
       push_config = Some \<lparr> endpoint = ''http://h'', retry_policy = None, timeout_seconds = None \<rparr> \<rparr>"

definition empty_queue :: "queue_config \<Rightarrow> queue_data" where
  "empty_queue c =
     \<lparr> qd_config = c, available_messages = [], in_flight_messages = [], deduplication_cache = [],
       next_sequence_number = 0, last_access = 0 \<rparr>"

definition sample_store :: in_memory where
  "sample_store =
     \<lparr> queues = [(''proj:jobs'', empty_queue sample_topic_config),
                 (''proj:work'', empty_queue (subscription_queue_config sample_subscription))],
       subscriptions = [(''proj:work'', sample_subscription)],
       mem_config = default_in_memory_config \<rparr>"

definition sample_pubsub :: "in_memory pubsub" where
  "sample_pubsub = \<lparr> storage = sample_store, delivery_queue = Some new_delivery_queue \<rparr>"

definition sample_pubsub_message :: pubsub_message where
  "sample_pubsub_message =
     \<lparr> pm_data = ''hi'', pm_attributes = [(''k'', ''v'')], pm_message_id = [], pm_publish_time = None,
       pm_ordering_key = [] \<rparr>"

lemmas sample_store_defs = sample_pubsub_def sample_store_def sample_topic_config_def sample_subscription_def
  empty_queue_def subscription_queue_config_def topic_queue_config_def default_in_memory_config_def

lemma sample_store_wf: "mem_wf (storage sample_pubsub)"
  by (simp add: mem_wf_def queue_wf_def sample_store_defs)

lemma sample_store_total: "total_message_count sample_store = 0"
  by (simp add: total_message_count_def queue_message_count_def sample_store_defs)

lemma sample_topic_name: "parse_resource_name ''projects/proj/topics/jobs'' = Inr (ResTopic ''proj'' ''jobs'')"
  by code_simp

lemma sample_subscription_name:
  "parse_resource_name ''projects/proj/subscriptions/work'' = Inr (ResSubscription ''proj'' ''work'')"
  by code_simp

lemma memory_backend_sel [simp]:
  "be_get_queue (memory_backend x) = get_queue"
  "be_list_queues (memory_backend x) = list_queues"
  "be_list_subscriptions (memory_backend x) = list_subscriptions"
  "be_send_message (memory_backend x) = send_message x"
  "be_send_messages (memory_backend x) = send_messages x"
  "be_receive_messages (memory_backend x) = receive_messages x"
  "be_delete_message (memory_backend x) = delete_message x"
  by (simp_all add: memory_backend_def)

section \<open>Fan-out\<close>

definition pushed :: "delivery_queue option \<Rightarrow> (subscription_config \<times> message) multiset" where
  "pushed dq =
     (case dq of None \<Rightarrow> {#} | Some q \<Rightarrow> image_mset (\<lambda>t. (dt_subscription t, dt_message t)) (queued q))"

text \<open>A publish with room in the store is its fan-out followed by the push tasks.\<close>

lemma publish_memory:
  assumes "mem_wf (storage st)" and "parse_resource_name name = Inr r"
    and "queue_lookup (storage st) (resource_key r) \<noteq> None" and "msgs \<noteq> []"
    and subs: "subs = topic_subscriptions (resource_key r) (map snd (subscriptions (storage st)))"
    and "\<forall>sub \<in> set subs. queue_of_subscription (storage st) sub"
    and room: "total_message_count (storage st) + length msgs * length subs \<le> max_messages (mem_config (storage st))"
    and messages: "messages = convert_messages x (es 0) (resource_key r) msgs"
  shows "\<exists>s'. publish x (memory_backend x) es name msgs st =
      (Inr (map msg_id messages), enqueue_push_subscriptions (es 1) subs messages (st\<lparr>storage := s'\<rparr>)) \<and>
    fan_out (memory_backend x) publish_failure (\<lambda>n. es (Suc (Suc n))) messages subs [] st =
      (Inr (if subs = [] then [] else map msg_id messages), st\<lparr>storage := s'\<rparr>) \<and>
    mem_wf s' \<and> subscriptions s' = subscriptions (storage st) \<and> queue_lookup s' = queue_lookup (storage st) \<and>
    stored_in s' = (\<lambda>k. stored_in (storage st) k @ fanned_out messages subs k)"
proof -
  have ne: "messages \<noteq> []" and len: "length messages = length msgs"
    using assms(4) by (auto simp: messages dest: arg_cong [of _ _ length])
  obtain s' where s': "fan_out (memory_backend x) publish_failure (\<lambda>n. es (Suc (Suc n))) messages subs [] st =
      (Inr (if subs = [] then [] else map msg_id messages), st\<lparr>storage := s'\<rparr>)" "mem_wf s'"
    "subscriptions s' = subscriptions (storage st)" "queue_lookup s' = queue_lookup (storage st)"
    "stored_in s' = (\<lambda>k. stored_in (storage st) k @ fanned_out messages subs k)"
    using fan_out_memory [OF ne assms(1,6), of "[]" x publish_failure "\<lambda>n. es (Suc (Suc n))"] room len by auto
  have head: "publish x (memory_backend x) es name msgs st =
      publish_messages (memory_backend x) publish_failure (\<lambda>n. es (Suc n)) messages subs st"
    using assms(2,3) by (auto simp: publish_def with_topic_name_def queue_lookup_def get_queue_def messages subs
        list_subscriptions_def Let_def)
  have "storage st = s' \<and> enqueue_push_subscriptions (es 1) subs messages st = st" if "subs = []"
    using s'(1) that by (cases st; cases "delivery_queue st") (simp_all add: enqueue_push_subscriptions_def push_pairs_def)
  then show ?thesis using head s' by (intro exI [of _ s']) (cases "subs = []"; auto simp: publish_messages_def)
qed

lemma subscriber_ids_distinct:
  "mem_wf s \<Longrightarrow> distinct (map sub_id (topic_subscriptions k (map snd (subscriptions s))))"
proof -
  assume wf: "mem_wf s"
  have "map sub_id (map snd (subscriptions s)) = map fst (subscriptions s)"
    using wf by (auto simp: mem_wf_def list_all_iff)
  then have "distinct (map sub_id (map snd (subscriptions s)))" using wf by (simp only: mem_wf_def)
  then show ?thesis unfolding topic_subscriptions_def by (rule distinct_map_filter)
qed

text \<open>
  C31. A publish with room in the store: the reply lists the identifiers of the messages in order, the
  queue of every subscription of the topic gains its own copy of every message in order, no other
  queue changes, and with push delivery on there is one new push task for each message and push
  subscription.
\<close>

theorem publish_fanout:
  assumes "mem_wf (storage st)" and "parse_resource_name name = Inr r"
    and "queue_lookup (storage st) (resource_key r) \<noteq> None" and "msgs \<noteq> []"
    and subs: "subs = topic_subscriptions (resource_key r) (map snd (subscriptions (storage st)))"
    and "\<forall>sub \<in> set subs. queue_of_subscription (storage st) sub"
    and room: "total_message_count (storage st) + length msgs * length subs \<le> max_messages (mem_config (storage st))"
    and messages: "messages = convert_messages x (es 0) (resource_key r) msgs"
  shows "\<exists>s' dq. publish x (memory_backend x) es name msgs st =
      (Inr (map msg_id messages), st\<lparr>storage := s', delivery_queue := dq\<rparr>) \<and>
    (\<forall>sub \<in> set subs. stored_in s' (sub_id sub) =
       stored_in (storage st) (sub_id sub) @ for_subscription sub messages) \<and>
    (\<forall>k. k \<in> sub_id ` set subs \<or> stored_in s' k = stored_in (storage st) k) \<and>
    (dq = None \<longleftrightarrow> delivery_queue st = None) \<and>
    (dq = None \<or> pushed dq = pushed (delivery_queue st) + mset (push_pairs subs messages))"
proof -
  obtain s' where s': "publish x (memory_backend x) es name msgs st =
      (Inr (map msg_id messages), enqueue_push_subscriptions (es 1) subs messages (st\<lparr>storage := s'\<rparr>))"
    "stored_in s' = (\<lambda>k. stored_in (storage st) k @ fanned_out messages subs k)"
    using publish_memory [where es = es, OF assms] by blast
  let ?dq = "map_option (enqueue_pairs (es 1) (push_pairs subs messages)) (delivery_queue st)"
  have "distinct (map sub_id subs)" using subscriber_ids_distinct [OF assms(1)] by (simp add: subs)
  then have "\<forall>sub \<in> set subs. stored_in s' (sub_id sub) =
      stored_in (storage st) (sub_id sub) @ for_subscription sub messages"
    using fanned_out_once by (simp add: s'(2))
  moreover have "fanned_out messages subs k = []" if "k \<notin> sub_id ` set subs" for k
    using that by (auto simp: fanned_out_def)
  moreover have "?dq = None \<or> pushed ?dq = pushed (delivery_queue st) + mset (push_pairs subs messages)"
    by (cases "delivery_queue st") (simp_all add: pushed_def queued_enqueue_pairs)
  ultimately show ?thesis using s'
    by (intro exI [of _ s'] exI [of _ ?dq]) (auto simp: enqueue_push_subscriptions_def)
qed

theorem publish_fanout_witness:
  "\<exists>s' dq. publish sample_ext (memory_backend sample_ext) (\<lambda>n. sample_env 3) ''projects/proj/topics/jobs''
      [sample_pubsub_message] sample_pubsub = (Inr [''0''], sample_pubsub\<lparr>storage := s', delivery_queue := dq\<rparr>) \<and>
    map body (stored_in s' ''proj:work'') = [letters ''hi''] \<and> stored_in s' ''proj:jobs'' = [] \<and> size (pushed dq) = 1"
proof -
  let ?m = "convert_messages sample_ext (sample_env 3) ''proj:jobs'' [sample_pubsub_message]"
  have subs: "topic_subscriptions ''proj:jobs'' (map snd (subscriptions (storage sample_pubsub))) = [sample_subscription]"
    by (simp add: topic_subscriptions_def sample_store_defs)
  have look: "queue_lookup (storage sample_pubsub) ''proj:jobs'' \<noteq> None"
    "queue_of_subscription (storage sample_pubsub) sample_subscription"
    by (simp_all add: queue_of_subscription_def queue_lookup_def sample_store_defs)
  have id0: "map msg_id ?m = [''0'']"
    by (simp add: pubsub_message_to_message_def published_message_def) (code_simp)
  have body: "map body ?m = [letters ''hi'']"
    by (simp add: pubsub_message_to_message_def published_message_def sample_pubsub_message_def sample_ext_def)
  have none: "stored_in (storage sample_pubsub) k = []" for k
    by (simp add: stored_in_def stored_messages_def sample_store_defs)
  have key: "resource_key (ResTopic ''proj'' ''jobs'') = ''proj:jobs''" by (simp add: resource_key_def)
  have "\<exists>s' dq. publish sample_ext (memory_backend sample_ext) (\<lambda>n. sample_env 3) ''projects/proj/topics/jobs''
      [sample_pubsub_message] sample_pubsub = (Inr (map msg_id ?m), sample_pubsub\<lparr>storage := s', delivery_queue := dq\<rparr>) \<and>
    (\<forall>sub \<in> set [sample_subscription]. stored_in s' (sub_id sub) =
       stored_in (storage sample_pubsub) (sub_id sub) @ for_subscription sub ?m) \<and>
    (\<forall>k. k \<in> sub_id ` set [sample_subscription] \<or> stored_in s' k = stored_in (storage sample_pubsub) k) \<and>
    (dq = None \<longleftrightarrow> delivery_queue sample_pubsub = None) \<and>
    (dq = None \<or> pushed dq = pushed (delivery_queue sample_pubsub) + mset (push_pairs [sample_subscription] ?m))"
    by (rule publish_fanout [OF sample_store_wf sample_topic_name])
      (use look in \<open>simp_all add: key subs sample_store_total [folded sample_store_def]\<close>,
       simp_all add: sample_pubsub_def sample_store_total, simp add: sample_store_defs)
  then obtain s' dq where r: "publish sample_ext (memory_backend sample_ext) (\<lambda>n. sample_env 3)
      ''projects/proj/topics/jobs'' [sample_pubsub_message] sample_pubsub =
      (Inr (map msg_id ?m), sample_pubsub\<lparr>storage := s', delivery_queue := dq\<rparr>)"
    and fan: "\<forall>sub \<in> set [sample_subscription]. stored_in s' (sub_id sub) =
       stored_in (storage sample_pubsub) (sub_id sub) @ for_subscription sub ?m"
    and others: "\<forall>k. k \<in> sub_id ` set [sample_subscription] \<or> stored_in s' k = stored_in (storage sample_pubsub) k"
    and some: "dq = None \<longleftrightarrow> delivery_queue sample_pubsub = None"
    and push: "dq = None \<or> pushed dq = pushed (delivery_queue sample_pubsub) + mset (push_pairs [sample_subscription] ?m)"
    by (elim exE conjE) (rule that)
  have s': "stored_in s' (sub_id sample_subscription) = for_subscription sample_subscription ?m"
    using fan none by simp
  have s'': "\<forall>k. k = sub_id sample_subscription \<or> stored_in s' k = []" using others none by simp
  have dq: "pushed dq = pushed (delivery_queue sample_pubsub) + mset (push_pairs [sample_subscription] ?m)"
    using push some by (auto simp: sample_pubsub_def)
  have sid: "sub_id sample_subscription = ''proj:work''" by (simp add: sample_subscription_def)
  have "stored_in s' ''proj:work'' = for_subscription sample_subscription ?m" using s' by (simp only: sid)
  moreover have "stored_in s' ''proj:jobs'' = []" using s'' [rule_format, of "''proj:jobs''"] by (simp add: sid)
  moreover have "map body (for_subscription sample_subscription ?m) = [letters ''hi'']"
    using body by (simp add: for_subscription_def)
  moreover have "size (pushed dq) = 1"
    unfolding dq by (simp add: pushed_def push_pairs_def sample_pubsub_def sample_subscription_def)
  moreover note r [unfolded id0]
  ultimately show ?thesis by (intro exI [of _ s'] exI [of _ dq] conjI) simp_all
qed

section \<open>Agreement of the two front ends\<close>

text \<open>The message of gRPC that a message of REST stands for: absent fields have their defaults.\<close>

definition grpc_of :: "rest_message \<Rightarrow> pubsub_message" where
  "grpc_of m =
     \<lparr> pm_data = rm_data m, pm_attributes = (case rm_attributes m of None \<Rightarrow> [] | Some a \<Rightarrow> a),
       pm_message_id = (case rm_message_id m of None \<Rightarrow> [] | Some i \<Rightarrow> i), pm_publish_time = None,
       pm_ordering_key = (case rm_ordering_key m of None \<Rightarrow> [] | Some k \<Rightarrow> k) \<rparr>"

lemma rest_convert_grpc_of:
  "\<forall>m \<in> set ms. rm_ordering_key m \<noteq> Some [] \<Longrightarrow>
     rest_convert_messages x e topic_id ms = convert_messages x e topic_id (map grpc_of ms)"
  by (induction ms arbitrary: e)
    (auto simp: rest_message_to_message_def pubsub_message_to_message_def published_message_def grpc_of_def
      split: option.split)

text \<open>An ordering key that is present and empty is kept by REST and dropped by gRPC.\<close>

lemma rest_empty_ordering_key:
  assumes "rm_ordering_key m = Some []"
  shows "message_group_id (rest_message_to_message x t i k m) = Some [] \<and>
    message_group_id (pubsub_message_to_message x t i k (grpc_of m)) = None"
  using assms by (simp add: rest_message_to_message_def pubsub_message_to_message_def published_message_def grpc_of_def
      Let_def)

text \<open>Replies that differ in the text of an error only.\<close>

definition agree :: "('e, 'a, 's) service_reply \<Rightarrow> ('f, 'a, 's) service_reply \<Rightarrow> bool" where
  "agree r r' \<longleftrightarrow> snd r = snd r' \<and> (\<forall>v. fst r = Inr v \<longleftrightarrow> fst r' = Inr v)"

lemma agree_simps [simp]:
  "agree (Inr v, s) (Inr v', s') \<longleftrightarrow> v = v' \<and> s = s'"
  "agree (Inl e, s) (Inl e', s') \<longleftrightarrow> s = s'"
  "\<not> agree (Inl e, s) (Inr v', s')" "\<not> agree (Inr v, s) (Inl e', s')"
  by (auto simp: agree_def)

lemma agree_or_return:
  assumes "\<And>v. agree (k v) (k' v)"
  shows "agree (or_return (map_err f r) s k) (or_return (map_err g r) s k')"
proof (cases r)
  case (Inl e)
  then show ?thesis by (cases e) simp_all
qed (simp add: assms)

lemma agree_or_return_same:
  assumes "agree (r, s) (r', s)" and "\<And>v. agree (k v) (k' v)"
  shows "agree (or_return r s k) (or_return r' s k')"
  using assms by (cases r; cases r') auto

lemma agree_fan_out:
  "agree (fan_out b mk es messages subs ids st) (fan_out b mk' es messages subs ids st)"
proof (induction subs arbitrary: es ids st)
  case (Cons sub subs)
  then show ?case by (auto intro!: agree_or_return split: prod.split)
qed simp

lemma rest_fan_out_eq: "rest_fan_out b es messages subs ids st = fan_out b rest_publish_failure es messages subs ids st"
proof (induction subs arbitrary: es ids st)
  case (Cons sub subs)
  have "map (\<lambda>m. m\<lparr>msg_queue_id := sub_id sub\<rparr>) messages = for_subscription sub messages"
    by (simp add: for_subscription_def)
  then show ?case by (simp add: Cons.IH Let_def)
qed simp

lemma env_from_zero [simp]: "env_from 0 e = e"
  by (simp add: env_from_def)

lemma rest_enqueue_messages_eq:
  "rest_enqueue_messages e sub ms q = (env_from (length ms) e, enqueue_pairs e (map (Pair sub) ms) q)"
  by (induction ms arbitrary: e q) (simp_all add: Let_def)

lemma enqueue_pairs_append:
  "enqueue_pairs e (ps @ ps') q = enqueue_pairs (env_from (length ps) e) ps' (enqueue_pairs e ps q)"
  by (induction ps arbitrary: e q) auto

lemma rest_enqueue_subscriptions_eq:
  "rest_enqueue_subscriptions e subs messages q = enqueue_pairs e (push_pairs subs messages) q"
  by (induction subs arbitrary: e q)
    (simp_all add: push_pairs_def rest_enqueue_messages_eq enqueue_pairs_append)

text \<open>
  C34. The two front ends publish alike: over any backend, publishing messages to a topic through REST
  and publishing the messages they stand for through gRPC lead to the same storage and the same push
  queue, and one succeeds, with the same identifiers, exactly when the other does.  Left out are
  messages with an ordering key that is present but empty, which the two store differently.
\<close>

theorem rest_publish_agrees:
  assumes "CHR ''/'' \<notin> set prj" and "CHR ''/'' \<notin> set tname" and "\<forall>m \<in> set msgs. rm_ordering_key m \<noteq> Some []"
  shows "agree (rest_publish x b es prj tname msgs st) (publish x b es (format_topic prj tname) (map grpc_of msgs) st)"
proof -
  have "parse_resource_name (format_topic prj tname) = Inr (ResTopic prj tname)"
    using parse_resource_to_string [of "ResTopic prj tname"] assms by (simp add: slash_free_def format_topic_def)
  moreover have "resource_key (ResTopic prj tname) = rest_key prj tname" by (simp add: resource_key_def rest_key_def)
  moreover have "agree
      (case rest_fan_out b (\<lambda>n. es (n + 2)) messages subs [] st of (r, st') \<Rightarrow>
         or_return r st' (\<lambda>ids. (Inr ids, case delivery_queue st' of None \<Rightarrow> st'
           | Some q \<Rightarrow> st'\<lparr>delivery_queue := Some (rest_enqueue_subscriptions (es 1) subs messages q)\<rparr>)))
      (case fan_out b publish_failure (\<lambda>n. es (Suc (Suc n))) messages subs [] st of (r, st') \<Rightarrow>
         or_return r st' (\<lambda>ids. (Inr ids, enqueue_push_subscriptions (es (Suc 0)) subs messages st')))" for messages subs
  proof -
    obtain r st1 where f: "fan_out b rest_publish_failure (\<lambda>n. es (Suc (Suc n))) messages subs [] st = (r, st1)" by fastforce
    obtain r' st2 where f': "fan_out b publish_failure (\<lambda>n. es (Suc (Suc n))) messages subs [] st = (r', st2)" by fastforce
    have same: "agree (r, st1) (r', st2)"
      using agree_fan_out [of b rest_publish_failure "\<lambda>n. es (Suc (Suc n))" messages subs "[]" st publish_failure]
      by (simp add: f f')
    then have "st2 = st1" by (simp add: agree_def)
    moreover have "(case delivery_queue st1 of None \<Rightarrow> st1
        | Some q \<Rightarrow> st1\<lparr>delivery_queue := Some (rest_enqueue_subscriptions (es 1) subs messages q)\<rparr>) =
      enqueue_push_subscriptions (es (Suc 0)) subs messages st1"
      by (cases "delivery_queue st1") (simp_all add: enqueue_push_subscriptions_def rest_enqueue_subscriptions_eq)
    ultimately show ?thesis using same f f'
      by (auto simp: rest_fan_out_eq intro!: agree_or_return_same)
  qed
  ultimately show ?thesis
    using assms(3)
    by (auto simp: rest_publish_def publish_def publish_messages_def with_topic_name_def Let_def rest_convert_grpc_of
        topic_subscriptions_def intro!: agree_or_return)
qed

definition sample_rest_message :: rest_message where
  "sample_rest_message =
     \<lparr> rm_data = ''hi'', rm_attributes = Some [(''k'', ''v'')], rm_message_id = None, rm_publish_time = None,
       rm_ordering_key = Some ''o'' \<rparr>"

theorem rest_publish_agrees_witness:
  "agree (rest_publish sample_ext (memory_backend sample_ext) (\<lambda>n. sample_env 3) ''proj'' ''jobs''
       [sample_rest_message] sample_pubsub)
     (publish sample_ext (memory_backend sample_ext) (\<lambda>n. sample_env 3) ''projects/proj/topics/jobs''
       [grpc_of sample_rest_message] sample_pubsub)"
  using rest_publish_agrees [of "''proj''" "''jobs''" "[sample_rest_message]" sample_ext "memory_backend sample_ext"
      "\<lambda>n. sample_env 3" sample_pubsub]
  by (simp add: format_topic_def sample_rest_message_def)

section \<open>Round trips\<close>

lemma seconds_of_duration_of [simp]: "seconds_of (duration_of n) = n"
  by (simp add: seconds_of_def duration_of_def ucast_down_ucast_id is_down)

text \<open>Neither half of the identifier contains a colon.\<close>

definition colon_free :: "resource_name \<Rightarrow> bool" where
  "colon_free r \<longleftrightarrow> CHR '':'' \<notin> set (resource_project r) \<and> CHR '':'' \<notin> set (resource_id r)"

lemma split_resource_key:
  "colon_free r \<Longrightarrow> split_on (CHR '':'') (resource_key r) = [resource_project r, resource_id r]"
  by (simp add: colon_free_def resource_key_def split_on_append split_on_no_sep)

text \<open>
  What the service returns for a subscription describes the stored one: converting the returned
  message gives the same configuration again, with the identifiers of the subscription and its topic,
  the acknowledgement deadline, the filter, the ordering flag, the retention, the dead letter policy,
  and the endpoint and back-off of a push subscription.  No identifier or project may contain a
  colon; a project such as \<open>example.com:shop\<close> would break it.
\<close>

lemma subscription_roundtrip:
  assumes "subscription_to_config sb = Inr c"
    and "parse_resource_name (sb_name sb) = Inr r" and "colon_free r"
    and "parse_resource_name (sb_topic sb) = Inr tr" and "colon_free tr"
  shows "subscription_to_config (config_to_subscription c) = Inr c"
proof -
  have c: "sub_id c = resource_key r" "sub_topic_id c = resource_key tr" "sub_name c = sb_name sb"
    "sub_filter c \<noteq> Some []"
    "\<And>pc. push_config c = Some pc \<Longrightarrow> timeout_seconds pc = Some 30 \<and>
       (\<forall>rp. retry_policy pc = Some rp \<longrightarrow> max_attempts rp = 5)"
    using assms(1,2,4) by (auto simp: subscription_to_config_def push_conf_of_def split: if_splits)
  have "topic_name_of c = resource_to_string (ResTopic (resource_project tr) (resource_id tr))"
    using assms(3,5) c(1,2) by (simp add: topic_name_of_def split_resource_key Let_def)
  moreover have "slash_free (ResTopic (resource_project tr) (resource_id tr))"
    using parse_resource_name_Inr [OF assms(4)] by (simp add: slash_free_def)
  ultimately have topic: "parse_resource_name (topic_name_of c) = Inr (ResTopic (resource_project tr) (resource_id tr))"
    by (simp only: parse_resource_to_string)
  have key: "resource_key (ResTopic (resource_project tr) (resource_id tr)) = sub_topic_id c"
    by (simp add: c(2) resource_key_def)
  have push: "map_option (push_conf_of (sb_retry_policy (config_to_subscription c)))
      (sb_push_config (config_to_subscription c)) = push_config c"
    using c(5) by (auto simp: config_to_subscription_def push_conf_of_def map_option_case split: option.split)
  have dlp: "map_option (\<lambda>dlp. \<lparr> dead_letter_topic = pd_dead_letter_topic dlp,
        max_delivery_attempts = pd_max_delivery_attempts dlp \<rparr>) (sb_dead_letter_policy (config_to_subscription c)) =
      dead_letter_policy c"
  proof (cases "dead_letter_policy c")
    case (Some d)
    then show ?thesis by (cases d) (simp add: config_to_subscription_def)
  qed (simp add: config_to_subscription_def)
  have "subscription_to_config (config_to_subscription c) =
    Inr \<lparr> sub_id = sub_id c, sub_name = sub_name c, sub_topic_id = sub_topic_id c,
      ack_deadline_seconds = ack_deadline_seconds c, message_retention_duration = message_retention_duration c,
      enable_message_ordering = enable_message_ordering c, sub_filter = sub_filter c,
      dead_letter_policy = dead_letter_policy c, push_config = push_config c \<rparr>"
    using topic assms(2) c(1,3,4) key push dlp
    by (auto simp: subscription_to_config_def config_to_subscription_def split: option.split)
  then show ?thesis by simp
qed

definition sample_subscription_message :: subscription where
  "sample_subscription_message =
     \<lparr> sb_name = ''projects/proj/subscriptions/work'', sb_topic = ''projects/proj/topics/jobs'',
       sb_push_config = Some \<lparr> pc_push_endpoint = ''http://h'', pc_attributes = [], pc_authentication_method = None \<rparr>,
       sb_ack_deadline_seconds = 20, sb_retain_acked_messages = True, sb_message_retention_duration = None,
       sb_labels = [(''k'', ''v'')], sb_enable_message_ordering = True, sb_expiration_policy = None,
       sb_filter = ''f'',
       sb_dead_letter_policy = Some \<lparr> pd_dead_letter_topic = ''projects/proj/topics/dead'', pd_max_delivery_attempts = 7 \<rparr>,
       sb_retry_policy = None, sb_detached = False, sb_enable_exactly_once_delivery = False,
       sb_topic_message_retention_duration = None, sb_state = 0 \<rparr>"

lemma subscription_roundtrip_sample:
  "\<exists>c. subscription_to_config sample_subscription_message = Inr c \<and>
     subscription_to_config (config_to_subscription c) = Inr c"
proof -
  have names: "sb_name sample_subscription_message = ''projects/proj/subscriptions/work''"
    "sb_topic sample_subscription_message = ''projects/proj/topics/jobs''"
    by (simp_all add: sample_subscription_message_def)
  obtain c where c: "subscription_to_config sample_subscription_message = Inr c"
    using sample_topic_name sample_subscription_name by (simp add: subscription_to_config_def names)
  have "subscription_to_config (config_to_subscription c) = Inr c"
    by (rule subscription_roundtrip [OF c, of "ResSubscription ''proj'' ''work''" "ResTopic ''proj'' ''jobs''"])
      (simp_all add: names sample_topic_name sample_subscription_name colon_free_def)
  with c show ?thesis by blast
qed

text \<open>A list of attributes as the maps of the code hold it.\<close>

lemma fold_update_map:
  "distinct (map fst kvs) \<Longrightarrow> set (map fst kvs) \<inter> set (map fst acc) = {} \<Longrightarrow>
     fold (\<lambda>(k, v). AList.update k (f v)) kvs acc = acc @ map (\<lambda>(k, v). (k, f v)) kvs"
proof (induction kvs arbitrary: acc)
  case (Cons p kvs)
  obtain k v where p: "p = (k, v)" by (cases p)
  have "k \<notin> fst ` set acc" using Cons.prems(2) p by auto
  then have "AList.update k (f v) acc = acc @ [(k, f v)]" by (rule alist_update_new)
  then show ?case using Cons p by auto
qed simp

lemma string_attributes_published:
  assumes "distinct (map fst kvs)"
  shows "string_attributes (map (\<lambda>(k, v). (k, \<lparr> data_type = ''String'', string_value = Some v, binary_value = None \<rparr>)) kvs) = kvs"
    and "all_attributes_as_strings (map (\<lambda>(k, v). (k, \<lparr> data_type = ''String'', string_value = Some v, binary_value = None \<rparr>)) kvs) = kvs"
proof -
  have "fold (\<lambda>(k, v). AList.update k v) kvs [] = kvs"
    using fold_update_map [of kvs "[]" "\<lambda>v. v"] assms by (simp add: case_prod_eta)
  then show "string_attributes (map (\<lambda>(k, v). (k, \<lparr> data_type = ''String'', string_value = Some v, binary_value = None \<rparr>)) kvs) = kvs"
    and "all_attributes_as_strings (map (\<lambda>(k, v). (k, \<lparr> data_type = ''String'', string_value = Some v, binary_value = None \<rparr>)) kvs) = kvs"
    by (simp_all add: string_attributes_def all_attributes_as_strings_def fold_map o_def case_prod_unfold)
qed

text \<open>
  A message survives its way through the store: what a pull, a streaming pull or a REST pull
  returns for a message published through gRPC has the published data, attributes and ordering key,
  and the identifier the publish replied.
\<close>

lemma message_roundtrip:
  assumes "\<And>d. b64_decode x (b64_encode x d) = Some d" and "distinct (map fst (pm_attributes m))"
    and stored: "rm_message rm = (pubsub_message_to_message x clock mid topic_id m)\<lparr>msg_queue_id := k, receive_count := n\<rparr>"
  shows "rc_message (pulled_message x rm) = Some (m\<lparr>pm_message_id := mid, pm_publish_time := Some (timestamp_of clock)\<rparr>) \<and>
    rc_message (streamed_message x rm) = rc_message (pulled_message x rm) \<and>
    rm_data (rr_message (rest_received x p rm)) = pm_data m \<and>
    rm_attributes (rr_message (rest_received x p rm)) = (if pm_attributes m = [] then None else Some (pm_attributes m)) \<and>
    rm_message_id (rr_message (rest_received x p rm)) = Some mid"
proof -
  have attrs: "attributes (rm_message rm) =
      map (\<lambda>(k, v). (k, \<lparr> data_type = ''String'', string_value = Some v, binary_value = None \<rparr>)) (pm_attributes m)"
    using fold_update_map [of "pm_attributes m" "[]"] assms(2)
    by (simp add: stored pubsub_message_to_message_def published_message_def)
  have data: "body (rm_message rm) = b64_encode x (pm_data m)"
    by (simp add: stored pubsub_message_to_message_def published_message_def)
  note strings = string_attributes_published [OF assms(2)]
  show ?thesis
    using assms(1) strings
    by (cases m) (simp add: pulled_message_def streamed_message_def rest_received_def message_to_rest_message_def
        proto_message_def message_data_def attrs data Let_def,
        simp add: stored pubsub_message_to_message_def published_message_def)
qed

end
