(* ===== verification/Pubsub_Lifecycle.thy ===== *)
theory Pubsub_Lifecycle
  imports Pubsub_Claims
begin

text \<open>
  Topics and subscriptions over time, on the in-memory backend: creating, deleting and creating again
  through either front end, what the list of topics shows, and where a dead letter topic leads.
  The facts on creation and deletion come from the interpretation \<open>mem_pubsub\<close> of the contract.
\<close>

text \<open>
  C37. The life of a subscription under gRPC: a create on a free identifier stores its queue and its
  record, a delete removes both, and the same create then succeeds again.
\<close>

theorem grpc_subscription_lifecycle:
  assumes "mem_wf (storage st)" and req: "subscription_request sb topic_id c"
    and name: "parse_resource_name (sb_name sb) = Inr r"
    and topic: "queue_lookup (storage st) topic_id \<noteq> None" "topic_id \<noteq> sub_id c"
    and free: "queue_lookup (storage st) (sub_id c) = None" "subscription_lookup (storage st) (sub_id c) = None"
  shows "\<exists>s1 s2 s3.
    create_subscription_grpc (memory_backend x) es sb st = (Inr (config_to_subscription c), st\<lparr>storage := s1\<rparr>) \<and>
    queue_lookup s1 = (queue_lookup (storage st))(sub_id c \<mapsto> subscription_queue_config c) \<and>
    subscription_lookup s1 = (subscription_lookup (storage st))(sub_id c \<mapsto> c) \<and>
    delete_subscription_grpc (memory_backend x) (sb_name sb) (st\<lparr>storage := s1\<rparr>) = (Inr (), st\<lparr>storage := s2\<rparr>) \<and>
    queue_lookup s2 = queue_lookup (storage st) \<and> subscription_lookup s2 = subscription_lookup (storage st) \<and>
    create_subscription_grpc (memory_backend x) es' sb (st\<lparr>storage := s2\<rparr>) =
      (Inr (config_to_subscription c), st\<lparr>storage := s3\<rparr>)"
proof -
  have key: "sub_id c = resource_key r" by (rule subscription_request_key [OF req name])
  obtain s1 where s1: "create_subscription_grpc (memory_backend x) es sb st =
      (Inr (config_to_subscription c), st\<lparr>storage := s1\<rparr>)" "mem_wf s1"
    "queue_lookup s1 = (queue_lookup (storage st))(sub_id c \<mapsto> subscription_queue_config c)"
    "subscription_lookup s1 = (subscription_lookup (storage st))(sub_id c \<mapsto> c)"
    using mem_pubsub.grpc_create_subscription [OF assms(1) req topic(1) free, of x es] by blast
  obtain s2 where s2: "delete_subscription_grpc (memory_backend x) (sb_name sb) (st\<lparr>storage := s1\<rparr>) =
      (Inr (), st\<lparr>storage := s2\<rparr>)" "mem_wf s2"
    "queue_lookup s2 = (queue_lookup s1)(resource_key r := None)"
    "subscription_lookup s2 = (subscription_lookup s1)(resource_key r := None)"
    using mem_pubsub.grpc_delete_subscription [of "st\<lparr>storage := s1\<rparr>" "sb_name sb" r x] name s1(2)
    by (auto simp: s1(3,4) key)
  have restored: "queue_lookup s2 = queue_lookup (storage st)" "subscription_lookup s2 = subscription_lookup (storage st)"
    using free by (auto simp: s2(3,4) s1(3,4) key fun_eq_iff)
  obtain s3 where "create_subscription_grpc (memory_backend x) es' sb (st\<lparr>storage := s2\<rparr>) =
      (Inr (config_to_subscription c), st\<lparr>storage := s3\<rparr>)"
    using mem_pubsub.grpc_create_subscription [of "st\<lparr>storage := s2\<rparr>" sb topic_id c x es'] s2(2) req topic free
    by (auto simp: restored)
  with s1 s2 restored show ?thesis by blast
qed

text \<open>A second subscription of the sample topic, with the configuration it stands for.\<close>

definition other_subscription :: subscription where
  "other_subscription = sample_subscription_message\<lparr>sb_name := ''projects/proj/subscriptions/more''\<rparr>"

definition other_config :: subscription_config where
  "other_config = (case subscription_to_config other_subscription of Inr c \<Rightarrow> c)"

lemma other_name: "parse_resource_name (sb_name other_subscription) = Inr (ResSubscription ''proj'' ''more'')"
  unfolding other_subscription_def by (simp, code_simp)

lemma other_topic: "parse_resource_name (sb_topic other_subscription) = Inr (ResTopic ''proj'' ''jobs'')"
  using sample_topic_name by (simp add: other_subscription_def sample_subscription_message_def)

lemma other_config: "subscription_to_config other_subscription = Inr other_config"
  using other_name other_topic by (simp add: subscription_to_config_def other_config_def)

lemma other_request: "subscription_request other_subscription ''proj:jobs'' other_config"
proof -
  have "validate_subscription_id ''more'' = Inr ()" by code_simp
  then show ?thesis
    using other_name other_topic other_config
    by (auto simp: subscription_request_def resource_key_def intro!: exI [of _ "ResSubscription ''proj'' ''more''"])
qed

lemma other_key: "sub_id other_config = ''proj:more''"
  using subscription_request_key [OF other_request other_name] by (simp add: resource_key_def)

lemma sample_store_lookups:
  "queue_lookup (storage sample_pubsub) ''proj:jobs'' \<noteq> None"
  "queue_lookup (storage sample_pubsub) ''proj:more'' = None"
  "subscription_lookup (storage sample_pubsub) ''proj:more'' = None"
  by (simp_all add: queue_lookup_def subscription_lookup_def sample_store_defs)

theorem grpc_subscription_lifecycle_witness:
  "\<exists>s1 s2. create_subscription_grpc (memory_backend sample_ext) (\<lambda>n. sample_env 3) other_subscription sample_pubsub =
      (Inr (config_to_subscription other_config), sample_pubsub\<lparr>storage := s1\<rparr>) \<and>
    delete_subscription_grpc (memory_backend sample_ext) (sb_name other_subscription) (sample_pubsub\<lparr>storage := s1\<rparr>) =
      (Inr (), sample_pubsub\<lparr>storage := s2\<rparr>) \<and> queue_lookup s2 ''proj:more'' = None"
proof -
  have "''proj:jobs'' \<noteq> sub_id other_config" by (simp add: other_key)
  from grpc_subscription_lifecycle [OF sample_store_wf other_request other_name sample_store_lookups(1) this,
      unfolded other_key, OF sample_store_lookups(2,3), of sample_ext "\<lambda>n. sample_env 3" "\<lambda>n. sample_env 3"]
  show ?thesis using sample_store_lookups(2) by fastforce
qed

section \<open>REST leaves the queue behind\<close>

text \<open>
  The same life under REST does not close: the delete replies success but removes only the record,
  the queue of the subscription stays, and creating the subscription again fails with an internal
  error.
\<close>

theorem rest_delete_blocks_recreate:
  assumes "mem_wf (storage st)" and req: "rest_subscription_request prj sname sb topic_id c"
    and topic: "queue_lookup (storage st) topic_id \<noteq> None"
    and free: "queue_lookup (storage st) (sub_id c) = None" "subscription_lookup (storage st) (sub_id c) = None"
  shows "\<exists>s1 s2.
    rest_create_subscription (memory_backend x) es prj sname sb st =
      (Inr (rest_config_to_subscription c), st\<lparr>storage := s1\<rparr>) \<and>
    rest_delete_subscription (memory_backend x) prj sname (st\<lparr>storage := s1\<rparr>) = (Inr NoContent, st\<lparr>storage := s2\<rparr>) \<and>
    subscription_lookup s2 (sub_id c) = None \<and> queue_lookup s2 (sub_id c) = Some (subscription_queue_config c) \<and>
    rest_create_subscription (memory_backend x) es' prj sname sb (st\<lparr>storage := s2\<rparr>) =
      (Inl (Failed (error_response_new InternalServerError
         (''Failed to create subscription queue: Queue already exists: '' @ sub_id c))), st\<lparr>storage := s2\<rparr>)"
proof -
  have key: "sub_id c = rest_key prj sname" by (rule rest_subscription_request_key [OF req])
  obtain s1 where s1: "rest_create_subscription (memory_backend x) es prj sname sb st =
      (Inr (rest_config_to_subscription c), st\<lparr>storage := s1\<rparr>)" "mem_wf s1"
    "queue_lookup s1 = (queue_lookup (storage st))(sub_id c \<mapsto> subscription_queue_config c)"
    "subscription_lookup s1 = (subscription_lookup (storage st))(sub_id c \<mapsto> c)"
    using mem_pubsub.rest_create [OF assms(1) req topic free, of x es] by blast
  obtain s2 where s2: "rest_delete_subscription (memory_backend x) prj sname (st\<lparr>storage := s1\<rparr>) =
      (Inr NoContent, st\<lparr>storage := s2\<rparr>)" "mem_wf s2" "queue_lookup s2 = queue_lookup s1"
    "subscription_lookup s2 = (subscription_lookup s1)(rest_key prj sname := None)"
    using mem_pubsub.rest_delete [of "st\<lparr>storage := s1\<rparr>" prj sname x] s1(2) by (auto simp: s1(4) key)
  have "rest_create_subscription (memory_backend x) es' prj sname sb (st\<lparr>storage := s2\<rparr>) =
      (Inl (Failed (error_response_new InternalServerError
         (''Failed to create subscription queue: Queue already exists: '' @ sub_id c))), st\<lparr>storage := s2\<rparr>)"
    using mem_pubsub.rest_create_taken [OF _ req, of "st\<lparr>storage := s2\<rparr>" x es'] topic by (simp add: s2(2,3) s1(3))
  with s1 s2 show ?thesis
    by (intro exI [of _ s1] exI [of _ s2]) (simp add: key)
qed

definition sample_rest_subscription :: rest_subscription where
  "sample_rest_subscription =
     \<lparr> rs_name = None, rs_topic = ''projects/proj/topics/jobs'', rs_push_config = None, rs_ack_deadline_seconds = None,
       rs_retain_acked_messages = None, rs_message_retention_duration = None, rs_labels = None,
       rs_enable_message_ordering = None, rs_expiration_policy = None, rs_filter = None, rs_dead_letter_policy = None \<rparr>"

theorem rest_delete_blocks_recreate_witness:
  "\<exists>s2 e. rest_create_subscription (memory_backend sample_ext) (\<lambda>n. sample_env 4) ''proj'' ''more''
      sample_rest_subscription (sample_pubsub\<lparr>storage := s2\<rparr>) = (Inl (Failed e), sample_pubsub\<lparr>storage := s2\<rparr>) \<and>
    er_code e = 500 \<and> subscription_lookup s2 ''proj:more'' = None"
proof -
  obtain c where c: "rest_subscription_to_config sample_rest_subscription ''proj'' ''more'' = Inr c" "sub_id c = ''proj:more''"
    and topic: "rest_topic_key (rs_topic sample_rest_subscription) = Some ''proj:jobs''"
    by (simp add: rest_subscription_to_config_def sample_rest_subscription_def rest_topic_key_def rest_key_def)
  have "validate_subscription_id ''more'' = Inr ()" by code_simp
  with c topic have req: "rest_subscription_request ''proj'' ''more'' sample_rest_subscription ''proj:jobs'' c"
    by (simp add: rest_subscription_request_def)
  from rest_delete_blocks_recreate [OF sample_store_wf req sample_store_lookups(1), unfolded c(2),
      OF sample_store_lookups(2,3), of sample_ext "\<lambda>n. sample_env 3" "\<lambda>n. sample_env 4"]
  show ?thesis by (fastforce simp: error_response_new_def)
qed

section \<open>Topics and the queues of subscriptions\<close>

text \<open>
  Topics and the queues of subscriptions share one table and one type: after a subscription is
  created, the list of topics of its project contains an entry under the name of the subscription,
  and \<open>GetTopic\<close> on that name answers with it.
\<close>

theorem subscription_listed_as_topic:
  assumes "mem_wf (storage st)" and req: "subscription_request sb topic_id c"
    and name: "parse_resource_name (sb_name sb) = Inr r"
    and topic: "queue_lookup (storage st) topic_id \<noteq> None"
    and free: "queue_lookup (storage st) (sub_id c) = None" "subscription_lookup (storage st) (sub_id c) = None"
  shows "\<exists>st1 topics t.
    create_subscription_grpc (memory_backend x) es sb st = (Inr (config_to_subscription c), st1) \<and>
    list_topics (memory_backend x) (''projects/'' @ resource_project r) st1 = (Inr topics, st1) \<and>
    get_topic (memory_backend x) (sb_name sb) st1 = (Inr t, st1) \<and> t \<in> set topics \<and> tp_name t = sb_name sb"
proof -
  have key: "sub_id c = resource_key r" by (rule subscription_request_key [OF req name])
  obtain s1 where s1: "create_subscription_grpc (memory_backend x) es sb st =
      (Inr (config_to_subscription c), st\<lparr>storage := s1\<rparr>)" "mem_wf s1"
    "queue_lookup s1 = (queue_lookup (storage st))(sub_id c \<mapsto> subscription_queue_config c)"
    using mem_pubsub.grpc_create_subscription [OF assms(1) req topic free, of x es] by blast
  let ?q = "subscription_queue_config c"
  have q: "qc_type ?q = PubSubTopic" "qc_name ?q = sb_name sb"
    using subscription_request_name [OF req] by (simp_all add: subscription_queue_config_def)
  have "queue_lookup s1 (sub_id c) = Some ?q" by (simp add: s1(3))
  then have "?q \<in> set (map (\<lambda>(_, q). qd_config q) (queues s1))"
    by (force simp: queue_lookup_def dest: map_of_SomeD)
  moreover have "name_in_project (requested_project (''projects/'' @ resource_project r)) (sb_name sb)"
    using strip_prefix_append [of "''projects/''" "resource_project r"]
    by (simp add: name_in_project_def requested_project_def name)
  ultimately have "\<exists>topics. list_topics (memory_backend x) (''projects/'' @ resource_project r) (st\<lparr>storage := s1\<rparr>) =
      (Inr topics, st\<lparr>storage := s1\<rparr>) \<and> queue_config_to_topic ?q \<in> set topics"
    using q by (simp add: list_topics_def list_queues_def)
  moreover have "get_topic (memory_backend x) (sb_name sb) (st\<lparr>storage := s1\<rparr>) =
      (Inr (queue_config_to_topic ?q), st\<lparr>storage := s1\<rparr>)"
    using mem_pubsub.get_topic_any [OF _ name, of "st\<lparr>storage := s1\<rparr>" x] s1(2,3) by (simp add: key)
  ultimately show ?thesis using s1(1) q by (auto simp: queue_config_to_topic_def)
qed

theorem subscription_listed_as_topic_witness:
  "\<exists>st1 t. get_topic (memory_backend sample_ext) ''projects/proj/subscriptions/more'' st1 = (Inr t, st1) \<and>
     tp_name t = ''projects/proj/subscriptions/more''"
proof -
  have "sb_name other_subscription = ''projects/proj/subscriptions/more''" by (simp add: other_subscription_def)
  with subscription_listed_as_topic [OF sample_store_wf other_request other_name sample_store_lookups(1),
      unfolded other_key, OF sample_store_lookups(2,3), of sample_ext "\<lambda>n. sample_env 3"]
  show ?thesis by auto
qed

section \<open>Where a dead letter topic leads\<close>

text \<open>No identifier of a queue contains a slash; names of resources do.\<close>

definition slash_free_keys :: "in_memory \<Rightarrow> bool" where
  "slash_free_keys s \<longleftrightarrow> (\<forall>k. queue_lookup s k = None \<or> CHR ''/'' \<notin> set k)"

lemma slash_in_name: "parse_resource_name name = Inr r \<Longrightarrow> CHR ''/'' \<in> set name"
  by (cases r) (auto dest: parse_resource_name_Inr)

lemma send_message_missing:
  assumes "mem_wf s" and "queue_lookup s k = None"
  shows "all_ids (snd (send_message x e k m s)) \<subseteq># all_ids s"
  using send_message_states [of x e k m s] maybe_evict_ids [OF assms(1)] maybe_evict_keys [of s k] assms(2)
  by (metis map_option_is_None option.distinct(1) queue_lookup_def)

text \<open>What a successful \<open>CreateTopic\<close> stores.\<close>

lemma create_topic_stores:
  assumes "mem_wf (storage st)" and "create_topic (memory_backend x) es t st = (Inr reply, st1)"
  obtains r c where "parse_resource_name (tp_name t) = Inr r" "mem_wf (storage st1)"
    "queue_lookup (storage st1) = (queue_lookup (storage st))(resource_key r \<mapsto> c)"
proof -
  obtain r where r: "parse_resource_name (tp_name t) = Inr r"
    using assms(2) by (cases "parse_resource_name (tp_name t)")
      (auto simp: create_topic_def with_topic_name_def or_return_def split: sum.splits)
  obtain c where c: "topic_to_queue_config t = Inr c" "qc_id c = resource_key r"
    using r by (simp add: topic_to_queue_config_def topic_queue_config_def)
  have created: "create_topic (memory_backend x) es t st =
      or_return (map_err (\<lambda>e. invalid_argument (''Invalid topic ID: '' @ error_to_string e))
        (validate_topic_id (resource_id r))) st (\<lambda>_.
       case on_storage (be_create_queue (memory_backend x) (es 1) c (storage st)) st of
         (res, st') \<Rightarrow>
           or_return (map_err (\<lambda>e. case e of
                QueueAlreadyExists _ \<Rightarrow> already_exists (''Topic already exists: '' @ tp_name t)
              | _ \<Rightarrow> internal (''Failed to create topic: '' @ error_to_string e)) res) st'
             (\<lambda>created. (Inr (queue_config_to_topic created), st')))"
    by (simp add: create_topic_def with_topic_name_def r c(1))
  show thesis
  proof (cases "queue_lookup (storage st) (qc_id c)")
    case None
    obtain s' where s': "be_create_queue (memory_backend x) (es 1) c (storage st) = (Inr c, s')" "mem_wf s'"
      "queue_lookup s' = (queue_lookup (storage st))(qc_id c \<mapsto> c)"
      using mem.create_new [OF assms(1) None, of x "es 1"] by blast
    have "st1 = st\<lparr>storage := s'\<rparr>"
      using assms(2) unfolding created s'(1) on_storage_pair by (auto simp: or_return_def split: sum.splits)
    with that [OF r, of c] s' c(2) show thesis by simp
  next
    case (Some old)
    then have "be_create_queue (memory_backend x) (es 1) c (storage st) = (Inl (QueueAlreadyExists (qc_id c)), storage st)"
      by (intro mem.create_old [OF assms(1)]) simp
    with assms(2) have False
      unfolding created on_storage_pair by (auto simp: or_return_def on_storage_pair split: sum.splits)
    then show thesis ..
  qed
qed

text \<open>
  A dead letter policy names its topic by its resource name, but topics are stored under
  \<open>project:id\<close>: after the topic is created and whatever the push worker does with a message whose
  attempts are used up, no queue has the name it sends to, so the message is lost; at most an
  eviction happens.
\<close>

theorem dead_letter_topic_unreachable:
  assumes "mem_wf (storage st)" and "slash_free_keys (storage st)"
    and created: "create_topic (memory_backend x) es t st = (Inr reply, st1)"
    and "dead_letter_policy sub = Some d" and "dead_letter_topic d = tp_name t"
  shows "slash_free_keys (storage st1) \<and> queue_lookup (storage st1) (dead_letter_topic d) = None \<and>
    all_ids (handle_max_retries e (memory_backend x) task sub (storage st1)) \<subseteq># all_ids (storage st1)"
proof -
  obtain r c where r: "parse_resource_name (tp_name t) = Inr r" and wf: "mem_wf (storage st1)"
    and look: "queue_lookup (storage st1) = (queue_lookup (storage st))(resource_key r \<mapsto> c)"
    by (rule create_topic_stores [OF assms(1) created])
  have "CHR ''/'' \<notin> set (resource_key r)"
    using parse_resource_name_Inr [OF r] by (auto simp: slash_free_def resource_key_def)
  then have keys: "slash_free_keys (storage st1)"
    using assms(2) by (auto simp: slash_free_keys_def look)
  then have none: "queue_lookup (storage st1) (dead_letter_topic d) = None"
    using slash_in_name [OF r] by (auto simp: slash_free_keys_def assms(5))
  then show ?thesis
    using keys send_message_missing [OF wf none] assms(4) by (simp add: handle_max_retries_def)
qed

definition dead_topic :: topic where
  "dead_topic =
     \<lparr> tp_name = ''projects/proj/topics/dead'', tp_labels = [], tp_message_storage_policy = None, tp_kms_key_name = [],
       tp_schema_settings = None, tp_satisfies_pzs = False, tp_message_retention_duration = None \<rparr>"

theorem dead_letter_topic_unreachable_witness:
  "\<exists>reply st1. create_topic (memory_backend sample_ext) (\<lambda>n. sample_env 3) dead_topic sample_pubsub = (Inr reply, st1) \<and>
     queue_lookup (storage st1) ''projects/proj/topics/dead'' = None \<and>
     all_ids (handle_max_retries (sample_env 4) (memory_backend sample_ext) (sample_task 5)
       (sample_subscription\<lparr>dead_letter_policy := Some \<lparr> dead_letter_topic = ''projects/proj/topics/dead'',
          max_delivery_attempts = 5 \<rparr>\<rparr>) (storage st1)) \<subseteq># all_ids (storage st1)"
proof -
  have name: "parse_resource_name (tp_name dead_topic) = Inr (ResTopic ''proj'' ''dead'')"
    unfolding dead_topic_def by (simp, code_simp)
  have "validate_topic_id ''dead'' = Inr ()" by code_simp
  moreover obtain c where c: "topic_to_queue_config dead_topic = Inr c" "qc_id c = ''proj:dead''"
    using name by (simp add: topic_to_queue_config_def topic_queue_config_def resource_key_def)
  moreover have "queue_lookup (storage sample_pubsub) (qc_id c) = None"
    by (simp add: c(2) queue_lookup_def sample_store_defs)
  then obtain s' where "be_create_queue (memory_backend sample_ext) (sample_env 3) c (storage sample_pubsub) = (Inr c, s')"
    using mem.create_new [OF sample_store_wf, of c sample_ext "sample_env 3"] by blast
  ultimately obtain reply st1 where created:
    "create_topic (memory_backend sample_ext) (\<lambda>n. sample_env 3) dead_topic sample_pubsub = (Inr reply, st1)"
    using name by (simp add: create_topic_def with_topic_name_def on_storage_pair)
  have keys: "slash_free_keys (storage sample_pubsub)"
    by (auto simp: slash_free_keys_def queue_lookup_def sample_store_defs)
  have dead: "tp_name dead_topic = ''projects/proj/topics/dead''" by (simp add: dead_topic_def)
  from dead_letter_topic_unreachable [OF sample_store_wf keys created,
      where d = "\<lparr> dead_letter_topic = ''projects/proj/topics/dead'', max_delivery_attempts = 5 \<rparr>" and
        sub = "sample_subscription\<lparr>dead_letter_policy := Some \<lparr> dead_letter_topic = ''projects/proj/topics/dead'',
          max_delivery_attempts = 5 \<rparr>\<rparr>" and e = "sample_env 4" and task = "sample_task 5"]
  show ?thesis using created dead by simp
qed

end
