(* ===== verification/Pubsub_Delivery.thy ===== *)
theory Pubsub_Delivery
  imports Pubsub_Lifecycle
begin

text \<open>
  Pulling and acknowledging through the subscriber service over the in-memory backend: the
  acknowledgements of a pull remove exactly the pulled messages, and are not idempotent.
\<close>

section \<open>Acknowledging a list of handles\<close>

lemma delete_message_again:
  assumes "receipt_codecs_ok x" and "map_of (queues s) k = Some q"
    and "generate_receipt_handle x n k m = Some h" and "map_of (in_flight_messages q) h = None"
  shows "delete_message x k h s = (Inl InvalidReceiptHandle, s)"
  using generate_parse [OF assms(1,3)] assms(2,4) by (simp add: delete_message_def)

definition message_at :: "queue_data \<Rightarrow> string \<Rightarrow> string" where
  "message_at q h = msg_id (if_message (the (map_of (in_flight_messages q) h)))"

lemma acknowledge_all:
  assumes "receipt_codecs_ok x" and "mem_wf (storage st)" and "handles_sound x (storage st)"
    and "map_of (queues (storage st)) k = Some q" and "distinct hs"
    and "\<forall>h \<in> set hs. map_of (in_flight_messages q) h \<noteq> None"
  shows "\<exists>s2 q2. acknowledge_loop (memory_backend x) mk k hs st = (Inr (), st\<lparr>storage := s2\<rparr>) \<and>
    map_of (queues s2) k = Some q2 \<and>
    dom (map_of (in_flight_messages q2)) = dom (map_of (in_flight_messages q)) - set hs \<and>
    subscriptions s2 = subscriptions (storage st) \<and>
    all_ids (storage st) = all_ids s2 + mset (map (message_at q) hs)"
  using assms(2-)
proof (induction hs arbitrary: st q)
  case Nil
  then show ?case by (intro exI [of _ "storage st"] exI [of _ q]) simp
next
  case (Cons h hs)
  obtain p where p: "map_of (in_flight_messages q) h = Some p" using Cons.prems(5) by auto
  let ?q1 = "q\<lparr>in_flight_messages := AList.delete h (in_flight_messages q)\<rparr>"
  let ?s1 = "set_queue k ?q1 (storage st)"
  have del: "delete_message x k h (storage st) = (Inr (), ?s1)"
    by (rule delete_message_hit [OF assms(1) Cons.prems(2,3) p])
  have wf1: "mem_wf ?s1" and sound1: "handles_sound x ?s1"
    using delete_message_wf [OF Cons.prems(1), of x k h] delete_message_sound [OF Cons.prems(2), of k h] del by simp_all
  have ids1: "all_ids (storage st) = all_ids ?s1 + {# msg_id (if_message p) #}"
    by (rule all_ids_set_queue_sub [OF Cons.prems(1,3) delete_entry_ids [OF mem_wf_in_flight [OF Cons.prems(1,3)] p]])
  have same: "map_of (in_flight_messages ?q1) h' = map_of (in_flight_messages q) h'" if "h' \<in> set hs" for h'
    using that Cons.prems(4) by (auto simp: AList.delete_conv')
  then have present: "\<forall>h' \<in> set hs. map_of (in_flight_messages ?q1) h' \<noteq> None"
    using Cons.prems(5) by simp
  obtain s2 q2 where step: "acknowledge_loop (memory_backend x) mk k hs (st\<lparr>storage := ?s1\<rparr>) = (Inr (), st\<lparr>storage := s2\<rparr>)"
    "map_of (queues s2) k = Some q2" "dom (map_of (in_flight_messages q2)) = dom (map_of (in_flight_messages ?q1)) - set hs"
    "subscriptions s2 = subscriptions (storage st)" "all_ids ?s1 = all_ids s2 + mset (map (message_at ?q1) hs)"
    using Cons.IH [of "st\<lparr>storage := ?s1\<rparr>" ?q1] wf1 sound1 Cons.prems(4) present by auto
  have "map (message_at ?q1) hs = map (message_at q) hs" using same by (simp add: message_at_def)
  then have ids2: "all_ids ?s1 = all_ids s2 + mset (map (message_at q) hs)" using step(5) by (simp only:)
  have "dom (map_of (in_flight_messages ?q1)) = dom (map_of (in_flight_messages q)) - {h}"
    by (auto simp: AList.delete_conv' split: if_splits)
  then have "dom (map_of (in_flight_messages q2)) = dom (map_of (in_flight_messages q)) - set (h # hs)"
    using step(3) by auto
  moreover have "all_ids (storage st) = all_ids s2 + mset (map (message_at q) (h # hs))"
    using ids1 ids2 p by (simp add: message_at_def [of q h])
  moreover have "acknowledge_loop (memory_backend x) mk k (h # hs) st = (Inr (), st\<lparr>storage := s2\<rparr>)"
    using del step(1) by (simp add: on_storage_pair)
  ultimately show ?case using step(2,4) by blast
qed

lemma dlq_loop_subscriptions [simp]: "subscriptions (dlq_loop e t moves s) = subscriptions s"
  by (induction moves arbitrary: e s) (auto split: option.split)

lemma receive_messages_subscriptions: "subscriptions (snd (receive_messages x e k ro s)) = subscriptions s"
  by (auto simp: receive_messages_def Let_def split: option.split prod.split)

lemma received_handles_distinct:
  assumes "receipt_codecs_ok x" and "receipt_secret x \<noteq> None" and "mem_wf s"
    and "map_of (queues s) k = Some q" and "fresh_handles x e k q"
    and "receive_messages x e k ro s = (Inr rs, s1)"
  shows "distinct (map receipt_handle rs)"
proof -
  define live where "live = rev (live_messages (now e 1) ro q)"
  define hs where "hs = receive_handles x e k ro q"
  have len: "length live = length hs" by (simp add: live_def hs_def receive_handles_def)
  have "queue_wf k (queue_after_receive x e k ro q)"
    by (rule queue_after_receive_wf [OF assms(1,2) mem_wf_lookup [OF assms(3,4)] assms(5)])
  then have "distinct (map fst (map2 (flight_of (now e 1) (effective_timeout ro q)) live hs))"
    by (simp add: queue_wf_def queue_after_receive_def live_def hs_def)
  moreover have "map fst (map2 (flight_of (now e 1) (effective_timeout ro q)) live hs) = hs"
    using len by (induction rule: list_induct2) (auto simp: flight_of_def)
  ultimately show ?thesis
    using received_messages(2) [OF assms] by (simp add: hs_def)
qed

text \<open>A receive leases what it returns, each message under its own handle.\<close>

lemma receive_memory:
  assumes "receipt_codecs_ok x" and "receipt_secret x \<noteq> None" and "mem_wf s" and "handles_sound x s"
    and "map_of (queues s) k = Some q" and "fresh_handles x e k q"
  obtains rs s1 q1 where "receive_messages x e k ro s = (Inr rs, s1)"
    and "mem_wf s1" and "handles_sound x s1" and "subscriptions s1 = subscriptions s" and "map_of (queues s1) k = Some q1"
    and "map rm_message rs = live_messages (now e 1) ro q" and "distinct (map receipt_handle rs)"
    and "\<forall>rm \<in> set rs. map_of (in_flight_messages q1) (receipt_handle rm) =
      Some \<lparr> if_message = rm_message rm,
             visibility_expires_at = now e 1 + seconds (int (unat (effective_timeout ro q))) \<rparr>"
proof -
  note base = assms(1-3,5,6)
  obtain rs s1 where rec: "receive_messages x e k ro s = (Inr rs, s1)" using receive_messages_eq [OF base] by blast
  have "map_of (queues s1) k = Some (after_dlq x e k ro q)"
    using lookup_after_receive [OF base, of ro] rec by simp
  moreover have "mem_wf s1" "handles_sound x s1" "subscriptions s1 = subscriptions s"
    using receive_messages_wf [OF assms(3), of x e k ro] receive_messages_sound [OF assms(3,4), of e k ro]
      receive_messages_subscriptions [of x e k ro s] rec by simp_all
  ultimately show thesis
    using rec received_messages(1) [OF base rec] received_handles_distinct [OF base rec] received_in_flight [OF base rec]
    by (intro that) blast+
qed

text \<open>The queue and the subscription a pull works on, and what it leaves behind.\<close>

lemma pull_memory:
  assumes "receipt_codecs_ok x" and "receipt_secret x \<noteq> None"
    and "mem_wf (storage st)" and "handles_sound x (storage st)" and "parse_resource_name name = Inr r"
    and sub: "subscription_lookup (storage st) (resource_key r) = Some c"
    and q: "map_of (queues (storage st)) (resource_key r) = Some q" and fresh: "fresh_handles x (es 1) (resource_key r) q"
  obtains rs s1 q1 where "pull x (memory_backend x) es name n st = (Inr (map (pulled_message x) rs), st\<lparr>storage := s1\<rparr>)"
    and "mem_wf s1" and "handles_sound x s1" and "subscription_lookup s1 (resource_key r) = Some c"
    and "map_of (queues s1) (resource_key r) = Some q1" and "distinct (map receipt_handle rs)"
    and "\<forall>rm \<in> set rs. \<exists>t. map_of (in_flight_messages q1) (receipt_handle rm) =
      Some \<lparr> if_message = rm_message rm, visibility_expires_at = t \<rparr>"
proof (rule receive_memory [where ro = "pull_options n (ack_deadline_seconds c)", OF assms(1-4) q fresh])
  fix rs s1 q1
  assume rec: "receive_messages x (es 1) (resource_key r) (pull_options n (ack_deadline_seconds c)) (storage st) = (Inr rs, s1)"
    and s1: "mem_wf s1" "handles_sound x s1" "subscriptions s1 = subscriptions (storage st)"
      "map_of (queues s1) (resource_key r) = Some q1" "distinct (map receipt_handle rs)"
    and leases: "\<forall>rm \<in> set rs. map_of (in_flight_messages q1) (receipt_handle rm) = Some \<lparr> if_message = rm_message rm,
      visibility_expires_at = now (es 1) 1 +
        seconds (int (unat (effective_timeout (pull_options n (ack_deadline_seconds c)) q))) \<rparr>"
  have "pull x (memory_backend x) es name n st = (Inr (map (pulled_message x) rs), st\<lparr>storage := s1\<rparr>)"
    using rec assms(5) sub mem_pubsub.get_sub [of x "resource_key r" "storage st"]
    by (simp add: pull_def with_subscription_def with_subscription_name_def on_storage_pair)
  moreover have "subscription_lookup s1 (resource_key r) = Some c" using sub s1(3) by (simp add: subscription_lookup_def)
  ultimately show thesis using s1 leases by (intro that) blast+
qed

definition ack_failure :: "error \<Rightarrow> status" where
  "ack_failure e = internal (''Failed to acknowledge message: '' @ error_to_string e)"

lemma acknowledge_memory:
  assumes "parse_resource_name name = Inr r" and "subscription_lookup (storage st) (resource_key r) = Some c"
  shows "acknowledge (memory_backend x) name hs st =
    acknowledge_loop (memory_backend x) ack_failure (resource_key r) hs st"
proof -
  have "ack_failure = (\<lambda>e. internal (''Failed to acknowledge message: '' @ error_to_string e))"
    by (simp add: ack_failure_def fun_eq_iff)
  then show ?thesis
    using assms mem_pubsub.get_sub [of x "resource_key r" "storage st"]
    by (simp add: acknowledge_def with_subscription_def with_subscription_name_def)
qed

lemma acknowledge_gone:
  assumes "receipt_codecs_ok x" and "map_of (queues (storage st)) k = Some q" and "hs \<noteq> []"
    and "generate_receipt_handle x nonce k m = Some (hd hs)" and "map_of (in_flight_messages q) (hd hs) = None"
  shows "acknowledge_loop (memory_backend x) ack_failure k hs st =
    (Inl (Failed (internal ''Failed to acknowledge message: Invalid receipt handle'')), st)"
  using delete_message_again [OF assms(1,2,4,5)] assms(3)
  by (cases hs) (simp_all add: on_storage_pair ack_failure_def)

text \<open>
  C35. Pulling and acknowledging: acknowledging the messages of a pull removes exactly those messages
  from the store and keeps all others, and a second acknowledgement of the same identifiers fails
  with an internal error and changes nothing.
\<close>

theorem pull_then_acknowledge:
  assumes "receipt_codecs_ok x" and "receipt_secret x \<noteq> None"
    and "mem_wf (storage st)" and "handles_sound x (storage st)"
    and name: "parse_resource_name name = Inr r"
    and "subscription_lookup (storage st) (resource_key r) = Some c"
    and "map_of (queues (storage st)) (resource_key r) = Some q" and "fresh_handles x (es 1) (resource_key r) q"
  shows "\<exists>rms st1 st2. pull x (memory_backend x) es name n st = (Inr rms, st1) \<and>
    acknowledge (memory_backend x) name (map rc_ack_id rms) st1 = (Inr (), st2) \<and>
    all_ids (storage st1) =
      all_ids (storage st2) + mset (map (\<lambda>rm. pm_message_id (the (rc_message rm))) rms) \<and>
    (rms = [] \<or> acknowledge (memory_backend x) name (map rc_ack_id rms) st2 =
      (Inl (Failed (internal ''Failed to acknowledge message: Invalid receipt handle'')), st2))"
proof (rule pull_memory [where es = es and n = n, OF assms])
  fix rs :: "received_message list" and s1 q1
  define hs where "hs = map receipt_handle rs"
  assume pulled: "pull x (memory_backend x) es name n st = (Inr (map (pulled_message x) rs), st\<lparr>storage := s1\<rparr>)"
    and s1: "mem_wf s1" "handles_sound x s1" "subscription_lookup s1 (resource_key r) = Some c"
      "map_of (queues s1) (resource_key r) = Some q1" "distinct (map receipt_handle rs)"
    and at: "\<forall>rm \<in> set rs. \<exists>t. map_of (in_flight_messages q1) (receipt_handle rm) =
      Some \<lparr> if_message = rm_message rm, visibility_expires_at = t \<rparr>"
  have ids: "map rc_ack_id (map (pulled_message x) rs) = hs" by (simp add: pulled_message_def o_def hs_def)
  have present: "\<forall>h \<in> set hs. map_of (in_flight_messages q1) h \<noteq> None" using at by (auto simp: hs_def)
  obtain s2 q2 where s2: "acknowledge_loop (memory_backend x) ack_failure (resource_key r) hs (st\<lparr>storage := s1\<rparr>) =
      (Inr (), st\<lparr>storage := s2\<rparr>)" "map_of (queues s2) (resource_key r) = Some q2"
      "dom (map_of (in_flight_messages q2)) = dom (map_of (in_flight_messages q1)) - set hs"
      "subscriptions s2 = subscriptions s1" "all_ids s1 = all_ids s2 + mset (map (message_at q1) hs)"
    using acknowledge_all [OF assms(1), of "st\<lparr>storage := s1\<rparr>" "resource_key r" q1 hs ack_failure] s1 present
    by (auto simp: hs_def)
  have sub2: "subscription_lookup s2 (resource_key r) = Some c" using s1(3) s2(4) by (simp add: subscription_lookup_def)
  have "map (message_at q1) hs = map (\<lambda>rm. pm_message_id (the (rc_message rm))) (map (pulled_message x) rs)"
    using at by (auto simp: hs_def message_at_def pulled_message_def proto_message_def)
  with s2(5) have removed: "all_ids s1 = all_ids s2 +
      mset (map (\<lambda>rm. pm_message_id (the (rc_message rm))) (map (pulled_message x) rs))" by (simp only:)
  have again: "acknowledge_loop (memory_backend x) ack_failure (resource_key r) hs (st\<lparr>storage := s2\<rparr>) =
      (Inl (Failed (internal ''Failed to acknowledge message: Invalid receipt handle'')), st\<lparr>storage := s2\<rparr>)"
    if "hs \<noteq> []"
  proof -
    from that present obtain p where "map_of (in_flight_messages q1) (hd hs) = Some p" by (cases hs) auto
    then obtain m nonce where "generate_receipt_handle x nonce (resource_key r) m = Some (hd hs)"
      using handles_sound_lookup [OF s1(2,4)] by (fastforce simp: queue_sound_def list_all_iff dest: map_of_SomeD)
    moreover have "hd hs \<notin> dom (map_of (in_flight_messages q2))" using that by (simp add: s2(3))
    then have "map_of (in_flight_messages q2) (hd hs) = None" by (simp add: domIff)
    ultimately show ?thesis using acknowledge_gone [OF assms(1), of "st\<lparr>storage := s2\<rparr>"] s2(2) that by simp
  qed
  show ?thesis
    using pulled s2(1) removed again sub2 s1(3)
    by (intro exI [of _ "map (pulled_message x) rs"] exI [of _ "st\<lparr>storage := s1\<rparr>"] exI [of _ "st\<lparr>storage := s2\<rparr>"])
      (simp add: acknowledge_memory [OF name] ids del: map_map, auto simp: hs_def)
qed

definition full_queue :: queue_data where
  "full_queue = (empty_queue (subscription_queue_config sample_subscription))\<lparr>available_messages :=
     [\<lparr> sm_message = sample_message ''a'', visible_at = 0 \<rparr>]\<rparr>"

definition full_pubsub :: "in_memory pubsub" where
  "full_pubsub = sample_pubsub\<lparr>storage := set_queue ''proj:work'' full_queue sample_store\<rparr>"

lemma work_key: "resource_key (ResSubscription ''proj'' ''work'') = ''proj:work''"
  by (simp add: resource_key_def)

lemma full_pubsub_ok:
  shows "mem_wf (storage full_pubsub)" and "handles_sound sample_ext (storage full_pubsub)"
    and "subscription_lookup (storage full_pubsub) ''proj:work'' = Some sample_subscription"
    and "map_of (queues (storage full_pubsub)) ''proj:work'' = Some full_queue"
    and "fresh_handles sample_ext (sample_env n) ''proj:work'' full_queue"
proof -
  have store: "storage full_pubsub = set_queue ''proj:work'' full_queue sample_store" by (simp add: full_pubsub_def)
  show "mem_wf (storage full_pubsub)"
    unfolding store by (rule mem_wf_set_queue)
      (use sample_store_wf in \<open>simp_all add: sample_pubsub_def full_queue_def queue_wf_def empty_queue_def
         subscription_queue_config_def sample_subscription_def\<close>)
  show "handles_sound sample_ext (storage full_pubsub)"
    unfolding store by (rule handles_sound_set_queue)
      (simp_all add: handles_sound_def queue_sound_def sample_store_def full_queue_def empty_queue_def)
  show "subscription_lookup (storage full_pubsub) ''proj:work'' = Some sample_subscription"
    by (simp add: store subscription_lookup_def sample_store_def)
  show "map_of (queues (storage full_pubsub)) ''proj:work'' = Some full_queue" by (simp add: store)
  show "fresh_handles sample_ext (sample_env n) ''proj:work'' full_queue"
    by (simp add: fresh_handles_def full_queue_def empty_queue_def inj_show_nat)
qed

theorem pull_then_acknowledge_witness:
  "\<exists>rms st1 st2. pull sample_ext (memory_backend sample_ext) (\<lambda>n. sample_env 5) ''projects/proj/subscriptions/work'' 10
      full_pubsub = (Inr rms, st1) \<and>
    acknowledge (memory_backend sample_ext) ''projects/proj/subscriptions/work'' (map rc_ack_id rms) st1 = (Inr (), st2)"
  using pull_then_acknowledge [where es = "\<lambda>n. sample_env 5" and n = 10, OF sample_codecs_ok sample_secret_set full_pubsub_ok(1,2) sample_subscription_name
      full_pubsub_ok(3-5) [folded work_key]] by blast

end
