(* ===== verification/Pubsub_Streaming.thy ===== *)
theory Pubsub_Streaming
  imports Pubsub_Delivery
begin

text \<open>
  A streaming pull over the in-memory backend: opening it, its polls, the acknowledgements a client
  sends on it, and its end.
\<close>

section \<open>Acknowledging on the stream\<close>

lemma is_panic_simps [simp]: "\<not> is_panic (Inr v)" "is_panic (Inl (Panic m))" "\<not> is_panic (Inl InvalidReceiptHandle)"
  by (simp_all add: is_panic_def)

lemma parse_receipt_error:
  assumes "receipt_secret x \<noteq> None" and "parse_receipt_handle x h = Inl e"
  shows "e = InvalidReceiptHandle"
  using assms by (auto simp: parse_receipt_handle_def get_secret_key_def Let_def split: option.splits if_splits)

lemma delete_message_absent:
  assumes "receipt_secret x \<noteq> None" and "map_of (queues s) k = Some q" and "map_of (in_flight_messages q) h = None"
  shows "delete_message x k h s = (Inl InvalidReceiptHandle, s)"
  using parse_receipt_error [OF assms(1), of h] assms(2,3)
  by (cases "parse_receipt_handle x h") (simp_all add: delete_message_def)

text \<open>The queue without the leases of the handles \<open>hs\<close>.\<close>

definition acknowledged :: "string list \<Rightarrow> queue_data \<Rightarrow> queue_data" where
  "acknowledged hs q = q\<lparr>in_flight_messages := filter (\<lambda>lease. fst lease \<notin> set hs) (in_flight_messages q)\<rparr>"

lemma acknowledged_Nil [simp]: "acknowledged [] q = q"
  by (simp add: acknowledged_def)

lemma acknowledged_Cons:
  "acknowledged (h # hs) q = acknowledged hs (q\<lparr>in_flight_messages := AList.delete h (in_flight_messages q)\<rparr>)"
  by (auto simp: acknowledged_def AList.delete_eq intro!: queue_data.equality filter_cong)

lemma acknowledged_absent:
  assumes "map_of (in_flight_messages q) h = None"
  shows "acknowledged (h # hs) q = acknowledged hs q"
proof -
  have "fst lease \<noteq> h" if "lease \<in> set (in_flight_messages q)" for lease
    using assms that by (cases lease) (auto simp: map_of_eq_None_iff image_iff)
  then show ?thesis by (force simp: acknowledged_def intro!: queue_data.equality filter_cong)
qed

lemma acknowledged_again [simp]: "acknowledged hs (acknowledged hs q) = acknowledged hs q"
  by (simp add: acknowledged_def)

lemma stream_acks_memory:
  assumes codecs: "receipt_codecs_ok x" "receipt_secret x \<noteq> None"
    and "mem_wf (storage st)" and "handles_sound x (storage st)" and "map_of (queues (storage st)) k = Some q"
  shows "\<exists>s1. stream_acks (memory_backend x) k hs st = (False, st\<lparr>storage := s1\<rparr>) \<and> mem_wf s1 \<and> handles_sound x s1 \<and>
    map_of (queues s1) k = Some (acknowledged hs q) \<and>
    (\<forall>k'. k' \<noteq> k \<longrightarrow> map_of (queues s1) k' = map_of (queues (storage st)) k')"
  using assms(3-)
proof (induction hs arbitrary: st q)
  case Nil
  then show ?case by (intro exI [of _ "storage st"]) simp
next
  case (Cons h hs)
  show ?case
  proof (cases "map_of (in_flight_messages q) h")
    case None
    with Cons.IH [OF Cons.prems] show ?thesis
      by (simp add: delete_message_absent [OF codecs(2) Cons.prems(3) None] on_storage_pair acknowledged_absent)
  next
    case (Some p)
    let ?q1 = "q\<lparr>in_flight_messages := AList.delete h (in_flight_messages q)\<rparr>"
    let ?s1 = "set_queue k ?q1 (storage st)"
    have del: "delete_message x k h (storage st) = (Inr (), ?s1)"
      by (rule delete_message_hit [OF codecs(1) Cons.prems(2,3) Some])
    have "mem_wf ?s1" "handles_sound x ?s1"
      using delete_message_wf [OF Cons.prems(1), of x k h] delete_message_sound [OF Cons.prems(2), of k h] del by simp_all
    then obtain s1 where "stream_acks (memory_backend x) k hs (st\<lparr>storage := ?s1\<rparr>) = (False, st\<lparr>storage := s1\<rparr>)"
        "mem_wf s1" "handles_sound x s1" "map_of (queues s1) k = Some (acknowledged hs ?q1)"
        "\<forall>k'. k' \<noteq> k \<longrightarrow> map_of (queues s1) k' = map_of (queues ?s1) k'"
      using Cons.IH [of "st\<lparr>storage := ?s1\<rparr>" ?q1] by auto
    then show ?thesis
      by (intro exI [of _ s1]) (auto simp: del on_storage_pair acknowledged_Cons)
  qed
qed

lemma stream_acks_absent:
  assumes "receipt_secret x \<noteq> None" and "map_of (queues (storage st)) k = Some q"
    and "\<forall>h \<in> set hs. map_of (in_flight_messages q) h = None"
  shows "stream_acks (memory_backend x) k hs st = (False, st)"
  using assms(3) by (induction hs) (simp_all add: delete_message_absent [OF assms(1,2)] on_storage_pair)

lemma acknowledged_leases: "h \<in> set hs \<Longrightarrow> map_of (in_flight_messages (acknowledged hs q)) h = None"
  by (auto simp: acknowledged_def map_of_eq_None_iff)

section \<open>The steps of a stream\<close>

lemma closed_stream_silent: "\<not> sl_open l \<Longrightarrow> stream_step x b es ev (l, st) = ([], l, st)"
  by (simp add: stream_step_def)

text \<open>The loop of a stream on the subscription \<open>k\<close> of \<open>c\<close>, opened by the request \<open>req\<close>.\<close>

definition opened :: "string \<Rightarrow> subscription_config \<Rightarrow> streaming_pull_request \<Rightarrow> stream_loop" where
  "opened k c req =
     \<lparr> sl_subscription_id = Some k, sl_topic_id = Some (sub_topic_id c),
       sl_ack_deadline = (if 0 < sint (sp_stream_ack_deadline_seconds req) then sp_stream_ack_deadline_seconds req else 10),
       sl_ordering_enabled = enable_message_ordering c, sl_open = True \<rparr>"

lemma opened_simps [simp]:
  "sl_subscription_id (opened k c req) = Some k" "sl_topic_id (opened k c req) = Some (sub_topic_id c)"
  "sl_ordering_enabled (opened k c req) = enable_message_ordering c" "sl_open (opened k c req)"
  by (simp_all add: opened_def)

lemma stream_opens:
  assumes "parse_resource_name (sp_subscription req) = Inr r"
    and "subscription_lookup (storage st) (resource_key r) = Some c"
    and "sp_ack_ids req = []" and "sp_modify_deadline_ack_ids req = []"
  shows "stream_step x (memory_backend x) es (ClientRequest req) (new_stream, st) = ([], opened (resource_key r) c req, st)"
  using assms mem_pubsub.get_sub [of x "resource_key r" "storage st"]
  by (simp add: stream_step_def stream_request_def init_stream_def new_stream_def opened_def)

lemma stream_step_acks:
  assumes "receipt_codecs_ok x" and "receipt_secret x \<noteq> None"
    and "mem_wf (storage st)" and "handles_sound x (storage st)" and "map_of (queues (storage st)) k = Some q"
    and "sp_modify_deadline_ack_ids ack = []"
  shows "\<exists>s1. stream_step x (memory_backend x) es (ClientRequest ack) (opened k c req, st) =
      ([], opened k c req, st\<lparr>storage := s1\<rparr>) \<and> mem_wf s1 \<and> handles_sound x s1 \<and>
    map_of (queues s1) k = Some (acknowledged (sp_ack_ids ack) q) \<and>
    (\<forall>k'. k' \<noteq> k \<longrightarrow> map_of (queues s1) k' = map_of (queues (storage st)) k')"
proof -
  obtain s1 where "stream_acks (memory_backend x) k (sp_ack_ids ack) st = (False, st\<lparr>storage := s1\<rparr>)"
      "mem_wf s1" "handles_sound x s1"
      "map_of (queues s1) k = Some (acknowledged (sp_ack_ids ack) q)"
      "\<forall>k'. k' \<noteq> k \<longrightarrow> map_of (queues s1) k' = map_of (queues (storage st)) k'"
    using stream_acks_memory [OF assms(1-5)] by blast
  then show ?thesis
    using assms(6) by (intro exI [of _ s1]) (simp add: stream_step_def stream_request_def init_stream_def)
qed

definition batch_of :: "ext \<Rightarrow> stream_loop \<Rightarrow> received_message list \<Rightarrow> stream_output list" where
  "batch_of x l rs =
     (if rs = [] then []
      else [Inr \<lparr> sr_received_messages = map (streamed_message x) rs, sr_exactly_once_delivery_enabled = False,
                  sr_message_ordering_enabled = sl_ordering_enabled l \<rparr>])"

lemma stream_step_poll:
  assumes "receive_messages x (es 1) k (pull_options 10 (sl_ack_deadline (opened k c req))) (storage st) = (Inr rs, s1)"
  shows "stream_step x (memory_backend x) es (PollTimer connected) (opened k c req, st) =
    (if connected \<or> rs = [] then (batch_of x (opened k c req) rs, opened k c req, st\<lparr>storage := s1\<rparr>)
     else ([], (opened k c req)\<lparr>sl_open := False\<rparr>, st\<lparr>storage := s1\<rparr>))"
  using assms by (simp add: stream_step_def stream_poll_def on_storage_pair batch_of_def)

text \<open>Identifiers without a lease are ignored, where the unary call fails with the first of them.\<close>

lemma stream_step_acks_absent:
  assumes "receipt_secret x \<noteq> None" and "map_of (queues (storage st)) k = Some q"
    and "\<forall>h \<in> set (sp_ack_ids ack). map_of (in_flight_messages q) h = None" and "sp_modify_deadline_ack_ids ack = []"
  shows "stream_step x (memory_backend x) es (ClientRequest ack) (opened k c req, st) = ([], opened k c req, st)"
  using stream_acks_absent [OF assms(1-3)] assms(4)
  by (simp add: stream_step_def stream_request_def init_stream_def)

definition stream_options :: "stream_loop \<Rightarrow> receive_options" where
  "stream_options l = pull_options 10 (sl_ack_deadline l)"

text \<open>
  C36. A streaming pull: the first request opens the loop with its own deadline or ten seconds; a poll
  sends the visible messages that still have attempts, at most ten, and leases each under its identifier for the deadline of
  the stream; a request with any list of identifiers answers nothing and removes exactly the leases
  it names, so that repeating it changes nothing. When the client is gone the poll still takes the
  leases before the loop ends.
\<close>

theorem streaming_pull_session:
  assumes codecs: "receipt_codecs_ok x" "receipt_secret x \<noteq> None"
    and "mem_wf (storage st)" and "handles_sound x (storage st)"
    and name: "parse_resource_name (sp_subscription req) = Inr r" "resource_key r = k"
    and sub: "subscription_lookup (storage st) k = Some c" and "map_of (queues (storage st)) k = Some q"
    and "fresh_handles x (es_poll 1) k q"
    and plain: "sp_ack_ids req = []" "sp_modify_deadline_ack_ids req = []" "sp_modify_deadline_ack_ids ack = []"
  shows "\<exists>l rs s1 q1 s2. l = opened k c req \<and>
    stream_step x (memory_backend x) es (ClientRequest req) (new_stream, st) = ([], l, st) \<and>
    map rm_message rs = live_messages (now (es_poll 1) 1) (stream_options l) q \<and>
    stream_step x (memory_backend x) es_poll (PollTimer True) (l, st) = (batch_of x l rs, l, st\<lparr>storage := s1\<rparr>) \<and>
    stream_step x (memory_backend x) es_poll (PollTimer False) (l, st) = ([], l\<lparr>sl_open := rs = []\<rparr>, st\<lparr>storage := s1\<rparr>) \<and>
    map_of (queues s1) k = Some q1 \<and> distinct (map receipt_handle rs) \<and>
    (\<forall>rm \<in> set rs. map_of (in_flight_messages q1) (receipt_handle rm) = Some \<lparr> if_message = rm_message rm,
       visibility_expires_at = now (es_poll 1) 1 + seconds (int (unat (sl_ack_deadline l))) \<rparr>) \<and>
    stream_step x (memory_backend x) es_ack (ClientRequest ack) (l, st\<lparr>storage := s1\<rparr>) = ([], l, st\<lparr>storage := s2\<rparr>) \<and>
    map_of (queues s2) k = Some (acknowledged (sp_ack_ids ack) q1) \<and>
    (\<forall>k'. k' \<noteq> k \<longrightarrow> map_of (queues s2) k' = map_of (queues s1) k') \<and>
    stream_step x (memory_backend x) es_again (ClientRequest ack) (l, st\<lparr>storage := s2\<rparr>) = ([], l, st\<lparr>storage := s2\<rparr>)"
proof (rule receive_memory [where ro = "stream_options (opened k c req)", OF assms(1-4,8,9)])
  fix rs s1 q1
  let ?l = "opened k c req"
  assume rec: "receive_messages x (es_poll 1) k (stream_options ?l) (storage st) = (Inr rs, s1)"
    and s1: "mem_wf s1" "handles_sound x s1" "map_of (queues s1) k = Some q1"
    and rs: "map rm_message rs = live_messages (now (es_poll 1) 1) (stream_options ?l) q" "distinct (map receipt_handle rs)"
      "\<forall>rm \<in> set rs. map_of (in_flight_messages q1) (receipt_handle rm) = Some \<lparr> if_message = rm_message rm,
         visibility_expires_at = now (es_poll 1) 1 + seconds (int (unat (effective_timeout (stream_options ?l) q))) \<rparr>"
  have opens: "stream_step x (memory_backend x) es (ClientRequest req) (new_stream, st) = ([], ?l, st)"
    using stream_opens [OF name(1)] sub name(2) plain by auto
  note poll = stream_step_poll [of x es_poll, folded stream_options_def, OF rec]
  have gone: "?l\<lparr>sl_open := True\<rparr> = ?l" by (simp add: opened_def)
  obtain s2 where s2: "stream_step x (memory_backend x) es_ack (ClientRequest ack) (?l, st\<lparr>storage := s1\<rparr>) =
      ([], ?l, st\<lparr>storage := s2\<rparr>)" "map_of (queues s2) k = Some (acknowledged (sp_ack_ids ack) q1)"
      "\<forall>k'. k' \<noteq> k \<longrightarrow> map_of (queues s2) k' = map_of (queues s1) k'"
    using stream_step_acks [OF codecs, of "st\<lparr>storage := s1\<rparr>" k q1 ack es_ack c req] s1 plain by auto
  have again: "stream_step x (memory_backend x) es_again (ClientRequest ack) (?l, st\<lparr>storage := s2\<rparr>) = ([], ?l, st\<lparr>storage := s2\<rparr>)"
    using s2(2) acknowledged_leases plain(3) by (intro stream_step_acks_absent [OF codecs(2)]) auto
  show ?thesis
    using opens rs s1(3) s2 again
    by (intro exI [of _ ?l] exI [of _ rs] exI [of _ s1] exI [of _ q1] exI [of _ s2] conjI)
      (simp_all add: poll batch_of_def gone effective_timeout_def stream_options_def pull_options_def)
qed

definition stream_start :: streaming_pull_request where
  "stream_start =
     \<lparr> sp_subscription = ''projects/proj/subscriptions/work'', sp_ack_ids = [], sp_modify_deadline_seconds = [],
       sp_modify_deadline_ack_ids = [], sp_stream_ack_deadline_seconds = 30 \<rparr>"

theorem streaming_pull_session_witness:
  "\<exists>l rs s1. stream_step sample_ext (memory_backend sample_ext) (\<lambda>n. sample_env 4) (ClientRequest stream_start)
       (new_stream, full_pubsub) = ([], l, full_pubsub) \<and>
     stream_step sample_ext (memory_backend sample_ext) (\<lambda>n. sample_env 5) (PollTimer True) (l, full_pubsub) =
       (batch_of sample_ext l rs, l, full_pubsub\<lparr>storage := s1\<rparr>) \<and> map msg_id (map rm_message rs) = [''a'']"
proof -
  have "sp_subscription stream_start = ''projects/proj/subscriptions/work''" by (simp add: stream_start_def)
  then have name: "parse_resource_name (sp_subscription stream_start) = Inr (ResSubscription ''proj'' ''work'')"
    using sample_subscription_name by simp
  have live: "map msg_id (live_messages (now (sample_env 5) 1) (stream_options l) full_queue) = [''a'']" for l
    by (simp add: live_messages_def full_queue_def picked_def batch_limit_def deliverable_def sample_defs empty_queue_def
        should_dlq_def stream_options_def pull_options_def subscription_queue_config_def sample_subscription_def)
  let ?ack = "stream_start\<lparr>sp_ack_ids := [''zz'']\<rparr>"
  have plain: "sp_ack_ids stream_start = []" "sp_modify_deadline_ack_ids stream_start = []"
    "sp_modify_deadline_ack_ids ?ack = []"
    by (simp_all add: stream_start_def)
  show ?thesis
    using streaming_pull_session [where es_poll = "\<lambda>n. sample_env 5" and es = "\<lambda>n. sample_env 4" and
        es_ack = "\<lambda>n. sample_env 6" and es_again = "\<lambda>n. sample_env 7",
        OF sample_codecs_ok sample_secret_set full_pubsub_ok(1,2) name work_key full_pubsub_ok(3-5) plain]
    by (elim exE conjE) (metis live)
qed

end
