(* ===== verification/Sqlite_Tables.thy ===== *)
theory Sqlite_Tables
  imports Storage_Api "HOL-Library.List_Lexorder" "HOL-Library.Char_ord" "HOL-Library.Option_ord"
begin

text \<open>
  The database of the SQLite backend: the schema of \<open>migrations/sqlite\<close> (one record per table that
  \<open>src/storage/sqlite/mod.rs\<close> uses), its constraints, the columns that hold JSON text, and the way
  statements run on the pool or inside a transaction.

  A table is the list of its rows in insertion order.  SQLite itself is not under \<open>src\<close>; what is
  modelled of it is what its documentation promises for the statements in the code: \<open>PRIMARY KEY\<close> and
  \<open>UNIQUE\<close> constraints, foreign keys with \<open>ON DELETE CASCADE\<close> (which the driver switches on),
  \<open>ORDER BY\<close> with the remaining ties in insertion order, and in write-ahead mode one writer at a
  time, whose transaction reads the snapshot of its first statement.  The texts of the driver's
  errors, the JSON functions and the range of the time stamps are parameters.
\<close>

section \<open>Parameters\<close>

datatype sql_error = UniqueFailed string | ForeignKeyFailed | DatabaseLocked | ColumnDecode

record sql_ext =
  sql_text :: "sql_error \<Rightarrow> string"
  ser_dlq_config :: "dlq_target \<Rightarrow> string option"
  de_dlq_config :: "string \<Rightarrow> dlq_target option"
  ser_tags :: "(string \<times> string) list \<Rightarrow> string option"
  de_tags :: "string \<Rightarrow> (string \<times> string) list option"
  ser_allow_policy :: "redrive_permission \<Rightarrow> string option"
  de_allow_policy :: "string \<Rightarrow> redrive_permission option"
  ser_attributes :: "(string \<times> message_attribute_value) list \<Rightarrow> string option"
  de_attributes :: "string \<Rightarrow> (string \<times> message_attribute_value) list option"
  millis_valid :: "int \<Rightarrow> bool"

text \<open>
  What the code relies on: only a violated uniqueness constraint has the text it looks for, and the
  JSON functions are inverse to each other.  A map is read back with its content only: the order of
  its entries, a \<open>HashMap\<close> in the code, may change on every way through the text.
\<close>

definition sql_laws :: "sql_ext \<Rightarrow> bool" where
  "sql_laws y \<longleftrightarrow>
     (\<forall>err. contains ''UNIQUE constraint failed'' (sql_text y err) \<longleftrightarrow> (\<exists>column. err = UniqueFailed column)) \<and>
     (\<forall>v. \<exists>js. ser_dlq_config y v = Some js \<and> de_dlq_config y js = Some v) \<and>
     (\<forall>v. \<exists>js. ser_allow_policy y v = Some js \<and> de_allow_policy y js = Some v) \<and>
     (\<forall>v. \<exists>js v'. ser_tags y v = Some js \<and> de_tags y js = Some v' \<and> map_of v' = map_of v) \<and>
     (\<forall>v. \<exists>js v'. ser_attributes y v = Some js \<and> de_attributes y js = Some v' \<and> map_of v' = map_of v)"

section \<open>Integers and times as columns\<close>

text \<open>\<open>n as i64\<close> and back, for the unsigned types of the configuration.\<close>

definition u32_as_i64 :: "u32 \<Rightarrow> int" where
  "u32_as_i64 w = uint w"

definition i64_as_u32 :: "int \<Rightarrow> u32" where
  "i64_as_u32 i = word_of_int i"

definition u64_as_i64 :: "u64 \<Rightarrow> int" where
  "u64_as_i64 w = sint w"

definition i64_as_u64 :: "int \<Rightarrow> u64" where
  "i64_as_u64 i = word_of_int i"

definition usize_as_i64 :: "nat \<Rightarrow> int" where
  "usize_as_i64 n = sint (of_nat n :: u64)"

definition i64_as_usize :: "int \<Rightarrow> nat" where
  "i64_as_usize i = unat (word_of_int i :: u64)"

definition timestamp :: "int \<Rightarrow> int" where
  "timestamp t = t div nanos_per_second"

definition from_timestamp_millis :: "sql_ext \<Rightarrow> int \<Rightarrow> int option" where
  "from_timestamp_millis y ms = (if millis_valid y ms then Some (ms * 1000000) else None)"

lemma u32_column [simp]: "i64_as_u32 (u32_as_i64 w) = w"
  by (simp add: i64_as_u32_def u32_as_i64_def)

lemma u64_column [simp]: "i64_as_u64 (u64_as_i64 w) = w"
  by (simp add: i64_as_u64_def u64_as_i64_def)

lemma usize_column [simp]: "n < 2 ^ 64 \<Longrightarrow> i64_as_usize (usize_as_i64 n) = n"
  by (simp add: i64_as_usize_def usize_as_i64_def unsigned_of_nat take_bit_nat_eq_self)

section \<open>Tables\<close>

record queue_row =
  qr_id :: string
  qr_name :: string
  qr_queue_type :: string
  qr_visibility_timeout :: int
  qr_message_retention_period :: int
  qr_max_message_size :: int
  qr_delay_seconds :: int
  qr_content_based_deduplication :: bool
  qr_dlq_config :: "string option"
  qr_tags :: "string option"
  qr_redrive_allow_policy :: "string option"
  qr_created_at :: int
  qr_updated_at :: int

record message_row =
  mr_id :: string
  mr_queue_id :: string
  mr_body :: string
  mr_attributes :: "string option"
  mr_sent_timestamp :: int
  mr_visible_at :: int
  mr_receive_count :: int
  mr_message_group_id :: "string option"
  mr_deduplication_id :: "string option"
  mr_sequence_number :: "int option"
  mr_delay_seconds :: "int option"
  mr_state :: string
  mr_receipt_handle :: "string option"
  mr_visibility_expires_at :: "int option"

record dedup_row =
  dr_queue_id :: string
  dr_deduplication_id :: string
  dr_expires_at :: int

record subscription_row =
  sr_id :: string
  sr_name :: string
  sr_topic_id :: string
  sr_ack_deadline_seconds :: int
  sr_push_endpoint :: "string option"
  sr_retry_min_backoff_seconds :: "int option"
  sr_retry_max_backoff_seconds :: "int option"
  sr_retry_max_attempts :: "int option"
  sr_push_timeout_seconds :: "int option"
  sr_enable_message_ordering :: bool
  sr_filter :: "string option"
  sr_dead_letter_topic_id :: "string option"
  sr_max_delivery_attempts :: "int option"
  sr_retain_acked_messages :: bool
  sr_message_retention_duration :: int
  sr_created_at :: int
  sr_updated_at :: int

record sqlite =
  queues_table :: "queue_row list"
  messages_table :: "message_row list"
  dedup_table :: "dedup_row list"
  subscriptions_table :: "subscription_row list"

definition empty_database :: sqlite where
  "empty_database =
     \<lparr> queues_table = [], messages_table = [], dedup_table = [], subscriptions_table = [] \<rparr>"

section \<open>Statements\<close>

definition find_queue :: "string \<Rightarrow> sqlite \<Rightarrow> queue_row option" where
  "find_queue k d = find (\<lambda>r. qr_id r = k) (queues_table d)"

definition find_subscription :: "string \<Rightarrow> sqlite \<Rightarrow> subscription_row option" where
  "find_subscription k d = find (\<lambda>r. sr_id r = k) (subscriptions_table d)"

definition insert_queue :: "queue_row \<Rightarrow> sqlite \<Rightarrow> sql_error + sqlite" where
  "insert_queue r d =
     (if \<exists>p \<in> set (queues_table d). qr_id p = qr_id r then Inl (UniqueFailed ''queues.id'')
      else if \<exists>p \<in> set (queues_table d). qr_name p = qr_name r then Inl (UniqueFailed ''queues.name'')
      else Inr (d\<lparr>queues_table := queues_table d @ [r]\<rparr>))"

definition insert_message :: "message_row \<Rightarrow> sqlite \<Rightarrow> sql_error + sqlite" where
  "insert_message r d =
     (if \<exists>p \<in> set (messages_table d). mr_id p = mr_id r then Inl (UniqueFailed ''messages.id'')
      else if find_queue (mr_queue_id r) d = None then Inl ForeignKeyFailed
      else Inr (d\<lparr>messages_table := messages_table d @ [r]\<rparr>))"

text \<open>\<open>INSERT OR REPLACE\<close>.\<close>

definition put_dedup :: "dedup_row \<Rightarrow> sqlite \<Rightarrow> sql_error + sqlite" where
  "put_dedup r d =
     (if find_queue (dr_queue_id r) d = None then Inl ForeignKeyFailed
      else Inr (d\<lparr>dedup_table :=
        filter (\<lambda>p. \<not> (dr_queue_id p = dr_queue_id r \<and> dr_deduplication_id p = dr_deduplication_id r))
          (dedup_table d) @ [r]\<rparr>))"

definition insert_subscription :: "subscription_row \<Rightarrow> sqlite \<Rightarrow> sql_error + sqlite" where
  "insert_subscription r d =
     (if \<exists>p \<in> set (subscriptions_table d). sr_id p = sr_id r then Inl (UniqueFailed ''subscriptions.id'')
      else if \<exists>p \<in> set (subscriptions_table d). sr_name p = sr_name r then Inl (UniqueFailed ''subscriptions.name'')
      else if find_queue (sr_topic_id r) d = None then Inl ForeignKeyFailed
      else Inr (d\<lparr>subscriptions_table := subscriptions_table d @ [r]\<rparr>))"

text \<open>\<open>DELETE FROM queues\<close>: the rows that reference the queue go with it.\<close>

definition delete_queue_row :: "string \<Rightarrow> sqlite \<Rightarrow> sqlite" where
  "delete_queue_row k d =
     \<lparr> queues_table = filter (\<lambda>r. qr_id r \<noteq> k) (queues_table d),
       messages_table = filter (\<lambda>r. mr_queue_id r \<noteq> k) (messages_table d),
       dedup_table = filter (\<lambda>r. dr_queue_id r \<noteq> k) (dedup_table d),
       subscriptions_table = filter (\<lambda>r. sr_topic_id r \<noteq> k) (subscriptions_table d) \<rparr>"

text \<open>\<open>UPDATE messages SET ... WHERE ...\<close> and \<open>DELETE FROM messages WHERE ...\<close>.\<close>

definition update_messages ::
    "(message_row \<Rightarrow> bool) \<Rightarrow> (message_row \<Rightarrow> message_row) \<Rightarrow> sqlite \<Rightarrow> sqlite" where
  "update_messages P f d = d\<lparr>messages_table := map (\<lambda>r. if P r then f r else r) (messages_table d)\<rparr>"

definition delete_messages :: "(message_row \<Rightarrow> bool) \<Rightarrow> sqlite \<Rightarrow> sqlite" where
  "delete_messages P d = d\<lparr>messages_table := filter (\<lambda>r. \<not> P r) (messages_table d)\<rparr>"

definition rows_affected :: "(message_row \<Rightarrow> bool) \<Rightarrow> sqlite \<Rightarrow> nat" where
  "rows_affected P d = length (filter P (messages_table d))"

section \<open>Connections\<close>

text \<open>
  The committed database beside the transaction of an operation: its view of the database (none
  before its first statement), whether it has written, and whether another connection has written
  since the view was taken.  \<open>OnPool\<close> is a connection of its own that commits every statement.
\<close>

datatype executor = OnPool | OnTx

record connection =
  committed :: sqlite
  tx_view :: "sqlite option"
  tx_written :: bool
  tx_stale :: bool

definition begin_tx :: "sqlite \<Rightarrow> connection" where
  "begin_tx d = \<lparr> committed = d, tx_view = None, tx_written = False, tx_stale = False \<rparr>"

definition tx_read :: "connection \<Rightarrow> sqlite" where
  "tx_read c = (case tx_view c of None \<Rightarrow> committed c | Some v \<Rightarrow> v)"

definition tx_select :: "connection \<Rightarrow> connection" where
  "tx_select c = c\<lparr>tx_view := Some (tx_read c)\<rparr>"

text \<open>
  A write waits for the lock of another writer until the busy time-out; a transaction with an old
  view cannot become the writer.
\<close>

definition run_write :: "executor \<Rightarrow> (sqlite \<Rightarrow> sql_error + sqlite) \<Rightarrow> connection \<Rightarrow> (sql_error + unit) \<times> connection" where
  "run_write ex stmt c =
     (case ex of
        OnPool \<Rightarrow>
          if tx_written c then (Inl DatabaseLocked, c)
          else (case stmt (committed c) of
                  Inl err \<Rightarrow> (Inl err, c)
                | Inr d \<Rightarrow> (Inr (), c\<lparr>committed := d, tx_stale := (tx_view c \<noteq> None)\<rparr>))
      | OnTx \<Rightarrow>
          if tx_stale c \<and> \<not> tx_written c then (Inl DatabaseLocked, c)
          else (case stmt (tx_read c) of
                  Inl err \<Rightarrow> (Inl err, c)
                | Inr d \<Rightarrow> (Inr (), c\<lparr>tx_view := Some d, tx_written := True\<rparr>)))"

definition commit_tx :: "connection \<Rightarrow> sqlite" where
  "commit_tx c = (if tx_written c then tx_read c else committed c)"

text \<open>\<open>map_err(|e| Error::StorageError(format!("...: {}", e)))\<close>.\<close>

definition storage_error :: "sql_ext \<Rightarrow> string \<Rightarrow> sql_error \<Rightarrow> error" where
  "storage_error y what err = StorageError (what @ '': '' @ sql_text y err)"

section \<open>LIKE\<close>

definition ascii_fold :: "nat \<Rightarrow> nat" where
  "ascii_fold c = (if 65 \<le> c \<and> c \<le> 90 then c + 32 else c)"

text \<open>The operator on characters: 37 is the percent sign, 95 the underscore.\<close>

fun sql_like :: "nat list \<Rightarrow> nat list \<Rightarrow> bool" where
  "sql_like [] [] = True"
| "sql_like [] (c # cs) = False"
| "sql_like (p # ps) [] = (p = 37 \<and> sql_like ps [])"
| "sql_like (p # ps) (c # cs) =
     (if p = 37 then sql_like ps (c # cs) \<or> sql_like (p # ps) cs
      else if p = 95 then sql_like ps cs
      else ascii_fold p = ascii_fold c \<and> sql_like ps cs)"

end
