(* ===== verification/Sqlite.thy ===== *)
theory Sqlite
  imports Sqlite_Tables Receipt
begin

text \<open>
  The SQLite backend (\<open>src/storage/sqlite/mod.rs\<close>), one definition per method.  A method that only
  reads is a function of the database; one that writes returns its result with the new committed
  database.  Operations run one after another; within one, the statements of its transaction and
  those it sends to the pool meanwhile are kept apart (\<open>connection\<close>).
\<close>

section \<open>Rows and values\<close>

fun queue_type_to_string :: "queue_type \<Rightarrow> string" where
  "queue_type_to_string SqsStandard = ''sqs_standard''"
| "queue_type_to_string SqsFifo = ''sqs_fifo''"
| "queue_type_to_string PubSubTopic = ''pubsub_topic''"

definition string_to_queue_type :: "string \<Rightarrow> queue_type result" where
  "string_to_queue_type s =
     (if s = ''sqs_standard'' then Inr SqsStandard
      else if s = ''sqs_fifo'' then Inr SqsFifo
      else if s = ''pubsub_topic'' then Inr PubSubTopic
      else Inl (StorageError (''Unknown queue type: '' @ s)))"

definition tags_json :: "sql_ext \<Rightarrow> queue_config \<Rightarrow> string option" where
  "tags_json y c = (if tags c = [] then None else ser_tags y (tags c))"

definition config_to_row :: "sql_ext \<Rightarrow> int \<Rightarrow> queue_config \<Rightarrow> queue_row" where
  "config_to_row y t c =
     \<lparr> qr_id = qc_id c, qr_name = qc_name c, qr_queue_type = queue_type_to_string (qc_type c),
       qr_visibility_timeout = u32_as_i64 (visibility_timeout c),
       qr_message_retention_period = u32_as_i64 (message_retention_period c),
       qr_max_message_size = usize_as_i64 (max_message_size c),
       qr_delay_seconds = u32_as_i64 (delay_seconds c),
       qr_content_based_deduplication = content_based_deduplication c,
       qr_dlq_config = Option.bind (dlq_config c) (ser_dlq_config y),
       qr_tags = tags_json y c,
       qr_redrive_allow_policy = Option.bind (redrive_allow_policy c) (ser_allow_policy y),
       qr_created_at = t, qr_updated_at = t \<rparr>"

definition row_to_config :: "sql_ext \<Rightarrow> queue_row \<Rightarrow> queue_config result" where
  "row_to_config y r =
     (case string_to_queue_type (qr_queue_type r) of
        Inl err \<Rightarrow> Inl err
      | Inr ty \<Rightarrow>
          Inr \<lparr> qc_id = qr_id r, qc_name = qr_name r, qc_type = ty,
                visibility_timeout = i64_as_u32 (qr_visibility_timeout r),
                message_retention_period = i64_as_u32 (qr_message_retention_period r),
                max_message_size = i64_as_usize (qr_max_message_size r),
                delay_seconds = i64_as_u32 (qr_delay_seconds r),
                dlq_config = Option.bind (qr_dlq_config r) (de_dlq_config y),
                content_based_deduplication = qr_content_based_deduplication r,
                tags = (case Option.bind (qr_tags r) (de_tags y) of None \<Rightarrow> [] | Some ts \<Rightarrow> ts),
                redrive_allow_policy = Option.bind (qr_redrive_allow_policy r) (de_allow_policy y) \<rparr>)"

fun rows_to_configs :: "sql_ext \<Rightarrow> queue_row list \<Rightarrow> queue_config list result" where
  "rows_to_configs y [] = Inr []"
| "rows_to_configs y (r # rs) =
     (case row_to_config y r of Inl err \<Rightarrow> Inl err
      | Inr c \<Rightarrow> (case rows_to_configs y rs of Inl err \<Rightarrow> Inl err | Inr cs \<Rightarrow> Inr (c # cs)))"

definition parse_message_row :: "sql_ext \<Rightarrow> message_row \<Rightarrow> message result" where
  "parse_message_row y r =
     (case from_timestamp_millis y (mr_sent_timestamp r) of
        None \<Rightarrow> Inl (StorageError (''Invalid timestamp: '' @ show_int (mr_sent_timestamp r)))
      | Some t \<Rightarrow>
          Inr \<lparr> msg_id = mr_id r, body = mr_body r,
                attributes = (case mr_attributes r of None \<Rightarrow> []
                              | Some js \<Rightarrow> (case de_attributes y js of None \<Rightarrow> [] | Some as \<Rightarrow> as)),
                msg_queue_id = mr_queue_id r, sent_timestamp = t,
                receive_count = i64_as_u32 (mr_receive_count r),
                message_group_id = mr_message_group_id r, deduplication_id = mr_deduplication_id r,
                sequence_number = map_option i64_as_u64 (mr_sequence_number r),
                msg_delay_seconds = map_option i64_as_u32 (mr_delay_seconds r) \<rparr>)"

section \<open>Maintenance\<close>

definition expired_row :: "int \<Rightarrow> string \<Rightarrow> message_row \<Rightarrow> bool" where
  "expired_row t queue_id r \<longleftrightarrow>
     mr_state r = ''in_flight'' \<and> mr_queue_id r = queue_id \<and>
     (case mr_visibility_expires_at r of None \<Rightarrow> False | Some expires \<Rightarrow> expires \<le> t)"

definition make_available :: "int \<Rightarrow> message_row \<Rightarrow> message_row" where
  "make_available t r =
     r\<lparr>mr_state := ''available'', mr_visible_at := t, mr_receipt_handle := None,
       mr_visibility_expires_at := None\<rparr>"

definition process_expired_visibility_sqlite :: "env \<Rightarrow> string \<Rightarrow> sqlite \<Rightarrow> nat result \<times> sqlite" where
  "process_expired_visibility_sqlite e queue_id d =
     (let t = timestamp_millis (now e 0) in
      (Inr (rows_affected (expired_row t queue_id) d),
       update_messages (expired_row t queue_id) (make_available t) d))"

definition cleanup_deduplication_cache_sqlite :: "env \<Rightarrow> sqlite \<Rightarrow> nat result \<times> sqlite" where
  "cleanup_deduplication_cache_sqlite e d =
     (let t = timestamp (now e 0) in
      (Inr (length (filter (\<lambda>r. dr_expires_at r \<le> t) (dedup_table d))),
       d\<lparr>dedup_table := filter (\<lambda>r. \<not> dr_expires_at r \<le> t) (dedup_table d)\<rparr>))"

fun delete_expired_loop :: "int \<Rightarrow> queue_row list \<Rightarrow> sqlite \<Rightarrow> nat \<Rightarrow> nat \<times> sqlite" where
  "delete_expired_loop t [] d total_deleted = (total_deleted, d)"
| "delete_expired_loop t (row # rows) d total_deleted =
     (let retention_millis = qr_message_retention_period row * 1000;
          cutoff_timestamp = t - retention_millis;
          old = (\<lambda>r. mr_queue_id r = qr_id row \<and> mr_sent_timestamp r < cutoff_timestamp) in
      delete_expired_loop t rows (delete_messages old d) (total_deleted + rows_affected old d))"

definition delete_expired_messages :: "env \<Rightarrow> sqlite \<Rightarrow> nat result \<times> sqlite" where
  "delete_expired_messages e d =
     (case delete_expired_loop (timestamp_millis (now e 0)) (queues_table d) d 0 of
        (total_deleted, d') \<Rightarrow> (Inr total_deleted, d'))"

section \<open>Queues\<close>

definition create_queue_sqlite :: "sql_ext \<Rightarrow> env \<Rightarrow> queue_config \<Rightarrow> sqlite \<Rightarrow> queue_config result \<times> sqlite" where
  "create_queue_sqlite y e c d =
     (case insert_queue (config_to_row y (timestamp (now e 0)) c) d of
        Inr d' \<Rightarrow> (Inr c, d')
      | Inl err \<Rightarrow>
          if contains ''UNIQUE constraint failed'' (sql_text y err)
          then (Inl (QueueAlreadyExists (qc_id c)), d)
          else (Inl (storage_error y ''Failed to create queue'' err), d))"

definition get_queue_sqlite :: "sql_ext \<Rightarrow> string \<Rightarrow> sqlite \<Rightarrow> queue_config result" where
  "get_queue_sqlite y queue_id d =
     (case find_queue queue_id d of
        None \<Rightarrow> Inl (QueueNotFound queue_id)
      | Some r \<Rightarrow> row_to_config y r)"

definition delete_queue_sqlite :: "string \<Rightarrow> sqlite \<Rightarrow> unit result \<times> sqlite" where
  "delete_queue_sqlite queue_id d =
     (if find_queue queue_id d = None then (Inl (QueueNotFound queue_id), d)
      else (Inr (), delete_queue_row queue_id d))"

definition list_queues_sqlite :: "sql_ext \<Rightarrow> queue_filter option \<Rightarrow> sqlite \<Rightarrow> queue_config list result" where
  "list_queues_sqlite y f d =
     (let rows =
        (case f of
           Some g \<Rightarrow>
             (case name_prefix g of
                Some prefix \<Rightarrow>
                  filter (\<lambda>r. sql_like (str_chars prefix @ [37]) (str_chars (qr_name r))) (queues_table d)
              | None \<Rightarrow> queues_table d)
         | None \<Rightarrow> queues_table d)
      in rows_to_configs y (sort_key qr_name rows))"

text \<open>The statement of \<open>update_queue\<close> does not write the name and the type.\<close>

definition update_row :: "sql_ext \<Rightarrow> int \<Rightarrow> queue_config \<Rightarrow> queue_row \<Rightarrow> queue_row" where
  "update_row y t c r =
     r\<lparr>qr_visibility_timeout := u32_as_i64 (visibility_timeout c),
       qr_message_retention_period := u32_as_i64 (message_retention_period c),
       qr_max_message_size := usize_as_i64 (max_message_size c),
       qr_delay_seconds := u32_as_i64 (delay_seconds c),
       qr_content_based_deduplication := content_based_deduplication c,
       qr_dlq_config := Option.bind (dlq_config c) (ser_dlq_config y),
       qr_tags := tags_json y c,
       qr_redrive_allow_policy := Option.bind (redrive_allow_policy c) (ser_allow_policy y),
       qr_updated_at := t\<rparr>"

definition update_queue_sqlite :: "sql_ext \<Rightarrow> env \<Rightarrow> queue_config \<Rightarrow> sqlite \<Rightarrow> queue_config result \<times> sqlite" where
  "update_queue_sqlite y e c d =
     (if find_queue (qc_id c) d = None then (Inl (QueueNotFound (qc_id c)), d)
      else (Inr c, d\<lparr>queues_table :=
              map (\<lambda>r. if qr_id r = qc_id c then update_row y (timestamp (now e 0)) c r else r)
                (queues_table d)\<rparr>))"

section \<open>Sending\<close>

definition dedup_required_sqlite :: error where
  "dedup_required_sqlite =
     Validation (InvalidParameter ''MessageDeduplicationId''
       ''Required for FIFO queues without content-based deduplication'')"

definition dedup_cached :: "int \<Rightarrow> string \<Rightarrow> string \<Rightarrow> sqlite \<Rightarrow> bool" where
  "dedup_cached cutoff queue_id dedup_id d \<longleftrightarrow>
     (\<exists>r \<in> set (dedup_table d). dr_queue_id r = queue_id \<and> dr_deduplication_id r = dedup_id \<and>
        cutoff < dr_expires_at r)"

text \<open>\<open>SELECT COALESCE(MAX(sequence_number), -1) + 1\<close>; a sum beyond 64 bits is no integer column.\<close>

definition next_sequence :: "string \<Rightarrow> sqlite \<Rightarrow> int" where
  "next_sequence queue_id d =
     (case concat (map (\<lambda>r. if mr_queue_id r = queue_id
                            then (case mr_sequence_number r of None \<Rightarrow> [] | Some n \<Rightarrow> [n]) else [])
             (messages_table d)) of
        [] \<Rightarrow> 0
      | n # ns \<Rightarrow> fold max ns n + 1)"

text \<open>
  The FIFO part of \<open>send_message_impl\<close>: \<open>None\<close> is the early return of a duplicate.  All its statements
  go to the pool.  Clock readings: the cutoff, then the expiry of the new entry.
\<close>

definition fifo_prepare ::
    "ext \<Rightarrow> sql_ext \<Rightarrow> env \<Rightarrow> string \<Rightarrow> queue_config \<Rightarrow> message \<Rightarrow> connection \<Rightarrow> message option result \<times> connection" where
  "fifo_prepare x y e queue_id queue m c =
     (case (case deduplication_id m of
              Some d \<Rightarrow> Some d
            | None \<Rightarrow> if content_based_deduplication queue then Some (sha256_hex x (body m)) else None) of
        None \<Rightarrow> (Inl dedup_required_sqlite, c)
      | Some dedup_id \<Rightarrow>
          if dedup_cached (timestamp (now e 0) - 300) queue_id dedup_id (committed c) then (Inr None, c)
          else
           (case run_write OnPool
                   (put_dedup \<lparr> dr_queue_id = queue_id, dr_deduplication_id = dedup_id,
                                dr_expires_at = timestamp (now e 1) + 300 \<rparr>) c of
              (Inl err, c') \<Rightarrow> (Inl (storage_error y ''Failed to update deduplication cache'' err), c')
            | (Inr _, c') \<Rightarrow>
               (let n = next_sequence queue_id (committed c') in
                if 2 ^ 63 \<le> n then (Inl (storage_error y ''Failed to get sequence number'' ColumnDecode), c')
                else (Inr (Some (m\<lparr>sequence_number := Some (i64_as_u64 n)\<rparr>)), c'))))"

text \<open>The row of the \<open>INSERT\<close>, for a delay in seconds and the clock reading of \<open>visible_at\<close>.\<close>

definition message_to_row :: "sql_ext \<Rightarrow> string \<Rightarrow> u32 \<Rightarrow> int \<Rightarrow> message \<Rightarrow> message_row" where
  "message_to_row y queue_id delay t m =
     \<lparr> mr_id = msg_id m, mr_queue_id = queue_id, mr_body = body m,
       mr_attributes = (if attributes m = [] then None else ser_attributes y (attributes m)),
       mr_sent_timestamp = timestamp_millis (sent_timestamp m),
       mr_visible_at = timestamp_millis (t + seconds (int (unat delay))),
       mr_receive_count = u32_as_i64 (receive_count m),
       mr_message_group_id = message_group_id m, mr_deduplication_id = deduplication_id m,
       mr_sequence_number = map_option u64_as_i64 (sequence_number m),
       mr_delay_seconds = Some (u32_as_i64 delay), mr_state = ''available'',
       mr_receipt_handle = None, mr_visibility_expires_at = None \<rparr>"

definition send_message_impl ::
    "ext \<Rightarrow> sql_ext \<Rightarrow> executor \<Rightarrow> env \<Rightarrow> string \<Rightarrow> message \<Rightarrow> connection \<Rightarrow> message result \<times> connection" where
  "send_message_impl x y ex e queue_id m c =
     (case get_queue_sqlite y queue_id (committed c) of
        Inl err \<Rightarrow> (Inl err, c)
      | Inr queue \<Rightarrow>
         (case (if qc_type queue = SqsFifo then fifo_prepare x y e queue_id queue m c else (Inr (Some m), c)) of
            (Inl err, c1) \<Rightarrow> (Inl err, c1)
          | (Inr None, c1) \<Rightarrow> (Inr m, c1)
          | (Inr (Some m1), c1) \<Rightarrow>
             (let delay = (case msg_delay_seconds m1 of Some s \<Rightarrow> s | None \<Rightarrow> delay_seconds queue) in
              case run_write ex (insert_message (message_to_row y queue_id delay (now e 2) m1)) c1 of
                (Inl err, c2) \<Rightarrow> (Inl (storage_error y ''Failed to insert message'' err), c2)
              | (Inr _, c2) \<Rightarrow> (Inr m1, c2))))"

definition send_message_sqlite ::
    "ext \<Rightarrow> sql_ext \<Rightarrow> env \<Rightarrow> string \<Rightarrow> message \<Rightarrow> sqlite \<Rightarrow> message result \<times> sqlite" where
  "send_message_sqlite x y e queue_id m d =
     (case send_message_impl x y OnPool e queue_id m (begin_tx d) of (r, c) \<Rightarrow> (r, committed c))"

fun send_messages_loop ::
    "ext \<Rightarrow> sql_ext \<Rightarrow> env \<Rightarrow> string \<Rightarrow> message list \<Rightarrow> connection \<Rightarrow> message list result \<times> connection" where
  "send_messages_loop x y e queue_id [] c = (Inr [], c)"
| "send_messages_loop x y e queue_id (m # ms) c =
     (case send_message_impl x y OnTx e queue_id m c of
        (Inl err, c') \<Rightarrow> (Inl err, c')
      | (Inr r, c') \<Rightarrow>
         (case send_messages_loop x y (env_from 3 e) queue_id ms c' of
            (Inl err, c'') \<Rightarrow> (Inl err, c'')
          | (Inr rs, c'') \<Rightarrow> (Inr (r # rs), c'')))"

text \<open>An early return drops the transaction, which rolls it back.\<close>

definition send_messages_sqlite ::
    "ext \<Rightarrow> sql_ext \<Rightarrow> env \<Rightarrow> string \<Rightarrow> message list \<Rightarrow> sqlite \<Rightarrow> message list result \<times> sqlite" where
  "send_messages_sqlite x y e queue_id ms d =
     (case send_messages_loop x y e queue_id ms (begin_tx d) of
        (Inl err, c) \<Rightarrow> (Inl err, committed c)
      | (Inr rs, c) \<Rightarrow> (Inr rs, commit_tx c))"

section \<open>Receiving\<close>

definition visible_row :: "string \<Rightarrow> int \<Rightarrow> message_row \<Rightarrow> bool" where
  "visible_row queue_id t r \<longleftrightarrow> mr_queue_id r = queue_id \<and> mr_state r = ''available'' \<and> mr_visible_at r \<le> t"

definition in_flight_groups :: "string \<Rightarrow> sqlite \<Rightarrow> string list" where
  "in_flight_groups queue_id d =
     remdups (concat (map (\<lambda>r. case mr_message_group_id r of None \<Rightarrow> [] | Some g \<Rightarrow> [g])
       (filter (\<lambda>r. mr_queue_id r = queue_id \<and> mr_state r = ''in_flight'') (messages_table d))))"

definition group_free :: "string list \<Rightarrow> message_row \<Rightarrow> bool" where
  "group_free groups r = (case mr_message_group_id r of None \<Rightarrow> True | Some g \<Rightarrow> g \<notin> set groups)"

text \<open>The two \<open>SELECT\<close> statements; \<open>NULL\<close> sequence numbers come first.\<close>

definition fifo_rows :: "string \<Rightarrow> int \<Rightarrow> nat \<Rightarrow> sqlite \<Rightarrow> message_row list" where
  "fifo_rows queue_id t limit d =
     take limit (sort_key mr_sequence_number
       (filter (\<lambda>r. visible_row queue_id t r \<and> group_free (in_flight_groups queue_id d) r) (messages_table d)))"

definition standard_rows :: "string \<Rightarrow> int \<Rightarrow> nat \<Rightarrow> sqlite \<Rightarrow> message_row list" where
  "standard_rows queue_id t limit d =
     take limit (sort_key mr_sent_timestamp (filter (visible_row queue_id t) (messages_table d)))"

definition mark_in_flight :: "u32 \<Rightarrow> string \<Rightarrow> int \<Rightarrow> message_row \<Rightarrow> message_row" where
  "mark_in_flight rc handle expires r =
     r\<lparr>mr_state := ''in_flight'', mr_receive_count := u32_as_i64 rc, mr_receipt_handle := Some handle,
       mr_visibility_expires_at := Some expires\<rparr>"

definition exceeds_dlq :: "queue_config \<Rightarrow> message \<Rightarrow> dlq_target option" where
  "exceeds_dlq queue m =
     (case dlq_config queue of
        None \<Rightarrow> None | Some dlq \<Rightarrow> if max_receive_count dlq < receive_count m then Some dlq else None)"

text \<open>
  The loop over the selected rows, the same in both branches.  A panic of the handle generation
  drops the transaction like an early return.
\<close>

fun receive_rows ::
    "ext \<Rightarrow> sql_ext \<Rightarrow> env \<Rightarrow> string \<Rightarrow> queue_config \<Rightarrow> int \<Rightarrow> u32 \<Rightarrow> message_row list \<Rightarrow> connection \<Rightarrow>
     received_message list result \<times> connection" where
  "receive_rows x y e queue_id queue t vt [] c = (Inr [], c)"
| "receive_rows x y e queue_id queue t vt (row # rows) c =
     (case parse_message_row y row of
        Inl err \<Rightarrow> (Inl err, c)
      | Inr m0 \<Rightarrow>
         (let m = m0\<lparr>receive_count := receive_count m0 + 1\<rparr> in
          case exceeds_dlq queue m of
            Some dlq \<Rightarrow>
             (let dlq_message = m\<lparr>sent_timestamp := now e 0, receive_count := 0,
                                  msg_queue_id := target_queue_id dlq\<rparr> in
              case send_message_impl x y OnTx (env_from 1 e) (target_queue_id dlq) dlq_message c of
                (Inl err, c1) \<Rightarrow> (Inl err, c1)
              | (Inr _, c1) \<Rightarrow>
                 (case run_write OnTx (\<lambda>d. Inr (delete_messages (\<lambda>r. mr_id r = mr_id row) d)) c1 of
                    (Inl err, c2) \<Rightarrow> (Inl (storage_error y ''Failed to delete message'' err), c2)
                  | (Inr _, c2) \<Rightarrow> receive_rows x y (env_from 4 e) queue_id queue t vt rows c2))
          | None \<Rightarrow>
             (case generate_receipt_handle x (uuid e 0) queue_id (mr_id row) of
                None \<Rightarrow> (Inl secret_unset, c)
              | Some handle \<Rightarrow>
                 (case run_write OnTx (\<lambda>d. Inr (update_messages (\<lambda>r. mr_id r = mr_id row)
                         (mark_in_flight (receive_count m) handle
                            (timestamp_millis (t + seconds (int (unat vt))))) d)) c of
                    (Inl err, c1) \<Rightarrow> (Inl (storage_error y ''Failed to update message state'' err), c1)
                  | (Inr _, c1) \<Rightarrow>
                     (case receive_rows x y (env_from 1 e) queue_id queue t vt rows c1 of
                        (Inl err, c2) \<Rightarrow> (Inl err, c2)
                      | (Inr rest, c2) \<Rightarrow> (Inr (\<lparr> rm_message = m, receipt_handle = handle \<rparr> # rest), c2))))))"

definition receive_messages_sqlite ::
    "ext \<Rightarrow> sql_ext \<Rightarrow> env \<Rightarrow> string \<Rightarrow> receive_options \<Rightarrow> sqlite \<Rightarrow> received_message list result \<times> sqlite" where
  "receive_messages_sqlite x y e queue_id options d =
     (case get_queue_sqlite y queue_id d of
        Inl err \<Rightarrow> (Inl err, d)
      | Inr queue \<Rightarrow>
         (let t = now e 0;
              vt = (case ro_visibility_timeout options of Some v \<Rightarrow> v | None \<Rightarrow> visibility_timeout queue);
              limit = unat (u32_min (ro_max_messages options) 10);
              c = tx_select (begin_tx d);
              rows = (if qc_type queue = SqsFifo then fifo_rows queue_id (timestamp_millis t) limit (tx_read c)
                      else standard_rows queue_id (timestamp_millis t) limit (tx_read c)) in
          case receive_rows x y (env_from 1 e) queue_id queue t vt rows c of
            (Inl err, c') \<Rightarrow> (Inl err, committed c')
          | (Inr received, c') \<Rightarrow> (Inr received, commit_tx c')))"

section \<open>Acknowledging\<close>

definition held_row :: "string \<Rightarrow> string \<Rightarrow> string \<Rightarrow> message_row \<Rightarrow> bool" where
  "held_row queue_id message_id handle r \<longleftrightarrow>
     mr_queue_id r = queue_id \<and> mr_id r = message_id \<and> mr_receipt_handle r = Some handle"

definition delete_message_sqlite :: "ext \<Rightarrow> string \<Rightarrow> string \<Rightarrow> sqlite \<Rightarrow> unit result \<times> sqlite" where
  "delete_message_sqlite x queue_id handle d =
     (case parse_receipt_handle x handle of
        Inl err \<Rightarrow> (Inl err, d)
      | Inr data \<Rightarrow>
          if rh_queue_id data \<noteq> queue_id then (Inl InvalidReceiptHandle, d)
          else if rows_affected (held_row queue_id (rh_message_id data) handle) d = 0
          then (Inl (MessageNotFound (rh_message_id data)), d)
          else (Inr (), delete_messages (held_row queue_id (rh_message_id data) handle) d))"

definition change_visibility_sqlite ::
    "ext \<Rightarrow> env \<Rightarrow> string \<Rightarrow> string \<Rightarrow> u32 \<Rightarrow> sqlite \<Rightarrow> unit result \<times> sqlite" where
  "change_visibility_sqlite x e queue_id handle vt d =
     (case parse_receipt_handle x handle of
        Inl err \<Rightarrow> (Inl err, d)
      | Inr data \<Rightarrow>
          if rh_queue_id data \<noteq> queue_id then (Inl InvalidReceiptHandle, d)
          else
           (let held = held_row queue_id (rh_message_id data) handle;
                change = (if vt = 0 then make_available (timestamp_millis (now e 0))
                          else (\<lambda>r. r\<lparr>mr_visibility_expires_at :=
                                 Some (timestamp_millis (now e 0 + seconds (int (unat vt))))\<rparr>)) in
            if rows_affected held d = 0 then (Inl (MessageNotFound (rh_message_id data)), d)
            else (Inr (), update_messages held change d)))"

definition purge_queue_sqlite :: "sql_ext \<Rightarrow> string \<Rightarrow> sqlite \<Rightarrow> unit result \<times> sqlite" where
  "purge_queue_sqlite y queue_id d =
     (case get_queue_sqlite y queue_id d of
        Inl err \<Rightarrow> (Inl err, d)
      | Inr _ \<Rightarrow> (Inr (), delete_messages (\<lambda>r. mr_queue_id r = queue_id) d))"

definition get_stats_sqlite :: "sql_ext \<Rightarrow> string \<Rightarrow> sqlite \<Rightarrow> queue_stats result" where
  "get_stats_sqlite y queue_id d =
     (case get_queue_sqlite y queue_id d of
        Inl err \<Rightarrow> Inl err
      | Inr _ \<Rightarrow>
         (let in_state = (\<lambda>st. filter (\<lambda>r. mr_queue_id r = queue_id \<and> mr_state r = st) (messages_table d));
              sent = map mr_sent_timestamp (in_state ''available'') in
          Inr \<lparr> st_available_messages = length (in_state ''available''),
                st_in_flight_messages = length (in_state ''in_flight''),
                st_dlq_messages = 0,
                oldest_message_timestamp =
                  (case sent of [] \<Rightarrow> None | n # ns \<Rightarrow> from_timestamp_millis y (fold min ns n)) \<rparr>))"

section \<open>Subscriptions\<close>

definition subscription_to_row :: "int \<Rightarrow> subscription_config \<Rightarrow> subscription_row" where
  "subscription_to_row t c =
     (let retry = Option.bind (push_config c) retry_policy in
      \<lparr> sr_id = sub_id c, sr_name = sub_name c, sr_topic_id = sub_topic_id c,
        sr_ack_deadline_seconds = u32_as_i64 (ack_deadline_seconds c),
        sr_push_endpoint = map_option endpoint (push_config c),
        sr_retry_min_backoff_seconds = map_option (\<lambda>r. u32_as_i64 (min_backoff_seconds r)) retry,
        sr_retry_max_backoff_seconds = map_option (\<lambda>r. u32_as_i64 (max_backoff_seconds r)) retry,
        sr_retry_max_attempts = map_option (\<lambda>r. u32_as_i64 (max_attempts r)) retry,
        sr_push_timeout_seconds =
          Option.bind (push_config c) (\<lambda>p. map_option u32_as_i64 (timeout_seconds p)),
        sr_enable_message_ordering = enable_message_ordering c,
        sr_filter = sub_filter c,
        sr_dead_letter_topic_id = map_option dead_letter_topic (dead_letter_policy c),
        sr_max_delivery_attempts =
          map_option (\<lambda>p. u32_as_i64 (max_delivery_attempts p)) (dead_letter_policy c),
        sr_retain_acked_messages = False,
        sr_message_retention_duration = u32_as_i64 (message_retention_duration c),
        sr_created_at = t, sr_updated_at = t \<rparr>)"

definition column_or :: "u32 \<Rightarrow> int option \<Rightarrow> u32" where
  "column_or default_value column = (case column of None \<Rightarrow> default_value | Some i \<Rightarrow> i64_as_u32 i)"

definition row_to_subscription :: "subscription_row \<Rightarrow> subscription_config" where
  "row_to_subscription r =
     \<lparr> sub_id = sr_id r, sub_name = sr_name r, sub_topic_id = sr_topic_id r,
       ack_deadline_seconds = i64_as_u32 (sr_ack_deadline_seconds r),
       message_retention_duration = i64_as_u32 (sr_message_retention_duration r),
       enable_message_ordering = sr_enable_message_ordering r,
       sub_filter = sr_filter r,
       dead_letter_policy =
         map_option (\<lambda>topic_id. \<lparr> dead_letter_topic = topic_id,
             max_delivery_attempts = column_or 5 (sr_max_delivery_attempts r) \<rparr>) (sr_dead_letter_topic_id r),
       push_config =
         map_option (\<lambda>url. \<lparr> endpoint = url,
             retry_policy =
               (if sr_retry_min_backoff_seconds r \<noteq> None then
                  Some \<lparr> min_backoff_seconds = column_or 10 (sr_retry_min_backoff_seconds r),
                         max_backoff_seconds = column_or 600 (sr_retry_max_backoff_seconds r),
                         max_attempts = column_or 5 (sr_retry_max_attempts r) \<rparr>
                else None),
             timeout_seconds = map_option i64_as_u32 (sr_push_timeout_seconds r) \<rparr>) (sr_push_endpoint r) \<rparr>"

definition create_subscription_sqlite ::
    "sql_ext \<Rightarrow> env \<Rightarrow> subscription_config \<Rightarrow> sqlite \<Rightarrow> subscription_config result \<times> sqlite" where
  "create_subscription_sqlite y e c d =
     (case insert_subscription (subscription_to_row (timestamp (now e 0)) c) d of
        Inr d' \<Rightarrow> (Inr c, d')
      | Inl err \<Rightarrow>
          if contains ''UNIQUE constraint failed'' (sql_text y err)
          then (Inl (StorageError (''Subscription '' @ sub_id c @ '' already exists'')), d)
          else (Inl (storage_error y ''Failed to create subscription'' err), d))"

definition get_subscription_sqlite :: "string \<Rightarrow> sqlite \<Rightarrow> subscription_config result" where
  "get_subscription_sqlite k d =
     (case find_subscription k d of
        None \<Rightarrow> Inl (SubscriptionNotFound k) | Some r \<Rightarrow> Inr (row_to_subscription r))"

definition delete_subscription_sqlite :: "string \<Rightarrow> sqlite \<Rightarrow> unit result \<times> sqlite" where
  "delete_subscription_sqlite k d =
     (if find_subscription k d = None then (Inl (SubscriptionNotFound k), d)
      else (Inr (), d\<lparr>subscriptions_table := filter (\<lambda>r. sr_id r \<noteq> k) (subscriptions_table d)\<rparr>))"

definition list_subscriptions_sqlite :: "sqlite \<Rightarrow> subscription_config list result" where
  "list_subscriptions_sqlite d = Inr (map row_to_subscription (sort_key sr_name (subscriptions_table d)))"

definition health_check_sqlite :: "sqlite \<Rightarrow> health_status result" where
  "health_check_sqlite d = Inr Healthy"

section \<open>The trait object\<close>

definition sqlite_backend :: "ext \<Rightarrow> sql_ext \<Rightarrow> sqlite backend" where
  "sqlite_backend x y =
     \<lparr> be_create_queue = create_queue_sqlite y,
       be_get_queue = get_queue_sqlite y,
       be_delete_queue = delete_queue_sqlite,
       be_list_queues = list_queues_sqlite y,
       be_update_queue = update_queue_sqlite y,
       be_send_message = send_message_sqlite x y,
       be_send_messages = send_messages_sqlite x y,
       be_receive_messages = receive_messages_sqlite x y,
       be_delete_message = delete_message_sqlite x,
       be_change_visibility = change_visibility_sqlite x,
       be_purge_queue = purge_queue_sqlite y,
       be_get_stats = get_stats_sqlite y,
       be_create_subscription = create_subscription_sqlite y,
       be_get_subscription = get_subscription_sqlite,
       be_delete_subscription = delete_subscription_sqlite,
       be_list_subscriptions = list_subscriptions_sqlite,
       be_health_check = health_check_sqlite,
       be_process_expired_visibility = process_expired_visibility_sqlite \<rparr>"

end
