(* ===== verification/Sqlite_Laws.thy ===== *)
theory Sqlite_Laws
  imports Sqlite
begin

text \<open>
  The invariant of the database (keys, foreign keys, the states of the message rows) and the facts
  about statements and operations the SQLite theorems share.
\<close>

section \<open>Round trips of the rows\<close>

lemma queue_type_roundtrip [simp]: "string_to_queue_type (queue_type_to_string ty) = Inr ty"
  by (cases ty) (simp_all add: string_to_queue_type_def)

text \<open>The configuration a row gives back: the tags have passed through the JSON text.\<close>

definition reread_tags :: "sql_ext \<Rightarrow> queue_config \<Rightarrow> queue_config" where
  "reread_tags y c =
     c\<lparr>tags := (case Option.bind (tags_json y c) (de_tags y) of None \<Rightarrow> [] | Some ts \<Rightarrow> ts)\<rparr>"

lemma sql_lawsD:
  assumes "sql_laws y"
  shows "contains ''UNIQUE constraint failed'' (sql_text y (UniqueFailed column))"
    and "\<not> contains ''UNIQUE constraint failed'' (sql_text y ForeignKeyFailed)"
    and "Option.bind (ser_dlq_config y dlq) (de_dlq_config y) = Some dlq"
    and "Option.bind (ser_allow_policy y policy) (de_allow_policy y) = Some policy"
    and "\<exists>js ts'. ser_tags y ts = Some js \<and> de_tags y js = Some ts' \<and> map_of ts' = map_of ts"
    and "\<exists>js as'. ser_attributes y as = Some js \<and> de_attributes y js = Some as' \<and> map_of as' = map_of as"
proof -
  show "Option.bind (ser_dlq_config y dlq) (de_dlq_config y) = Some dlq"
    "Option.bind (ser_allow_policy y policy) (de_allow_policy y) = Some policy"
    using assms unfolding sql_laws_def by (metis bind_eq_Some_conv)+
qed (use assms in \<open>simp_all add: sql_laws_def\<close>)

lemma reread_tags_same: "sql_laws y \<Longrightarrow> same_config c (reread_tags y c)"
  using sql_lawsD(5) [of y "tags c"] by (auto simp: same_config_def reread_tags_def tags_json_def)

lemma reread_tags_plain [simp]: "tags c = [] \<Longrightarrow> reread_tags y c = c"
  by (cases c) (simp add: reread_tags_def tags_json_def)

lemma config_row_roundtrip:
  assumes "sql_laws y" and "max_message_size c < 2 ^ 64"
  shows "row_to_config y (config_to_row y t c) = Inr (reread_tags y c)"
  using assms by (cases c) (simp add: row_to_config_def config_to_row_def sql_lawsD reread_tags_def tags_json_def)

lemma update_row_roundtrip:
  assumes "sql_laws y" and "max_message_size c < 2 ^ 64" and "qr_id r = qc_id c" and "qr_name r = qc_name c"
    and "string_to_queue_type (qr_queue_type r) = Inr (qc_type c)"
  shows "row_to_config y (update_row y t c r) = Inr (reread_tags y c)"
  using assms by (cases c) (simp add: row_to_config_def update_row_def sql_lawsD reread_tags_def tags_json_def)

lemma i64_as_usize_less [simp]: "i64_as_usize i < 18446744073709551616"
  using unsigned_less [of "word_of_int i :: u64", where ?'a = nat] by (simp add: i64_as_usize_def)

lemma row_to_config_fields:
  "row_to_config y r = Inr c \<Longrightarrow> qc_id c = qr_id r \<and> qc_name c = qr_name r \<and>
     string_to_queue_type (qr_queue_type r) = Inr (qc_type c) \<and> max_message_size c < 2 ^ 64"
  by (auto simp: row_to_config_def split: sum.splits)

lemma subscription_row_roundtrip [simp]: "row_to_subscription (subscription_to_row t c) = c"
  by (cases c) (auto simp: row_to_subscription_def subscription_to_row_def column_or_def Let_def
      option.map_comp o_def map_option_case split: option.split)

lemma message_row_roundtrip:
  assumes "sql_laws y" and "millis_valid y (timestamp_millis (sent_timestamp m))" and "msg_queue_id m = k"
  shows "\<exists>as. map_of as = map_of (attributes m) \<and>
    parse_message_row y (message_to_row y k delay t m) =
      Inr (m\<lparr>sent_timestamp := timestamp_millis (sent_timestamp m) * 1000000, msg_delay_seconds := Some delay,
        attributes := as\<rparr>)"
proof -
  obtain js as where as: "ser_attributes y (attributes m) = Some js" "de_attributes y js = Some as"
    "map_of as = map_of (attributes m)"
    using sql_lawsD(6) [OF assms(1), of "attributes m"] by blast
  then show ?thesis
    using assms(2,3) by (intro exI [of _ "if attributes m = [] then [] else as"], cases m)
      (simp add: parse_message_row_def message_to_row_def from_timestamp_millis_def option.map_comp o_def option.map_ident)
qed

section \<open>The invariant\<close>

text \<open>A message row is either available, with no handle, or in flight with one and a deadline.\<close>

definition row_available :: "message_row \<Rightarrow> bool" where
  "row_available r \<longleftrightarrow>
     mr_state r = ''available'' \<and> mr_receipt_handle r = None \<and> mr_visibility_expires_at r = None"

definition row_in_flight :: "message_row \<Rightarrow> bool" where
  "row_in_flight r \<longleftrightarrow>
     mr_state r = ''in_flight'' \<and> mr_receipt_handle r \<noteq> None \<and> mr_visibility_expires_at r \<noteq> None"

definition known_queues :: "sqlite \<Rightarrow> string set" where
  "known_queues d = qr_id ` set (queues_table d)"

definition keys_ok :: "sqlite \<Rightarrow> bool" where
  "keys_ok d \<longleftrightarrow>
     distinct (map qr_id (queues_table d)) \<and> distinct (map qr_name (queues_table d)) \<and>
     distinct (map mr_id (messages_table d)) \<and>
     distinct (map (\<lambda>r. (dr_queue_id r, dr_deduplication_id r)) (dedup_table d)) \<and>
     distinct (map sr_id (subscriptions_table d)) \<and> distinct (map sr_name (subscriptions_table d))"

definition references_ok :: "sqlite \<Rightarrow> bool" where
  "references_ok d \<longleftrightarrow>
     mr_queue_id ` set (messages_table d) \<subseteq> known_queues d \<and>
     dr_queue_id ` set (dedup_table d) \<subseteq> known_queues d \<and>
     sr_topic_id ` set (subscriptions_table d) \<subseteq> known_queues d"

definition rows_ok :: "sqlite \<Rightarrow> bool" where
  "rows_ok d \<longleftrightarrow>
     (\<forall>r \<in> set (queues_table d). \<exists>ty. string_to_queue_type (qr_queue_type r) = Inr ty) \<and>
     (\<forall>r \<in> set (messages_table d). row_available r \<or> row_in_flight r)"

definition db_ok :: "sqlite \<Rightarrow> bool" where
  "db_ok d \<longleftrightarrow> keys_ok d \<and> references_ok d \<and> rows_ok d"

lemmas db_ok_defs = db_ok_def keys_ok_def references_ok_def rows_ok_def known_queues_def

lemma empty_database_ok: "db_ok empty_database"
  by (simp add: db_ok_defs empty_database_def)

lemma find_queue_None: "find_queue k d = None \<longleftrightarrow> k \<notin> known_queues d"
  by (auto simp: find_queue_def find_None_iff known_queues_def)

lemma find_queue_Some: "find_queue k d = Some r \<Longrightarrow> r \<in> set (queues_table d) \<and> qr_id r = k"
  by (auto simp: find_queue_def find_Some_iff)

lemma find_queue_in: "keys_ok d \<Longrightarrow> r \<in> set (queues_table d) \<Longrightarrow> find_queue (qr_id r) d = Some r"
proof -
  assume "keys_ok d" and r: "r \<in> set (queues_table d)"
  then have inj: "inj_on qr_id (set (queues_table d))" by (simp add: keys_ok_def distinct_map)
  obtain p where "find_queue (qr_id r) d = Some p"
    using r by (cases "find_queue (qr_id r) d") (auto simp: find_queue_None known_queues_def)
  with find_queue_Some [OF this] inj r show ?thesis by (auto dest: inj_onD)
qed

section \<open>Statements keep it\<close>

lemma insert_queue_iff:
  "insert_queue r d = Inr d' \<longleftrightarrow>
     qr_id r \<notin> known_queues d \<and> qr_name r \<notin> qr_name ` set (queues_table d) \<and>
     d' = d\<lparr>queues_table := queues_table d @ [r]\<rparr>"
  unfolding insert_queue_def known_queues_def image_iff by (simp, metis)

lemma insert_message_iff:
  "insert_message r d = Inr d' \<longleftrightarrow>
     mr_id r \<notin> mr_id ` set (messages_table d) \<and> mr_queue_id r \<in> known_queues d \<and>
     d' = d\<lparr>messages_table := messages_table d @ [r]\<rparr>"
  unfolding insert_message_def find_queue_None image_iff by (simp, metis)

lemma insert_subscription_iff:
  "insert_subscription r d = Inr d' \<longleftrightarrow>
     sr_id r \<notin> sr_id ` set (subscriptions_table d) \<and> sr_name r \<notin> sr_name ` set (subscriptions_table d) \<and>
     sr_topic_id r \<in> known_queues d \<and> d' = d\<lparr>subscriptions_table := subscriptions_table d @ [r]\<rparr>"
  unfolding insert_subscription_def find_queue_None image_iff by (simp, metis)

lemma insert_queue_ok:
  "\<lbrakk>db_ok d; insert_queue r d = Inr d'; string_to_queue_type (qr_queue_type r) = Inr ty\<rbrakk> \<Longrightarrow> db_ok d'"
  unfolding insert_queue_iff by (simp add: db_ok_defs subset_insertI2)

lemma insert_message_ok: "\<lbrakk>db_ok d; insert_message r d = Inr d'; row_available r\<rbrakk> \<Longrightarrow> db_ok d'"
  unfolding insert_message_iff by (simp add: db_ok_defs)

lemma insert_subscription_ok: "\<lbrakk>db_ok d; insert_subscription r d = Inr d'\<rbrakk> \<Longrightarrow> db_ok d'"
  unfolding insert_subscription_iff by (simp add: db_ok_defs)

lemma put_dedup_ok:
  assumes "db_ok d" and "put_dedup r d = Inr d'"
  shows "db_ok d'"
proof -
  define others where "others = filter (\<lambda>p. \<not> (dr_queue_id p = dr_queue_id r \<and>
    dr_deduplication_id p = dr_deduplication_id r)) (dedup_table d)"
  have d': "d' = d\<lparr>dedup_table := others @ [r]\<rparr>" "dr_queue_id r \<in> known_queues d"
    using assms(2) by (auto simp: put_dedup_def find_queue_None others_def split: if_splits)
  have "distinct (map (\<lambda>p. (dr_queue_id p, dr_deduplication_id p)) others)"
    using assms(1) by (simp add: db_ok_defs others_def distinct_map_filter)
  moreover have "(dr_queue_id r, dr_deduplication_id r) \<notin> (\<lambda>p. (dr_queue_id p, dr_deduplication_id p)) ` set others"
    by (auto simp: others_def)
  moreover have "dr_queue_id ` set others \<subseteq> known_queues d"
    using assms(1) by (auto simp: db_ok_defs others_def)
  ultimately show ?thesis using assms(1) d'(2) by (simp add: db_ok_defs d'(1))
qed

lemma delete_queue_row_ok: "db_ok d \<Longrightarrow> db_ok (delete_queue_row k d)"
  by (auto simp: db_ok_defs delete_queue_row_def distinct_map_filter)

lemma update_messages_ok:
  assumes "db_ok d"
    and "\<And>r. P r \<Longrightarrow> row_available r \<or> row_in_flight r \<Longrightarrow>
      mr_id (f r) = mr_id r \<and> mr_queue_id (f r) = mr_queue_id r \<and> (row_available (f r) \<or> row_in_flight (f r))"
  shows "db_ok (update_messages P f d)"
proof -
  have rows: "\<forall>r \<in> set (messages_table d). row_available r \<or> row_in_flight r"
    using assms(1) by (simp add: db_ok_defs)
  have "map mr_id (messages_table (update_messages P f d)) = map mr_id (messages_table d)"
    "map mr_queue_id (messages_table (update_messages P f d)) = map mr_queue_id (messages_table d)"
    using rows assms(2) by (auto simp: update_messages_def)
  moreover from this(2) have "mr_queue_id ` set (messages_table (update_messages P f d)) = mr_queue_id ` set (messages_table d)"
    by (metis list.set_map)
  moreover have "\<forall>r \<in> set (messages_table (update_messages P f d)). row_available r \<or> row_in_flight r"
    using rows assms(2) by (auto simp: update_messages_def)
  ultimately show ?thesis
    using assms(1) by (simp add: db_ok_defs) (simp add: update_messages_def)
qed

lemma delete_messages_ok: "db_ok d \<Longrightarrow> db_ok (delete_messages P d)"
  by (auto simp: db_ok_defs delete_messages_def distinct_map_filter)

lemma make_available_row [simp]:
  "row_available (make_available t r)" "mr_id (make_available t r) = mr_id r"
  "mr_queue_id (make_available t r) = mr_queue_id r"
  by (simp_all add: make_available_def row_available_def)

lemma mark_in_flight_row [simp]:
  "row_in_flight (mark_in_flight n h t r)" "mr_id (mark_in_flight n h t r) = mr_id r"
  "mr_queue_id (mark_in_flight n h t r) = mr_queue_id r"
  by (simp_all add: mark_in_flight_def row_in_flight_def)

lemma message_to_row_available [simp]: "row_available (message_to_row y k delay t m)"
  by (simp add: message_to_row_def row_available_def)

end
