(* ===== verification/Sqlite_Ops.thy ===== *)
theory Sqlite_Ops
  imports Sqlite_Laws
begin

text \<open>
  Every operation of the SQLite backend keeps the invariant of the database.  What a transaction
  keeps is stated once, in the locale \<open>statement_invariant\<close>: a predicate that the statements of
  sending and receiving keep holds of the committed database and of the view of the transaction at
  every moment of the operation.
\<close>

definition connection_all :: "(sqlite \<Rightarrow> bool) \<Rightarrow> connection \<Rightarrow> bool" where
  "connection_all P c \<longleftrightarrow> P (committed c) \<and> (\<forall>v. tx_view c = Some v \<longrightarrow> P v)"

lemma connection_all_begin [simp]: "connection_all P (begin_tx d) \<longleftrightarrow> P d"
  by (simp add: connection_all_def begin_tx_def)

lemma connection_all_select [simp]: "connection_all P (tx_select c) \<longleftrightarrow> connection_all P c"
  by (auto simp: connection_all_def tx_select_def tx_read_def split: option.splits)

lemma connection_all_read: "connection_all P c \<Longrightarrow> P (tx_read c)"
  by (simp add: connection_all_def tx_read_def split: option.split)

lemma connection_all_committed: "connection_all P c \<Longrightarrow> P (committed c)"
  by (simp add: connection_all_def)

lemma connection_all_commit: "connection_all P c \<Longrightarrow> P (commit_tx c)"
  by (simp add: commit_tx_def connection_all_read connection_all_committed)

lemma run_write_all:
  assumes "connection_all P c" and "\<And>d d'. P d \<Longrightarrow> stmt d = Inr d' \<Longrightarrow> P d'"
  shows "connection_all P (snd (run_write ex stmt c))"
  using assms by (auto simp: run_write_def connection_all_def tx_read_def split: executor.split sum.split option.splits)

locale statement_invariant =
  fixes P :: "sqlite \<Rightarrow> bool"
  assumes insert_message: "\<lbrakk>P d; row_available r; insert_message r d = Inr d'\<rbrakk> \<Longrightarrow> P d'"
    and put_dedup: "\<lbrakk>P d; put_dedup entry d = Inr d'\<rbrakk> \<Longrightarrow> P d'"
    and mark: "P d \<Longrightarrow> P (update_messages (\<lambda>r. mr_id r = i) (mark_in_flight n h t) d)"
    and delete: "P d \<Longrightarrow> P (delete_messages Q d)"
begin

lemma put_dedup_all: "connection_all P c \<Longrightarrow> connection_all P (snd (run_write ex (put_dedup entry) c))"
  by (rule run_write_all) (auto intro: put_dedup)

lemma fifo_prepare: "connection_all P c \<Longrightarrow> connection_all P (snd (fifo_prepare x y e k q m c))"
  by (auto simp: fifo_prepare_def Let_def split_beta put_dedup_all split: option.split sum.split)

lemma send_impl: "connection_all P c \<Longrightarrow> connection_all P (snd (send_message_impl x y ex e k m c))"
proof (cases "get_queue_sqlite y k (committed c)")
  case (Inr q)
  assume c: "connection_all P c"
  obtain r c1 where prep: "(if qc_type q = SqsFifo then fifo_prepare x y e k q m c else (Inr (Some m), c)) = (r, c1)"
    by fastforce
  then have "connection_all P c1" using fifo_prepare [OF c, of x y e k q m] c by (auto split: if_splits)
  then have "connection_all P (snd (run_write ex (insert_message (message_to_row y k delay t m1)) c1))" for delay t m1
    by (rule run_write_all) (erule insert_message [OF _ message_to_row_available])
  with \<open>connection_all P c1\<close> show ?thesis
    by (auto simp: send_message_impl_def Inr prep Let_def split_beta split: sum.split option.split)
qed (simp add: send_message_impl_def)

lemma send_message: "P d \<Longrightarrow> P (snd (send_message_sqlite x y e k m d))"
  using connection_all_committed [OF send_impl, of "begin_tx d" x y OnPool e k m]
  by (simp add: send_message_sqlite_def split_beta)

lemma send_loop: "connection_all P c \<Longrightarrow> connection_all P (snd (send_messages_loop x y e k ms c))"
proof (induction ms arbitrary: c e)
  case (Cons m ms)
  obtain r c1 where send: "send_message_impl x y OnTx e k m c = (r, c1)" by fastforce
  with send_impl [OF Cons.prems, of x y OnTx e k m] have c1: "connection_all P c1" by simp
  show ?case using Cons.IH [OF c1, of "env_from 3 e"] c1 by (simp add: send split_beta split: sum.split)
qed simp

lemma send_messages: "P d \<Longrightarrow> P (snd (send_messages_sqlite x y e k ms d))"
  using send_loop [of "begin_tx d" x y e k ms]
  by (auto simp: send_messages_sqlite_def connection_all_committed connection_all_commit
      split_beta split: sum.split)

lemma mark_all: "connection_all P c \<Longrightarrow>
    connection_all P (snd (run_write OnTx (\<lambda>d. Inr (update_messages (\<lambda>r. mr_id r = i) (mark_in_flight n h t) d)) c))"
  by (rule run_write_all) (auto intro: mark)

lemma delete_all: "connection_all P c \<Longrightarrow>
    connection_all P (snd (run_write OnTx (\<lambda>d. Inr (delete_messages Q d)) c))"
  by (rule run_write_all) (auto intro: delete)

lemma receive_rows: "connection_all P c \<Longrightarrow> connection_all P (snd (receive_rows x y e k q t vt rows c))"
  by (induction rows arbitrary: c e)
    (auto simp: Let_def split_beta mark_all delete_all send_impl split: sum.split option.split)

lemma receive_messages: "P d \<Longrightarrow> P (snd (receive_messages_sqlite x y e k ro d))"
  by (auto simp: receive_messages_sqlite_def Let_def split_beta receive_rows connection_all_committed
      connection_all_commit split: sum.split)

end

interpretation kept: statement_invariant db_ok
  by unfold_locales
    (auto intro: insert_message_ok put_dedup_ok delete_messages_ok update_messages_ok)

text \<open>Sending and receiving do not touch the tables of queues and subscriptions.\<close>

interpretation frame: statement_invariant "\<lambda>d. queues_table d = qs \<and> subscriptions_table d = ss" for qs ss
  by unfold_locales
    (auto simp: insert_message_iff put_dedup_def delete_messages_def update_messages_def split: if_splits)

section \<open>The other operations\<close>

lemma create_queue_sqlite_ok: "db_ok d \<Longrightarrow> db_ok (snd (create_queue_sqlite y e c d))"
  by (auto simp: create_queue_sqlite_def config_to_row_def intro: insert_queue_ok split: sum.split)

lemma update_queue_sqlite_ok:
  assumes "db_ok d"
  shows "db_ok (snd (update_queue_sqlite y e c d))"
proof -
  define f where "f = (\<lambda>r. if qr_id r = qc_id c then update_row y (timestamp (now e 0)) c r else r)"
  have f: "qr_id (f r) = qr_id r" "qr_name (f r) = qr_name r" "qr_queue_type (f r) = qr_queue_type r" for r
    by (simp_all add: f_def update_row_def)
  have "map qr_id (map f (queues_table d)) = map qr_id (queues_table d)"
    "map qr_name (map f (queues_table d)) = map qr_name (queues_table d)"
    "qr_id ` f ` set (queues_table d) = qr_id ` set (queues_table d)"
    by (simp_all add: f image_image)
  then have "db_ok (d\<lparr>queues_table := map f (queues_table d)\<rparr>)"
    using assms by (simp add: db_ok_defs f del: map_map)
  then show ?thesis using assms by (simp add: update_queue_sqlite_def f_def)
qed

lemma delete_queue_sqlite_ok: "db_ok d \<Longrightarrow> db_ok (snd (delete_queue_sqlite k d))"
  by (simp add: delete_queue_sqlite_def delete_queue_row_ok)

lemma delete_message_sqlite_ok: "db_ok d \<Longrightarrow> db_ok (snd (delete_message_sqlite x k h d))"
  by (simp add: delete_message_sqlite_def delete_messages_ok split: sum.split)

lemma change_visibility_sqlite_ok: "db_ok d \<Longrightarrow> db_ok (snd (change_visibility_sqlite x e k h vt d))"
  by (auto simp: change_visibility_sqlite_def Let_def row_available_def row_in_flight_def
      held_row_def make_available_def
      intro!: update_messages_ok split: sum.split)

lemma purge_queue_sqlite_ok: "db_ok d \<Longrightarrow> db_ok (snd (purge_queue_sqlite y k d))"
  by (simp add: purge_queue_sqlite_def delete_messages_ok split: sum.split)

lemma create_subscription_sqlite_ok: "db_ok d \<Longrightarrow> db_ok (snd (create_subscription_sqlite y e c d))"
  by (auto simp: create_subscription_sqlite_def intro: insert_subscription_ok split: sum.split)

lemma delete_subscription_sqlite_ok: "db_ok d \<Longrightarrow> db_ok (snd (delete_subscription_sqlite k d))"
  by (auto simp: delete_subscription_sqlite_def db_ok_defs distinct_map_filter)

lemma process_expired_visibility_sqlite_ok: "db_ok d \<Longrightarrow> db_ok (snd (process_expired_visibility_sqlite e k d))"
  by (auto simp: process_expired_visibility_sqlite_def Let_def intro!: update_messages_ok)

lemma cleanup_deduplication_cache_sqlite_ok: "db_ok d \<Longrightarrow> db_ok (snd (cleanup_deduplication_cache_sqlite e d))"
  by (auto simp: cleanup_deduplication_cache_sqlite_def Let_def db_ok_defs distinct_map_filter)

lemma delete_expired_loop_ok: "db_ok d \<Longrightarrow> db_ok (snd (delete_expired_loop t rows d n))"
  by (induction rows arbitrary: d n) (simp_all add: Let_def delete_messages_ok)

lemma delete_expired_messages_ok: "db_ok d \<Longrightarrow> db_ok (snd (delete_expired_messages e d))"
  using delete_expired_loop_ok by (simp add: delete_expired_messages_def split_beta)

section \<open>Reachable databases\<close>

datatype sql_op =
    CreateQueue env queue_config
  | UpdateQueue env queue_config
  | DeleteQueue string
  | Send env string message
  | SendBatch env string "message list"
  | Receive env string receive_options
  | Delete string string
  | ChangeVisibility env string string u32
  | Purge string
  | CreateSubscription env subscription_config
  | DeleteSubscription string
  | ExpireVisibility env string
  | ExpireDedup env
  | ExpireMessages env

text \<open>The database after an operation, whatever the operation returns.\<close>

fun run_sql :: "ext \<Rightarrow> sql_ext \<Rightarrow> sql_op \<Rightarrow> sqlite \<Rightarrow> sqlite" where
  "run_sql x y (CreateQueue e c) d = snd (create_queue_sqlite y e c d)"
| "run_sql x y (UpdateQueue e c) d = snd (update_queue_sqlite y e c d)"
| "run_sql x y (DeleteQueue k) d = snd (delete_queue_sqlite k d)"
| "run_sql x y (Send e k m) d = snd (send_message_sqlite x y e k m d)"
| "run_sql x y (SendBatch e k ms) d = snd (send_messages_sqlite x y e k ms d)"
| "run_sql x y (Receive e k ro) d = snd (receive_messages_sqlite x y e k ro d)"
| "run_sql x y (Delete k h) d = snd (delete_message_sqlite x k h d)"
| "run_sql x y (ChangeVisibility e k h vt) d = snd (change_visibility_sqlite x e k h vt d)"
| "run_sql x y (Purge k) d = snd (purge_queue_sqlite y k d)"
| "run_sql x y (CreateSubscription e c) d = snd (create_subscription_sqlite y e c d)"
| "run_sql x y (DeleteSubscription k) d = snd (delete_subscription_sqlite k d)"
| "run_sql x y (ExpireVisibility e k) d = snd (process_expired_visibility_sqlite e k d)"
| "run_sql x y (ExpireDedup e) d = snd (cleanup_deduplication_cache_sqlite e d)"
| "run_sql x y (ExpireMessages e) d = snd (delete_expired_messages e d)"

inductive sql_reachable :: "ext \<Rightarrow> sql_ext \<Rightarrow> sqlite \<Rightarrow> bool" for x y where
  sql_start: "sql_reachable x y empty_database"
| sql_next: "sql_reachable x y d \<Longrightarrow> sql_reachable x y (run_sql x y op d)"

lemma run_sql_ok: "db_ok d \<Longrightarrow> db_ok (run_sql x y op d)"
  by (cases op)
    (simp_all add: create_queue_sqlite_ok update_queue_sqlite_ok delete_queue_sqlite_ok kept.send_message
      kept.send_messages kept.receive_messages delete_message_sqlite_ok change_visibility_sqlite_ok
      purge_queue_sqlite_ok create_subscription_sqlite_ok delete_subscription_sqlite_ok
      process_expired_visibility_sqlite_ok cleanup_deduplication_cache_sqlite_ok delete_expired_messages_ok)

end
