(* ===== verification/Sqlite_Contract.thy ===== *)
theory Sqlite_Contract
  imports Sqlite_Ops Pubsub_Contract
begin

text \<open>
  The SQLite backend keeps the contracts the SQS handlers and the Pub/Sub services rely on: the
  interpretations of \<open>queue_store\<close> and \<open>pubsub_store\<close> on \<open>sqlite_backend\<close>.  Unlike the memory it
  wants the names of queues and subscriptions unique and sizes below \<open>2 ^ 64\<close>, and it deletes the
  subscriptions of a deleted topic.
\<close>

definition sqlite_lookup :: "sql_ext \<Rightarrow> sqlite \<Rightarrow> string \<Rightarrow> queue_config option" where
  "sqlite_lookup y d k =
     (case find_queue k d of None \<Rightarrow> None
      | Some r \<Rightarrow> (case row_to_config y r of Inl _ \<Rightarrow> None | Inr c \<Rightarrow> Some c))"

definition sqlite_sub_lookup :: "sqlite \<Rightarrow> string \<Rightarrow> subscription_config option" where
  "sqlite_sub_lookup d k = map_option row_to_subscription (find_subscription k d)"

definition queue_name_free :: "sqlite \<Rightarrow> string \<Rightarrow> bool" where
  "queue_name_free d n \<longleftrightarrow> n \<notin> qr_name ` set (queues_table d)"

definition subscription_name_free :: "sqlite \<Rightarrow> string \<Rightarrow> bool" where
  "subscription_name_free d n \<longleftrightarrow> n \<notin> sr_name ` set (subscriptions_table d)"

definition sqlite_inv :: "sql_ext \<Rightarrow> sqlite \<Rightarrow> bool" where
  "sqlite_inv y d \<longleftrightarrow> sql_laws y \<and> db_ok d"

lemma row_decodes: "db_ok d \<Longrightarrow> r \<in> set (queues_table d) \<Longrightarrow> \<exists>c. row_to_config y r = Inr c"
  by (fastforce simp: db_ok_defs row_to_config_def)

lemma lookup_None: "db_ok d \<Longrightarrow> sqlite_lookup y d k = None \<longleftrightarrow> find_queue k d = None"
  by (cases "find_queue k d") (auto simp: sqlite_lookup_def dest!: find_queue_Some row_decodes [where y = y] split: sum.split)

lemma lookup_Some: "sqlite_lookup y d k = Some c \<longleftrightarrow>
    (\<exists>r. find_queue k d = Some r \<and> row_to_config y r = Inr c)"
  by (auto simp: sqlite_lookup_def split: option.splits sum.splits)

lemma get_queue_lookup: "db_ok d \<Longrightarrow> get_queue_sqlite y k d =
    (case sqlite_lookup y d k of None \<Rightarrow> Inl (QueueNotFound k) | Some c \<Rightarrow> Inr c)"
  by (cases "find_queue k d")
    (auto simp: get_queue_sqlite_def sqlite_lookup_def dest!: find_queue_Some row_decodes [where y = y] split: sum.split)

lemma lookup_frame: "queues_table d' = queues_table d \<Longrightarrow> sqlite_lookup y d' = sqlite_lookup y d"
  by (simp add: sqlite_lookup_def find_queue_def fun_eq_iff)

lemma sub_lookup_frame: "subscriptions_table d' = subscriptions_table d \<Longrightarrow> sqlite_sub_lookup d' = sqlite_sub_lookup d"
  by (simp add: sqlite_sub_lookup_def find_subscription_def fun_eq_iff)

section \<open>Create, update, delete\<close>

lemma find_append_new: "find P (xs @ [a]) = (case find P xs of None \<Rightarrow> if P a then Some a else None | Some v \<Rightarrow> Some v)"
  by (induction xs) auto

lemma create_queue_lookup:
  assumes "sqlite_inv y d" and "sqlite_lookup y d (qc_id c) = None" and "queue_name_free d (qc_name c)"
    and "max_message_size c < 2 ^ 64"
  shows "\<exists>d'. create_queue_sqlite y e c d = (Inr c, d') \<and> sqlite_inv y d' \<and>
    sqlite_lookup y d' = (sqlite_lookup y d)(qc_id c \<mapsto> reread_tags y c)"
proof -
  define r where "r = config_to_row y (timestamp (now e 0)) c"
  define d' where "d' = d\<lparr>queues_table := queues_table d @ [r]\<rparr>"
  have r: "qr_id r = qc_id c" "qr_name r = qc_name c" by (simp_all add: r_def config_to_row_def)
  have new: "find_queue (qc_id c) d = None"
    using assms(1,2) by (simp add: lookup_None sqlite_inv_def)
  then have "insert_queue r d = Inr d'"
    using assms(3) by (simp add: insert_queue_iff r find_queue_None queue_name_free_def d'_def)
  then have created: "create_queue_sqlite y e c d = (Inr c, d')"
    by (simp add: create_queue_sqlite_def r_def)
  have "row_to_config y r = Inr (reread_tags y c)"
    using assms(1,4) by (simp add: r_def sqlite_inv_def config_row_roundtrip)
  with new have "sqlite_lookup y d' = (sqlite_lookup y d)(qc_id c \<mapsto> reread_tags y c)"
    by (auto simp: fun_eq_iff sqlite_lookup_def find_queue_def d'_def find_append_new r split: option.split)
  with created create_queue_sqlite_ok [of d y e c] assms(1) show ?thesis by (simp add: sqlite_inv_def)
qed

lemma create_queue_taken:
  assumes "sqlite_inv y d" and "sqlite_lookup y d (qc_id c) \<noteq> None"
  shows "create_queue_sqlite y e c d = (Inl (QueueAlreadyExists (qc_id c)), d)"
proof -
  have "qc_id c \<in> known_queues d"
    using assms find_queue_None [of "qc_id c" d] by (auto simp: lookup_None sqlite_inv_def)
  then have "insert_queue (config_to_row y t c) d = Inl (UniqueFailed ''queues.id'')" for t
    by (auto simp: insert_queue_def config_to_row_def known_queues_def)
  with assms(1) show ?thesis by (simp add: create_queue_sqlite_def sqlite_inv_def sql_lawsD)
qed

lemma find_map_key:
  "(\<And>r. key (f r) = key r) \<Longrightarrow> find (\<lambda>r. key r = k) (map f rs) = map_option f (find (\<lambda>r. key r = k) rs)"
  by (induction rs) auto

lemma update_queue_lookup:
  assumes "sqlite_inv y d" and "sqlite_lookup y d (qc_id c) = Some c0" and "qc_name c = qc_name c0"
    and "qc_type c = qc_type c0" and "max_message_size c < 2 ^ 64"
  shows "\<exists>d'. update_queue_sqlite y e c d = (Inr c, d') \<and> sqlite_inv y d' \<and>
    sqlite_lookup y d' = (sqlite_lookup y d)(qc_id c \<mapsto> reread_tags y c)"
proof -
  define f where "f = (\<lambda>r. if qr_id r = qc_id c then update_row y (timestamp (now e 0)) c r else r)"
  define d' where "d' = d\<lparr>queues_table := map f (queues_table d)\<rparr>"
  obtain r0 where r0: "find_queue (qc_id c) d = Some r0" "row_to_config y r0 = Inr c0"
    using assms(2) by (auto simp: lookup_Some)
  have f_id: "qr_id (f r) = qr_id r" for r by (simp add: f_def update_row_def)
  have find: "find_queue k d' = map_option f (find_queue k d)" for k
    by (simp add: find_queue_def d'_def find_map_key [where key = qr_id, OF f_id])
  have updated: "update_queue_sqlite y e c d = (Inr c, d')"
    using r0(1) by (simp add: update_queue_sqlite_def d'_def f_def)
  have "qr_id r0 = qc_id c" using find_queue_Some [OF r0(1)] by simp
  with row_to_config_fields [OF r0(2)] assms have "row_to_config y (f r0) = Inr (reread_tags y c)"
    by (simp add: f_def sqlite_inv_def update_row_roundtrip)
  then have "sqlite_lookup y d' = (sqlite_lookup y d)(qc_id c \<mapsto> reread_tags y c)"
    by (auto simp: fun_eq_iff sqlite_lookup_def find r0(1) f_def split: option.split dest: find_queue_Some)
  with updated update_queue_sqlite_ok [of d y e c] assms(1) show ?thesis by (simp add: sqlite_inv_def)
qed

lemma find_filter_key:
  "find (\<lambda>r. key r = k) (filter (\<lambda>r. key r \<noteq> j) rs) = (if k = j then None else find (\<lambda>r. key r = k) rs)"
  by (induction rs) auto

lemma delete_queue_lookup_sqlite:
  assumes "sqlite_inv y d" and "sqlite_lookup y d k \<noteq> None"
  shows "\<exists>d'. delete_queue_sqlite k d = (Inr (), d') \<and> sqlite_inv y d' \<and>
    sqlite_lookup y d' = (sqlite_lookup y d)(k := None)"
proof -
  have deleted: "delete_queue_sqlite k d = (Inr (), delete_queue_row k d)"
    using assms by (simp add: delete_queue_sqlite_def lookup_None sqlite_inv_def)
  have "sqlite_lookup y (delete_queue_row k d) = (sqlite_lookup y d)(k := None)"
    by (simp add: fun_eq_iff sqlite_lookup_def find_queue_def delete_queue_row_def find_filter_key)
  with deleted assms(1) show ?thesis by (simp add: sqlite_inv_def delete_queue_row_ok)
qed

section \<open>The interpretations\<close>

lemma insert_message_queues: "insert_message r d = Inr d' \<Longrightarrow> queues_table d' = queues_table d"
  by (simp add: insert_message_iff)

lemma send_none_sqlite:
  assumes "sqlite_inv y d" and "sqlite_lookup y d k = None"
  shows "send_message_sqlite x y e k m d = (Inl (QueueNotFound k), d)"
  using assms get_queue_lookup [of d y k]
  by (simp add: send_message_sqlite_def send_message_impl_def sqlite_inv_def begin_tx_def)

lemma send_impl_same:
  "send_message_impl x y ex e k m c = (Inr m', c') \<Longrightarrow> msg_id m' = msg_id m \<and> body m' = body m"
  by (auto simp: send_message_impl_def fifo_prepare_def Let_def split_beta split: if_splits sum.splits option.splits)

lemma send_same_sqlite:
  "send_message_sqlite x y e k m d = (Inr m', d') \<Longrightarrow> msg_id m' = msg_id m \<and> body m' = body m"
  by (auto simp: send_message_sqlite_def dest: send_impl_same split: prod.splits)

lemma get_stats_some:
  assumes "sqlite_inv y d" and "sqlite_lookup y d k \<noteq> None"
  shows "\<exists>st. get_stats_sqlite y k d = Inr st"
proof -
  obtain c where "get_queue_sqlite y k d = Inr c"
    using assms get_queue_lookup [of d y k] by (auto simp: sqlite_inv_def split: option.splits)
  then show ?thesis by (simp add: get_stats_sqlite_def Let_def)
qed

text \<open>The operations on messages leave the table of queues alone.\<close>

lemma keeps_by_tables:
  assumes "sqlite_inv y d" and "db_ok d'" and "queues_table d' = queues_table d"
  shows "sqlite_inv y d' \<and> sqlite_lookup y d' = sqlite_lookup y d"
  using assms(1,2) by (simp add: sqlite_inv_def lookup_frame [OF assms(3)])

lemma message_operations_keep:
  assumes "sqlite_inv y d"
  shows "sqlite_inv y (snd (send_message_sqlite x y e k m d)) \<and>
      sqlite_lookup y (snd (send_message_sqlite x y e k m d)) = sqlite_lookup y d"
    and "sqlite_inv y (snd (receive_messages_sqlite x y e k ro d)) \<and>
      sqlite_lookup y (snd (receive_messages_sqlite x y e k ro d)) = sqlite_lookup y d"
    and "sqlite_inv y (snd (delete_message_sqlite x k h d)) \<and>
      sqlite_lookup y (snd (delete_message_sqlite x k h d)) = sqlite_lookup y d"
    and "sqlite_inv y (snd (change_visibility_sqlite x e k h vt d)) \<and>
      sqlite_lookup y (snd (change_visibility_sqlite x e k h vt d)) = sqlite_lookup y d"
    and "sqlite_inv y (snd (purge_queue_sqlite y k d)) \<and>
      sqlite_lookup y (snd (purge_queue_sqlite y k d)) = sqlite_lookup y d"
proof -
  have ok: "db_ok d" using assms by (simp add: sqlite_inv_def)
  note keeps = keeps_by_tables [OF assms]
  show "sqlite_inv y (snd (send_message_sqlite x y e k m d)) \<and>
      sqlite_lookup y (snd (send_message_sqlite x y e k m d)) = sqlite_lookup y d"
    using frame.send_message [of d "queues_table d" "subscriptions_table d" x y e k m]
    by (intro keeps kept.send_message [OF ok]) simp
  show "sqlite_inv y (snd (receive_messages_sqlite x y e k ro d)) \<and>
      sqlite_lookup y (snd (receive_messages_sqlite x y e k ro d)) = sqlite_lookup y d"
    using frame.receive_messages [of d "queues_table d" "subscriptions_table d" x y e k ro]
    by (intro keeps kept.receive_messages [OF ok]) simp
  show "sqlite_inv y (snd (delete_message_sqlite x k h d)) \<and>
      sqlite_lookup y (snd (delete_message_sqlite x k h d)) = sqlite_lookup y d"
    by (intro keeps delete_message_sqlite_ok [OF ok])
      (auto simp: delete_message_sqlite_def delete_messages_def split: sum.split)
  show "sqlite_inv y (snd (change_visibility_sqlite x e k h vt d)) \<and>
      sqlite_lookup y (snd (change_visibility_sqlite x e k h vt d)) = sqlite_lookup y d"
    by (intro keeps change_visibility_sqlite_ok [OF ok])
      (auto simp: change_visibility_sqlite_def update_messages_def Let_def split: sum.split)
  show "sqlite_inv y (snd (purge_queue_sqlite y k d)) \<and>
      sqlite_lookup y (snd (purge_queue_sqlite y k d)) = sqlite_lookup y d"
    by (intro keeps purge_queue_sqlite_ok [OF ok])
      (auto simp: purge_queue_sqlite_def delete_messages_def split: sum.split)
qed

lemma sqlite_backend_sel [simp]:
  "be_create_queue (sqlite_backend x y) = create_queue_sqlite y"
  "be_get_queue (sqlite_backend x y) = get_queue_sqlite y"
  "be_delete_queue (sqlite_backend x y) = delete_queue_sqlite"
  "be_update_queue (sqlite_backend x y) = update_queue_sqlite y"
  "be_send_message (sqlite_backend x y) = send_message_sqlite x y"
  "be_send_messages (sqlite_backend x y) = send_messages_sqlite x y"
  "be_receive_messages (sqlite_backend x y) = receive_messages_sqlite x y"
  "be_delete_message (sqlite_backend x y) = delete_message_sqlite x"
  "be_change_visibility (sqlite_backend x y) = change_visibility_sqlite x"
  "be_purge_queue (sqlite_backend x y) = purge_queue_sqlite y"
  "be_get_stats (sqlite_backend x y) = get_stats_sqlite y"
  "be_list_queues (sqlite_backend x y) = list_queues_sqlite y"
  "be_create_subscription (sqlite_backend x y) = create_subscription_sqlite y"
  "be_get_subscription (sqlite_backend x y) = get_subscription_sqlite"
  "be_delete_subscription (sqlite_backend x y) = delete_subscription_sqlite"
  "be_list_subscriptions (sqlite_backend x y) = list_subscriptions_sqlite"
  "be_process_expired_visibility (sqlite_backend x y) = process_expired_visibility_sqlite"
  by (simp_all add: sqlite_backend_def)

interpretation sq: queue_store "sqlite_backend x y" "sqlite_inv y" "sqlite_lookup y" queue_name_free "\<lambda>n. n < 2 ^ 64"
    "reread_tags y" for x y
proof
  fix s :: sqlite and k :: string
  assume inv: "sqlite_inv y s"
  then have "db_ok s" by (simp add: sqlite_inv_def)
  then show "be_get_queue (sqlite_backend x y) k s =
      (case sqlite_lookup y s k of None \<Rightarrow> Inl (QueueNotFound k) | Some c \<Rightarrow> Inr c)"
    by (simp add: get_queue_lookup)
  show "qc_id c = k" if "sqlite_lookup y s k = Some c" for c
    using that find_queue_Some by (auto simp: lookup_Some dest!: row_to_config_fields)
  show "same_config c (reread_tags y c)" for c
    using inv by (simp add: sqlite_inv_def reread_tags_same)
  show "max_message_size c < 2 ^ 64" if "sqlite_lookup y s k = Some c" for c
    using that by (auto simp: lookup_Some dest!: row_to_config_fields)
  show "be_delete_queue (sqlite_backend x y) k s = (Inl (QueueNotFound k), s)" if "sqlite_lookup y s k = None"
    using that lookup_None [OF \<open>db_ok s\<close>] by (simp add: delete_queue_sqlite_def)
  show "\<exists>err s'. be_send_message (sqlite_backend x y) e k m s = (Inl err, s')" if "sqlite_lookup y s k = None" for e m
    using send_none_sqlite [OF inv that] by simp
next
  fix e k m s m' s'
  assume "be_send_message (sqlite_backend x y) e k m s = (Inr m', s')"
  then show "msg_id m' = msg_id m \<and> body m' = body m" by (simp add: send_same_sqlite)
qed (simp_all add: create_queue_lookup create_queue_taken update_queue_lookup delete_queue_lookup_sqlite
    get_stats_some message_operations_keep)

lemma create_subscription_lookup:
  assumes "sqlite_inv y d" and "sqlite_sub_lookup d (sub_id c) = None"
    and "sqlite_lookup y d (sub_topic_id c) \<noteq> None" and "subscription_name_free d (sub_name c)"
  shows "\<exists>d'. create_subscription_sqlite y e c d = (Inr c, d') \<and> sqlite_inv y d' \<and>
    sqlite_lookup y d' = sqlite_lookup y d \<and> sqlite_sub_lookup d' = (sqlite_sub_lookup d)(sub_id c \<mapsto> c)"
proof -
  define r where "r = subscription_to_row (timestamp (now e 0)) c"
  define d' where "d' = d\<lparr>subscriptions_table := subscriptions_table d @ [r]\<rparr>"
  have r: "sr_id r = sub_id c" "sr_name r = sub_name c" "sr_topic_id r = sub_topic_id c" "row_to_subscription r = c"
    by (simp_all add: r_def) (simp_all add: subscription_to_row_def Let_def)
  have new: "find_subscription (sub_id c) d = None" using assms(2) by (simp add: sqlite_sub_lookup_def)
  have "sub_topic_id c \<in> known_queues d"
    using assms(1,3) find_queue_None [of "sub_topic_id c" d] by (auto simp: lookup_None sqlite_inv_def)
  then have "insert_subscription r d = Inr d'"
    using assms(4) new by (auto simp: insert_subscription_iff r d'_def subscription_name_free_def
        find_subscription_def find_None_iff)
  then have created: "create_subscription_sqlite y e c d = (Inr c, d')"
    by (simp add: create_subscription_sqlite_def r_def)
  have "sqlite_sub_lookup d' = (sqlite_sub_lookup d)(sub_id c \<mapsto> c)"
    using new by (auto simp: fun_eq_iff sqlite_sub_lookup_def find_subscription_def d'_def find_append_new r
        split: option.split)
  moreover have "sqlite_lookup y d' = sqlite_lookup y d" by (rule lookup_frame) (simp add: d'_def)
  ultimately show ?thesis
    using created create_subscription_sqlite_ok [of d y e c] assms(1) by (simp add: sqlite_inv_def)
qed

lemma delete_subscription_lookup:
  assumes "sqlite_inv y d" and "sqlite_sub_lookup d k \<noteq> None"
  shows "\<exists>d'. delete_subscription_sqlite k d = (Inr (), d') \<and> sqlite_inv y d' \<and>
    sqlite_lookup y d' = sqlite_lookup y d \<and> sqlite_sub_lookup d' = (sqlite_sub_lookup d)(k := None)"
proof -
  define d' where "d' = d\<lparr>subscriptions_table := filter (\<lambda>r. sr_id r \<noteq> k) (subscriptions_table d)\<rparr>"
  have deleted: "delete_subscription_sqlite k d = (Inr (), d')"
    using assms(2) by (simp add: delete_subscription_sqlite_def sqlite_sub_lookup_def d'_def)
  have "sqlite_sub_lookup d' = (sqlite_sub_lookup d)(k := None)"
    by (simp add: fun_eq_iff sqlite_sub_lookup_def find_subscription_def d'_def find_filter_key)
  moreover have "sqlite_lookup y d' = sqlite_lookup y d" by (rule lookup_frame) (simp add: d'_def)
  ultimately show ?thesis
    using deleted delete_subscription_sqlite_ok [of d k] assms(1) by (simp add: sqlite_inv_def)
qed

text \<open>The cascade of a deleted queue reaches the subscriptions of that topic only.\<close>

lemma find_filter_all: "(\<And>r. r \<in> set rs \<Longrightarrow> P r \<Longrightarrow> Q r) \<Longrightarrow> find P (filter Q rs) = find P rs"
  by (induction rs) auto

lemma sub_lookup_in:
  assumes "db_ok d" and "r \<in> set (subscriptions_table d)"
  shows "sqlite_sub_lookup d (sr_id r) = Some (row_to_subscription r)"
proof -
  have inj: "inj_on sr_id (set (subscriptions_table d))" using assms(1) by (simp add: db_ok_defs distinct_map)
  obtain p where "find_subscription (sr_id r) d = Some p"
    using assms(2) by (cases "find_subscription (sr_id r) d") (auto simp: find_subscription_def find_None_iff)
  moreover from this have "p = r"
    using inj assms(2) by (auto simp: find_subscription_def find_Some_iff dest: inj_onD)
  ultimately show ?thesis by (simp add: sqlite_sub_lookup_def)
qed

lemma delete_queue_sub_lookup:
  assumes "sqlite_inv y d" and "\<forall>j c. sqlite_sub_lookup d j = Some c \<longrightarrow> sub_topic_id c \<noteq> k"
  shows "sqlite_sub_lookup (snd (delete_queue_sqlite k d)) = sqlite_sub_lookup d"
proof -
  have "sr_topic_id r \<noteq> k" if "r \<in> set (subscriptions_table d)" for r
  proof -
    have "sub_topic_id (row_to_subscription r) \<noteq> k"
      using sub_lookup_in [OF _ that] assms by (simp add: sqlite_inv_def)
    then show ?thesis by (simp add: row_to_subscription_def)
  qed
  then show ?thesis
    by (simp add: fun_eq_iff sqlite_sub_lookup_def find_subscription_def delete_queue_sqlite_def
        delete_queue_row_def find_filter_all)
qed

interpretation sq_pubsub: pubsub_store "sqlite_backend x y" "sqlite_inv y" "sqlite_lookup y" queue_name_free
    "\<lambda>n. n < 2 ^ 64" "reread_tags y" sqlite_sub_lookup subscription_name_free True for x y
proof
  fix s :: sqlite and e :: env and qc :: queue_config
  show "sqlite_sub_lookup (snd (be_create_queue (sqlite_backend x y) e qc s)) = sqlite_sub_lookup s \<and>
      subscription_name_free (snd (be_create_queue (sqlite_backend x y) e qc s)) = subscription_name_free s"
    by (auto simp: create_queue_sqlite_def insert_queue_iff fun_eq_iff sqlite_sub_lookup_def find_subscription_def
        subscription_name_free_def split: sum.split)
qed (simp_all add: get_subscription_sqlite_def sqlite_sub_lookup_def create_subscription_lookup
    delete_subscription_lookup delete_queue_sub_lookup split: option.split)

end
