(* ===== verification/Sqlite_Samples.thy ===== *)
theory Sqlite_Samples
  imports Sqlite_Contract Samples
begin

text \<open>
  A concrete instance of the database driver and of the JSON functions, which shows that \<open>sql_laws\<close>
  can hold, and a small database for the witnesses.
\<close>

section \<open>A text format for the JSON columns\<close>

fun pack :: "string list \<Rightarrow> string" where
  "pack [] = []"
| "pack (w # ws) = CHR ''/'' # letters w @ pack ws"

definition unpack :: "string \<Rightarrow> string list option" where
  "unpack s = those (map unletters (tl (split_on (CHR ''/'') s)))"

lemma split_pack: "CHR ''/'' \<notin> set u \<Longrightarrow> split_on (CHR ''/'') (u @ pack ws) = u # map letters ws"
proof (induction ws arbitrary: u)
  case (Cons w ws)
  show ?case using Cons.IH [OF slash_letters] by (simp add: split_on_append [OF Cons.prems])
qed (simp add: split_on_no_sep)

lemma those_Some [simp]: "those (map Some ws) = Some ws"
  by (induction ws) auto

lemma unpack_pack [simp]: "unpack (pack ws) = Some ws"
  using split_pack [of "[]" ws] by (simp add: unpack_def o_def)

fun pack_option :: "string option \<Rightarrow> string" where
  "pack_option None = []"
| "pack_option (Some s) = CHR ''S'' # s"

fun unpack_option :: "string \<Rightarrow> string option" where
  "unpack_option [] = None"
| "unpack_option (c # s) = Some s"

lemma unpack_pack_option [simp]: "unpack_option (pack_option v) = v"
  by (cases v) simp_all

fun flat_tags :: "(string \<times> string) list \<Rightarrow> string list" where
  "flat_tags [] = []"
| "flat_tags ((k, v) # ts) = k # v # flat_tags ts"

fun unflat_tags :: "string list \<Rightarrow> (string \<times> string) list" where
  "unflat_tags (k # v # ws) = (k, v) # unflat_tags ws"
| "unflat_tags _ = []"

lemma unflat_flat_tags [simp]: "unflat_tags (flat_tags ts) = ts"
  by (induction ts rule: flat_tags.induct) simp_all

fun flat_attributes :: "(string \<times> message_attribute_value) list \<Rightarrow> string list" where
  "flat_attributes [] = []"
| "flat_attributes ((k, v) # as) =
     k # data_type v # pack_option (string_value v) # pack_option (binary_value v) # flat_attributes as"

fun unflat_attributes :: "string list \<Rightarrow> (string \<times> message_attribute_value) list" where
  "unflat_attributes (k # ty # s # b # ws) =
     (k, \<lparr> data_type = ty, string_value = unpack_option s, binary_value = unpack_option b \<rparr>) # unflat_attributes ws"
| "unflat_attributes _ = []"

lemma unflat_flat_attributes [simp]: "unflat_attributes (flat_attributes as) = as"
  by (induction as rule: flat_attributes.induct) simp_all

fun flat_policy :: "redrive_permission \<Rightarrow> string list" where
  "flat_policy AllowAll = [''A'']"
| "flat_policy DenyAll = [''D'']"
| "flat_policy (ByQueue arns) = ''Q'' # arns"

definition unflat_policy :: "string list \<Rightarrow> redrive_permission" where
  "unflat_policy ws =
     (case ws of [] \<Rightarrow> AllowAll
      | w # arns \<Rightarrow> if w = ''A'' then AllowAll else if w = ''D'' then DenyAll else ByQueue arns)"

lemma unflat_flat_policy [simp]: "unflat_policy (flat_policy p) = p"
  by (cases p) (simp_all add: unflat_policy_def)

fun flat_dlq :: "dlq_target \<Rightarrow> string list" where
  "flat_dlq d = [target_queue_id d, show_nat (unat (max_receive_count d))]"

definition unflat_dlq :: "string list \<Rightarrow> dlq_target option" where
  "unflat_dlq ws =
     (case ws of [k, n] \<Rightarrow> map_option (\<lambda>c. \<lparr> target_queue_id = k, max_receive_count = c \<rparr>) (parse_u32 n) | _ \<Rightarrow> None)"

lemma unflat_flat_dlq [simp]: "unflat_dlq (flat_dlq d) = Some d"
  by (simp add: unflat_dlq_def parse_u32_show)

section \<open>The driver\<close>

fun sample_text :: "sql_error \<Rightarrow> string" where
  "sample_text (UniqueFailed column) = ''UNIQUE constraint failed: '' @ column"
| "sample_text ForeignKeyFailed = ''FOREIGN KEY constraint failed''"
| "sample_text DatabaseLocked = ''database is locked''"
| "sample_text ColumnDecode = ''mismatched types''"

definition sample_sql :: sql_ext where
  "sample_sql =
     \<lparr> sql_text = sample_text,
       ser_dlq_config = (\<lambda>d. Some (pack (flat_dlq d))), de_dlq_config = (\<lambda>s. Option.bind (unpack s) unflat_dlq),
       ser_tags = (\<lambda>ts. Some (pack (flat_tags ts))), de_tags = (\<lambda>s. map_option unflat_tags (unpack s)),
       ser_allow_policy = (\<lambda>p. Some (pack (flat_policy p))),
       de_allow_policy = (\<lambda>s. map_option unflat_policy (unpack s)),
       ser_attributes = (\<lambda>as. Some (pack (flat_attributes as))),
       de_attributes = (\<lambda>s. map_option unflat_attributes (unpack s)),
       millis_valid = (\<lambda>_. True) \<rparr>"

lemma sample_text_unique:
  "contains ''UNIQUE constraint failed'' (sample_text err) \<longleftrightarrow> (\<exists>column. err = UniqueFailed column)"
proof (cases err)
  case (UniqueFailed column)
  have "contains ''UNIQUE constraint failed'' (''UNIQUE constraint failed'' @ '': '' @ column)"
    unfolding contains_def find_sub_here by simp
  with UniqueFailed show ?thesis by simp
qed (simp_all add: contains_def)

lemma sample_sql_laws: "sql_laws sample_sql"
  by (simp add: sql_laws_def sample_text_unique sample_sql_def del: flat_dlq.simps)

lemma sample_millis [simp]: "millis_valid sample_sql t"
  by (simp add: sample_sql_def)

end
