(* ===== verification/Sqlite_Receive.thy ===== *)
theory Sqlite_Receive
  imports Sqlite_Samples
begin

text \<open>
  What receiving from the SQLite backend does: the transaction seen from outside, the rows the
  queries select, and the delivery when no message is due for its dead letter queue.
\<close>

section \<open>Transactions\<close>

lemma begin_simps [simp]:
  "committed (begin_tx d) = d" "tx_read (begin_tx d) = d" "tx_view (begin_tx d) = None"
  "\<not> tx_written (begin_tx d)" "\<not> tx_stale (begin_tx d)"
  by (simp_all add: begin_tx_def tx_read_def)

lemma select_simps [simp]:
  "committed (tx_select c) = committed c" "tx_read (tx_select c) = tx_read c"
  "tx_written (tx_select c) = tx_written c" "tx_stale (tx_select c) = tx_stale c"
  "tx_view (tx_select c) = Some (tx_read c)"
  by (simp_all add: tx_select_def tx_read_def)

definition written :: "sqlite \<Rightarrow> connection \<Rightarrow> connection" where
  "written d c = c\<lparr>tx_view := Some d, tx_written := True\<rparr>"

lemma written_simps [simp]:
  "committed (written d c) = committed c" "tx_read (written d c) = d" "tx_written (written d c)"
  "tx_stale (written d c) = tx_stale c"
  by (simp_all add: written_def tx_read_def)

lemma written_written [simp]: "written d (written d' c) = written d c"
  by (simp add: written_def)

lemma tx_write:
  "\<not> tx_stale c \<Longrightarrow> run_write OnTx stmt c =
     (case stmt (tx_read c) of Inl err \<Rightarrow> (Inl err, c) | Inr d \<Rightarrow> (Inr (), written d c))"
  by (simp add: run_write_def written_def split: sum.split)

lemma commit_written [simp]: "commit_tx (written d c) = d"
  by (simp add: commit_tx_def)

section \<open>The selected rows\<close>

definition selected_rows :: "queue_config \<Rightarrow> string \<Rightarrow> int \<Rightarrow> u32 \<Rightarrow> sqlite \<Rightarrow> message_row list" where
  "selected_rows q k t n d =
     (if qc_type q = SqsFifo then fifo_rows k (timestamp_millis t) (unat (u32_min n 10)) d
      else standard_rows k (timestamp_millis t) (unat (u32_min n 10)) d)"

lemma take_sort_in: "r \<in> set (take n (sort_key f rs)) \<Longrightarrow> r \<in> set rs"
  using set_take_subset [of n "sort_key f rs"] by auto

lemma selected_in:
  "r \<in> set (selected_rows q k t n d) \<Longrightarrow> r \<in> set (messages_table d) \<and> visible_row k (timestamp_millis t) r"
  by (auto simp: selected_rows_def fifo_rows_def standard_rows_def dest!: take_sort_in split: if_splits)

lemma distinct_sort_key: "distinct (map g xs) \<Longrightarrow> distinct (map g (sort_key f xs))"
  by (metis distinct_map distinct_sort set_sort)

lemma distinct_take_sort: "distinct (map g rs) \<Longrightarrow> distinct (map g (take m (sort_key f (filter P rs))))"
  by (simp add: take_map [symmetric] distinct_sort_key distinct_map_filter)

lemma selected_distinct:
  assumes "db_ok d"
  shows "distinct (map mr_id (selected_rows q k t n d))"
  using assms by (simp add: selected_rows_def fifo_rows_def standard_rows_def distinct_take_sort db_ok_defs)

text \<open>The first \<open>n\<close> of a sorted list: as many as there are, and nothing smaller is left out.\<close>

lemma take_sort_least:
  fixes f :: "'a \<Rightarrow> 'k::linorder"
  assumes "r \<in> set (take n (sort_key f rs))" and "p \<in> set rs" and "p \<notin> set (take n (sort_key f rs))"
  shows "f r \<le> f p"
proof -
  define ss where "ss = sort_key f rs"
  have "p \<in> set (drop n ss)"
    using assms(2,3) set_append [of "take n ss" "drop n ss"] by (auto simp: ss_def)
  moreover have "sorted (map f (take n ss) @ map f (drop n ss))"
    by (simp add: ss_def map_append [symmetric] del: map_append)
  ultimately show ?thesis using assms(1) by (auto simp: sorted_append ss_def)
qed

lemma standard_selected:
  assumes "qc_type q \<noteq> SqsFifo"
  shows "length (selected_rows q k t n d) =
      min (unat (u32_min n 10)) (length (filter (visible_row k (timestamp_millis t)) (messages_table d)))"
    and "\<lbrakk>r \<in> set (selected_rows q k t n d); p \<in> set (messages_table d); visible_row k (timestamp_millis t) p;
      p \<notin> set (selected_rows q k t n d)\<rbrakk> \<Longrightarrow> mr_sent_timestamp r \<le> mr_sent_timestamp p"
  using assms take_sort_least [of r _ mr_sent_timestamp "filter (visible_row k (timestamp_millis t)) (messages_table d)" p]
  by (auto simp: selected_rows_def standard_rows_def min.commute)

section \<open>Delivery\<close>

text \<open>The message a row stands for, as it is delivered.\<close>

definition next_message :: "sql_ext \<Rightarrow> message_row \<Rightarrow> message" where
  "next_message y r =
     (case parse_message_row y r of
        Inr m \<Rightarrow> m\<lparr>receive_count := receive_count m + 1\<rparr>
      | Inl _ \<Rightarrow> undefined)"

definition due_for_dlq :: "sql_ext \<Rightarrow> queue_config \<Rightarrow> message_row \<Rightarrow> bool" where
  "due_for_dlq y q r \<longleftrightarrow>
     (\<exists>dlq. dlq_config q = Some dlq \<and> max_receive_count dlq < i64_as_u32 (mr_receive_count r) + 1)"

lemma parse_valid:
  assumes "millis_valid y (mr_sent_timestamp r)"
  obtains m where "parse_message_row y r = Inr m" "msg_id m = mr_id r" "body m = mr_body r"
    "receive_count m = i64_as_u32 (mr_receive_count r)"
  using assms by (auto simp: parse_message_row_def from_timestamp_millis_def)

lemma exceeds_due:
  assumes "parse_message_row y r = Inr m"
  shows "exceeds_dlq q (m\<lparr>receive_count := receive_count m + 1\<rparr>) = None \<longleftrightarrow> \<not> due_for_dlq y q r"
proof -
  have "receive_count m = i64_as_u32 (mr_receive_count r)"
    using assms by (auto simp: parse_message_row_def split: option.splits)
  then show ?thesis by (auto simp: exceeds_dlq_def due_for_dlq_def split: option.splits)
qed

text \<open>The messages handed out for a list of rows; the \<open>i\<close>-th nonce is the \<open>i\<close>-th of the readings.\<close>

fun delivered :: "ext \<Rightarrow> sql_ext \<Rightarrow> env \<Rightarrow> string \<Rightarrow> message_row list \<Rightarrow> received_message list" where
  "delivered x y e k [] = []"
| "delivered x y e k (r # rs) =
     \<lparr> rm_message = next_message y r,
       receipt_handle = the (generate_receipt_handle x (uuid e 0) k (mr_id r)) \<rparr> # delivered x y (env_from 1 e) k rs"

text \<open>A row after a receive that handed out \<open>rms\<close>.\<close>

definition mark_received :: "int \<Rightarrow> received_message list \<Rightarrow> message_row \<Rightarrow> message_row" where
  "mark_received expires rms r =
     (case map_of (map (\<lambda>rm. (msg_id (rm_message rm), rm)) rms) (mr_id r) of
        None \<Rightarrow> r
      | Some rm \<Rightarrow> mark_in_flight (receive_count (rm_message rm)) (receipt_handle rm) expires r)"

definition mark_table :: "int \<Rightarrow> received_message list \<Rightarrow> sqlite \<Rightarrow> sqlite" where
  "mark_table expires rms d = d\<lparr>messages_table := map (mark_received expires rms) (messages_table d)\<rparr>"

lemma mark_table_Nil [simp]: "mark_table expires [] d = d"
  by (simp add: mark_table_def mark_received_def map_idI)

lemma mark_received_other:
  "mr_id r \<notin> msg_id ` rm_message ` set rms \<Longrightarrow> mark_received expires rms r = r"
  by (auto simp: mark_received_def map_of_eq_None_iff image_image split: option.split)
    (force dest: map_of_SomeD)

lemma mark_table_Cons:
  assumes "msg_id (rm_message rm) \<notin> msg_id ` rm_message ` set rms"
  shows "mark_table expires (rm # rms) d =
    mark_table expires rms (update_messages (\<lambda>r. mr_id r = msg_id (rm_message rm))
      (mark_in_flight (receive_count (rm_message rm)) (receipt_handle rm) expires) d)"
proof -
  have "mark_received expires (rm # rms) r = mark_received expires rms
      (if mr_id r = msg_id (rm_message rm)
       then mark_in_flight (receive_count (rm_message rm)) (receipt_handle rm) expires r else r)" for r
    using assms mark_received_other [of "mark_in_flight (receive_count (rm_message rm)) (receipt_handle rm) expires r" rms expires]
    by (auto simp: mark_received_def [of _ "rm # rms"] mark_received_def [of _ rms r])
  then show ?thesis by (simp add: mark_table_def update_messages_def)
qed

lemma delivered_ids:
  "\<forall>r \<in> set rows. millis_valid y (mr_sent_timestamp r) \<Longrightarrow>
     map (\<lambda>rm. msg_id (rm_message rm)) (delivered x y e k rows) = map mr_id rows"
proof (induction rows arbitrary: e)
  case (Cons r rows)
  obtain m where "parse_message_row y r = Inr m" "msg_id m = mr_id r"
    using Cons.prems by (auto elim: parse_valid)
  with Cons show ?case by (simp add: next_message_def)
qed simp

lemma delivered_id_set:
  "\<forall>r \<in> set rows. millis_valid y (mr_sent_timestamp r) \<Longrightarrow>
     msg_id ` rm_message ` set (delivered x y e k rows) = mr_id ` set rows"
  using arg_cong [OF delivered_ids, of rows y set x e k] by (simp add: image_image)

lemma receive_rows_delivers:
  assumes "receipt_secret x \<noteq> None" and "distinct (map mr_id rows)"
    and "\<forall>r \<in> set rows. millis_valid y (mr_sent_timestamp r)" and "\<forall>r \<in> set rows. \<not> due_for_dlq y q r"
    and "\<not> tx_stale c"
  shows "receive_rows x y e k q t vt rows c =
    (Inr (delivered x y e k rows),
     if rows = [] then c
     else written (mark_table (timestamp_millis (t + seconds (int (unat vt)))) (delivered x y e k rows) (tx_read c)) c)"
  using assms(2-)
proof (induction rows arbitrary: c e)
  case (Cons row rows)
  define expires where "expires = timestamp_millis (t + seconds (int (unat vt)))"
  obtain m where m: "parse_message_row y row = Inr m" "msg_id m = mr_id row"
    using Cons.prems(2) by (auto elim: parse_valid)
  obtain h where h: "generate_receipt_handle x (uuid e 0) k (mr_id row) = Some h"
    using assms(1) generate_None_iff [of x "uuid e 0" k "mr_id row"] by auto
  define rm where "rm = \<lparr> rm_message = next_message y row, receipt_handle = h \<rparr>"
  have nxt: "next_message y row = m\<lparr>receive_count := receive_count m + 1\<rparr>" by (simp add: next_message_def m)
  have none: "exceeds_dlq q (m\<lparr>receive_count := receive_count m + 1\<rparr>) = None"
    using Cons.prems(3) by (simp add: exceeds_due [OF m(1)])
  define d1 where "d1 = update_messages (\<lambda>r. mr_id r = mr_id row)
    (mark_in_flight (receive_count (next_message y row)) h expires) (tx_read c)"
  have rest: "receive_rows x y (env_from 1 e) k q t vt rows (written d1 c) =
      (Inr (delivered x y (env_from 1 e) k rows),
       if rows = [] then written d1 c else written (mark_table expires (delivered x y (env_from 1 e) k rows) d1) c)"
    using Cons.IH [of "written d1 c" "env_from 1 e"] Cons.prems by (simp add: expires_def)
  have "msg_id (rm_message rm) \<notin> msg_id ` rm_message ` set (delivered x y (env_from 1 e) k rows)"
    using Cons.prems(1,2) by (simp add: rm_def nxt m(2) delivered_id_set)
  then have "mark_table expires (rm # delivered x y (env_from 1 e) k rows) (tx_read c) =
      mark_table expires (delivered x y (env_from 1 e) k rows) d1"
    by (simp add: mark_table_Cons d1_def rm_def nxt m(2))
  with rest show ?case
    using none Cons.prems(4) unfolding receive_rows.simps(2) expires_def [symmetric]
    by (simp add: m h tx_write nxt [symmetric] d1_def [symmetric] rm_def [symmetric] Let_def)
qed simp

lemma receive_messages_delivers:
  assumes "get_queue_sqlite y k d = Inr q" and "db_ok d" and "receipt_secret x \<noteq> None"
    and "\<forall>r \<in> set (messages_table d). millis_valid y (mr_sent_timestamp r)"
    and "\<forall>r \<in> set (selected_rows q k (now e 0) (ro_max_messages ro) d). \<not> due_for_dlq y q r"
  defines "vt \<equiv> case ro_visibility_timeout ro of Some v \<Rightarrow> v | None \<Rightarrow> visibility_timeout q"
  defines "rms \<equiv> delivered x y (env_from 1 e) k (selected_rows q k (now e 0) (ro_max_messages ro) d)"
  shows "receive_messages_sqlite x y e k ro d =
    (Inr rms, mark_table (timestamp_millis (now e 0 + seconds (int (unat vt)))) rms d)"
proof -
  let ?rows = "selected_rows q k (now e 0) (ro_max_messages ro) d"
  have "\<forall>r \<in> set ?rows. millis_valid y (mr_sent_timestamp r)" using assms(4) by (auto dest: selected_in)
  from receive_rows_delivers [OF assms(3) selected_distinct [OF assms(2)] this assms(5), of "tx_select (begin_tx d)"
      "env_from 1 e" k "now e 0" vt]
  have "receive_rows x y (env_from 1 e) k q (now e 0) vt ?rows (tx_select (begin_tx d)) =
      (Inr rms, if ?rows = [] then tx_select (begin_tx d)
       else written (mark_table (timestamp_millis (now e 0 + seconds (int (unat vt)))) rms d) (tx_select (begin_tx d)))"
    unfolding rms_def select_simps begin_simps by simp
  then show ?thesis
    unfolding receive_messages_sqlite_def assms(1) Let_def sum.case vt_def [symmetric] select_simps begin_simps
      selected_rows_def [symmetric]
    by (cases "?rows = []") (simp_all add: commit_tx_def rms_def)
qed

lemma delivered_in:
  assumes "rm \<in> set (delivered x y e k rows)" and "receipt_secret x \<noteq> None"
  shows "\<exists>r \<in> set rows. \<exists>i. rm_message rm = next_message y r \<and>
    generate_receipt_handle x (uuid e i) k (mr_id r) = Some (receipt_handle rm)"
  using assms(1)
proof (induction rows arbitrary: e)
  case (Cons r rows)
  show ?case
  proof (cases "rm \<in> set (delivered x y (env_from 1 e) k rows)")
    case True
    from Cons.IH [OF this] show ?thesis by (auto simp del: One_nat_def)
  next
    case False
    moreover obtain h where "generate_receipt_handle x (uuid e 0) k (mr_id r) = Some h"
      using assms(2) generate_None_iff [of x "uuid e 0" k "mr_id r"] by auto
    ultimately show ?thesis using Cons.prems by auto
  qed
qed simp

lemma next_message_fields:
  assumes "millis_valid y (mr_sent_timestamp r)"
  shows "msg_id (next_message y r) = mr_id r" and "body (next_message y r) = mr_body r"
    and "receive_count (next_message y r) = i64_as_u32 (mr_receive_count r) + 1"
    and "message_group_id (next_message y r) = mr_message_group_id r"
    and "sequence_number (next_message y r) = map_option i64_as_u64 (mr_sequence_number r)"
  using assms by (simp_all add: next_message_def parse_message_row_def from_timestamp_millis_def)

text \<open>The row of a delivered message after the receive.\<close>

lemma mark_received_in:
  assumes "rm \<in> set rms" and "distinct (map (\<lambda>rm. msg_id (rm_message rm)) rms)" and "mr_id r = msg_id (rm_message rm)"
  shows "mark_received expires rms r = mark_in_flight (receive_count (rm_message rm)) (receipt_handle rm) expires r"
proof -
  have "map_of (map (\<lambda>rm. (msg_id (rm_message rm), rm)) rms) (msg_id (rm_message rm)) = Some rm"
    using assms(1,2) by (intro map_of_is_SomeI) (auto simp: o_def)
  then show ?thesis by (simp add: mark_received_def assms(3))
qed

lemma mark_received_id [simp]: "mr_id (mark_received expires rms r) = mr_id r"
  by (simp add: mark_received_def split: option.split)

section \<open>Messages due for the dead letter queue\<close>

text \<open>An insert whose identifier is still in the table fails.\<close>

lemma send_tx_taken:
  assumes "msg_id m \<in> mr_id ` set (messages_table (tx_read c))" and "\<not> tx_stale c"
    and "\<And>q. get_queue_sqlite y k (committed c) = Inr q \<Longrightarrow> qc_type q \<noteq> SqsFifo"
  shows "\<exists>err. send_message_impl x y OnTx e k m c = (Inl err, c)"
proof (cases "get_queue_sqlite y k (committed c)")
  case (Inr q)
  have "insert_message (message_to_row y k delay t m) (tx_read c) = Inl (UniqueFailed ''messages.id'')" for delay t
    using assms(1) by (auto simp: insert_message_def message_to_row_def)
  then show ?thesis
    using assms(3) [OF Inr] by (simp add: send_message_impl_def Inr tx_write [OF assms(2)] Let_def)
qed (simp add: send_message_impl_def)

lemma update_messages_ids:
  assumes "\<And>r. mr_id (f r) = mr_id r"
  shows "mr_id ` set (messages_table (update_messages P f d)) = mr_id ` set (messages_table d)"
proof -
  have "map mr_id (messages_table (update_messages P f d)) = map mr_id (messages_table d)"
    by (simp add: update_messages_def assms)
  then show ?thesis by (metis list.set_map)
qed

lemma due_row_fails:
  assumes "\<exists>r \<in> set rows. due_for_dlq y q r" and "mr_id ` set rows \<subseteq> mr_id ` set (messages_table (tx_read c))"
    and "\<not> tx_stale c" and "dlq_config q = Some dlq"
    and "\<And>tq. get_queue_sqlite y (target_queue_id dlq) (committed c) = Inr tq \<Longrightarrow> qc_type tq \<noteq> SqsFifo"
  shows "\<exists>err c'. receive_rows x y e k q t vt rows c = (Inl err, c') \<and> committed c' = committed c"
  using assms
proof (induction rows arbitrary: c e)
  case (Cons row rows)
  show ?case
  proof (cases "parse_message_row y row")
    case (Inr m)
    have id: "msg_id m = mr_id row" using Inr by (auto simp: parse_message_row_def split: option.splits)
    show ?thesis
    proof (cases "due_for_dlq y q row")
      case True
      then have due: "exceeds_dlq q (m\<lparr>receive_count := receive_count m + 1\<rparr>) = Some dlq"
        using exceeds_due [OF Inr, of q] Cons.prems(4) by (auto simp: exceeds_dlq_def split: if_splits)
      define sent where "sent = m\<lparr>receive_count := receive_count m + 1, sent_timestamp := now e 0, receive_count := 0,
        msg_queue_id := target_queue_id dlq\<rparr>"
      have "msg_id sent \<in> mr_id ` set (messages_table (tx_read c))"
        using Cons.prems(2) by (auto simp: sent_def id)
      then have "\<exists>err. send_message_impl x y OnTx (env_from 1 e) (target_queue_id dlq) sent c = (Inl err, c)"
        by (rule send_tx_taken) (use Cons.prems(3,5) in auto)
      then show ?thesis
        by (auto simp: Inr due sent_def Let_def)
    next
      case False
      then have none: "exceeds_dlq q (m\<lparr>receive_count := receive_count m + 1\<rparr>) = None"
        by (simp add: exceeds_due [OF Inr])
      define d1 where "d1 = (\<lambda>h. update_messages (\<lambda>r. mr_id r = mr_id row)
        (mark_in_flight (receive_count m + 1) h (timestamp_millis (t + seconds (uint vt)))) (tx_read c))"
      have "mr_id ` set (messages_table (d1 h)) = mr_id ` set (messages_table (tx_read c))" for h
        by (simp add: d1_def update_messages_ids)
      with Cons.IH [of "written (d1 h) c" "env_from 1 e" for h] Cons.prems False
      have "\<exists>err c'. receive_rows x y (env_from 1 e) k q t vt rows (written (d1 h) c) = (Inl err, c') \<and>
          committed c' = committed c" for h by simp
      then have "\<exists>err c'. receive_rows x y (env_from (Suc 0) e) k q t vt rows (written (d1 h) c) = (Inl err, c') \<and>
          committed c' = committed c" for h by simp
      then show ?thesis
        using Cons.prems(3) unfolding d1_def
        by (cases "generate_receipt_handle x (uuid e 0) k (mr_id row)")
          (simp_all add: Inr none tx_write Let_def, metis (no_types, lifting) old.prod.case old.sum.simps(5))
    qed
  qed simp
qed simp

end
