(* ===== verification/Sqlite_Claims.thy ===== *)
theory Sqlite_Claims
  imports Sqlite_Receive
begin

text \<open>
  Properties of the SQLite backend: its invariant, what receiving delivers, and what its use of
  transactions does to FIFO batches and dead letters.
\<close>

section \<open>A sample database\<close>

definition sql_config :: "string \<Rightarrow> queue_type \<Rightarrow> dlq_target option \<Rightarrow> queue_config" where
  "sql_config k ty dlq =
     \<lparr> qc_id = k, qc_name = k, qc_type = ty, visibility_timeout = 30, message_retention_period = 345600,
       max_message_size = 262144, delay_seconds = 0, dlq_config = dlq, content_based_deduplication = True,
       tags = [], redrive_allow_policy = None \<rparr>"

definition sql_row :: "string \<Rightarrow> int \<Rightarrow> string option \<Rightarrow> int option \<Rightarrow> message_row" where
  "sql_row i rc g n =
     \<lparr> mr_id = i, mr_queue_id = ''q'', mr_body = i, mr_attributes = None, mr_sent_timestamp = 0,
       mr_visible_at = 0, mr_receive_count = rc, mr_message_group_id = g, mr_deduplication_id = Some i,
       mr_sequence_number = n, mr_delay_seconds = Some 0, mr_state = ''available'',
       mr_receipt_handle = None, mr_visibility_expires_at = None \<rparr>"

definition sql_db :: "queue_type \<Rightarrow> dlq_target option \<Rightarrow> message_row list \<Rightarrow> sqlite" where
  "sql_db ty dlq ms =
     \<lparr> queues_table = [config_to_row sample_sql 0 (sql_config ''q'' ty dlq),
                       config_to_row sample_sql 0 (sql_config ''dead'' ty None)],
       messages_table = ms, dedup_table = [], subscriptions_table = [] \<rparr>"

lemma sql_db_sel [simp]: "messages_table (sql_db ty dlq ms) = ms" "dedup_table (sql_db ty dlq ms) = []"
  by (simp_all add: sql_db_def)

lemma config_row_id: "qr_id (config_to_row y t c) = qc_id c" "qr_name (config_to_row y t c) = qc_name c"
  "qr_queue_type (config_to_row y t c) = queue_type_to_string (qc_type c)"
  by (simp_all add: config_to_row_def)

lemma sql_db_queues:
  "get_queue_sqlite sample_sql ''q'' (sql_db ty dlq ms) = Inr (sql_config ''q'' ty dlq)"
  "get_queue_sqlite sample_sql ''dead'' (sql_db ty dlq ms) = Inr (sql_config ''dead'' ty None)"
proof -
  have "row_to_config sample_sql (config_to_row sample_sql 0 (sql_config k ty dlq)) = Inr (sql_config k ty dlq)" for k ty dlq
    by (subst config_row_roundtrip [OF sample_sql_laws]) (simp_all add: sql_config_def)
  moreover have "qc_id (sql_config k ty dlq) = k" for k ty dlq by (simp add: sql_config_def)
  ultimately show "get_queue_sqlite sample_sql ''q'' (sql_db ty dlq ms) = Inr (sql_config ''q'' ty dlq)"
    "get_queue_sqlite sample_sql ''dead'' (sql_db ty dlq ms) = Inr (sql_config ''dead'' ty None)"
    by (simp_all add: get_queue_sqlite_def find_queue_def sql_db_def config_row_id)
qed

lemma sql_db_ok: "\<lbrakk>distinct (map mr_id ms); \<forall>r \<in> set ms. mr_queue_id r = ''q'' \<and> row_available r\<rbrakk> \<Longrightarrow> db_ok (sql_db ty dlq ms)"
  by (auto simp: db_ok_defs sql_db_def config_row_id sql_config_def)

lemma sql_row_available [simp]: "row_available (sql_row i rc g n)"
  by (simp add: sql_row_def row_available_def)

lemma sql_row_sel [simp]: "mr_id (sql_row i rc g n) = i" "mr_queue_id (sql_row i rc g n) = ''q''"
  "mr_receive_count (sql_row i rc g n) = rc" "mr_message_group_id (sql_row i rc g n) = g"
  "mr_sequence_number (sql_row i rc g n) = n" "mr_visible_at (sql_row i rc g n) = 0"
  "mr_state (sql_row i rc g n) = ''available''" "mr_sent_timestamp (sql_row i rc g n) = 0"
  by (simp_all add: sql_row_def)

section \<open>The invariant\<close>

text \<open>
  C14. Every database the operations of the SQLite backend can produce satisfies the invariant: the
  primary keys and names are unique, no message, deduplication entry or subscription outlives its
  queue, every stored configuration can be read back, and a message is either available without a
  handle or in flight with a handle and a deadline.
\<close>

theorem sqlite_reachable_ok:
  assumes "sql_reachable x y d"
  shows "db_ok d"
  using assms by (induction rule: sql_reachable.induct) (simp_all add: empty_database_ok run_sql_ok)

theorem sqlite_reachable_ok_witness:
  "\<exists>d. sql_reachable sample_ext sample_sql d \<and> db_ok d \<and> map qr_name (queues_table d) = [''q'']"
proof -
  define d where "d = run_sql sample_ext sample_sql (CreateQueue (sample_env 1) (sql_config ''q'' SqsFifo None)) empty_database"
  have reach: "sql_reachable sample_ext sample_sql d"
    unfolding d_def by (rule sql_next [OF sql_start])
  have "map qr_name (queues_table d) = [''q'']"
    by (simp add: d_def create_queue_sqlite_def insert_queue_def empty_database_def config_row_id sql_config_def)
  with reach sqlite_reachable_ok [OF reach] show ?thesis by (intro exI [of _ d]) simp
qed

section \<open>Receiving\<close>

definition effective_timeout :: "queue_config \<Rightarrow> receive_options \<Rightarrow> u32" where
  "effective_timeout q ro =
     (case ro_visibility_timeout ro of Some v \<Rightarrow> v | None \<Rightarrow> visibility_timeout q)"

text \<open>
  \<open>rm\<close> is the delivery of the visible row \<open>r\<close> of \<open>d\<close>: it carries its identifier, its text and its count
  raised by one, and in \<open>d'\<close> the row is in flight with the handle of \<open>rm\<close>.
\<close>

definition handed_out :: "sqlite \<Rightarrow> sqlite \<Rightarrow> string \<Rightarrow> int \<Rightarrow> int \<Rightarrow> received_message \<Rightarrow> message_row \<Rightarrow> bool" where
  "handed_out d d' k t expires rm r \<longleftrightarrow>
     r \<in> set (messages_table d) \<and> visible_row k t r \<and>
     msg_id (rm_message rm) = mr_id r \<and> body (rm_message rm) = mr_body r \<and>
     receive_count (rm_message rm) = i64_as_u32 (mr_receive_count r) + 1 \<and>
     mark_in_flight (receive_count (rm_message rm)) (receipt_handle rm) expires r \<in> set (messages_table d')"

lemma receive_hands_out:
  assumes "db_ok d" and "get_queue_sqlite y k d = Inr q" and "receipt_secret x \<noteq> None"
    and "\<forall>r \<in> set (messages_table d). millis_valid y (mr_sent_timestamp r) \<and> \<not> due_for_dlq y q r"
  obtains rms d' where "receive_messages_sqlite x y e k ro d = (Inr rms, d')"
    and "map (\<lambda>rm. msg_id (rm_message rm)) rms = map mr_id (selected_rows q k (now e 0) (ro_max_messages ro) d)"
    and "\<forall>rm \<in> set rms. \<exists>r \<in> set (selected_rows q k (now e 0) (ro_max_messages ro) d).
      rm_message rm = next_message y r \<and> handed_out d d' k (timestamp_millis (now e 0))
        (timestamp_millis (now e 0 + seconds (int (unat (effective_timeout q ro))))) rm r"
    and "\<forall>r \<in> set (messages_table d). mr_id r \<notin> msg_id ` rm_message ` set rms \<longrightarrow> r \<in> set (messages_table d')"
    and "map mr_id (messages_table d') = map mr_id (messages_table d)"
proof -
  define sel where "sel = selected_rows q k (now e 0) (ro_max_messages ro) d"
  define rms where "rms = delivered x y (env_from 1 e) k sel"
  define expires where "expires = timestamp_millis (now e 0 + seconds (int (unat (effective_timeout q ro))))"
  have in_d: "r \<in> set (messages_table d) \<and> visible_row k (timestamp_millis (now e 0)) r" if "r \<in> set sel" for r
    using that by (simp add: sel_def selected_in)
  then have valid: "\<forall>r \<in> set sel. millis_valid y (mr_sent_timestamp r)" using assms(4) by blast
  have ids: "map (\<lambda>rm. msg_id (rm_message rm)) rms = map mr_id sel"
    unfolding rms_def by (rule delivered_ids [OF valid])
  have dist: "distinct (map mr_id sel)" by (simp add: sel_def selected_distinct [OF assms(1)])
  have got: "receive_messages_sqlite x y e k ro d = (Inr rms, mark_table expires rms d)"
    unfolding rms_def sel_def expires_def effective_timeout_def
    by (rule receive_messages_delivers [OF assms(2,1,3)]) (use assms(4) in \<open>auto dest: selected_in\<close>)
  have table: "messages_table (mark_table expires rms d) = map (mark_received expires rms) (messages_table d)"
    by (simp add: mark_table_def)
  have "\<exists>r \<in> set sel. rm_message rm = next_message y r \<and>
      handed_out d (mark_table expires rms d) k (timestamp_millis (now e 0)) expires rm r" if rm: "rm \<in> set rms" for rm
  proof -
    obtain r where r: "r \<in> set sel" "rm_message rm = next_message y r"
      using delivered_in [OF rm [unfolded rms_def] assms(3)] by blast
    note fields = next_message_fields [of y r, folded r(2)]
    have "mark_received expires rms r = mark_in_flight (receive_count (rm_message rm)) (receipt_handle rm) expires r"
      using rm ids dist fields(1) valid r(1) by (intro mark_received_in) simp_all
    then have "mark_in_flight (receive_count (rm_message rm)) (receipt_handle rm) expires r
        \<in> set (messages_table (mark_table expires rms d))"
      using in_d [OF r(1)] unfolding table set_map by (metis imageI)
    then show ?thesis
      using in_d [OF r(1)] fields valid r by (intro bexI [of _ r]) (simp_all add: handed_out_def)
  qed
  moreover have "\<forall>r \<in> set (messages_table d). mr_id r \<notin> msg_id ` rm_message ` set rms \<longrightarrow>
      r \<in> set (messages_table (mark_table expires rms d))"
    using mark_received_other [of _ rms expires] by (force simp: table)
  moreover have "map mr_id (messages_table (mark_table expires rms d)) = map mr_id (messages_table d)"
    by (simp add: table)
  ultimately show thesis using that [OF got] ids by (simp add: sel_def expires_def)
qed

text \<open>
  C15. A receive from a standard queue, when no message is due for the dead letter queue, delivers the
  visible messages that were sent first: as many as asked for and available, at most ten, each with
  the identifier and the text it was stored with and its count raised by one.  Its row becomes in
  flight with the handle that was given out; no message that was left out is older than one that
  was delivered, and all other rows stay as they are.
\<close>

theorem sqlite_receive_delivers:
  assumes "db_ok d" and "get_queue_sqlite y k d = Inr q" and "qc_type q \<noteq> SqsFifo" and "receipt_secret x \<noteq> None"
    and "\<forall>r \<in> set (messages_table d). millis_valid y (mr_sent_timestamp r) \<and> \<not> due_for_dlq y q r"
  shows "\<exists>rms d'. receive_messages_sqlite x y e k ro d = (Inr rms, d') \<and>
    length rms = min (unat (u32_min (ro_max_messages ro) 10))
      (length (filter (visible_row k (timestamp_millis (now e 0))) (messages_table d))) \<and>
    (\<forall>rm \<in> set rms. \<exists>r. handed_out d d' k (timestamp_millis (now e 0))
        (timestamp_millis (now e 0 + seconds (int (unat (effective_timeout q ro))))) rm r \<and>
       (\<forall>p \<in> set (messages_table d). visible_row k (timestamp_millis (now e 0)) p \<and>
          mr_id p \<notin> msg_id ` rm_message ` set rms \<longrightarrow> mr_sent_timestamp r \<le> mr_sent_timestamp p)) \<and>
    (\<forall>r \<in> set (messages_table d). mr_id r \<notin> msg_id ` rm_message ` set rms \<longrightarrow> r \<in> set (messages_table d')) \<and>
    map mr_id (messages_table d') = map mr_id (messages_table d)"
proof -
  define sel where "sel = selected_rows q k (now e 0) (ro_max_messages ro) d"
  obtain rms d' where got: "receive_messages_sqlite x y e k ro d = (Inr rms, d')"
    and ids: "map (\<lambda>rm. msg_id (rm_message rm)) rms = map mr_id sel"
    and out: "\<forall>rm \<in> set rms. \<exists>r \<in> set sel. rm_message rm = next_message y r \<and>
      handed_out d d' k (timestamp_millis (now e 0))
        (timestamp_millis (now e 0 + seconds (int (unat (effective_timeout q ro))))) rm r"
    and others: "\<forall>r \<in> set (messages_table d). mr_id r \<notin> msg_id ` rm_message ` set rms \<longrightarrow> r \<in> set (messages_table d')"
      "map mr_id (messages_table d') = map mr_id (messages_table d)"
    unfolding sel_def by (rule receive_hands_out [OF assms(1,2,4,5), of e ro])
  have idset: "msg_id ` rm_message ` set rms = mr_id ` set sel"
    using arg_cong [OF ids, of set] by (simp add: image_image)
  have "mr_sent_timestamp r \<le> mr_sent_timestamp p" if "r \<in> set sel" "p \<in> set (messages_table d)"
    "visible_row k (timestamp_millis (now e 0)) p" "mr_id p \<notin> msg_id ` rm_message ` set rms" for r p
    using standard_selected(2) [OF assms(3), of r k "now e 0" "ro_max_messages ro" d p, folded sel_def] that
    by (auto simp: idset)
  moreover have "length rms = min (unat (u32_min (ro_max_messages ro) 10))
      (length (filter (visible_row k (timestamp_millis (now e 0))) (messages_table d)))"
    using arg_cong [OF ids, of length] standard_selected(1) [OF assms(3)] by (simp add: sel_def)
  ultimately show ?thesis using got out others by (intro exI [of _ rms] exI [of _ d']) blast
qed

theorem sqlite_receive_delivers_witness:
  "\<exists>rms d'. receive_messages_sqlite sample_ext sample_sql (sample_env 7) ''q'' default_receive_options
      (sql_db SqsStandard None [sql_row ''a'' 0 None None, sql_row ''b'' 0 None None]) = (Inr rms, d') \<and> length rms = 1"
proof -
  define d where "d = sql_db SqsStandard None [sql_row ''a'' 0 None None, sql_row ''b'' 0 None None]"
  have "db_ok d" unfolding d_def by (rule sql_db_ok) auto
  moreover have "get_queue_sqlite sample_sql ''q'' d = Inr (sql_config ''q'' SqsStandard None)"
    by (simp add: d_def sql_db_queues)
  moreover have "qc_type (sql_config ''q'' SqsStandard None) \<noteq> SqsFifo" by (simp add: sql_config_def)
  moreover have "\<forall>r \<in> set (messages_table d). millis_valid sample_sql (mr_sent_timestamp r) \<and>
      \<not> due_for_dlq sample_sql (sql_config ''q'' SqsStandard None) r"
    by (simp add: due_for_dlq_def sql_config_def)
  ultimately obtain rms d' where "receive_messages_sqlite sample_ext sample_sql (sample_env 7) ''q'' default_receive_options d = (Inr rms, d')"
    "length rms = min (unat (u32_min (ro_max_messages default_receive_options) 10))
      (length (filter (visible_row ''q'' (timestamp_millis (now (sample_env 7) 0))) (messages_table d)))"
    using sqlite_receive_delivers [of d sample_sql "''q''" "sql_config ''q'' SqsStandard None" sample_ext
        "sample_env 7" default_receive_options] by auto
  then show ?thesis
    by (auto simp: d_def visible_row_def timestamp_millis_def default_receive_options_def u32_min_def)
qed

end
