(* ===== verification/Sqlite_Fifo.thy ===== *)
theory Sqlite_Fifo
  imports Sqlite_Claims
begin

text \<open>
  FIFO queues and dead letter queues of the SQLite backend: message groups, the deduplication
  window, and what becomes of batches and dead letters when statements of a transaction and
  statements on the pool meet.
\<close>

section \<open>Message groups\<close>

lemma group_free_iff:
  "r \<in> set (fifo_rows k t n d) \<Longrightarrow> mr_message_group_id r = Some g \<Longrightarrow> p \<in> set (messages_table d) \<Longrightarrow>
     mr_queue_id p = k \<Longrightarrow> mr_state p = ''in_flight'' \<Longrightarrow> mr_message_group_id p \<noteq> Some g"
  by (auto simp: fifo_rows_def group_free_def in_flight_groups_def dest!: take_sort_in split: option.splits) metis

lemma sorted_fifo_rows: "sorted (map mr_sequence_number (fifo_rows k t n d))"
  by (simp add: fifo_rows_def take_map [symmetric] sorted_wrt_take)

text \<open>
  C16. A receive from a FIFO queue, when no message is due for the dead letter queue, delivers visible
  messages in the order of their sequence numbers, and none of a message group that has a message
  in flight at that moment.
\<close>

theorem sqlite_fifo_groups_locked:
  assumes "db_ok d" and "get_queue_sqlite y k d = Inr q" and "qc_type q = SqsFifo" and "receipt_secret x \<noteq> None"
    and "\<forall>r \<in> set (messages_table d). millis_valid y (mr_sent_timestamp r) \<and> \<not> due_for_dlq y q r"
  shows "\<exists>rms d' rows. receive_messages_sqlite x y e k ro d = (Inr rms, d') \<and>
    map (\<lambda>rm. msg_id (rm_message rm)) rms = map mr_id rows \<and> sorted (map mr_sequence_number rows) \<and>
    (\<forall>rm \<in> set rms. \<exists>r \<in> set rows. handed_out d d' k (timestamp_millis (now e 0))
        (timestamp_millis (now e 0 + seconds (int (unat (effective_timeout q ro))))) rm r) \<and>
    (\<forall>r \<in> set rows. \<forall>p \<in> set (messages_table d). \<forall>g. mr_message_group_id r = Some g \<and>
        mr_queue_id p = k \<and> mr_state p = ''in_flight'' \<longrightarrow> mr_message_group_id p \<noteq> Some g)"
proof -
  define rows where "rows = selected_rows q k (now e 0) (ro_max_messages ro) d"
  have fifo: "rows = fifo_rows k (timestamp_millis (now e 0)) (unat (u32_min (ro_max_messages ro) 10)) d"
    by (simp add: rows_def selected_rows_def assms(3))
  obtain rms d' where "receive_messages_sqlite x y e k ro d = (Inr rms, d')"
    "map (\<lambda>rm. msg_id (rm_message rm)) rms = map mr_id rows"
    "\<forall>rm \<in> set rms. \<exists>r \<in> set rows. rm_message rm = next_message y r \<and>
      handed_out d d' k (timestamp_millis (now e 0))
        (timestamp_millis (now e 0 + seconds (int (unat (effective_timeout q ro))))) rm r"
    unfolding rows_def by (rule receive_hands_out [OF assms(1,2,4,5), of e ro])
  then show ?thesis
    using group_free_iff sorted_fifo_rows
    by (intro exI [of _ rms] exI [of _ d'] exI [of _ rows]) (simp add: fifo, blast)
qed

theorem sqlite_fifo_groups_locked_witness:
  "\<exists>rms d'. receive_messages_sqlite sample_ext sample_sql (sample_env 7) ''q''
      (default_receive_options\<lparr>ro_max_messages := 10\<rparr>)
      (sql_db SqsFifo None [sql_row ''b'' 0 (Some ''g'') (Some 2), sql_row ''a'' 0 (Some ''g'') (Some 1)]) = (Inr rms, d')"
proof -
  define d where "d = sql_db SqsFifo None [sql_row ''b'' 0 (Some ''g'') (Some 2), sql_row ''a'' 0 (Some ''g'') (Some 1)]"
  have "db_ok d" unfolding d_def by (rule sql_db_ok) auto
  moreover have "get_queue_sqlite sample_sql ''q'' d = Inr (sql_config ''q'' SqsFifo None)"
    by (simp add: d_def sql_db_queues)
  moreover have "qc_type (sql_config ''q'' SqsFifo None) = SqsFifo" by (simp add: sql_config_def)
  moreover have "\<forall>r \<in> set (messages_table d). millis_valid sample_sql (mr_sent_timestamp r) \<and>
      \<not> due_for_dlq sample_sql (sql_config ''q'' SqsFifo None) r"
    by (simp add: due_for_dlq_def sql_config_def)
  ultimately show ?thesis
    using sqlite_fifo_groups_locked [of d sample_sql "''q''" "sql_config ''q'' SqsFifo None" sample_ext
        "sample_env 7" "default_receive_options\<lparr>ro_max_messages := 10\<rparr>"] unfolding d_def by auto
qed

section \<open>Dead letters\<close>

text \<open>
  C18. Once a message is due for a dead letter queue that is not a FIFO queue (a standard one, or one that
  does not exist), every receive whose query selects it fails and leaves the database as it is: the
  copy is inserted under the identifier that its row still holds, the insert is refused, and the
  transaction is rolled back, so the message is neither moved nor delivered and keeps the messages
  selected with it from being delivered.  (A FIFO dead letter queue is different: there the receive
  that follows deletes the message, \<open>sqlite_fifo_dead_letter_lost\<close>.)
\<close>

theorem sqlite_dead_letter_blocks:
  assumes "get_queue_sqlite y k d = Inr q" and "dlq_config q = Some dlq"
    and "r \<in> set (selected_rows q k (now e 0) (ro_max_messages ro) d)" and "due_for_dlq y q r"
    and "\<forall>tq. get_queue_sqlite y (target_queue_id dlq) d = Inr tq \<longrightarrow> qc_type tq \<noteq> SqsFifo"
  shows "\<exists>err. receive_messages_sqlite x y e k ro d = (Inl err, d)"
proof -
  let ?c = "tx_select (begin_tx d)" and ?rows = "selected_rows q k (now e 0) (ro_max_messages ro) d"
  have "\<exists>err c'. receive_rows x y (env_from 1 e) k q (now e 0) vt ?rows ?c = (Inl err, c') \<and> committed c' = committed ?c" for vt
    by (rule due_row_fails [OF _ _ _ assms(2)]) (use assms(3-5) in \<open>auto dest: selected_in\<close>)
  then show ?thesis
    unfolding receive_messages_sqlite_def assms(1) Let_def sum.case select_simps begin_simps
      selected_rows_def [symmetric]
    by (metis (no_types, lifting) begin_simps(1) old.prod.case old.sum.simps(5) select_simps(1))
qed

theorem sqlite_dead_letter_blocks_witness:
  "\<exists>err. receive_messages_sqlite sample_ext sample_sql (sample_env 7) ''q'' default_receive_options
      (sql_db SqsStandard (Some \<lparr> target_queue_id = ''dead'', max_receive_count = 3 \<rparr>) [sql_row ''a'' 3 None None]) =
    (Inl err, sql_db SqsStandard (Some \<lparr> target_queue_id = ''dead'', max_receive_count = 3 \<rparr>) [sql_row ''a'' 3 None None])"
proof -
  define dlq where "dlq = \<lparr> target_queue_id = ''dead'', max_receive_count = 3 \<rparr>"
  define d where "d = sql_db SqsStandard (Some dlq) [sql_row ''a'' 3 None None]"
  have "sql_row ''a'' 3 None None \<in> set (selected_rows (sql_config ''q'' SqsStandard (Some dlq)) ''q''
      (now (sample_env 7) 0) (ro_max_messages default_receive_options) d)"
    by (simp add: d_def selected_rows_def sql_config_def standard_rows_def visible_row_def timestamp_millis_def
        default_receive_options_def u32_min_def)
  moreover have "due_for_dlq sample_sql (sql_config ''q'' SqsStandard (Some dlq)) (sql_row ''a'' 3 None None)"
    by (simp add: due_for_dlq_def dlq_def sql_config_def i64_as_u32_def)
  moreover have "get_queue_sqlite sample_sql (target_queue_id dlq) d = Inr (sql_config ''dead'' SqsStandard None)"
    by (simp add: d_def dlq_def sql_db_queues)
  moreover have "dlq_config (sql_config ''q'' SqsStandard (Some dlq)) = Some dlq"
    "qc_type (sql_config ''dead'' SqsStandard None) \<noteq> SqsFifo" by (simp_all add: sql_config_def)
  moreover have "get_queue_sqlite sample_sql ''q'' d = Inr (sql_config ''q'' SqsStandard (Some dlq))"
    by (simp add: d_def sql_db_queues)
  ultimately show ?thesis
    unfolding dlq_def [symmetric] d_def [symmetric] by (intro sqlite_dead_letter_blocks) auto
qed

section \<open>The deduplication window\<close>

text \<open>The database after the entry of a deduplication identifier has been written.\<close>

definition remember :: "string \<Rightarrow> string \<Rightarrow> int \<Rightarrow> sqlite \<Rightarrow> sqlite" where
  "remember k a expires d =
     d\<lparr>dedup_table := filter (\<lambda>p. \<not> (dr_queue_id p = k \<and> dr_deduplication_id p = a)) (dedup_table d) @
        [\<lparr> dr_queue_id = k, dr_deduplication_id = a, dr_expires_at = expires \<rparr>]\<rparr>"

lemma remember_frame [simp]:
  "queues_table (remember k a expires d) = queues_table d"
  "messages_table (remember k a expires d) = messages_table d"
  by (simp_all add: remember_def)

lemma cached_remember:
  "dedup_cached cutoff k b (remember k a expires d) \<longleftrightarrow>
     (if b = a then cutoff < expires else dedup_cached cutoff k b d)"
  by (auto simp: dedup_cached_def remember_def)

lemma same_queues:
  assumes "queues_table d' = queues_table d"
  shows "get_queue_sqlite y k d' = get_queue_sqlite y k d" "find_queue k d' = find_queue k d"
  using assms by (simp_all add: get_queue_sqlite_def find_queue_def)

lemma next_sequence_frame: "messages_table d' = messages_table d \<Longrightarrow> next_sequence k d' = next_sequence k d"
  by (simp add: next_sequence_def)

lemma get_queue_found: "get_queue_sqlite y k d = Inr q \<Longrightarrow> find_queue k d \<noteq> None"
  by (auto simp: get_queue_sqlite_def split: option.splits)

lemma fifo_prepare_cached:
  assumes "deduplication_id m = Some a" and "dedup_cached (timestamp (now e 0) - 300) k a (committed c)"
  shows "fifo_prepare x y e k q m c = (Inr None, c)"
  using assms by (simp add: fifo_prepare_def)

lemma fifo_prepare_fresh:
  assumes "deduplication_id m = Some a" and "\<not> dedup_cached (timestamp (now e 0) - 300) k a (committed c)"
    and "find_queue k (committed c) \<noteq> None" and "\<not> tx_written c" and "next_sequence k (committed c) < 2 ^ 63"
  shows "fifo_prepare x y e k q m c =
    (Inr (Some (m\<lparr>sequence_number := Some (i64_as_u64 (next_sequence k (committed c)))\<rparr>)),
     c\<lparr>committed := remember k a (timestamp (now e 1) + 300) (committed c), tx_stale := tx_view c \<noteq> None\<rparr>)"
  using assms by (simp add: fifo_prepare_def run_write_def put_dedup_def remember_def Let_def
      next_sequence_frame [of "committed c\<lparr>dedup_table := t\<rparr>" "committed c" for t])

lemma fifo_prepare_locked:
  assumes "deduplication_id m = Some a" and "\<not> dedup_cached (timestamp (now e 0) - 300) k a (committed c)"
    and "tx_written c"
  shows "fifo_prepare x y e k q m c =
    (Inl (storage_error y ''Failed to update deduplication cache'' DatabaseLocked), c)"
  using assms by (simp add: fifo_prepare_def run_write_def)

text \<open>The row a send of \<open>m\<close> inserts, with the next sequence number of its queue.\<close>

definition fifo_message :: "string \<Rightarrow> message \<Rightarrow> sqlite \<Rightarrow> message" where
  "fifo_message k m d = m\<lparr>sequence_number := Some (i64_as_u64 (next_sequence k d))\<rparr>"

lemma send_fifo_fresh:
  assumes "get_queue_sqlite y k d = Inr q" and "qc_type q = SqsFifo" and "deduplication_id m = Some a"
    and "\<not> dedup_cached (timestamp (now e 0) - 300) k a d" and "next_sequence k d < 2 ^ 63"
    and "msg_id m \<notin> mr_id ` set (messages_table d)"
  shows "\<exists>row. send_message_sqlite x y e k m d =
      (Inr (fifo_message k m d), (remember k a (timestamp (now e 1) + 300) d)
         \<lparr>messages_table := messages_table d @ [row]\<rparr>) \<and> mr_id row = msg_id m \<and> mr_body row = body m \<and>
    mr_queue_id row = k \<and> mr_sequence_number row = Some (u64_as_i64 (i64_as_u64 (next_sequence k d)))"
proof -
  define m1 where "m1 = fifo_message k m d"
  define d1 where "d1 = remember k a (timestamp (now e 1) + 300) d"
  define c1 where "c1 = (begin_tx d)\<lparr>committed := d1\<rparr>"
  define row where "row = message_to_row y k (case msg_delay_seconds m1 of Some s \<Rightarrow> s | None \<Rightarrow> delay_seconds q) (now e 2) m1"
  have prep: "fifo_prepare x y e k q m (begin_tx d) = (Inr (Some m1), c1)"
    using fifo_prepare_fresh [OF assms(3), of e k "begin_tx d" x y q] assms(4,5) get_queue_found [OF assms(1)]
    by (simp add: m1_def fifo_message_def c1_def d1_def begin_tx_def)
  have row: "mr_id row = msg_id m" "mr_body row = body m" "mr_queue_id row = k"
    "mr_sequence_number row = Some (u64_as_i64 (i64_as_u64 (next_sequence k d)))"
    by (simp_all add: row_def message_to_row_def m1_def fifo_message_def)
  have known: "k \<in> known_queues d1"
    using get_queue_found [OF assms(1)] find_queue_None [of k d] by (auto simp: d1_def known_queues_def)
  have "insert_message row d1 = Inr (d1\<lparr>messages_table := messages_table d @ [row]\<rparr>)"
    using assms(6) known by (simp add: insert_message_iff row d1_def)
  then have "send_message_sqlite x y e k m d = (Inr m1, d1\<lparr>messages_table := messages_table d @ [row]\<rparr>)"
    unfolding send_message_sqlite_def send_message_impl_def
    by (simp add: assms(1,2) prep Let_def row_def [symmetric] run_write_def c1_def)
  with row show ?thesis unfolding m1_def d1_def by blast
qed

text \<open>
  C17. On a FIFO queue the window of a deduplication identifier is exactly ten minutes, not the five of
  the comment, unless the cleanup manager removes the entry before: after a message was stored at second
  \<open>t\<close>, a message with the same identifier is accepted and dropped before \<open>t + 600\<close>, and stored from then on.
\<close>

theorem sqlite_dedup_window:
  assumes "get_queue_sqlite y k d = Inr q" and "qc_type q = SqsFifo" and "deduplication_id m = Some a"
    and "\<not> dedup_cached (timestamp (now e 0) - 300) k a d" and "next_sequence k d < 2 ^ 63"
    and "msg_id m \<notin> mr_id ` set (messages_table d)" and "deduplication_id m' = Some a"
    and "msg_id m' \<notin> insert (msg_id m) (mr_id ` set (messages_table d))"
    and "send_message_sqlite x y e k m d = (r1, d1)" and "send_message_sqlite x y e' k m' d1 = (r2, d2)"
    and "next_sequence k d1 < 2 ^ 63"
  shows "mr_id ` set (messages_table d1) = insert (msg_id m) (mr_id ` set (messages_table d)) \<and>
    (if timestamp (now e' 0) < timestamp (now e 1) + 600 then r2 = Inr m' \<and> d2 = d1
     else mr_id ` set (messages_table d2) = insert (msg_id m') (mr_id ` set (messages_table d1)))"
proof -
  obtain row where row: "d1 = (remember k a (timestamp (now e 1) + 300) d)\<lparr>messages_table := messages_table d @ [row]\<rparr>"
    "mr_id row = msg_id m"
    using send_fifo_fresh [OF assms(1-4) _ assms(6), of x] assms(5,9) by auto
  have queue: "get_queue_sqlite y k d1 = Inr q"
    using assms(1) same_queues(1) [of d1 d y k] by (simp add: row(1))
  have cached: "dedup_cached (timestamp (now e' 0) - 300) k a d1 \<longleftrightarrow> timestamp (now e' 0) < timestamp (now e 1) + 600"
    using cached_remember [of "timestamp (now e' 0) - 300" k a a "timestamp (now e 1) + 300" d]
    by (simp add: row(1) dedup_cached_def add.commute)
  show ?thesis
  proof (cases "timestamp (now e' 0) < timestamp (now e 1) + 600")
    case True
    with cached fifo_prepare_cached [OF assms(7), of e' k "begin_tx d1" x y q]
    have "send_message_sqlite x y e' k m' d1 = (Inr m', d1)"
      by (simp add: send_message_sqlite_def send_message_impl_def queue assms(2))
    with assms(10) True row show ?thesis by simp
  next
    case False
    obtain row' where "d2 = (remember k a (timestamp (now e' 1) + 300) d1)\<lparr>messages_table := messages_table d1 @ [row']\<rparr>"
      "mr_id row' = msg_id m'"
      using send_fifo_fresh [OF queue assms(2,7), of e' x] cached False assms(8,10,11) row by auto
    with False row show ?thesis by (auto simp: insert_commute)
  qed
qed

definition sql_message :: "string \<Rightarrow> string \<Rightarrow> message" where
  "sql_message i a =
     \<lparr> msg_id = i, body = i, attributes = [], msg_queue_id = ''q'', sent_timestamp = 0, receive_count = 0,
       message_group_id = Some ''g'', deduplication_id = Some a, sequence_number = None, msg_delay_seconds = None \<rparr>"

theorem sqlite_dedup_window_witness:
  "\<exists>d1. send_message_sqlite sample_ext sample_sql (sample_env (seconds 1000)) ''q'' (sql_message ''m'' ''a'')
      (sql_db SqsFifo None []) = (Inr (fifo_message ''q'' (sql_message ''m'' ''a'') (sql_db SqsFifo None [])), d1) \<and>
    send_message_sqlite sample_ext sample_sql (sample_env (seconds 1599)) ''q'' (sql_message ''n'' ''a'') d1 =
      (Inr (sql_message ''n'' ''a''), d1)"
proof -
  define d where "d = sql_db SqsFifo None []"
  have queue: "get_queue_sqlite sample_sql ''q'' d = Inr (sql_config ''q'' SqsFifo None)"
    "qc_type (sql_config ''q'' SqsFifo None) = SqsFifo" by (simp_all add: d_def sql_db_queues sql_config_def)
  have m: "deduplication_id (sql_message i ''a'') = Some ''a''" "msg_id (sql_message i ''a'') = i" for i
    by (simp_all add: sql_message_def)
  have fresh: "\<not> dedup_cached t ''q'' ''a'' d" for t by (simp add: dedup_cached_def d_def)
  have seq: "next_sequence ''q'' d = 0" by (simp add: next_sequence_def d_def)
  obtain row where row: "send_message_sqlite sample_ext sample_sql (sample_env (seconds 1000)) ''q'' (sql_message ''m'' ''a'') d =
      (Inr (fifo_message ''q'' (sql_message ''m'' ''a'') d),
       (remember ''q'' ''a'' (timestamp (seconds 1000) + 300) d)\<lparr>messages_table := [row]\<rparr>)"
    "mr_queue_id row = ''q''" "mr_sequence_number row = Some 0"
    using send_fifo_fresh [OF queue m(1), of "sample_env (seconds 1000)" "''m''" sample_ext] fresh seq
    by (auto simp: d_def m u64_as_i64_def i64_as_u64_def)
  have ts: "timestamp (seconds n) = n" for n by (simp add: timestamp_def seconds_def nanos_per_second_def)
  define d1 where "d1 = (remember ''q'' ''a'' (timestamp (seconds 1000) + 300) d)\<lparr>messages_table := [row]\<rparr>"
  obtain r2 d2 where send: "send_message_sqlite sample_ext sample_sql (sample_env (seconds 1599)) ''q'' (sql_message ''n'' ''a'') d1 = (r2, d2)"
    by fastforce
  have "next_sequence ''q'' d1 < 2 ^ 63"
    by (simp add: next_sequence_def d1_def row(2,3))
  from sqlite_dedup_window [OF queue m(1) fresh _ _ m(1) _ row(1) [folded d1_def] send this]
  show ?thesis using seq send row(1) unfolding d_def [symmetric] d1_def [symmetric] by (simp add: d_def m ts)
qed

section \<open>Batches\<close>

lemma remember_queue:
  "get_queue_sqlite y k' (remember k a expires d) = get_queue_sqlite y k' d"
  "k' \<in> known_queues (remember k a expires d) \<longleftrightarrow> k' \<in> known_queues d"
  by (simp_all add: same_queues(1) [of "remember k a expires d" d] known_queues_def)

text \<open>The first message of a FIFO batch: its entry is committed, its row stays in the transaction.\<close>

lemma send_batch_first:
  assumes "get_queue_sqlite y k d = Inr q" and "qc_type q = SqsFifo" and "deduplication_id m = Some a"
    and "\<not> dedup_cached (timestamp (now e 0) - 300) k a d" and "next_sequence k d < 2 ^ 63"
    and "msg_id m \<notin> mr_id ` set (messages_table d)"
  shows "\<exists>c. send_message_impl x y OnTx e k m (begin_tx d) = (Inr (fifo_message k m d), c) \<and>
    committed c = remember k a (timestamp (now e 1) + 300) d \<and> tx_written c"
proof -
  define d1 where "d1 = remember k a (timestamp (now e 1) + 300) d"
  define c1 where "c1 = (begin_tx d)\<lparr>committed := d1\<rparr>"
  define m1 where "m1 = fifo_message k m d"
  define row where "row = message_to_row y k (case msg_delay_seconds m1 of Some s \<Rightarrow> s | None \<Rightarrow> delay_seconds q) (now e 2) m1"
  have prep: "fifo_prepare x y e k q m (begin_tx d) = (Inr (Some m1), c1)"
    using fifo_prepare_fresh [OF assms(3), of e k "begin_tx d" x y q] assms(4,5) get_queue_found [OF assms(1)]
    by (simp add: m1_def fifo_message_def c1_def d1_def begin_tx_def)
  have "mr_id row = msg_id m" "mr_queue_id row = k"
    by (simp_all add: row_def message_to_row_def m1_def fifo_message_def)
  moreover have "k \<in> known_queues d1"
    using get_queue_found [OF assms(1)] by (simp add: d1_def remember_queue find_queue_None)
  ultimately have "insert_message row d1 = Inr (d1\<lparr>messages_table := messages_table d @ [row]\<rparr>)"
    using assms(6) by (simp add: insert_message_iff d1_def)
  then have "run_write OnTx (insert_message row) c1 = (Inr (), written (d1\<lparr>messages_table := messages_table d @ [row]\<rparr>) c1)"
    by (simp add: tx_write c1_def) (simp add: tx_read_def)
  then have "send_message_impl x y OnTx e k m (begin_tx d) =
      (Inr m1, written (d1\<lparr>messages_table := messages_table d @ [row]\<rparr>) c1)"
    unfolding send_message_impl_def by (simp add: assms(1,2) prep Let_def row_def [symmetric])
  then show ?thesis by (simp add: m1_def d1_def c1_def)
qed

text \<open>
  C19. A batch of two or more new messages for a FIFO queue always fails: after the first insert the
  transaction is the writer, and the deduplication entry of the second message, which goes through
  another connection, finds the database locked.  Nothing of the batch is stored, but the entry of the
  first message is, so sending that message again within ten minutes is reported as a success and
  drops it.
\<close>

theorem sqlite_fifo_batch_loses:
  assumes "get_queue_sqlite y k d = Inr q" and "qc_type q = SqsFifo"
    and "deduplication_id m1 = Some a" and "deduplication_id m2 = Some b" and "a \<noteq> b"
    and "\<not> dedup_cached (timestamp (now e 0) - 300) k a d" and "\<not> dedup_cached (timestamp (now e 3) - 300) k b d"
    and "next_sequence k d < 2 ^ 63" and "msg_id m1 \<notin> mr_id ` set (messages_table d)"
  shows "\<exists>d'. send_messages_sqlite x y e k (m1 # m2 # ms) d =
      (Inl (storage_error y ''Failed to update deduplication cache'' DatabaseLocked), d') \<and>
    messages_table d' = messages_table d \<and>
    (\<forall>e'. timestamp (now e' 0) < timestamp (now e 1) + 600 \<longrightarrow>
       send_message_sqlite x y e' k m1 d' = (Inr m1, d'))"
proof -
  define d' where "d' = remember k a (timestamp (now e 1) + 300) d"
  obtain c where c: "send_message_impl x y OnTx e k m1 (begin_tx d) = (Inr (fifo_message k m1 d), c)"
    "committed c = d'" "tx_written c"
    using send_batch_first [OF assms(1-3,6,8,9), of x] unfolding d'_def by blast
  have queue: "get_queue_sqlite y k d' = Inr q" by (simp add: d'_def remember_queue assms(1))
  have "\<not> dedup_cached (timestamp (now (env_from 3 e) 0) - 300) k b (committed c)"
    using assms(5,7) by (simp add: c(2) d'_def cached_remember)
  from fifo_prepare_locked [OF assms(4) this c(3), of x y q]
  have "send_message_impl x y OnTx (env_from 3 e) k m2 c =
      (Inl (storage_error y ''Failed to update deduplication cache'' DatabaseLocked), c)"
    by (simp add: send_message_impl_def c(2) queue assms(2))
  then have "send_messages_sqlite x y e k (m1 # m2 # ms) d =
      (Inl (storage_error y ''Failed to update deduplication cache'' DatabaseLocked), d')"
    by (simp add: send_messages_sqlite_def c)
  moreover have "send_message_sqlite x y e' k m1 d' = (Inr m1, d')"
    if "timestamp (now e' 0) < timestamp (now e 1) + 600" for e'
  proof -
    have "dedup_cached (timestamp (now e' 0) - 300) k a (committed (begin_tx d'))"
      using that by (simp add: d'_def cached_remember)
    from fifo_prepare_cached [where e = e', OF assms(3) this, of x y q] show ?thesis
      by (simp add: send_message_sqlite_def send_message_impl_def queue assms(2))
  qed
  ultimately show ?thesis by (auto simp: d'_def)
qed

theorem sqlite_fifo_batch_loses_witness:
  "\<exists>d'. send_messages_sqlite sample_ext sample_sql (sample_env (seconds 1000)) ''q''
      [sql_message ''m'' ''a'', sql_message ''n'' ''b''] (sql_db SqsFifo None []) =
      (Inl (storage_error sample_sql ''Failed to update deduplication cache'' DatabaseLocked), d') \<and>
    messages_table d' = [] \<and>
    send_message_sqlite sample_ext sample_sql (sample_env (seconds 1001)) ''q'' (sql_message ''m'' ''a'') d' =
      (Inr (sql_message ''m'' ''a''), d')"
proof -
  have ts: "timestamp (seconds n) = n" for n by (simp add: timestamp_def seconds_def nanos_per_second_def)
  have queue: "qc_type (sql_config ''q'' SqsFifo None) = SqsFifo" by (simp add: sql_config_def)
  have m: "deduplication_id (sql_message i a) = Some a" "msg_id (sql_message i a) = i" for i a
    by (simp_all add: sql_message_def)
  have fresh: "\<not> dedup_cached t ''q'' a (sql_db SqsFifo None [])" for t a by (simp add: dedup_cached_def)
  have "next_sequence ''q'' (sql_db SqsFifo None []) < 2 ^ 63" by (simp add: next_sequence_def)
  from sqlite_fifo_batch_loses [OF sql_db_queues(1) queue m(1) m(1) _ fresh fresh this, of "''a''" "''b''" "''m''",
      where x = sample_ext and e = "sample_env (seconds 1000)" and ms = "[]"]
  obtain d' where d': "send_messages_sqlite sample_ext sample_sql (sample_env (seconds 1000)) ''q''
      [sql_message ''m'' ''a'', sql_message ''n'' ''b''] (sql_db SqsFifo None []) =
      (Inl (storage_error sample_sql ''Failed to update deduplication cache'' DatabaseLocked), d')"
    "messages_table d' = []" "\<forall>e'. timestamp (now e' 0) < timestamp (now (sample_env (seconds 1000)) 1) + 600 \<longrightarrow>
       send_message_sqlite sample_ext sample_sql e' ''q'' (sql_message ''m'' ''a'') d' = (Inr (sql_message ''m'' ''a''), d')"
    by (auto simp: m simp del: One_nat_def)
  moreover have "timestamp (now (sample_env (seconds 1001)) 0) < timestamp (now (sample_env (seconds 1000)) 1) + 600"
    by (simp add: ts)
  ultimately show ?thesis by blast
qed

section \<open>Dead letters of a FIFO queue\<close>

lemma selected_frame: "messages_table d' = messages_table d \<Longrightarrow> selected_rows q k t n d' = selected_rows q k t n d"
  by (simp add: selected_rows_def fifo_rows_def standard_rows_def in_flight_groups_def)

lemma due_message:
  assumes "millis_valid y (mr_sent_timestamp r)" and "due_for_dlq y q r" and "dlq_config q = Some dlq"
  obtains m where "parse_message_row y r = Inr m"
    and "exceeds_dlq q (m\<lparr>receive_count := receive_count m + 1\<rparr>) = Some dlq"
    and "deduplication_id m = mr_deduplication_id r"
proof -
  obtain m where m: "parse_message_row y r = Inr m" using assms(1) by (auto elim: parse_valid)
  moreover have "exceeds_dlq q (m\<lparr>receive_count := receive_count m + 1\<rparr>) = Some dlq"
    using exceeds_due [OF m, of q] assms(2,3) by (auto simp: exceeds_dlq_def split: if_splits)
  moreover have "deduplication_id m = mr_deduplication_id r"
    using m by (auto simp: parse_message_row_def split: option.splits)
  ultimately show thesis by (rule that)
qed

text \<open>The transaction of a receive has an old view once its dead letter's entry has been written.\<close>

lemma send_dead_letter_locked:
  assumes "get_queue_sqlite y k d = Inr tq" and "qc_type tq = SqsFifo" and "deduplication_id m = Some a"
    and "\<not> dedup_cached (timestamp (now e 0) - 300) k a d" and "next_sequence k d < 2 ^ 63"
  shows "\<exists>c. send_message_impl x y OnTx e k m (tx_select (begin_tx d)) =
      (Inl (storage_error y ''Failed to insert message'' DatabaseLocked), c) \<and>
    committed c = remember k a (timestamp (now e 1) + 300) d"
proof -
  define c where "c = (tx_select (begin_tx d))\<lparr>committed := remember k a (timestamp (now e 1) + 300) d, tx_stale := True\<rparr>"
  have "fifo_prepare x y e k tq m (tx_select (begin_tx d)) = (Inr (Some (fifo_message k m d)), c)"
    using fifo_prepare_fresh [OF assms(3), of e k "tx_select (begin_tx d)" x y tq] assms(4,5) get_queue_found [OF assms(1)]
    by (simp add: fifo_message_def c_def)
  moreover have "run_write OnTx stmt c = (Inl DatabaseLocked, c)" for stmt
    by (simp add: run_write_def c_def)
  moreover have "committed c = remember k a (timestamp (now e 1) + 300) d" by (simp add: c_def)
  ultimately show ?thesis by (simp add: send_message_impl_def assms(1,2) Let_def)
qed

text \<open>
  With a FIFO dead letter queue a message that is due for it is lost: the first receive writes the
  message's deduplication entry, finds its transaction out of date and fails; the next receive within
  ten minutes takes that entry for a duplicate, stores no copy, and deletes the message.
\<close>

theorem sqlite_fifo_dead_letter_lost:
  assumes "get_queue_sqlite y k d = Inr q" and "dlq_config q = Some dlq"
    and "get_queue_sqlite y (target_queue_id dlq) d = Inr tq" and "qc_type tq = SqsFifo"
    and "millis_valid y (mr_sent_timestamp r)" and "due_for_dlq y q r" and "mr_deduplication_id r = Some a"
    and "\<not> dedup_cached (timestamp (now e 2) - 300) (target_queue_id dlq) a d"
    and "next_sequence (target_queue_id dlq) d < 2 ^ 63"
    and "selected_rows q k (now e 0) (ro_max_messages ro) d = [r]"
    and "selected_rows q k (now e' 0) (ro_max_messages ro) d = [r]"
    and "timestamp (now e' 2) < timestamp (now e 3) + 600"
  shows "\<exists>err d1 d2. receive_messages_sqlite x y e k ro d = (Inl err, d1) \<and> messages_table d1 = messages_table d \<and>
    receive_messages_sqlite x y e' k ro d1 = (Inr [], d2) \<and>
    messages_table d2 = filter (\<lambda>p. mr_id p \<noteq> mr_id r) (messages_table d)"
proof -
  obtain m where m: "parse_message_row y r = Inr m" "exceeds_dlq q (m\<lparr>receive_count := receive_count m + 1\<rparr>) = Some dlq"
    "deduplication_id m = Some a"
    using due_message [OF assms(5,6,2)] assms(7) by metis
  define tk where "tk = target_queue_id dlq"
  define copy where "copy = (\<lambda>t. m\<lparr>receive_count := receive_count m + 1, sent_timestamp := t, receive_count := 0, msg_queue_id := tk\<rparr>)"
  have dedup: "deduplication_id (copy t) = Some a" for t by (simp add: copy_def m(3))
  define d1 where "d1 = remember tk a (timestamp (now e 3) + 300) d"
  obtain c where c: "send_message_impl x y OnTx (env_from 2 e) tk (copy (now e 1)) (tx_select (begin_tx d)) =
      (Inl (storage_error y ''Failed to insert message'' DatabaseLocked), c)" "committed c = d1"
    using send_dead_letter_locked [OF assms(3,4) dedup, of "env_from 2 e" x] assms(8,9) by (auto simp: tk_def d1_def)
  have first: "receive_messages_sqlite x y e k ro d =
      (Inl (storage_error y ''Failed to insert message'' DatabaseLocked), d1)"
    unfolding receive_messages_sqlite_def assms(1) Let_def sum.case select_simps begin_simps
      selected_rows_def [symmetric] assms(10)
    using c unfolding copy_def tk_def by (simp add: m Let_def numeral_2_eq_2)
  have "dedup_cached (timestamp (now (env_from 2 e') 0) - 300) tk a (committed (tx_select (begin_tx d1)))"
    using assms(12) by (simp add: d1_def cached_remember)
  from fifo_prepare_cached [where e = "env_from 2 e'", OF dedup this, of x y tq "now e' 1"]
  have "send_message_impl x y OnTx (env_from 2 e') tk (copy (now e' 1)) (tx_select (begin_tx d1)) =
      (Inr (copy (now e' 1)), tx_select (begin_tx d1))"
    using assms(3,4) by (simp add: send_message_impl_def d1_def remember_queue tk_def)
  moreover have "selected_rows q k (now e' 0) (ro_max_messages ro) d1 = [r]"
    using assms(11) selected_frame [of d1 d] by (simp add: d1_def)
  moreover have "get_queue_sqlite y k d1 = Inr q" by (simp add: d1_def remember_queue assms(1))
  ultimately have "receive_messages_sqlite x y e' k ro d1 = (Inr [], delete_messages (\<lambda>p. mr_id p = mr_id r) d1)"
    unfolding receive_messages_sqlite_def by (simp add: Let_def selected_rows_def [symmetric] m copy_def tk_def tx_write numeral_2_eq_2)
  with first show ?thesis by (auto simp: delete_messages_def d1_def)
qed

theorem sqlite_fifo_dead_letter_lost_witness:
  "\<exists>d1 d2. receive_messages_sqlite sample_ext sample_sql (sample_env (seconds 1001)) ''q'' default_receive_options d1 = (Inr [], d2) \<and>
    map mr_id (messages_table d1) = [''a''] \<and> messages_table d2 = []"
proof -
  define dlq where "dlq = \<lparr> target_queue_id = ''dead'', max_receive_count = 3 \<rparr>"
  define d where "d = sql_db SqsFifo (Some dlq) [sql_row ''a'' 3 None (Some 0)]"
  define q where "q = sql_config ''q'' SqsFifo (Some dlq)"
  have ts: "timestamp (seconds n) = n" for n by (simp add: timestamp_def seconds_def nanos_per_second_def)
  have queues: "get_queue_sqlite sample_sql ''q'' d = Inr q"
    "get_queue_sqlite sample_sql (target_queue_id dlq) d = Inr (sql_config ''dead'' SqsFifo None)"
    by (simp_all add: d_def q_def dlq_def sql_db_queues)
  have types: "dlq_config q = Some dlq" "qc_type (sql_config ''dead'' SqsFifo None) = SqsFifo"
    by (simp_all add: q_def sql_config_def)
  have due: "due_for_dlq sample_sql q (sql_row ''a'' 3 None (Some 0))"
    by (simp add: due_for_dlq_def dlq_def q_def sql_config_def i64_as_u32_def)
  have dedup: "mr_deduplication_id (sql_row ''a'' 3 None (Some 0)) = Some ''a''" by (simp add: sql_row_def)
  have fresh: "\<not> dedup_cached (timestamp (now (sample_env (seconds 1000)) 2) - 300) (target_queue_id dlq) ''a'' d"
    "next_sequence (target_queue_id dlq) d < 2 ^ 63"
    by (simp_all add: dedup_cached_def next_sequence_def d_def dlq_def)
  have sel: "selected_rows q ''q'' (now (sample_env (seconds n)) 0) (ro_max_messages default_receive_options) d =
      [sql_row ''a'' 3 None (Some 0)]" if "0 \<le> n" for n
    using that by (simp add: selected_rows_def q_def sql_config_def fifo_rows_def visible_row_def timestamp_millis_def
        default_receive_options_def u32_min_def d_def group_free_def pos_imp_zdiv_nonneg_iff)
  have "timestamp (now (sample_env (seconds 1001)) 2) < timestamp (now (sample_env (seconds 1000)) 3) + 600"
    by (simp add: ts)
  from sqlite_fifo_dead_letter_lost [OF queues(1) types(1) queues(2) types(2) _ due dedup fresh sel sel this, of sample_ext]
  obtain err d1 d2 where "messages_table d1 = messages_table d"
    "receive_messages_sqlite sample_ext sample_sql (sample_env (seconds 1001)) ''q'' default_receive_options d1 = (Inr [], d2)"
    "messages_table d2 = filter (\<lambda>p. mr_id p \<noteq> mr_id (sql_row ''a'' 3 None (Some 0))) (messages_table d)" by auto
  then show ?thesis by (intro exI [of _ d1] exI [of _ d2]) (simp add: d_def)
qed

end
