(* ===== verification/Sqlite_Lifecycle.thy ===== *)
theory Sqlite_Lifecycle
  imports Sqlite_Fifo
begin

text \<open>
  An abstract specification of the SQLite backend, message by message: the states a message goes
  through and the transitions each operation may make.  The database refines it.
\<close>

section \<open>The specification\<close>

datatype message_state = Gone | Ready | InFlight string

text \<open>What an operation may do to the message \<open>i\<close>: the first state is before, the second after it.\<close>

fun allowed :: "sql_op \<Rightarrow> string \<Rightarrow> message_state \<Rightarrow> message_state \<Rightarrow> bool" where
  "allowed (Send e k m) i p p' \<longleftrightarrow> p' = p \<or> (p = Gone \<and> p' = Ready \<and> i = msg_id m)"
| "allowed (SendBatch e k ms) i p p' \<longleftrightarrow> p' = p \<or> (p = Gone \<and> p' = Ready \<and> i \<in> msg_id ` set ms)"
| "allowed (Receive e k ro) i p p' \<longleftrightarrow> p' = p \<or> (p = Ready \<and> p' \<noteq> Ready)"
| "allowed (Delete k h) i p p' \<longleftrightarrow> p' = p \<or> (p = InFlight h \<and> p' = Gone)"
| "allowed (ChangeVisibility e k h vt) i p p' \<longleftrightarrow> p' = p \<or> (p = InFlight h \<and> vt = 0 \<and> p' = Ready)"
| "allowed (ExpireVisibility e k) i p p' \<longleftrightarrow> p' = p \<or> (\<exists>h. p = InFlight h \<and> p' = Ready)"
| "allowed (Purge k) i p p' \<longleftrightarrow> p' = p \<or> p' = Gone"
| "allowed (DeleteQueue k) i p p' \<longleftrightarrow> p' = p \<or> p' = Gone"
| "allowed (ExpireMessages e) i p p' \<longleftrightarrow> p' = p \<or> p' = Gone"
| "allowed (CreateQueue e c) i p p' \<longleftrightarrow> p' = p"
| "allowed (UpdateQueue e c) i p p' \<longleftrightarrow> p' = p"
| "allowed (CreateSubscription e sb) i p p' \<longleftrightarrow> p' = p"
| "allowed (DeleteSubscription k) i p p' \<longleftrightarrow> p' = p"
| "allowed (ExpireDedup e) i p p' \<longleftrightarrow> p' = p"

section \<open>The abstraction\<close>

definition row_state :: "message_row \<Rightarrow> message_state" where
  "row_state r = (case mr_receipt_handle r of None \<Rightarrow> Ready | Some h \<Rightarrow> InFlight h)"

definition rows_state :: "message_row list \<Rightarrow> string \<Rightarrow> message_state" where
  "rows_state rs i = (case find (\<lambda>r. mr_id r = i) rs of None \<Rightarrow> Gone | Some r \<Rightarrow> row_state r)"

definition message_state_of :: "sqlite \<Rightarrow> string \<Rightarrow> message_state" where
  "message_state_of d = rows_state (messages_table d)"

lemma rows_state_Gone: "rows_state rs i = Gone \<longleftrightarrow> i \<notin> mr_id ` set rs"
  by (auto simp: rows_state_def row_state_def find_None_iff split: option.split)
    (auto simp: find_Some_iff split: option.splits)

lemma rows_state_in: "\<lbrakk>distinct (map mr_id rs); r \<in> set rs\<rbrakk> \<Longrightarrow> rows_state rs (mr_id r) = row_state r"
proof (induction rs)
  case (Cons a rs)
  then show ?case by (cases "r = a") (auto simp: rows_state_def)
qed simp

lemma rows_state_append:
  "rows_state (rs @ [r]) i = (if i \<notin> mr_id ` set rs \<and> mr_id r = i then row_state r else rows_state rs i)"
  by (induction rs) (auto simp: rows_state_def split: option.splits)

lemma rows_state_filter:
  "distinct (map mr_id rs) \<Longrightarrow> rows_state (filter P rs) i =
     (if \<exists>r \<in> set rs. mr_id r = i \<and> \<not> P r then Gone else rows_state rs i)"
proof (induction rs)
  case (Cons a rs)
  have "mr_id a \<notin> mr_id ` set (filter P rs)" using Cons.prems by auto
  then have "mr_id a = i \<Longrightarrow> rows_state (filter P rs) i = Gone" by (auto simp: rows_state_Gone)
  with Cons show ?case by (auto simp: rows_state_def)
qed (simp add: rows_state_def)

lemma rows_state_map:
  fixes f :: "message_row \<Rightarrow> message_row"
  assumes "\<And>r. mr_id (f r) = mr_id r"
  shows "rows_state (map f rs) i = (case find (\<lambda>r. mr_id r = i) rs of None \<Rightarrow> Gone | Some r \<Rightarrow> row_state (f r))"
  by (simp add: rows_state_def find_map_key [where key = mr_id, OF assms] split: option.split)

lemma state_delete:
  "db_ok d \<Longrightarrow> message_state_of (delete_messages P d) i =
     (if \<exists>r \<in> set (messages_table d). mr_id r = i \<and> P r then Gone else message_state_of d i)"
  by (auto simp: message_state_of_def delete_messages_def rows_state_filter db_ok_defs)

lemma state_insert:
  assumes "insert_message r d = Inr d'" and "row_available r"
  shows "message_state_of d' i = (if i = mr_id r then Ready else message_state_of d i)"
    and "message_state_of d (mr_id r) = Gone"
  using assms by (auto simp: insert_message_iff message_state_of_def rows_state_append rows_state_Gone
      row_state_def row_available_def)

lemma state_update:
  assumes "\<And>r. mr_id (f r) = mr_id r"
  shows "message_state_of (update_messages P f d) i =
    (case find (\<lambda>r. mr_id r = i) (messages_table d) of None \<Rightarrow> Gone
     | Some r \<Rightarrow> if P r then row_state (f r) else row_state r)"
  unfolding message_state_of_def update_messages_def
  using rows_state_map [of "\<lambda>r. if P r then f r else r" "messages_table d" i] assms
  by (auto split: option.split)

lemma state_find:
  "message_state_of d i = (case find (\<lambda>r. mr_id r = i) (messages_table d) of None \<Rightarrow> Gone | Some r \<Rightarrow> row_state r)"
  by (simp add: message_state_of_def rows_state_def)

lemma state_frame: "messages_table d' = messages_table d \<Longrightarrow> message_state_of d' = message_state_of d"
  by (simp add: message_state_of_def)

section \<open>Sending\<close>

lemma put_dedup_messages: "put_dedup r d = Inr d' \<Longrightarrow> messages_table d' = messages_table d"
  by (auto simp: put_dedup_def split: if_splits)

text \<open>What the preparation of a FIFO message leaves alone.\<close>

lemma fifo_prepare_frame:
  assumes "fifo_prepare x y e k q m c = (r, c')"
  shows "messages_table (committed c') = messages_table (committed c)" and "tx_view c' = tx_view c"
    and "tx_written c' = tx_written c" and "r = Inr (Some m') \<Longrightarrow> msg_id m' = msg_id m"
  using assms by (auto simp: fifo_prepare_def run_write_def Let_def
      split: if_splits option.splits sum.splits prod.splits dest!: put_dedup_messages)

text \<open>A send is prepared, then either dropped as a duplicate or inserted.\<close>

lemma send_impl_cases:
  assumes "send_message_impl x y ex e k m c = (r, c')"
  obtains (kept) "tx_view c' = tx_view c" "tx_written c' = tx_written c"
      "messages_table (committed c') = messages_table (committed c)"
  | (inserted) c1 row m1 where "tx_view c1 = tx_view c" "tx_written c1 = tx_written c"
      "messages_table (committed c1) = messages_table (committed c)" "mr_id row = msg_id m" "row_available row"
      "run_write ex (insert_message row) c1 = (Inr (), c')" "r = Inr m1"
proof (cases "get_queue_sqlite y k (committed c)")
  case (Inr q)
  obtain r1 c1 where prep: "(if qc_type q = SqsFifo then fifo_prepare x y e k q m c else (Inr (Some m), c)) = (r1, c1)"
    by fastforce
  have frame: "tx_view c1 = tx_view c" "tx_written c1 = tx_written c"
    "messages_table (committed c1) = messages_table (committed c)" "\<And>m'. r1 = Inr (Some m') \<Longrightarrow> msg_id m' = msg_id m"
    using prep fifo_prepare_frame [of x y e k q m c r1 c1] by (auto split: if_splits)
  show thesis
  proof (cases "\<exists>m1 row. r1 = Inr (Some m1) \<and> mr_id row = msg_id m1 \<and> row_available row \<and>
      run_write ex (insert_message row) c1 = (Inr (), c') \<and> r = Inr m1")
    case True
    then show thesis using frame inserted [of c1] by metis
  next
    case False
    have "c' = c1"
    proof (cases "\<exists>m1. r1 = Inr (Some m1)")
      case True
      then obtain m1 where m1: "r1 = Inr (Some m1)" by blast
      define row where "row = message_to_row y k (case msg_delay_seconds m1 of Some s \<Rightarrow> s | None \<Rightarrow> delay_seconds q) (now e 2) m1"
      have row: "mr_id row = msg_id m1" "row_available row" by (simp_all add: row_def) (simp add: message_to_row_def)
      obtain w c2 where w: "run_write ex (insert_message row) c1 = (w, c2)" by fastforce
      have sent: "(case w of Inl err \<Rightarrow> (Inl (storage_error y ''Failed to insert message'' err), c2) | Inr _ \<Rightarrow> (Inr m1, c2)) = (r, c')"
        using assms unfolding send_message_impl_def Inr
        by (simp add: prep m1 Let_def row_def [symmetric] w split: sum.splits)
      have "w \<noteq> Inr ()" using False m1 row w sent by auto
      then show ?thesis using sent w by (auto simp: run_write_def split: sum.splits executor.splits if_splits)
    next
      case False
      then show ?thesis
        using assms unfolding send_message_impl_def Inr
        by (auto simp: prep split: sum.splits option.splits)
    qed
    then show thesis using kept frame by simp
  qed
qed (use assms kept in \<open>simp add: send_message_impl_def\<close>)

lemma read_frame:
  "\<lbrakk>tx_view c' = tx_view c; messages_table (committed c') = messages_table (committed c)\<rbrakk> \<Longrightarrow>
     messages_table (tx_read c') = messages_table (tx_read c)"
  by (simp add: tx_read_def split: option.split)

lemma send_pool_state:
  "allowed (Send e k m) i (message_state_of d i) (message_state_of (run_sql x y (Send e k m) d) i)"
proof -
  obtain r c' where send: "send_message_impl x y OnPool e k m (begin_tx d) = (r, c')" by fastforce
  show ?thesis
  proof (cases rule: send_impl_cases [OF send])
    case 1
    then show ?thesis using state_frame [of "committed c'" d] by (simp add: send_message_sqlite_def send)
  next
    case (2 c1 row m1)
    then obtain d' where d': "insert_message row (committed c1) = Inr d'" "committed c' = d'"
      by (auto simp: run_write_def split: sum.splits)
    from state_insert [OF d'(1) 2(5)] state_frame [OF 2(3)] 2(4) d'(2) show ?thesis
      by (simp add: send_message_sqlite_def send)
  qed
qed

lemma send_tx_state:
  assumes "send_message_impl x y OnTx e k m c = (r, c')"
  shows "messages_table (committed c') = messages_table (committed c)"
    and "message_state_of (tx_read c') i = message_state_of (tx_read c) i \<or>
      (i = msg_id m \<and> message_state_of (tx_read c) i = Gone \<and> message_state_of (tx_read c') i = Ready)"
    and "tx_view c \<noteq> None \<Longrightarrow> tx_view c' \<noteq> None"
proof -
  have "messages_table (committed c') = messages_table (committed c) \<and>
    (message_state_of (tx_read c') i = message_state_of (tx_read c) i \<or>
      (i = msg_id m \<and> message_state_of (tx_read c) i = Gone \<and> message_state_of (tx_read c') i = Ready)) \<and>
    (tx_view c \<noteq> None \<longrightarrow> tx_view c' \<noteq> None)"
  proof (cases rule: send_impl_cases [OF assms])
    case 1
    then show ?thesis using state_frame [OF read_frame [OF 1(1,3)]] by simp
  next
    case (2 c1 row m1)
    then obtain d' where d': "insert_message row (tx_read c1) = Inr d'" "c' = written d' c1"
      by (auto simp: run_write_def written_def split: sum.splits if_splits)
    have "message_state_of (tx_read c1) = message_state_of (tx_read c)"
      by (rule state_frame [OF read_frame [OF 2(1,3)]])
    with state_insert [OF d'(1) 2(5)] 2(3,4) show ?thesis by (simp add: d'(2)) (simp add: written_def)
  qed
  then show "messages_table (committed c') = messages_table (committed c)"
    and "message_state_of (tx_read c') i = message_state_of (tx_read c) i \<or>
      (i = msg_id m \<and> message_state_of (tx_read c) i = Gone \<and> message_state_of (tx_read c') i = Ready)"
    and "tx_view c \<noteq> None \<Longrightarrow> tx_view c' \<noteq> None" by simp_all
qed

lemma send_loop_state:
  assumes "send_messages_loop x y e k ms c = (r, c')"
  shows "messages_table (committed c') = messages_table (committed c) \<and>
    (message_state_of (tx_read c') i = message_state_of (tx_read c) i \<or>
      (i \<in> msg_id ` set ms \<and> message_state_of (tx_read c) i = Gone \<and> message_state_of (tx_read c') i = Ready))"
  using assms
proof (induction ms arbitrary: c e r)
  case (Cons m ms)
  obtain r1 c1 where send: "send_message_impl x y OnTx e k m c = (r1, c1)" by fastforce
  show ?case
  proof (cases r1)
    case (Inl err)
    then have "c' = c1" using Cons.prems by (simp add: send)
    then show ?thesis using send_tx_state [OF send] by auto
  next
    case (Inr m1)
    obtain r2 c2 where loop: "send_messages_loop x y (env_from 3 e) k ms c1 = (r2, c2)" by fastforce
    moreover from this have "c2 = c'" using Cons.prems by (auto simp: send Inr split: sum.splits)
    ultimately show ?thesis using Cons.IH [of "env_from 3 e" c1 r2] send_tx_state(1) [OF send] send_tx_state(2) [OF send, of i] by auto
  qed
qed simp

lemma commit_state:
  "messages_table (committed c') = messages_table d \<Longrightarrow>
     message_state_of (commit_tx c') i \<in> {message_state_of (tx_read c') i, message_state_of d i}"
  using state_frame [of "committed c'" d] by (simp add: commit_tx_def)

lemma send_batch_state:
  "allowed (SendBatch e k ms) i (message_state_of d i) (message_state_of (run_sql x y (SendBatch e k ms) d) i)"
proof -
  obtain r c' where loop: "send_messages_loop x y e k ms (begin_tx d) = (r, c')" by fastforce
  note state = send_loop_state [OF loop, of i]
  then have same: "messages_table (committed c') = messages_table d" by simp
  show ?thesis
    using commit_state [OF same, of i] state_frame [OF same] state
    by (auto simp: send_messages_sqlite_def loop split: sum.split)
qed

section \<open>Receiving\<close>

lemma run_tx_cases:
  assumes "run_write OnTx (\<lambda>d. Inr (f d)) c = (w, c')"
  obtains (ran) "w = Inr ()" "c' = written (f (tx_read c)) c"
  | (locked) err where "w = Inl err" "c' = c"
  using assms by (auto simp: run_write_def written_def split: if_splits)

definition taken_or_same :: "message_state \<Rightarrow> message_state \<Rightarrow> bool" where
  "taken_or_same p p' \<longleftrightarrow> p' = p \<or> (p = Ready \<and> p' \<noteq> Ready)"

lemma taken_or_same_trans: "\<lbrakk>taken_or_same p p'; taken_or_same p' p''\<rbrakk> \<Longrightarrow> taken_or_same p p''"
  by (auto simp: taken_or_same_def)

lemma taken_or_same_refl [simp]: "taken_or_same p p"
  by (simp add: taken_or_same_def)

lemma mark_state:
  "message_state_of (update_messages (\<lambda>r. mr_id r = j) (mark_in_flight n h t) d) i =
     (if i = j \<and> message_state_of d i \<noteq> Gone then InFlight h else message_state_of d i)"
proof (cases "find (\<lambda>r. mr_id r = i) (messages_table d)")
  case (Some r)
  then have "mr_id r = i" by (auto simp: find_Some_iff)
  then show ?thesis
    using state_update [of "mark_in_flight n h t" "\<lambda>r. mr_id r = j" d i] state_find [of d i] Some
    by (simp add: row_state_def mark_in_flight_def split: option.split)
qed (use state_update [of "mark_in_flight n h t" "\<lambda>r. mr_id r = j" d i] state_find [of d i] in simp)

text \<open>While the rows are processed, those still to come are available in the view.\<close>

lemma receive_rows_state:
  assumes "receive_rows x y e k q t vt rows c = (r, c')" and "distinct (map mr_id rows)"
    and "\<forall>row \<in> set rows. message_state_of (tx_read c) (mr_id row) = Ready" and "connection_all db_ok c"
  shows "messages_table (committed c') = messages_table (committed c) \<and>
    taken_or_same (message_state_of (tx_read c) i) (message_state_of (tx_read c') i)"
  using assms
proof (induction rows arbitrary: c e r)
  case (Cons row rows)
  note ready = Cons.prems(3)
  have step: ?case if "messages_table (committed c2) = messages_table (committed c)" "connection_all db_ok c2"
    "receive_rows x y e2 k q t vt rows c2 = (r2, c')"
    "\<And>j. message_state_of (tx_read c2) j = (if j = mr_id row then s2 else message_state_of (tx_read c) j)" "s2 \<noteq> Ready"
    for c2 e2 r2 s2
  proof -
    have "\<forall>row \<in> set rows. message_state_of (tx_read c2) (mr_id row) = Ready"
      using ready Cons.prems(2) that(4) by (simp, metis imageI)
    from Cons.IH [OF that(3) _ this that(2)] Cons.prems(2) that(1)
    have "messages_table (committed c') = messages_table (committed c)"
      "taken_or_same (message_state_of (tx_read c2) i) (message_state_of (tx_read c') i)" by simp_all
    moreover have "taken_or_same (message_state_of (tx_read c) i) (message_state_of (tx_read c2) i)"
      using ready that(4,5) by (simp add: taken_or_same_def)
    ultimately show ?case by (blast intro: taken_or_same_trans)
  qed
  show ?case
  proof (cases "parse_message_row y row")
    case (Inr m0)
    define m where "m = m0\<lparr>receive_count := receive_count m0 + 1\<rparr>"
    define expires where "expires = timestamp_millis (t + seconds (int (unat vt)))"
    note loop = Cons.prems(1) [unfolded receive_rows.simps(2) Inr sum.case m_def [symmetric] expires_def [symmetric] Let_def]
    show ?thesis
    proof (cases "exceeds_dlq q m")
      case None
      show ?thesis
      proof (cases "generate_receipt_handle x (uuid e 0) k (mr_id row)")
        case (Some h)
        let ?f = "update_messages (\<lambda>r. mr_id r = mr_id row)
          (mark_in_flight (receive_count m) h expires)"
        obtain w c2 where w: "run_write OnTx (\<lambda>d. Inr (?f d)) c = (w, c2)" by fastforce
        show ?thesis
        proof (cases rule: run_tx_cases [OF w])
          case 1
          obtain r2 c3 where rest: "receive_rows x y (env_from 1 e) k q t vt rows c2 = (r2, c3)" by fastforce
          moreover from this have "c3 = c'"
            using loop by (auto simp: None Some w 1(1) split: sum.splits)
          moreover have "connection_all db_ok c2"
            using kept.mark_all [OF Cons.prems(4), of "mr_id row" "receive_count m" h expires] by (simp only: w snd_conv)
          moreover have "message_state_of (tx_read c2) j =
              (if j = mr_id row then InFlight h else message_state_of (tx_read c) j)" for j
            using ready by (simp add: 1(2) mark_state)
          ultimately show ?thesis by (intro step [of c2 "env_from 1 e" r2 "InFlight h"]) (simp_all add: 1(2))
        next
          case 2
          then show ?thesis using loop by (simp add: None Some w)
        qed
      qed (use loop in \<open>simp add: None\<close>)
    next
      case (Some dlq)
      define sent where "sent = m\<lparr>sent_timestamp := now e 0, receive_count := 0, msg_queue_id := target_queue_id dlq\<rparr>"
      obtain r1 c1 where send: "send_message_impl x y OnTx (env_from 1 e) (target_queue_id dlq) sent c = (r1, c1)" by fastforce
      have "msg_id sent = mr_id row"
        using Inr by (auto simp: sent_def m_def parse_message_row_def split: option.splits)
      then have same: "message_state_of (tx_read c1) j = message_state_of (tx_read c) j"
        "messages_table (committed c1) = messages_table (committed c)" for j
        using send_tx_state(1) [OF send] send_tx_state(2) [OF send, of j] ready by auto
      show ?thesis
      proof (cases r1)
        case (Inl err)
        then show ?thesis using loop same by (simp add: Some sent_def [symmetric] send [unfolded One_nat_def])
      next
        case (Inr m1)
        let ?f = "delete_messages (\<lambda>r. mr_id r = mr_id row)"
        have ok: "connection_all db_ok c1"
          using kept.send_impl [OF Cons.prems(4), of x y OnTx "env_from 1 e" "target_queue_id dlq" sent] by (simp only: send snd_conv)
        obtain w c2 where w: "run_write OnTx (\<lambda>d. Inr (?f d)) c1 = (w, c2)" by fastforce
        show ?thesis
        proof (cases rule: run_tx_cases [OF w])
          case 1
          have "receive_rows x y (env_from 4 e) k q t vt rows c2 = (r, c')"
            using loop by (simp add: Some sent_def [symmetric] send [unfolded One_nat_def] Inr w 1(1))
          moreover have "connection_all db_ok c2"
            using kept.delete_all [OF ok, of "\<lambda>r. mr_id r = mr_id row"] by (simp only: w snd_conv)
          moreover have "mr_id row \<in> mr_id ` set (messages_table (tx_read c1))"
            using ready same(1) [of "mr_id row"] rows_state_Gone [of "messages_table (tx_read c1)" "mr_id row"]
            by (simp add: message_state_of_def)
          then have "message_state_of (tx_read c2) j =
              (if j = mr_id row then Gone else message_state_of (tx_read c) j)" for j
            using same(1) state_delete [OF connection_all_read [OF ok]] by (auto simp: 1(2))
          ultimately show ?thesis
            by (intro step [of c2 "env_from 4 e" r Gone]) (simp_all add: 1(2) same(2))
        next
          case 2
          then show ?thesis using loop same by (simp add: Some sent_def [symmetric] send [unfolded One_nat_def] Inr w)
        qed
      qed
    qed
  qed (use Cons.prems in simp)
qed simp

lemma receive_state:
  assumes "db_ok d"
  shows "allowed (Receive e k ro) i (message_state_of d i) (message_state_of (run_sql x y (Receive e k ro) d) i)"
proof (cases "get_queue_sqlite y k d")
  case (Inr q)
  let ?rows = "selected_rows q k (now e 0) (ro_max_messages ro) d"
  let ?vt = "effective_timeout q ro"
  obtain r c' where rows: "receive_rows x y (env_from 1 e) k q (now e 0) ?vt ?rows (tx_select (begin_tx d)) = (r, c')"
    by fastforce
  have "message_state_of d (mr_id row) = Ready" if "row \<in> set ?rows" for row
  proof -
    have "row_available row" "distinct (map mr_id (messages_table d))" "row \<in> set (messages_table d)"
      using selected_in [OF that] assms by (auto simp: db_ok_defs visible_row_def row_in_flight_def)
    then show ?thesis by (simp add: message_state_of_def rows_state_in row_state_def row_available_def)
  qed
  with receive_rows_state [OF rows selected_distinct [OF assms], of i] assms
  have state: "messages_table (committed c') = messages_table d"
    "taken_or_same (message_state_of d i) (message_state_of (tx_read c') i)" by simp_all
  have "run_sql x y (Receive e k ro) d = (case r of Inl err \<Rightarrow> committed c' | Inr _ \<Rightarrow> commit_tx c')"
    unfolding run_sql.simps receive_messages_sqlite_def Inr sum.case Let_def select_simps begin_simps
      selected_rows_def [symmetric] effective_timeout_def [symmetric] rows by (simp split: sum.split)
  then show ?thesis
    using commit_state [OF state(1), of i] state_frame [OF state(1)] state(2)
    by (auto simp: taken_or_same_def split: sum.splits)
qed (simp add: receive_messages_sqlite_def)

section \<open>The refinement\<close>

lemma delete_state:
  assumes "db_ok d"
  shows "allowed (Delete k h) i (message_state_of d i) (message_state_of (run_sql x y (Delete k h) d) i)"
proof -
  have "message_state_of d (mr_id r) = InFlight h" if "r \<in> set (messages_table d)" "held_row k j h r" for r j
    using that rows_state_in [of "messages_table d" r] assms
    by (auto simp: message_state_of_def db_ok_defs row_state_def held_row_def)
  then show ?thesis
    by (auto simp: delete_message_sqlite_def state_delete [OF assms] split: sum.split)
qed

lemma update_state:
  assumes "\<And>r. mr_id (f r) = mr_id r"
    and "\<And>r. r \<in> set (messages_table d) \<Longrightarrow> mr_id r = i \<Longrightarrow> P r \<Longrightarrow> allowed op i (row_state r) (row_state (f r))"
    and "\<And>p. allowed op i p p"
  shows "allowed op i (message_state_of d i) (message_state_of (update_messages P f d) i)"
proof (cases "find (\<lambda>r. mr_id r = i) (messages_table d)")
  case (Some r)
  then have "r \<in> set (messages_table d)" "mr_id r = i" by (auto simp: find_Some_iff)
  then show ?thesis
    using state_update [of f P d i, OF assms(1)] state_find [of d i] assms(2,3) by (simp add: Some)
qed (use state_update [of f P d i, OF assms(1)] state_find [of d i] assms(3) in simp)

lemma change_state:
  "allowed (ChangeVisibility e k h vt) i (message_state_of d i)
     (message_state_of (run_sql x y (ChangeVisibility e k h vt) d) i)"
proof (cases "run_sql x y (ChangeVisibility e k h vt) d = d")
  case False
  then obtain j where result: "run_sql x y (ChangeVisibility e k h vt) d = update_messages (held_row k j h)
      (if vt = 0 then make_available (timestamp_millis (now e 0))
       else (\<lambda>r. r\<lparr>mr_visibility_expires_at := Some (timestamp_millis (now e 0 + seconds (int (unat vt))))\<rparr>)) d"
    by (auto simp: change_visibility_sqlite_def Let_def split: sum.splits if_splits)
  show ?thesis
    unfolding result
    by (rule update_state) (auto simp: row_state_def held_row_def make_available_def)
qed simp

lemma expire_state:
  assumes "db_ok d"
  shows "allowed (ExpireVisibility e k) i (message_state_of d i)
    (message_state_of (run_sql x y (ExpireVisibility e k) d) i)"
  unfolding run_sql.simps process_expired_visibility_sqlite_def Let_def snd_conv
  by (rule update_state) (use assms in \<open>auto simp: row_state_def make_available_def expired_row_def db_ok_defs
      row_available_def row_in_flight_def\<close>)

lemma delete_expired_state:
  "db_ok d \<Longrightarrow> message_state_of (snd (delete_expired_loop t rows d n)) i \<in> {message_state_of d i, Gone}"
proof (induction rows arbitrary: d n)
  case (Cons row rows)
  define old where "old = (\<lambda>r :: message_row. mr_queue_id r = qr_id row \<and> mr_sent_timestamp r < t - qr_message_retention_period row * 1000)"
  have "message_state_of (delete_messages old d) i \<in> {message_state_of d i, Gone}"
    by (simp add: state_delete [OF Cons.prems])
  with Cons.IH [OF delete_messages_ok [OF Cons.prems], of old "n + rows_affected old d"]
  show ?case by (auto simp: old_def Let_def)
qed simp

text \<open>
  C13. The SQLite backend refines the life of a message: from outside, every operation moves every message
  only along the transitions allowed to it.  Only a send can bring a message in, only a receive can put
  it in flight and only from being ready, only its own current handle deletes it or makes it ready
  early, only the visibility tick makes it ready otherwise, and apart from that only purging, expiry of
  the retention period, and deletion of the queue remove it.
\<close>

theorem sqlite_message_lifecycle:
  assumes "db_ok d"
  shows "allowed op i (message_state_of d i) (message_state_of (run_sql x y op d) i)"
proof (cases op)
  case (DeleteQueue k)
  have "message_state_of (delete_queue_row k d) i = message_state_of (delete_messages (\<lambda>r. mr_queue_id r = k) d) i"
    by (simp add: message_state_of_def delete_queue_row_def delete_messages_def)
  then show ?thesis by (simp add: DeleteQueue delete_queue_sqlite_def state_delete [OF assms])
next
  case (Purge k)
  then show ?thesis by (simp add: purge_queue_sqlite_def state_delete [OF assms] split: sum.split)
next
  case (ExpireMessages e)
  then show ?thesis
    using delete_expired_state [OF assms, of "timestamp_millis (now e 0)" "queues_table d" 0 i]
    by (auto simp: delete_expired_messages_def split_beta)
qed (use assms in \<open>simp_all add: send_pool_state send_batch_state receive_state delete_state change_state expire_state
    del: run_sql.simps(4-8,12) allowed.simps(1-6)\<close>,
    auto simp: create_queue_sqlite_def insert_queue_iff update_queue_sqlite_def
    create_subscription_sqlite_def insert_subscription_iff delete_subscription_sqlite_def
    cleanup_deduplication_cache_sqlite_def Let_def message_state_of_def split: sum.split)

theorem sqlite_message_lifecycle_witness:
  "allowed (Receive (sample_env 7) ''q'' default_receive_options) ''a'' Ready
     (message_state_of (run_sql sample_ext sample_sql (Receive (sample_env 7) ''q'' default_receive_options)
        (sql_db SqsStandard None [sql_row ''a'' 0 None None])) ''a'')"
proof -
  have "db_ok (sql_db SqsStandard None [sql_row ''a'' 0 None None])" by (rule sql_db_ok) auto
  moreover have "message_state_of (sql_db SqsStandard None [sql_row ''a'' 0 None None]) ''a'' = Ready"
    by (simp add: message_state_of_def rows_state_def row_state_def) (simp add: sql_row_def)
  ultimately show ?thesis
    using sqlite_message_lifecycle [of "sql_db SqsStandard None [sql_row ''a'' 0 None None]"
        "Receive (sample_env 7) ''q'' default_receive_options" "''a''" sample_ext sample_sql] by simp
qed

end
