(* ===== verification/Engine.thy ===== *)
theory Engine
  imports Sqlite
begin

text \<open>
  The background engine: the dead letter handler (\<open>src/core/dlq.rs\<close>), the visibility manager
  (\<open>src/core/visibility.rs\<close>) and the cleanup manager (\<open>src/core/cleanup.rs\<close>).  A manager is a loop
  around a timer; what is modelled is one turn of its body, which only logs errors, and a run of
  turns.
\<close>

section \<open>Dead letter handler\<close>

definition should_move_to_dlq :: "message \<Rightarrow> queue_config \<Rightarrow> bool" where
  "should_move_to_dlq m c =
     (case dlq_config c of
        None \<Rightarrow> False
      | Some dlq \<Rightarrow> if max_receive_count dlq \<le> receive_count m then True else False)"

definition move_to_dlq :: "'s backend \<Rightarrow> env \<Rightarrow> message \<Rightarrow> dlq_target \<Rightarrow> string \<Rightarrow> 's \<Rightarrow> unit result \<times> 's" where
  "move_to_dlq b e m dlq source_queue_id s =
     (case be_send_message b e (target_queue_id dlq) m s of
        (Inl err, s') \<Rightarrow> (Inl err, s')
      | (Inr _, s') \<Rightarrow> (Inr (), s'))"

definition process_message :: "'s backend \<Rightarrow> env \<Rightarrow> message \<Rightarrow> queue_config \<Rightarrow> 's \<Rightarrow> bool result \<times> 's" where
  "process_message b e m c s =
     (case dlq_config c of
        None \<Rightarrow> (Inr False, s)
      | Some dlq \<Rightarrow>
          if should_move_to_dlq m c then
            (case move_to_dlq b e m dlq (qc_id c) s of
               (Inl err, s') \<Rightarrow> (Inl err, s')
             | (Inr _, s') \<Rightarrow> (Inr True, s'))
          else (Inr False, s))"

record dlq_stats =
  message_count :: nat
  oldest_message_age_seconds :: "u64 option"

text \<open>\<open>TimeDelta::num_seconds\<close> rounds towards zero.\<close>

definition num_seconds :: "int \<Rightarrow> int" where
  "num_seconds d = (if d < 0 then - ((- d) div nanos_per_second) else d div nanos_per_second)"

definition get_dlq_stats :: "'s backend \<Rightarrow> env \<Rightarrow> string \<Rightarrow> 's \<Rightarrow> dlq_stats result" where
  "get_dlq_stats b e dlq_id s =
     (case be_get_stats b dlq_id s of
        Inl err \<Rightarrow> Inl err
      | Inr stats \<Rightarrow>
          Inr \<lparr> message_count = st_available_messages stats + st_in_flight_messages stats,
                oldest_message_age_seconds =
                  map_option (\<lambda>ts. word_of_int (num_seconds (now e 0 - ts))) (oldest_message_timestamp stats) \<rparr>)"

section \<open>Visibility manager\<close>

definition process_queue_expired_visibility :: "'s backend \<Rightarrow> env \<Rightarrow> string \<Rightarrow> 's \<Rightarrow> unit result \<times> 's" where
  "process_queue_expired_visibility b e queue_id s =
     (case be_process_expired_visibility b e queue_id s of
        (Inl err, s') \<Rightarrow> (Inl err, s')
      | (Inr n, s') \<Rightarrow> (Inr (), s'))"

text \<open>The loop over the queues; \<open>es i\<close> are the readings of its \<open>i\<close>-th call.  An error is logged.\<close>

fun expire_queues_loop :: "'s backend \<Rightarrow> envs \<Rightarrow> queue_config list \<Rightarrow> 's \<Rightarrow> 's" where
  "expire_queues_loop b es [] s = s"
| "expire_queues_loop b es (queue # queues) s =
     (case process_queue_expired_visibility b (es 0) (qc_id queue) s of
        (Inl err, s') \<Rightarrow> expire_queues_loop b (\<lambda>i. es (Suc i)) queues s'
      | (Inr _, s') \<Rightarrow> expire_queues_loop b (\<lambda>i. es (Suc i)) queues s')"

definition manager_process_expired_visibility :: "'s backend \<Rightarrow> envs \<Rightarrow> 's \<Rightarrow> unit result \<times> 's" where
  "manager_process_expired_visibility b es s =
     (case be_list_queues b None s of
        Inl err \<Rightarrow> (Inl err, s)
      | Inr queues \<Rightarrow> (Inr (), expire_queues_loop b es queues s))"

definition visibility_turn :: "'s backend \<Rightarrow> envs \<Rightarrow> 's \<Rightarrow> 's" where
  "visibility_turn b es s =
     (case manager_process_expired_visibility b es s of (Inl err, s') \<Rightarrow> s' | (Inr _, s') \<Rightarrow> s')"

text \<open>The function of \<open>visibility.rs\<close> that is meant for the in-memory backend does nothing.\<close>

definition process_expired_messages_in_memory :: "'s \<Rightarrow> unit result \<times> 's" where
  "process_expired_messages_in_memory s = (Inr (), s)"

section \<open>Cleanup manager\<close>

definition cleanup_turn :: "envs \<Rightarrow> sqlite \<Rightarrow> sqlite" where
  "cleanup_turn es d =
     (case cleanup_deduplication_cache_sqlite (es 0) d of
        (_, d1) \<Rightarrow> (case delete_expired_messages (es 1) d1 of (_, d2) \<Rightarrow> d2))"

end
