(* ===== verification/Engine_Turns.thy ===== *)
theory Engine_Turns
  imports Engine Memory_Contract Sqlite_Lifecycle
begin

text \<open>
  What a turn of the managers does.  The visibility manager is proved once, over any backend in which
  expiring the messages of a queue is one step of an expiry of several queues (the locale
  \<open>expiring_store\<close>), and both backends are shown to be one.
\<close>

section \<open>The contract\<close>

text \<open>
  \<open>expire \<tau> s\<close> returns, in every queue \<open>k\<close> with a reading \<open>\<tau> k\<close> of the clock, the messages whose
  visibility timeout has passed at that reading.
\<close>

locale expiring_store =
  fixes b :: "'s backend" and inv :: "'s \<Rightarrow> bool" and known :: "'s \<Rightarrow> string set"
    and expire :: "(string \<Rightarrow> int option) \<Rightarrow> 's \<Rightarrow> 's"
  assumes list_all: "inv s \<Longrightarrow> \<exists>cs. be_list_queues b None s = Inr cs \<and> distinct (map qc_id cs) \<and>
      qc_id ` set cs = known s"
    and expire_none: "expire Map.empty s = s"
    and expire_next: "inv s \<Longrightarrow> k \<notin> dom \<tau> \<Longrightarrow>
      snd (be_process_expired_visibility b e k (expire \<tau> s)) = expire (\<tau>(k \<mapsto> now e 0)) s"
begin

lemma loop_step: "expire_queues_loop b es (c # cs) s =
    expire_queues_loop b (\<lambda>i. es (Suc i)) cs (snd (be_process_expired_visibility b (es 0) (qc_id c) s))"
  by (simp add: process_queue_expired_visibility_def split_beta split: sum.split)

lemma loop:
  assumes "inv s" and "distinct (map qc_id cs)" and "dom \<tau> \<inter> qc_id ` set cs = {}"
  shows "\<exists>\<tau>'. expire_queues_loop b es cs (expire \<tau> s) = expire \<tau>' s \<and> dom \<tau>' = dom \<tau> \<union> qc_id ` set cs \<and>
    ran \<tau>' \<subseteq> ran \<tau> \<union> range (\<lambda>i. now (es i) 0)"
  using assms(2,3)
proof (induction cs arbitrary: es \<tau>)
  case (Cons c cs)
  have new: "qc_id c \<notin> dom \<tau>" using Cons.prems(2) by auto
  define \<sigma> where "\<sigma> = \<tau>(qc_id c \<mapsto> now (es 0) 0)"
  have \<sigma>: "dom \<sigma> = insert (qc_id c) (dom \<tau>)" "ran \<sigma> = insert (now (es 0) 0) (ran \<tau>)"
    using new by (simp_all add: \<sigma>_def domIff)
  have "dom \<sigma> \<inter> qc_id ` set cs = {}" "distinct (map qc_id cs)" using Cons.prems by (auto simp: \<sigma>)
  from Cons.IH [OF this(2,1), of "\<lambda>i. es (Suc i)"] obtain \<tau>' where \<tau>':
    "expire_queues_loop b (\<lambda>i. es (Suc i)) cs (expire \<sigma> s) = expire \<tau>' s"
    "dom \<tau>' = dom \<sigma> \<union> qc_id ` set cs" "ran \<tau>' \<subseteq> ran \<sigma> \<union> range (\<lambda>i. now (es (Suc i)) 0)" by blast
  then have "ran \<tau>' \<subseteq> ran \<tau> \<union> range (\<lambda>i. now (es i) 0)" by (auto simp: \<sigma>)
  with \<tau>'(1,2) show ?case
    unfolding loop_step expire_next [OF assms(1) new] \<sigma>_def [symmetric] by (intro exI [of _ \<tau>']) (auto simp: \<sigma>)
qed auto

text \<open>A turn expires every queue there is, each at a reading of the turn.\<close>

lemma turn:
  assumes "inv s"
  shows "\<exists>\<tau>. visibility_turn b es s = expire \<tau> s \<and> dom \<tau> = known s \<and> ran \<tau> \<subseteq> range (\<lambda>i. now (es i) 0)"
proof -
  obtain cs where cs: "be_list_queues b None s = Inr cs" "distinct (map qc_id cs)" "qc_id ` set cs = known s"
    using list_all [OF assms] by blast
  from loop [OF assms cs(2), of Map.empty es] show ?thesis
    by (simp add: visibility_turn_def manager_process_expired_visibility_def cs expire_none)
qed

end

section \<open>The in-memory backend\<close>

definition expire_memory :: "(string \<Rightarrow> int option) \<Rightarrow> in_memory \<Rightarrow> in_memory" where
  "expire_memory \<tau> s =
     s\<lparr>queues := map (\<lambda>(k, q). (k, case \<tau> k of None \<Rightarrow> q | Some t \<Rightarrow> fst (return_expired t q))) (queues s)\<rparr>"

lemma alist_update_map:
  "\<lbrakk>distinct (map fst al); k \<in> fst ` set al\<rbrakk> \<Longrightarrow>
     AList.update k v al = map (\<lambda>(j, w). (j, if j = k then v else w)) al"
proof (induction al)
  case (Cons p al)
  show ?case
  proof (cases "fst p = k")
    case True
    then have "map (\<lambda>(j, w). (j, if j = k then v else w)) al = al"
      using Cons.prems(1) by (intro map_idI) (auto simp: image_iff split: prod.split)
    with True show ?thesis by (cases p) simp
  next
    case False
    with Cons show ?thesis by (cases p) auto
  qed
qed simp

lemma map_of_map_pair: "map_of (map (\<lambda>(k, v). (k, f k v)) al) k = map_option (f k) (map_of al k)"
  by (induction al) auto

lemma map_pair_cong:
  "(\<And>k v. (k, v) \<in> set al \<Longrightarrow> f k v = g k v) \<Longrightarrow> map (\<lambda>(k, v). (k, f k v)) al = map (\<lambda>(k, v). (k, g k v)) al"
  by auto

interpretation mem_expiry: expiring_store "memory_backend x" mem_wf "\<lambda>s. fst ` set (queues s)" expire_memory for x
proof
  fix s :: in_memory
  assume wf: "mem_wf s"
  define cs where "cs = map (\<lambda>(_, q). qd_config q) (queues s)"
  have ids: "map qc_id cs = map fst (queues s)"
    using wf by (auto simp: cs_def mem_wf_def list_all_iff queue_wf_def)
  have "be_list_queues (memory_backend x) None s = Inr cs"
    by (simp add: memory_backend_def list_queues_def cs_def)
  moreover have "distinct (map qc_id cs)" using wf by (simp add: ids mem_wf_def)
  moreover have "qc_id ` set cs = fst ` set (queues s)" using arg_cong [OF ids, of set] by simp
  ultimately show "\<exists>cs. be_list_queues (memory_backend x) None s = Inr cs \<and> distinct (map qc_id cs) \<and>
      qc_id ` set cs = fst ` set (queues s)" by blast
next
  fix s :: in_memory and k :: string and \<tau> :: "string \<Rightarrow> int option" and e :: env
  assume wf: "mem_wf s" and new: "k \<notin> dom \<tau>"
  have keys: "map fst (queues (expire_memory \<tau> s)) = map fst (queues s)"
    by (simp add: expire_memory_def o_def case_prod_unfold)
  have look: "map_of (queues (expire_memory \<tau> s)) k = map_of (queues s) k"
    using new by (simp add: expire_memory_def map_of_map_pair domIff option.map_ident)
  show "snd (be_process_expired_visibility (memory_backend x) e k (expire_memory \<tau> s)) =
      expire_memory (\<tau>(k \<mapsto> now e 0)) s"
  proof (cases "map_of (queues s) k")
    case None
    then have "j \<noteq> k" if "(j, q) \<in> set (queues s)" for j q using that by (force simp: map_of_eq_None_iff)
    then have "map (\<lambda>(j, q). (j, case \<tau> j of None \<Rightarrow> q | Some t \<Rightarrow> fst (return_expired t q))) (queues s) =
        map (\<lambda>(j, q). (j, case (\<tau>(k \<mapsto> now e 0)) j of None \<Rightarrow> q | Some t \<Rightarrow> fst (return_expired t q))) (queues s)"
      by (intro map_pair_cong) auto
    then have "expire_memory \<tau> s = expire_memory (\<tau>(k \<mapsto> now e 0)) s" by (simp only: expire_memory_def)
    then show ?thesis
      using look None by (simp add: memory_backend_def process_expired_visibility_def)
  next
    case (Some q)
    have "(k, q) \<in> set (queues s)" using Some by (rule map_of_SomeD)
    then have mem: "k \<in> fst ` set (queues (expire_memory \<tau> s))"
      using arg_cong [OF keys, of set] by (metis fst_conv image_eqI image_set)
    have dist: "distinct (map fst (queues (expire_memory \<tau> s)))" using wf by (simp add: keys mem_wf_def)
    have "AList.update k (fst (return_expired (now e 0) q)) (queues (expire_memory \<tau> s)) =
        queues (expire_memory (\<tau>(k \<mapsto> now e 0)) s)"
      unfolding alist_update_map [OF dist mem]
      using Some wf by (auto simp: expire_memory_def mem_wf_def dest: eq_key_imp_eq_value)
    then show ?thesis
      using look Some by (simp add: memory_backend_def process_expired_visibility_def set_queue_def split_beta expire_memory_def)
  qed
qed (simp add: expire_memory_def)

section \<open>The SQLite backend\<close>

definition expired_reading :: "(string \<Rightarrow> int option) \<Rightarrow> message_row \<Rightarrow> bool" where
  "expired_reading \<tau> r =
     (case \<tau> (mr_queue_id r) of None \<Rightarrow> False
      | Some t \<Rightarrow> expired_row (timestamp_millis t) (mr_queue_id r) r)"

definition expire_sqlite :: "(string \<Rightarrow> int option) \<Rightarrow> sqlite \<Rightarrow> sqlite" where
  "expire_sqlite \<tau> d =
     update_messages (expired_reading \<tau>) (\<lambda>r. make_available (timestamp_millis (the (\<tau> (mr_queue_id r)))) r) d"

lemma rows_to_configs_ids:
  "\<forall>r \<in> set rs. \<exists>c. row_to_config y r = Inr c \<Longrightarrow>
     \<exists>cs. rows_to_configs y rs = Inr cs \<and> map qc_id cs = map qr_id rs"
proof (induction rs)
  case (Cons r rs)
  then obtain c cs where "row_to_config y r = Inr c" "rows_to_configs y rs = Inr cs" "map qc_id cs = map qr_id rs" by auto
  with row_to_config_fields show ?case by fastforce
qed simp

interpretation sql_expiry: expiring_store "sqlite_backend x y" db_ok known_queues expire_sqlite for x y
proof
  fix d :: sqlite
  assume ok: "db_ok d"
  define rows where "rows = sort_key qr_name (queues_table d)"
  have "\<forall>r \<in> set rows. \<exists>c. row_to_config y r = Inr c" using ok by (simp add: rows_def row_decodes)
  then obtain cs where cs: "rows_to_configs y rows = Inr cs" "map qc_id cs = map qr_id rows"
    using rows_to_configs_ids by blast
  have "distinct (map qr_id rows)" using ok by (simp add: rows_def distinct_sort_key db_ok_defs)
  moreover have "qc_id ` set cs = known_queues d"
    using arg_cong [OF cs(2), of set] by (simp add: rows_def known_queues_def)
  ultimately show "\<exists>cs. be_list_queues (sqlite_backend x y) None d = Inr cs \<and> distinct (map qc_id cs) \<and>
      qc_id ` set cs = known_queues d"
    using cs by (simp add: list_queues_sqlite_def rows_def)
next
  show "expire_sqlite Map.empty d = d" for d
    by (simp add: expire_sqlite_def expired_reading_def update_messages_def)
next
  fix d :: sqlite and k :: string and \<tau> :: "string \<Rightarrow> int option" and e :: env
  assume new: "k \<notin> dom \<tau>"
  have "(if expired_row (timestamp_millis (now e 0)) k r' then make_available (timestamp_millis (now e 0)) r' else r') =
      (if expired_reading (\<tau>(k \<mapsto> now e 0)) r
       then make_available (timestamp_millis (the ((\<tau>(k \<mapsto> now e 0)) (mr_queue_id r)))) r else r)"
    if "r' = (if expired_reading \<tau> r then make_available (timestamp_millis (the (\<tau> (mr_queue_id r)))) r else r)" for r r'
    using new that by (auto simp: expired_reading_def expired_row_def domIff)
  then show "snd (be_process_expired_visibility (sqlite_backend x y) e k (expire_sqlite \<tau> d)) =
      expire_sqlite (\<tau>(k \<mapsto> now e 0)) d"
    by (simp add: process_expired_visibility_sqlite_def expire_sqlite_def update_messages_def Let_def)
qed

section \<open>A turn of the visibility manager\<close>

definition readings :: "envs \<Rightarrow> int set" where
  "readings es = range (\<lambda>i. now (es i) 0)"

text \<open>A queue of the memory, and a row of the database, after their messages were expired at \<open>t\<close>.\<close>

definition return_messages :: "int \<Rightarrow> queue_data \<Rightarrow> queue_data" where
  "return_messages t q =
     q\<lparr>in_flight_messages := filter (\<lambda>p. \<not> expired t p) (in_flight_messages q),
       available_messages :=
         available_messages q @ map (requeued t) (filter (expired t) (in_flight_messages q))\<rparr>"

definition return_row :: "int \<Rightarrow> message_row \<Rightarrow> message_row" where
  "return_row t r =
     (if expired_row t (mr_queue_id r) r then make_available t r else r)"

lemma readings_total:
  assumes "ran \<tau> \<subseteq> range (\<lambda>i. now (es i) 0)"
  obtains \<sigma> where "\<And>k. \<sigma> k \<in> readings es" "\<And>k. k \<in> dom \<tau> \<Longrightarrow> \<tau> k = Some (\<sigma> k)"
proof
  define \<sigma> where "\<sigma> k = (case \<tau> k of None \<Rightarrow> now (es 0) 0 | Some t \<Rightarrow> t)" for k
  show "\<sigma> k \<in> readings es" for k
    using assms by (auto simp: \<sigma>_def readings_def ran_def split: option.split)
  show "\<tau> k = Some (\<sigma> k)" if "k \<in> dom \<tau>" for k using that by (auto simp: \<sigma>_def)
qed

lemma memory_turn:
  assumes "mem_wf s"
  shows "\<exists>\<tau>. (\<forall>k. \<tau> k \<in> readings es) \<and>
    visibility_turn (memory_backend x) es s = s\<lparr>queues := map (\<lambda>(k, q). (k, return_messages (\<tau> k) q)) (queues s)\<rparr>"
proof -
  obtain \<tau>' where turn: "visibility_turn (memory_backend x) es s = expire_memory \<tau>' s"
    "dom \<tau>' = fst ` set (queues s)" "ran \<tau>' \<subseteq> range (\<lambda>i. now (es i) 0)"
    using mem_expiry.turn [OF assms, of x es] by blast
  obtain \<tau> where \<tau>: "\<And>k. \<tau> k \<in> readings es" "\<And>k. k \<in> dom \<tau>' \<Longrightarrow> \<tau>' k = Some (\<tau> k)"
    using readings_total [OF turn(3)] by blast
  have "(case \<tau>' k of None \<Rightarrow> q | Some t \<Rightarrow> fst (return_expired t q)) = return_messages (\<tau> k) q"
    if "(k, q) \<in> set (queues s)" for k q
  proof -
    have "k \<in> dom \<tau>'" unfolding turn(2) using that by (metis fst_conv image_eqI)
    moreover have "map_of (queues s) k = Some q" using assms that by (simp add: mem_wf_def)
    ultimately show ?thesis
      using mem_wf_in_flight [OF assms] by (simp add: \<tau>(2) return_expired_eq return_messages_def)
  qed
  then have "map (\<lambda>(k, q). (k, case \<tau>' k of None \<Rightarrow> q | Some t \<Rightarrow> fst (return_expired t q))) (queues s) =
      map (\<lambda>(k, q). (k, return_messages (\<tau> k) q)) (queues s)" by (rule map_pair_cong)
  then have "expire_memory \<tau>' s = s\<lparr>queues := map (\<lambda>(k, q). (k, return_messages (\<tau> k) q)) (queues s)\<rparr>"
    by (simp only: expire_memory_def)
  with \<tau>(1) show ?thesis by (auto simp: turn(1))
qed

lemma sqlite_turn:
  assumes "db_ok d"
  shows "\<exists>\<tau>. (\<forall>k. \<tau> k \<in> readings es) \<and>
    visibility_turn (sqlite_backend x y) es d =
      d\<lparr>messages_table := map (\<lambda>r. return_row (timestamp_millis (\<tau> (mr_queue_id r))) r) (messages_table d)\<rparr>"
proof -
  obtain \<tau>' where turn: "visibility_turn (sqlite_backend x y) es d = expire_sqlite \<tau>' d"
    "dom \<tau>' = known_queues d" "ran \<tau>' \<subseteq> range (\<lambda>i. now (es i) 0)"
    using sql_expiry.turn [OF assms, of x y es] by blast
  obtain \<tau> where \<tau>: "\<And>k. \<tau> k \<in> readings es" "\<And>k. k \<in> dom \<tau>' \<Longrightarrow> \<tau>' k = Some (\<tau> k)"
    using readings_total [OF turn(3)] by blast
  have "\<tau>' (mr_queue_id r) = Some (\<tau> (mr_queue_id r))" if "r \<in> set (messages_table d)" for r
    using that assms \<tau>(2) turn(2) by (auto simp: db_ok_defs)
  then have "expire_sqlite \<tau>' d =
      d\<lparr>messages_table := map (\<lambda>r. return_row (timestamp_millis (\<tau> (mr_queue_id r))) r) (messages_table d)\<rparr>"
    by (auto simp: expire_sqlite_def update_messages_def return_row_def expired_reading_def)
  with \<tau>(1) show ?thesis by (auto simp: turn(1))
qed

text \<open>
  C20. A turn of the visibility manager reads the clock once per queue and returns to every queue exactly
  the messages whose visibility timeout has passed at that reading, on either backend: all other
  messages, their order, and everything else stay as they are, whatever happens to the single queues.
\<close>

theorem visibility_turn_returns_expired:
  assumes "mem_wf s" and "db_ok d"
  shows "(\<exists>\<tau>. (\<forall>k. \<tau> k \<in> readings es) \<and>
      visibility_turn (memory_backend x) es s = s\<lparr>queues := map (\<lambda>(k, q). (k, return_messages (\<tau> k) q)) (queues s)\<rparr>) \<and>
    (\<exists>\<tau>. (\<forall>k. \<tau> k \<in> readings es) \<and>
      visibility_turn (sqlite_backend x y) es d =
        d\<lparr>messages_table := map (\<lambda>r. return_row (timestamp_millis (\<tau> (mr_queue_id r))) r) (messages_table d)\<rparr>)"
  using memory_turn [OF assms(1)] sqlite_turn [OF assms(2)] by (rule conjI)

section \<open>A turn of the cleanup manager\<close>

definition within_retention :: "int \<Rightarrow> queue_row list \<Rightarrow> message_row \<Rightarrow> bool" where
  "within_retention t qs r \<longleftrightarrow>
     (\<forall>q \<in> set qs. qr_id q = mr_queue_id r \<longrightarrow> t - qr_message_retention_period q * 1000 \<le> mr_sent_timestamp r)"

lemma delete_expired_loop_exact:
  "snd (delete_expired_loop t qs d n) = d\<lparr>messages_table := filter (within_retention t qs) (messages_table d)\<rparr>"
proof (induction qs arbitrary: d n)
  case (Cons q qs)
  define old :: "message_row \<Rightarrow> bool" where "old = (\<lambda>r. mr_queue_id r = qr_id q \<and>
    mr_sent_timestamp r < t - qr_message_retention_period q * 1000)"
  have "filter (within_retention t qs) (filter (\<lambda>r. \<not> old r) (messages_table d)) =
      filter (within_retention t (q # qs)) (messages_table d)"
    unfolding filter_filter by (rule filter_cong) (auto simp: within_retention_def old_def)
  moreover have "delete_expired_loop t (q # qs) d n =
      delete_expired_loop t qs (delete_messages old d) (n + rows_affected old d)"
    by (simp add: old_def Let_def)
  ultimately show ?case by (simp add: Cons.IH delete_messages_def del: delete_expired_loop.simps filter_filter)
qed (simp add: within_retention_def)

text \<open>
  C22. A turn of the cleanup manager removes exactly the messages that are older than the retention period of
  their queue, in flight or not, and the deduplication entries past their expiry; since a send would have
  honoured an entry for 300 seconds more, a turn shortens the deduplication window to the five minutes of
  the comment.
\<close>

theorem cleanup_turn_exact:
  "cleanup_turn es d =
     d\<lparr>messages_table := filter (within_retention (timestamp_millis (now (es 1) 0)) (queues_table d)) (messages_table d),
       dedup_table := filter (\<lambda>r. timestamp (now (es 0) 0) < dr_expires_at r) (dedup_table d)\<rparr> \<and>
   (dedup_cached cutoff k a (cleanup_turn es d) \<longleftrightarrow>
     dedup_cached (max cutoff (timestamp (now (es 0) 0))) k a d)"
proof -
  have "cleanup_turn es d =
     d\<lparr>messages_table := filter (within_retention (timestamp_millis (now (es 1) 0)) (queues_table d)) (messages_table d),
       dedup_table := filter (\<lambda>r. timestamp (now (es 0) 0) < dr_expires_at r) (dedup_table d)\<rparr>"
    by (simp add: cleanup_turn_def cleanup_deduplication_cache_sqlite_def delete_expired_messages_def Let_def
        split_beta delete_expired_loop_exact not_le)
  moreover have "dedup_cached cutoff k a (cleanup_turn es d) \<longleftrightarrow>
      dedup_cached (max cutoff (timestamp (now (es 0) 0))) k a d"
    unfolding calculation by (auto simp: dedup_cached_def)
  ultimately show ?thesis by (rule conjI)
qed

section \<open>Redelivery\<close>

text \<open>A message that is in flight is not visible, and one whose time has passed is after a turn.\<close>

lemma return_row_sel [simp]: "mr_id (return_row t r) = mr_id r" "mr_queue_id (return_row t r) = mr_queue_id r"
  "mr_sent_timestamp (return_row t r) = mr_sent_timestamp r" "mr_receive_count (return_row t r) = mr_receive_count r"
  by (simp_all add: return_row_def make_available_def)

lemma return_row_valid [simp]: "due_for_dlq y q (return_row t r) = due_for_dlq y q r"
  by (simp add: due_for_dlq_def)

lemma turn_ok: "db_ok d \<Longrightarrow> db_ok (visibility_turn (sqlite_backend x y) es d)"
proof -
  assume ok: "db_ok d"
  have "db_ok (expire_queues_loop (sqlite_backend x y) es cs d)" if "db_ok d" for cs es d
    using that
    by (induction cs arbitrary: es d)
      (auto simp: sql_expiry.loop_step process_expired_visibility_sqlite_ok simp del: expire_queues_loop.simps(2))
  with ok show ?thesis
    by (auto simp: visibility_turn_def manager_process_expired_visibility_def split: sum.split)
qed

lemma turn_frame: "db_ok d \<Longrightarrow> get_queue_sqlite y k (visibility_turn (sqlite_backend x y) es d) = get_queue_sqlite y k d"
  using sqlite_turn [of d es x y] by (auto intro: same_queues(1))

lemma received_ids:
  assumes "db_ok d" and "get_queue_sqlite y k d = Inr q" and "receipt_secret x \<noteq> None"
    and "\<forall>r \<in> set (messages_table d). millis_valid y (mr_sent_timestamp r) \<and> \<not> due_for_dlq y q r"
  shows "\<exists>rms d'. receive_messages_sqlite x y e k ro d = (Inr rms, d') \<and>
    msg_id ` rm_message ` set rms = mr_id ` set (selected_rows q k (now e 0) (ro_max_messages ro) d)"
proof (rule receive_hands_out [OF assms, of e ro])
  fix rms d'
  assume "receive_messages_sqlite x y e k ro d = (Inr rms, d')"
    and "map (\<lambda>rm. msg_id (rm_message rm)) rms = map mr_id (selected_rows q k (now e 0) (ro_max_messages ro) d)"
  note got = this(1) and ids = arg_cong [OF this(2), of set]
  from ids have "msg_id ` rm_message ` set rms = mr_id ` set (selected_rows q k (now e 0) (ro_max_messages ro) d)"
    by (simp add: image_image)
  with got show ?thesis by blast
qed

lemma all_selected:
  assumes "qc_type q \<noteq> SqsFifo" and "length (filter (visible_row k (timestamp_millis t)) (messages_table d)) \<le> unat (u32_min n 10)"
    and "r \<in> set (messages_table d)" and "visible_row k (timestamp_millis t) r"
  shows "r \<in> set (selected_rows q k t n d)"
  using assms by (simp add: selected_rows_def standard_rows_def)

lemma turned_row:
  assumes "db_ok d" and "r \<in> set (messages_table d)" and "mr_state r = ''in_flight''"
    and "mr_visibility_expires_at r = Some expires" and "\<forall>t \<in> readings es. expires \<le> timestamp_millis t"
  obtains t where "t \<in> readings es"
    and "make_available (timestamp_millis t) r \<in> set (messages_table (visibility_turn (sqlite_backend x y) es d))"
    and "\<And>p. p \<in> set (messages_table (visibility_turn (sqlite_backend x y) es d)) \<Longrightarrow> mr_id p = mr_id r \<Longrightarrow>
      p = make_available (timestamp_millis t) r"
proof -
  obtain \<tau> where \<tau>: "\<forall>j. \<tau> j \<in> readings es"
    and turn: "visibility_turn (sqlite_backend x y) es d =
      d\<lparr>messages_table := map (\<lambda>p. return_row (timestamp_millis (\<tau> (mr_queue_id p))) p) (messages_table d)\<rparr>"
    using sqlite_turn [OF assms(1), of es x y] by blast
  define t where "t = \<tau> (mr_queue_id r)"
  have r: "return_row (timestamp_millis (\<tau> (mr_queue_id r))) r = make_available (timestamp_millis t) r"
    using \<tau> assms(3-5) by (simp add: return_row_def expired_row_def t_def)
  have only: "p = r" if "p \<in> set (messages_table d)" "mr_id p = mr_id r" for p
    using that assms(1,2) by (auto simp: db_ok_defs distinct_map dest: inj_onD)
  have "p = make_available (timestamp_millis t) r"
    if p: "p \<in> set (messages_table (visibility_turn (sqlite_backend x y) es d))" "mr_id p = mr_id r" for p
  proof -
    obtain p0 where "p0 \<in> set (messages_table d)" "p = return_row (timestamp_millis (\<tau> (mr_queue_id p0))) p0"
      using p(1) by (auto simp: turn)
    with only [of p0] p(2) r show ?thesis by simp
  qed
  moreover have "make_available (timestamp_millis t) r \<in> set (messages_table (visibility_turn (sqlite_backend x y) es d))"
    using imageI [OF assms(2), of "\<lambda>p. return_row (timestamp_millis (\<tau> (mr_queue_id p))) p"] by (simp add: turn r)
  ultimately show thesis using that [of t] \<tau> unfolding t_def by blast
qed

lemma turn_counts:
  assumes "db_ok d"
  shows "length (filter (visible_row k t) (messages_table (visibility_turn (sqlite_backend x y) es d))) \<le>
    length (filter (\<lambda>r. mr_queue_id r = k) (messages_table d))"
proof -
  have "length (filter (visible_row k t) ps) \<le> length (filter (\<lambda>p. mr_queue_id p = k) ps)" for ps
    by (induction ps) (auto simp: visible_row_def)
  moreover have "length (filter (\<lambda>p. mr_queue_id p = k) (messages_table (visibility_turn (sqlite_backend x y) es d))) =
      length (filter (\<lambda>r. mr_queue_id r = k) (messages_table d))"
    using sqlite_turn [OF assms, of es x y] by (auto simp: filter_map o_def)
  ultimately show ?thesis by metis
qed

lemma turn_rows:
  assumes "db_ok d" and "p \<in> set (messages_table (visibility_turn (sqlite_backend x y) es d))"
  shows "\<exists>t. \<exists>r \<in> set (messages_table d). p = return_row t r"
proof -
  obtain \<tau> where "visibility_turn (sqlite_backend x y) es d =
      d\<lparr>messages_table := map (\<lambda>p. return_row (timestamp_millis (\<tau> (mr_queue_id p))) p) (messages_table d)\<rparr>"
    using sqlite_turn [OF assms(1), of es x y] by blast
  then show ?thesis using assms(2) by auto
qed

text \<open>
  C21. Redelivery from the SQLite backend: while a message is in flight, no receive hands it out again,
  however long ago its visibility timeout passed; after the first turn of the visibility manager past
  the timeout its old handle no longer acknowledges it, and a receive that has room for all visible
  messages of its standard queue hands it out.
\<close>

theorem sqlite_redelivery_needs_turn:
  assumes "db_ok d" and "get_queue_sqlite y k d = Inr q" and "qc_type q \<noteq> SqsFifo" and "receipt_secret x \<noteq> None"
    and "\<forall>r \<in> set (messages_table d). millis_valid y (mr_sent_timestamp r) \<and> \<not> due_for_dlq y q r"
    and "r \<in> set (messages_table d)" and "mr_queue_id r = k" and "mr_receipt_handle r = Some h"
    and "receipt_codecs_ok x" and "generate_receipt_handle x n k (mr_id r) = Some h"
    and "mr_visibility_expires_at r = Some expires" and "\<forall>t \<in> readings es. expires \<le> timestamp_millis t \<and> t \<le> now e 0"
    and "length (filter (\<lambda>r. mr_queue_id r = k) (messages_table d)) \<le> unat (u32_min (ro_max_messages ro) 10)"
    and "visibility_turn (sqlite_backend x y) es d = d1"
  shows "(\<exists>rms d'. receive_messages_sqlite x y e' k ro' d = (Inr rms, d') \<and> mr_id r \<notin> msg_id ` rm_message ` set rms) \<and>
    (\<exists>err. delete_message_sqlite x k h d1 = (Inl err, d1)) \<and>
    (\<exists>rms d'. receive_messages_sqlite x y e k ro d1 = (Inr rms, d') \<and> mr_id r \<in> msg_id ` rm_message ` set rms)"
proof (intro conjI)
  have flying: "mr_state r = ''in_flight''"
    using assms(1,6,8) by (auto simp: db_ok_defs row_available_def row_in_flight_def)
  have "p = r" if "p \<in> set (messages_table d)" "mr_id p = mr_id r" for p
    using that assms(1,6) by (auto simp: db_ok_defs distinct_map dest: inj_onD)
  then have "mr_id r \<notin> mr_id ` set (selected_rows q k (now e' 0) (ro_max_messages ro') d)"
    using flying by (auto simp: visible_row_def dest!: selected_in)
  then show "\<exists>rms d'. receive_messages_sqlite x y e' k ro' d = (Inr rms, d') \<and> mr_id r \<notin> msg_id ` rm_message ` set rms"
    using received_ids [OF assms(1,2,4,5), of e' ro'] by auto
  obtain t where t: "t \<in> readings es" and new: "make_available (timestamp_millis t) r \<in> set (messages_table d1)"
    and only: "\<And>p. p \<in> set (messages_table d1) \<Longrightarrow> mr_id p = mr_id r \<Longrightarrow> p = make_available (timestamp_millis t) r"
    using turned_row [OF assms(1,6) flying assms(11), of es x y] assms(12) unfolding assms(14) by blast
  have "\<not> held_row k (mr_id r) h p" if "p \<in> set (messages_table d1)" for p
    using only [OF that] by (auto simp: held_row_def make_available_def)
  then have "rows_affected (held_row k (mr_id r) h) d1 = 0" by (simp add: rows_affected_def)
  then show "\<exists>err. delete_message_sqlite x k h d1 = (Inl err, d1)"
    by (simp add: delete_message_sqlite_def generate_parse [OF assms(9,10)])
  have "timestamp_millis t \<le> timestamp_millis (now e 0)"
    using t assms(12) by (simp add: timestamp_millis_def zdiv_mono1)
  then have visible: "visible_row k (timestamp_millis (now e 0)) (make_available (timestamp_millis t) r)"
    using assms(7) by (simp add: visible_row_def make_available_def)
  have room: "length (filter (visible_row k (timestamp_millis (now e 0))) (messages_table d1)) \<le>
      unat (u32_min (ro_max_messages ro) 10)"
    using turn_counts [OF assms(1), of k "timestamp_millis (now e 0)" x y es] assms(13) unfolding assms(14) by linarith
  have "\<forall>p \<in> set (messages_table d1). millis_valid y (mr_sent_timestamp p) \<and> \<not> due_for_dlq y q p"
    using turn_rows [OF assms(1), of _ x y es, unfolded assms(14)] assms(5) by fastforce
  then show "\<exists>rms d'. receive_messages_sqlite x y e k ro d1 = (Inr rms, d') \<and> mr_id r \<in> msg_id ` rm_message ` set rms"
    using received_ids [of d1 y k q x e ro] imageI [OF all_selected [OF assms(3) room new visible], of mr_id]
      turn_ok [OF assms(1), of x y es] turn_frame [OF assms(1), of y k x es] assms(2,4) unfolding assms(14) by auto
qed

definition flying_row :: "string \<Rightarrow> string \<Rightarrow> int \<Rightarrow> message_row" where
  "flying_row i h expires = mark_in_flight 1 h expires (sql_row i 0 None None)"

lemma flying_row_sel [simp]: "mr_id (flying_row i h t) = i" "mr_queue_id (flying_row i h t) = ''q''"
  "mr_receipt_handle (flying_row i h t) = Some h" "mr_visibility_expires_at (flying_row i h t) = Some t"
  "row_in_flight (flying_row i h t)"
  by (simp_all add: flying_row_def) (simp_all add: mark_in_flight_def)

lemma flying_db_ok: "db_ok (sql_db ty dlq [flying_row i h t])"
  by (auto simp: db_ok_defs sql_db_def config_row_id sql_config_def)

theorem sqlite_redelivery_needs_turn_witness:
  "\<exists>h rms d'. receive_messages_sqlite sample_ext sample_sql (sample_env (seconds 9)) ''q'' default_receive_options
      (visibility_turn (sqlite_backend sample_ext sample_sql) (\<lambda>_. sample_env (seconds 8))
        (sql_db SqsStandard None [flying_row ''a'' h 5000])) = (Inr rms, d') \<and> ''a'' \<in> msg_id ` rm_message ` set rms"
proof -
  obtain h where h: "generate_receipt_handle sample_ext ''n'' ''q'' ''a'' = Some h"
    using generate_None_iff [of sample_ext "''n''" "''q''" "''a''"] by auto
  define d where "d = sql_db SqsStandard None [flying_row ''a'' h 5000]"
  have ok: "db_ok d" by (simp add: d_def flying_db_ok)
  have queue: "get_queue_sqlite sample_sql ''q'' d = Inr (sql_config ''q'' SqsStandard None)"
    "qc_type (sql_config ''q'' SqsStandard None) \<noteq> SqsFifo"
    by (simp_all add: d_def sql_db_queues) (simp add: sql_config_def)
  have rows: "\<forall>r \<in> set (messages_table d). millis_valid sample_sql (mr_sent_timestamp r) \<and>
      \<not> due_for_dlq sample_sql (sql_config ''q'' SqsStandard None) r"
    by (simp add: due_for_dlq_def sql_config_def)
  have time: "\<forall>t \<in> readings (\<lambda>_. sample_env (seconds 8)). 5000 \<le> timestamp_millis t \<and> t \<le> now (sample_env (seconds 9)) 0"
    by (simp add: readings_def timestamp_millis_def seconds_def nanos_per_second_def)
  have mem: "flying_row ''a'' h 5000 \<in> set (messages_table d)" by (simp add: d_def)
  have "length (filter (\<lambda>r. mr_queue_id r = ''q'') (messages_table d)) \<le>
      unat (u32_min (ro_max_messages default_receive_options) 10)"
    by (simp add: d_def default_receive_options_def u32_min_def)
  from sqlite_redelivery_needs_turn [OF ok queue sample_secret_set rows mem _ _ sample_codecs_ok _ _ time this refl, of h "''n''"] h
  show ?thesis unfolding d_def by (intro exI [of _ h]) simp
qed

theorem visibility_turn_returns_expired_witness:
  "\<exists>t. visibility_turn (sqlite_backend sample_ext sample_sql) (\<lambda>_. sample_env (seconds 8))
      (sql_db SqsStandard None [flying_row ''a'' ''h'' 5000]) = sql_db SqsStandard None [make_available t (flying_row ''a'' ''h'' 5000)]"
proof -
  define s where "s = \<lparr> queues = [], subscriptions = [], mem_config = default_in_memory_config \<rparr>"
  have "mem_wf s" by (simp add: s_def mem_wf_def)
  from visibility_turn_returns_expired [OF this flying_db_ok [of SqsStandard None "''a''" "''h''" 5000],
      of "\<lambda>_. sample_env (seconds 8)" sample_ext sample_sql]
  obtain \<tau> where "\<forall>k. \<tau> k \<in> readings (\<lambda>_. sample_env (seconds 8))"
    and turn: "visibility_turn (sqlite_backend sample_ext sample_sql) (\<lambda>_. sample_env (seconds 8))
      (sql_db SqsStandard None [flying_row ''a'' ''h'' 5000]) =
      (sql_db SqsStandard None [flying_row ''a'' ''h'' 5000])\<lparr>messages_table :=
        [return_row (timestamp_millis (\<tau> ''q'')) (flying_row ''a'' ''h'' 5000)]\<rparr>" by auto
  then have "\<tau> ''q'' = seconds 8" by (simp add: readings_def)
  then have "return_row (timestamp_millis (\<tau> ''q'')) (flying_row ''a'' ''h'' 5000) =
      make_available 8000 (flying_row ''a'' ''h'' 5000)"
    by (simp add: return_row_def expired_row_def timestamp_millis_def seconds_def nanos_per_second_def)
      (simp add: flying_row_def mark_in_flight_def)
  then show ?thesis unfolding turn by (intro exI [of _ 8000]) (simp add: sql_db_def)
qed

section \<open>The dead letter handler\<close>

text \<open>The handler moves a message one receive before the backends would.\<close>

lemma dlq_handler_one_early:
  assumes "dlq_config c = Some dlq" and "receive_count m = max_receive_count dlq"
  shows "should_move_to_dlq m c \<and> \<not> should_dlq c m \<and> exceeds_dlq c m = None"
  using assms by (simp add: should_move_to_dlq_def should_dlq_def exceeds_dlq_def)

end
