(* ===== verification/Admin.thy ===== *)
theory Admin
  imports Storage_Api
begin

text \<open>
  The handlers of the admin API (\<open>src/server/admin.rs\<close>) over any backend.  Routing and the derived
  JSON code are left to the framework; a response is its record or its error with a status.
\<close>

section \<open>Responses\<close>

record health_response =
  hr_status :: string
  hr_backend_status :: string

record stats_response =
  total_queues :: nat
  total_messages :: nat
  total_in_flight :: nat

record queue_summary =
  qs_id :: string
  qs_name :: string
  qs_queue_type :: string
  qs_available_messages :: nat
  qs_in_flight_messages :: nat

record queue_details =
  dt_id :: string
  dt_name :: string
  dt_queue_type :: string
  dt_visibility_timeout :: u32
  dt_message_retention_period :: u32
  dt_max_message_size :: nat
  dt_delay_seconds :: u32
  dt_available_messages :: nat
  dt_in_flight_messages :: nat
  dt_dlq_target_queue_id :: "string option"
  dt_max_receive_count :: "u32 option"

record create_queue_request =
  cq_name :: string
  cq_queue_type :: "string option"
  cq_visibility_timeout :: "u32 option"
  cq_message_retention_period :: "u32 option"

datatype admin_error = AdminNotFound string | AdminInvalidInput string | AdminBackendError string

text \<open>\<open>IntoResponse\<close>: the status and the text of the body.\<close>

fun admin_error_response :: "admin_error \<Rightarrow> nat \<times> string" where
  "admin_error_response (AdminNotFound msg) = (404, msg)"
| "admin_error_response (AdminInvalidInput msg) = (400, msg)"
| "admin_error_response (AdminBackendError msg) = (500, msg)"

definition admin_error_from :: "error \<Rightarrow> admin_error" where
  "admin_error_from err =
     (case err of
        QueueNotFound _ \<Rightarrow> AdminNotFound (error_to_string err)
      | Validation _ \<Rightarrow> AdminInvalidInput (error_to_string err)
      | _ \<Rightarrow> AdminBackendError (error_to_string err))"

text \<open>The derived \<open>Debug\<close> of \<open>QueueType\<close>.\<close>

fun queue_type_debug :: "queue_type \<Rightarrow> string" where
  "queue_type_debug SqsStandard = ''SqsStandard''"
| "queue_type_debug SqsFifo = ''SqsFifo''"
| "queue_type_debug PubSubTopic = ''PubSubTopic''"

section \<open>Handlers\<close>

definition admin_health_check :: "'s backend \<Rightarrow> 's \<Rightarrow> admin_error + health_response" where
  "admin_health_check b s =
     (let status = (case be_health_check b s of Inr _ \<Rightarrow> ''healthy'' | Inl _ \<Rightarrow> ''unhealthy'') in
      Inr \<lparr> hr_status = status, hr_backend_status = status \<rparr>)"

fun stats_loop :: "'s backend \<Rightarrow> 's \<Rightarrow> queue_config list \<Rightarrow> nat \<Rightarrow> nat \<Rightarrow> nat \<times> nat" where
  "stats_loop b s [] messages in_flight = (messages, in_flight)"
| "stats_loop b s (queue # queues) messages in_flight =
     (case be_get_stats b (qc_id queue) s of
        Inr stats \<Rightarrow> stats_loop b s queues (messages + st_available_messages stats)
                       (in_flight + st_in_flight_messages stats)
      | Inl _ \<Rightarrow> stats_loop b s queues messages in_flight)"

definition admin_get_stats :: "'s backend \<Rightarrow> 's \<Rightarrow> admin_error + stats_response" where
  "admin_get_stats b s =
     (case be_list_queues b None s of
        Inl err \<Rightarrow> Inl (admin_error_from err)
      | Inr queues \<Rightarrow>
          (case stats_loop b s queues 0 0 of
             (messages, in_flight) \<Rightarrow>
               Inr \<lparr> total_queues = length queues, total_messages = messages, total_in_flight = in_flight \<rparr>))"

text \<open>\<open>stats.as_ref().map(...).unwrap_or(0)\<close>.\<close>

definition stat_or_zero :: "(queue_stats \<Rightarrow> nat) \<Rightarrow> queue_stats result \<Rightarrow> nat" where
  "stat_or_zero f stats = (case stats of Inl _ \<Rightarrow> 0 | Inr st \<Rightarrow> f st)"

definition summary_of :: "'s backend \<Rightarrow> 's \<Rightarrow> queue_config \<Rightarrow> queue_summary" where
  "summary_of b s queue =
     (let stats = be_get_stats b (qc_id queue) s in
      \<lparr> qs_id = qc_id queue, qs_name = qc_name queue, qs_queue_type = queue_type_debug (qc_type queue),
        qs_available_messages = stat_or_zero st_available_messages stats,
        qs_in_flight_messages = stat_or_zero st_in_flight_messages stats \<rparr>)"

definition admin_list_queues :: "'s backend \<Rightarrow> 's \<Rightarrow> admin_error + queue_summary list" where
  "admin_list_queues b s =
     (case be_list_queues b None s of
        Inl err \<Rightarrow> Inl (admin_error_from err)
      | Inr queues \<Rightarrow> Inr (map (summary_of b s) queues))"

definition details_of :: "'s backend \<Rightarrow> 's \<Rightarrow> queue_config \<Rightarrow> queue_details" where
  "details_of b s queue =
     (let stats = be_get_stats b (qc_id queue) s in
      \<lparr> dt_id = qc_id queue, dt_name = qc_name queue, dt_queue_type = queue_type_debug (qc_type queue),
        dt_visibility_timeout = visibility_timeout queue,
        dt_message_retention_period = message_retention_period queue,
        dt_max_message_size = max_message_size queue, dt_delay_seconds = delay_seconds queue,
        dt_available_messages = stat_or_zero st_available_messages stats,
        dt_in_flight_messages = stat_or_zero st_in_flight_messages stats,
        dt_dlq_target_queue_id = map_option target_queue_id (dlq_config queue),
        dt_max_receive_count = map_option max_receive_count (dlq_config queue) \<rparr>)"

text \<open>The search by name that three handlers start with.\<close>

definition find_by_name :: "'s backend \<Rightarrow> string \<Rightarrow> 's \<Rightarrow> admin_error + queue_config" where
  "find_by_name b name s =
     (case be_list_queues b None s of
        Inl err \<Rightarrow> Inl (admin_error_from err)
      | Inr queues \<Rightarrow>
          (case find (\<lambda>q. qc_name q = name) queues of
             None \<Rightarrow> Inl (AdminNotFound (''Queue '' @ [CHR 0x27] @ name @ [CHR 0x27] @ '' not found''))
           | Some queue \<Rightarrow> Inr queue))"

definition admin_get_queue :: "'s backend \<Rightarrow> string \<Rightarrow> 's \<Rightarrow> admin_error + queue_details" where
  "admin_get_queue b name s =
     (case find_by_name b name s of
        Inl err \<Rightarrow> Inl err
      | Inr queue \<Rightarrow> Inr (details_of b s queue))"

definition requested_type :: "string option \<Rightarrow> queue_type" where
  "requested_type ty =
     (if ty = Some ''fifo'' \<or> ty = Some ''FIFO'' then SqsFifo
      else if ty = Some ''pubsub'' \<or> ty = Some ''PubSub'' then PubSubTopic
      else SqsStandard)"

definition admin_config :: "string \<Rightarrow> create_queue_request \<Rightarrow> queue_config" where
  "admin_config queue_id req =
     \<lparr> qc_id = queue_id, qc_name = cq_name req, qc_type = requested_type (cq_queue_type req),
       visibility_timeout = (case cq_visibility_timeout req of None \<Rightarrow> 30 | Some v \<Rightarrow> v),
       message_retention_period = (case cq_message_retention_period req of None \<Rightarrow> 345600 | Some v \<Rightarrow> v),
       max_message_size = 262144, delay_seconds = 0, dlq_config = None,
       content_based_deduplication = False, tags = [], redrive_allow_policy = None \<rparr>"

definition admin_create_queue ::
    "'s backend \<Rightarrow> envs \<Rightarrow> create_queue_request \<Rightarrow> 's \<Rightarrow> (admin_error + queue_details) \<times> 's" where
  "admin_create_queue b es req s =
     (case be_create_queue b (es 1) (admin_config (uuid (es 0) 0) req) s of
        (Inl err, s') \<Rightarrow> (Inl (admin_error_from err), s')
      | (Inr queue, s') \<Rightarrow> (Inr (details_of b s' queue), s'))"

definition admin_delete_queue :: "'s backend \<Rightarrow> string \<Rightarrow> 's \<Rightarrow> (admin_error + unit) \<times> 's" where
  "admin_delete_queue b name s =
     (case find_by_name b name s of
        Inl err \<Rightarrow> (Inl err, s)
      | Inr queue \<Rightarrow>
          (case be_delete_queue b (qc_id queue) s of
             (Inl err, s') \<Rightarrow> (Inl (admin_error_from err), s')
           | (Inr _, s') \<Rightarrow> (Inr (), s')))"

definition admin_purge_queue :: "'s backend \<Rightarrow> string \<Rightarrow> 's \<Rightarrow> (admin_error + unit) \<times> 's" where
  "admin_purge_queue b name s =
     (case find_by_name b name s of
        Inl err \<Rightarrow> (Inl err, s)
      | Inr queue \<Rightarrow>
          (case be_purge_queue b (qc_id queue) s of
             (Inl err, s') \<Rightarrow> (Inl (admin_error_from err), s')
           | (Inr _, s') \<Rightarrow> (Inr (), s')))"

end
