(* ===== verification/Admin_Claims.thy ===== *)
theory Admin_Claims
  imports Sqlite_Lifecycle Sqs_Claims Admin Engine_Turns
begin

text \<open>
  Properties of the admin API, over both backends and beside the SQS front end.
\<close>

section \<open>Finding a queue by name\<close>

text \<open>What the admin handlers rely on beyond the contract of the SQS handlers: the list of all queues.\<close>

locale listed_store = queue_store +
  assumes list_all: "inv s \<Longrightarrow> \<exists>cs. be_list_queues b None s = Inr cs \<and> distinct (map qc_id cs) \<and>
      (\<forall>c. c \<in> set cs \<longleftrightarrow> lookup s (qc_id c) = Some c)"
begin

lemma find_unique:
  assumes "inv s" and "lookup s k = Some c" and "\<And>j c'. lookup s j = Some c' \<Longrightarrow> qc_name c' = qc_name c \<Longrightarrow> j = k"
  shows "find_by_name b (qc_name c) s = Inr c"
proof -
  obtain cs where cs: "be_list_queues b None s = Inr cs" "\<And>c. c \<in> set cs \<longleftrightarrow> lookup s (qc_id c) = Some c"
    using list_all [OF assms(1)] by blast
  have mem: "c \<in> set cs" using assms(2) lookup_id [OF assms(1,2)] by (simp add: cs(2))
  obtain c' where c': "find (\<lambda>q. qc_name q = qc_name c) cs = Some c'"
    using mem by (cases "find (\<lambda>q. qc_name q = qc_name c) cs") (auto simp: find_None_iff)
  then have "lookup s (qc_id c') = Some c'" "qc_name c' = qc_name c"
    by (auto simp: find_Some_iff cs(2) [symmetric])
  then have "qc_id c' = k" by (rule assms(3))
  with \<open>lookup s (qc_id c') = Some c'\<close> assms(2) have "c' = c" by simp
  with c' show ?thesis by (simp add: find_by_name_def cs(1))
qed

lemma find_missing:
  assumes "inv s" and "\<And>k c. lookup s k = Some c \<Longrightarrow> qc_name c \<noteq> n"
  shows "find_by_name b n s = Inl (AdminNotFound (''Queue '' @ [CHR 0x27] @ n @ [CHR 0x27] @ '' not found''))"
proof -
  obtain cs where "be_list_queues b None s = Inr cs" "\<And>c. c \<in> set cs \<longleftrightarrow> lookup s (qc_id c) = Some c"
    using list_all [OF assms(1)] by blast
  moreover from this(2) assms(2) have "find (\<lambda>q. qc_name q = n) cs = None" by (auto simp: find_None_iff)
  ultimately show ?thesis by (simp add: find_by_name_def)
qed

lemma admin_create:
  assumes "inv s" and "lookup s (uuid (es 0) 0) = None" and "name_free s (cq_name req)"
  shows "\<exists>s1. admin_create_queue b es req s = (Inr (details_of b s1 (admin_config (uuid (es 0) 0) req)), s1) \<and>
    inv s1 \<and> lookup s1 = (lookup s)(uuid (es 0) 0 \<mapsto> admin_config (uuid (es 0) 0) req)"
  using create_untagged [OF assms(1), of "admin_config (uuid (es 0) 0) req" "es 1"] assms(2,3) size_small [of 262144]
  by (auto simp: admin_create_queue_def admin_config_def)

text \<open>A created queue can be read and deleted by its name, and is then gone.\<close>

lemma admin_lifecycle:
  assumes "inv s" and "lookup s (uuid (es 0) 0) = None" and "name_free s (cq_name req)"
    and "\<And>k c. lookup s k = Some c \<Longrightarrow> qc_name c \<noteq> cq_name req"
  shows "\<exists>d s1 s2. admin_create_queue b es req s = (Inr d, s1) \<and> admin_get_queue b (cq_name req) s1 = Inr d \<and>
    admin_delete_queue b (cq_name req) s1 = (Inr (), s2) \<and> lookup s2 = lookup s \<and>
    (\<exists>msg. admin_get_queue b (cq_name req) s2 = Inl (AdminNotFound msg))"
proof -
  define c where "c = admin_config (uuid (es 0) 0) req"
  have c: "qc_id c = uuid (es 0) 0" "qc_name c = cq_name req" by (simp_all add: c_def admin_config_def)
  obtain s1 where s1: "admin_create_queue b es req s = (Inr (details_of b s1 c), s1)" "inv s1"
    "lookup s1 = (lookup s)(uuid (es 0) 0 \<mapsto> c)"
    using admin_create [of s es req, OF assms(1-3)] unfolding c_def by blast
  have "j = uuid (es 0) 0" if "lookup s1 j = Some c'" "qc_name c' = qc_name c" for j c'
    using assms(4) [of j c'] that by (simp add: s1(3) c split: if_splits)
  moreover have here: "lookup s1 (uuid (es 0) 0) = Some c" by (simp add: s1(3))
  ultimately have find: "find_by_name b (cq_name req) s1 = Inr c"
    using find_unique [OF s1(2) here] unfolding c(2) by blast
  have "lookup s1 (qc_id c) \<noteq> None" using here by (simp add: c(1))
  then obtain s2 where s2: "be_delete_queue b (qc_id c) s1 = (Inr (), s2)" "inv s2" "lookup s2 = (lookup s1)(qc_id c := None)"
    using delete_old [OF s1(2)] by blast
  have same: "lookup s2 = lookup s" using assms(2) by (simp add: s2(3) s1(3) c fun_upd_idem)
  then have "find_by_name b (cq_name req) s2 = Inl (AdminNotFound (''Queue '' @ [CHR 0x27] @ cq_name req @ [CHR 0x27] @ '' not found''))"
    using find_missing [OF s2(2)] assms(4) by simp
  then show ?thesis using s1(1) s2(1) find same by (simp add: admin_get_queue_def admin_delete_queue_def)
qed

end

interpretation mem_listed: listed_store "memory_backend x" mem_wf queue_lookup "\<lambda>_ _. True" "\<lambda>_. True" "\<lambda>c. c" for x
proof
  fix s :: in_memory
  assume wf: "mem_wf s"
  define cs where "cs = map (\<lambda>(_, q). qd_config q) (queues s)"
  have ids: "map qc_id cs = map fst (queues s)"
    using wf by (auto simp: cs_def mem_wf_def list_all_iff queue_wf_def)
  have "c \<in> set cs \<longleftrightarrow> queue_lookup s (qc_id c) = Some c" for c
  proof
    assume "c \<in> set cs"
    then obtain k q where kq: "(k, q) \<in> set (queues s)" "c = qd_config q" by (auto simp: cs_def)
    then have "map_of (queues s) k = Some q" "qc_id c = k"
      using wf by (auto simp: mem_wf_def list_all_iff queue_wf_def)
    then show "queue_lookup s (qc_id c) = Some c" by (simp add: queue_lookup_def kq)
  next
    assume "queue_lookup s (qc_id c) = Some c"
    then obtain q where "map_of (queues s) (qc_id c) = Some q" "qd_config q = c" by (auto simp: queue_lookup_def)
    then show "c \<in> set cs" by (force simp: cs_def dest: map_of_SomeD)
  qed
  moreover have "be_list_queues (memory_backend x) None s = Inr cs"
    by (simp add: memory_backend_def list_queues_def cs_def)
  moreover have "distinct (map qc_id cs)" using wf by (simp add: ids mem_wf_def)
  ultimately show "\<exists>cs. be_list_queues (memory_backend x) None s = Inr cs \<and> distinct (map qc_id cs) \<and>
      (\<forall>c. c \<in> set cs \<longleftrightarrow> queue_lookup s (qc_id c) = Some c)" by blast
qed

lemma rows_to_configs_set:
  "rows_to_configs y rs = Inr cs \<Longrightarrow> c \<in> set cs \<longleftrightarrow> (\<exists>r \<in> set rs. row_to_config y r = Inr c)"
  by (induction rs arbitrary: cs) (auto split: sum.splits)

lemma list_queues_all:
  assumes "db_ok d"
  shows "\<exists>cs. list_queues_sqlite y None d = Inr cs \<and> map qc_id cs = map qr_id (sort_key qr_name (queues_table d)) \<and>
    (\<forall>c. c \<in> set cs \<longleftrightarrow> sqlite_lookup y d (qc_id c) = Some c)"
proof -
  define rows where "rows = sort_key qr_name (queues_table d)"
  have "\<forall>r \<in> set rows. \<exists>c. row_to_config y r = Inr c" using assms by (simp add: rows_def row_decodes)
  then obtain cs where cs: "rows_to_configs y rows = Inr cs" "map qc_id cs = map qr_id rows"
    using rows_to_configs_ids by blast
  have "c \<in> set cs \<longleftrightarrow> sqlite_lookup y d (qc_id c) = Some c" for c
  proof
    assume "c \<in> set cs"
    then obtain r where "r \<in> set (queues_table d)" "row_to_config y r = Inr c"
      using rows_to_configs_set [OF cs(1)] by (auto simp: rows_def)
    moreover from this(2) have "qc_id c = qr_id r" by (simp add: row_to_config_fields)
    ultimately show "sqlite_lookup y d (qc_id c) = Some c"
      using assms find_queue_in by (auto simp: lookup_Some db_ok_def)
  next
    assume "sqlite_lookup y d (qc_id c) = Some c"
    then show "c \<in> set cs"
      using rows_to_configs_set [OF cs(1)] by (auto simp: lookup_Some rows_def dest: find_queue_Some)
  qed
  then show ?thesis using cs by (simp add: list_queues_sqlite_def rows_def)
qed

interpretation sq_listed: listed_store "sqlite_backend x y" "sqlite_inv y" "sqlite_lookup y" queue_name_free
    "\<lambda>n. n < 2 ^ 64" "reread_tags y" for x y
proof
  fix d :: sqlite
  assume "sqlite_inv y d"
  then have ok: "db_ok d" by (simp add: sqlite_inv_def)
  then have "distinct (map qr_id (sort_key qr_name (queues_table d)))" by (simp add: distinct_sort_key db_ok_defs)
  with list_queues_all [OF ok, of y] show "\<exists>cs. be_list_queues (sqlite_backend x y) None d = Inr cs \<and>
      distinct (map qc_id cs) \<and> (\<forall>c. c \<in> set cs \<longleftrightarrow> sqlite_lookup y d (qc_id c) = Some c)" by auto
qed

section \<open>Statistics\<close>

lemma stats_loop_sum:
  assumes "\<And>q. q \<in> set qs \<Longrightarrow> \<exists>st. be_get_stats b (qc_id q) s = Inr st \<and> st_available_messages st = f (qc_id q) \<and>
      st_in_flight_messages st = g (qc_id q)"
  shows "stats_loop b s qs m n = (m + sum_list (map (f \<circ> qc_id) qs), n + sum_list (map (g \<circ> qc_id) qs))"
  using assms
proof (induction qs arbitrary: m n)
  case (Cons q qs)
  obtain st where "be_get_stats b (qc_id q) s = Inr st" "st_available_messages st = f (qc_id q)"
    "st_in_flight_messages st = g (qc_id q)" using Cons.prems [of q] by auto
  then show ?case using Cons.IH Cons.prems by (simp add: add.assoc)
qed simp

lemma sum_vals_list: "sum_vals f al = sum_list (map (\<lambda>p. f (snd p)) al)"
  by (induction al) auto

lemma admin_stats_memory:
  assumes "mem_wf s"
  shows "admin_get_stats (memory_backend x) s = Inr \<lparr> total_queues = length (queues s),
    total_messages = sum_vals (\<lambda>q. length (available_messages q)) (queues s),
    total_in_flight = sum_vals (\<lambda>q. length (in_flight_messages q)) (queues s) \<rparr>"
proof -
  define qs where "qs = map (\<lambda>(_, q). qd_config q) (queues s)"
  define f where "f = (\<lambda>g :: queue_data \<Rightarrow> nat. \<lambda>k. case map_of (queues s) k of None \<Rightarrow> 0 | Some q \<Rightarrow> g q)"
  have entry: "map_of (queues s) k = Some q" "qc_id (qd_config q) = k" if "(k, q) \<in> set (queues s)" for k q
    using that assms by (auto simp: mem_wf_def list_all_iff queue_wf_def)
  have "\<exists>st. be_get_stats (memory_backend x) (qc_id c) s = Inr st \<and> st_available_messages st = f (\<lambda>q. length (available_messages q)) (qc_id c) \<and>
      st_in_flight_messages st = f (\<lambda>q. length (in_flight_messages q)) (qc_id c)" if "c \<in> set qs" for c
    using that entry by (auto simp: qs_def memory_backend_def get_stats_def f_def)
  then have loop: "stats_loop (memory_backend x) s qs 0 0 =
      (sum_list (map (f (\<lambda>q. length (available_messages q)) \<circ> qc_id) qs),
       sum_list (map (f (\<lambda>q. length (in_flight_messages q)) \<circ> qc_id) qs))"
    by (simp add: stats_loop_sum [where f = "f (\<lambda>q. length (available_messages q))" and
        g = "f (\<lambda>q. length (in_flight_messages q))"])
  have "map (f g \<circ> qc_id) qs = map (\<lambda>p. g (snd p)) (queues s)" for g
    using entry by (auto simp: qs_def f_def)
  moreover have "be_list_queues (memory_backend x) None s = Inr qs" "length qs = length (queues s)"
    by (simp_all add: memory_backend_def list_queues_def qs_def)
  ultimately show ?thesis by (simp only: admin_get_stats_def sum_vals_list loop sum.case prod.case)
qed

lemma sum_filter_partition:
  assumes "distinct ks" and "\<forall>r \<in> set rs. P r \<longrightarrow> key r \<in> set ks"
  shows "(\<Sum>k\<leftarrow>ks. length (filter (\<lambda>r. key r = k \<and> P r) rs)) = length (filter P rs)"
  using assms(2)
proof (induction rs)
  case (Cons r rs)
  have "(\<Sum>k\<leftarrow>ks. length (filter (\<lambda>r. key r = k \<and> P r) (r # rs))) =
      (\<Sum>k\<leftarrow>ks. (if P r \<and> k = key r then 1 else 0) + length (filter (\<lambda>r. key r = k \<and> P r) rs))"
    by (intro arg_cong [where f = sum_list] map_cong) auto
  also have "\<dots> = (\<Sum>k\<leftarrow>ks. if P r \<and> k = key r then 1 else 0) + length (filter P rs)"
    using Cons by (simp add: sum_list_addf)
  also have "(\<Sum>k\<leftarrow>ks. if P r \<and> k = key r then 1 else 0) = (if P r then 1 else 0 :: nat)"
    using Cons.prems assms(1) by (auto simp: sum_list_distinct_conv_sum_set)
  finally show ?case by simp
qed simp

lemma admin_stats_sqlite:
  assumes "db_ok d"
  shows "admin_get_stats (sqlite_backend x y) d = Inr \<lparr> total_queues = length (queues_table d),
    total_messages = length (filter (\<lambda>r. mr_state r = ''available'') (messages_table d)),
    total_in_flight = length (filter (\<lambda>r. mr_state r = ''in_flight'') (messages_table d)) \<rparr>"
proof -
  obtain cs where cs: "list_queues_sqlite y None d = Inr cs" "map qc_id cs = map qr_id (sort_key qr_name (queues_table d))"
    "\<forall>c. c \<in> set cs \<longleftrightarrow> sqlite_lookup y d (qc_id c) = Some c"
    using list_queues_all [OF assms, of y] by blast
  define f where "f = (\<lambda>st k. length (filter (\<lambda>r. mr_queue_id r = k \<and> mr_state r = st) (messages_table d)))"
  have "\<exists>st. be_get_stats (sqlite_backend x y) (qc_id c) d = Inr st \<and> st_available_messages st = f ''available'' (qc_id c) \<and>
      st_in_flight_messages st = f ''in_flight'' (qc_id c)" if "c \<in> set cs" for c
    using that cs(3) get_queue_lookup [OF assms, of y "qc_id c"] by (simp add: get_stats_sqlite_def f_def Let_def)
  then have loop: "stats_loop (sqlite_backend x y) d cs 0 0 =
      (sum_list (map (f ''available'' \<circ> qc_id) cs), sum_list (map (f ''in_flight'' \<circ> qc_id) cs))"
    by (simp add: stats_loop_sum [where f = "f ''available''" and g = "f ''in_flight''"] del: sqlite_backend_sel)
  have "distinct (map qc_id cs)" using assms by (simp add: cs(2) distinct_sort_key db_ok_defs)
  moreover have "set (map qc_id cs) = known_queues d" by (simp only: cs(2)) (simp add: known_queues_def)
  ultimately have "sum_list (map (f st \<circ> qc_id) cs) = length (filter (\<lambda>r. mr_state r = st) (messages_table d))" for st
    using sum_filter_partition [of "map qc_id cs" "messages_table d" "\<lambda>r. mr_state r = st" mr_queue_id] assms
    by (auto simp: f_def o_def db_ok_def references_ok_def)
  moreover have "length cs = length (queues_table d)" using arg_cong [OF cs(2), of length] by simp
  ultimately show ?thesis by (simp add: admin_get_stats_def cs(1) loop)
qed

text \<open>
  C23. The overall statistics of the admin API account for every stored message: on either backend the number
  of queues is the number of queues, and available and in-flight messages add up to all the messages the
  backend holds.
\<close>

theorem admin_stats_account:
  assumes "mem_wf s" and "db_ok d"
  shows "(\<exists>r. admin_get_stats (memory_backend x) s = Inr r \<and> total_queues r = length (queues s) \<and>
      total_messages r + total_in_flight r = total_message_count s) \<and>
    (\<exists>r. admin_get_stats (sqlite_backend x y) d = Inr r \<and> total_queues r = length (queues_table d) \<and>
      total_messages r + total_in_flight r = length (messages_table d))"
proof
  have "sum_vals (\<lambda>q. length (available_messages q)) al + sum_vals (\<lambda>q. length (in_flight_messages q)) al =
      sum_vals queue_message_count al" for al :: "(string \<times> queue_data) list"
    by (induction al) (auto simp: queue_message_count_def)
  then show "\<exists>r. admin_get_stats (memory_backend x) s = Inr r \<and> total_queues r = length (queues s) \<and>
      total_messages r + total_in_flight r = total_message_count s"
    by (simp add: admin_stats_memory [OF assms(1)] total_message_count_def)
  have states: "\<forall>r \<in> set (messages_table d). mr_state r = ''available'' \<or> mr_state r = ''in_flight''"
    using assms(2) by (auto simp: db_ok_defs row_available_def row_in_flight_def)
  have "length (filter (\<lambda>r. mr_state r = ''available'') rs) + length (filter (\<lambda>r. mr_state r = ''in_flight'') rs) = length rs"
    if "\<forall>r \<in> set rs. mr_state r = ''available'' \<or> mr_state r = ''in_flight''" for rs :: "message_row list"
    using that by (induction rs) auto
  with states show "\<exists>r. admin_get_stats (sqlite_backend x y) d = Inr r \<and> total_queues r = length (queues_table d) \<and>
      total_messages r + total_in_flight r = length (messages_table d)"
    by (simp add: admin_stats_sqlite [OF assms(2)])
qed

theorem admin_stats_account_witness:
  "\<exists>r. admin_get_stats (sqlite_backend sample_ext sample_sql)
      (sql_db SqsStandard None [sql_row ''a'' 0 None None, flying_row ''b'' ''h'' 5000]) = Inr r \<and>
    total_queues r = 2 \<and> total_messages r + total_in_flight r = 2"
proof -
  define s where "s = \<lparr> queues = [], subscriptions = [], mem_config = default_in_memory_config \<rparr>"
  define d where "d = sql_db SqsStandard None [sql_row ''a'' 0 None None, flying_row ''b'' ''h'' 5000]"
  have "mem_wf s" by (simp add: s_def mem_wf_def)
  moreover have "db_ok d" by (auto simp: d_def db_ok_defs sql_db_def config_row_id sql_config_def string_to_queue_type_def)
  ultimately show ?thesis
    using admin_stats_account [of s d sample_ext sample_sql] by (simp add: d_def sql_db_def numeral_2_eq_2)
qed

section \<open>The admin API beside the SQS front end\<close>

lemma free_name_iff:
  assumes "sqlite_inv y d"
  shows "queue_name_free d n \<longleftrightarrow> (\<forall>k c. sqlite_lookup y d k = Some c \<longrightarrow> qc_name c \<noteq> n)"
proof -
  have ok: "db_ok d" using assms by (simp add: sqlite_inv_def)
  have "\<exists>k c. sqlite_lookup y d k = Some c \<and> qc_name c = qr_name r" if r: "r \<in> set (queues_table d)" for r
  proof -
    obtain c where "row_to_config y r = Inr c" using row_decodes [OF ok r] by blast
    moreover have "find_queue (qr_id r) d = Some r" using ok r by (simp add: find_queue_in db_ok_def)
    ultimately show ?thesis using row_to_config_fields by (intro exI [of _ "qr_id r"] exI [of _ c]) (simp add: lookup_Some)
  qed
  moreover have "qc_name c \<in> qr_name ` set (queues_table d)" if "sqlite_lookup y d k = Some c" for k c
    using that row_to_config_fields by (auto simp: lookup_Some dest: find_queue_Some)
  ultimately show ?thesis by (force simp: queue_name_free_def)
qed

text \<open>The names of the database are unique, the names of the memory are not.\<close>

lemma create_queue_name_taken:
  assumes "sqlite_inv y d" and "\<not> queue_name_free d (qc_name c)"
  shows "create_queue_sqlite y e c d = (Inl (QueueAlreadyExists (qc_id c)), d)"
proof -
  define r where "r = config_to_row y (timestamp (now e 0)) c"
  have "qr_name r = qc_name c" by (simp add: r_def config_to_row_def)
  moreover obtain p where "p \<in> set (queues_table d)" "qr_name p = qc_name c"
    using assms(2) by (auto simp: queue_name_free_def)
  ultimately have "\<exists>column. insert_queue r d = Inl (UniqueFailed column)"
    by (cases "\<exists>p \<in> set (queues_table d). qr_id p = qr_id r") (auto simp: insert_queue_def)
  then obtain column where "insert_queue r d = Inl (UniqueFailed column)" by blast
  then show ?thesis
    using assms(1) by (simp add: create_queue_sqlite_def r_def [symmetric] sqlite_inv_def sql_lawsD)
qed

text \<open>
  C24. A queue created through the admin API does not exist for the SQS front end: it is stored under a random
  identifier, and SQS looks queues up under their name.  GetQueueUrl reports the name missing.
  CreateQueue of that name then adds a second queue of the same name to the memory, and fails on
  SQLite, where names are unique, so the name is neither found nor free.
\<close>

theorem admin_queue_hidden_from_sqs:
  assumes "mem_wf s" and "sqlite_inv y d" and "get_param r ''QueueName'' = Some n" and "cq_name req = n"
    and "validate_sqs_queue_name x n = Inr ()" and "uuid (es 0) 0 \<noteq> n"
    and "queue_lookup s (uuid (es 0) 0) = None" and "queue_lookup s n = None"
    and "sqlite_lookup y d (uuid (es 0) 0) = None" and "sqlite_lookup y d n = None" and "queue_name_free d n"
    and "h_backend hm = memory_backend x" and "h_backend hs = sqlite_backend x y"
  shows "(\<exists>a s1 s2 c1 c2. admin_create_queue (memory_backend x) es req s = (Inr a, s1) \<and> dt_name a = n \<and>
      handle_get_queue_url hm es' r s1 = (Inr (queue_missing (uuid (es' 0) 0) n), s1) \<and>
      handle_create_queue x hm es' r s1 = (Inr (build_create_queue_response (uuid (es' 0) 0) (get_queue_url hm n)), s2) \<and>
      queue_lookup s2 (uuid (es 0) 0) = Some c1 \<and> queue_lookup s2 n = Some c2 \<and> qc_name c1 = n \<and> qc_name c2 = n) \<and>
    (\<exists>a d1. admin_create_queue (sqlite_backend x y) es req d = (Inr a, d1) \<and> dt_name a = n \<and>
      handle_get_queue_url hs es' r d1 = (Inr (queue_missing (uuid (es' 0) 0) n), d1) \<and>
      handle_create_queue x hs es' r d1 =
        (Inr (build_error_response (uuid (es' 0) 0) InternalError (''Queue already exists: '' @ n)), d1))"
proof
  note hm = assms(12) and hs = assms(13)
  define c where "c = admin_config (uuid (es 0) 0) req"
  have c: "qc_name c = n" by (simp add: c_def admin_config_def assms(4))
  obtain s1 where s1: "admin_create_queue (memory_backend x) es req s = (Inr (details_of (memory_backend x) s1 c), s1)"
    "mem_wf s1" "queue_lookup s1 = (queue_lookup s)(uuid (es 0) 0 \<mapsto> c)"
    using mem_listed.admin_create [where es = es and req = req and s = s, OF assms(1,7)] unfolding c_def by blast
  have none: "queue_lookup s1 n = None" using assms(6,8) by (simp add: s1(3))
  obtain s2 where "handle_create_queue x hm es' r s1 =
      (Inr (build_create_queue_response (uuid (es' 0) 0) (get_queue_url hm n)), s2)"
    "queue_lookup s2 = (queue_lookup s1)(n \<mapsto> create_config x n (parse_queue_attributes r))"
    using mem.create_queue_reply [where es = es', OF s1(2) hm assms(3,5) none] by blast
  then show "\<exists>a s1 s2 c1 c2. admin_create_queue (memory_backend x) es req s = (Inr a, s1) \<and> dt_name a = n \<and>
      handle_get_queue_url hm es' r s1 = (Inr (queue_missing (uuid (es' 0) 0) n), s1) \<and>
      handle_create_queue x hm es' r s1 = (Inr (build_create_queue_response (uuid (es' 0) 0) (get_queue_url hm n)), s2) \<and>
      queue_lookup s2 (uuid (es 0) 0) = Some c1 \<and> queue_lookup s2 n = Some c2 \<and> qc_name c1 = n \<and> qc_name c2 = n"
    using mem.get_queue_url_reply [where es = es', OF s1(2) hm assms(3)] none assms(6) s1(1) c
    by (intro exI [of _ "details_of (memory_backend x) s1 c"] exI [of _ s1] exI [of _ s2] exI [of _ c]
        exI [of _ "create_config x n (parse_queue_attributes r)"])
      (simp add: s1(3) details_of_def create_config_def Let_def)
  obtain d1 where d1: "admin_create_queue (sqlite_backend x y) es req d = (Inr (details_of (sqlite_backend x y) d1 c), d1)"
    "sqlite_inv y d1" "sqlite_lookup y d1 = (sqlite_lookup y d)(uuid (es 0) 0 \<mapsto> c)"
    using sq_listed.admin_create [where es = es and req = req and s = d, OF assms(2,9)] assms(4,11) unfolding c_def by blast
  have "\<not> queue_name_free d1 n"
    using c by (auto simp: free_name_iff [OF d1(2)] d1(3))
  then have "create_queue_sqlite y (es' 1) (create_config x n (parse_queue_attributes r)) d1 = (Inl (QueueAlreadyExists n), d1)"
    using create_queue_name_taken [OF d1(2), of "create_config x n (parse_queue_attributes r)"]
    by (simp add: create_config_def Let_def)
  then have "handle_create_queue x hs es' r d1 =
      (Inr (build_error_response (uuid (es' 0) 0) InternalError (''Queue already exists: '' @ n)), d1)"
    using assms(3,5) hs by (simp add: handle_create_queue_def get_required_param_def Let_def on_error_def)
  moreover have "sqlite_lookup y d1 n = None" using assms(6,10) by (simp add: d1(3))
  ultimately show "\<exists>a d1. admin_create_queue (sqlite_backend x y) es req d = (Inr a, d1) \<and> dt_name a = n \<and>
      handle_get_queue_url hs es' r d1 = (Inr (queue_missing (uuid (es' 0) 0) n), d1) \<and>
      handle_create_queue x hs es' r d1 =
        (Inr (build_error_response (uuid (es' 0) 0) InternalError (''Queue already exists: '' @ n)), d1)"
    using sq.get_queue_url_reply [where es = es', OF d1(2) hs assms(3)] d1(1) c
    by (intro exI [of _ "details_of (sqlite_backend x y) d1 c"] exI [of _ d1]) (simp add: details_of_def Let_def)
qed

theorem admin_queue_hidden_from_sqs_witness:
  "\<exists>d1. handle_get_queue_url \<lparr> h_backend = sqlite_backend sample_ext sample_sql, h_base_url = ''http://h'' \<rparr>
      (\<lambda>_. sample_env 2) (sample_request ActCreateQueue [(''QueueName'', ''jobs'')]) d1 =
      (Inr (queue_missing ''0'' ''jobs''), d1) \<and>
    handle_create_queue sample_ext \<lparr> h_backend = sqlite_backend sample_ext sample_sql, h_base_url = ''http://h'' \<rparr>
      (\<lambda>_. sample_env 2) (sample_request ActCreateQueue [(''QueueName'', ''jobs'')]) d1 =
      (Inr (build_error_response ''0'' InternalError ''Queue already exists: jobs''), d1)"
proof -
  define r where "r = sample_request ActCreateQueue [(''QueueName'', ''jobs'')]"
  define req where "req = \<lparr> cq_name = ''jobs'', cq_queue_type = None, cq_visibility_timeout = None,
    cq_message_retention_period = None \<rparr>"
  define s where "s = \<lparr> queues = [], subscriptions = [], mem_config = default_in_memory_config \<rparr>"
  have name: "get_param r ''QueueName'' = Some ''jobs''" by (simp add: r_def sample_request_def get_param_def)
  have req: "cq_name req = ''jobs''" by (simp add: req_def)
  have valid: "validate_sqs_queue_name sample_ext ''jobs'' = Inr ()" by code_simp
  have wf: "mem_wf s" and empty: "queue_lookup s k = None" for k by (simp_all add: s_def mem_wf_def queue_lookup_def)
  have inv: "sqlite_inv sample_sql empty_database" by (simp add: sqlite_inv_def sample_sql_laws empty_database_ok)
  have none: "sqlite_lookup sample_sql empty_database k = None" for k
    by (simp add: sqlite_lookup_def find_queue_def empty_database_def)
  have free: "queue_name_free empty_database ''jobs''" by (simp add: queue_name_free_def empty_database_def)
  have uuid: "show_nat 0 = ''0''" by code_simp
  have differ: "uuid (sample_env 1) 0 \<noteq> ''jobs''" by (simp add: uuid)
  show ?thesis
    using admin_queue_hidden_from_sqs [where es = "\<lambda>_. sample_env 1" and es' = "\<lambda>_. sample_env 2"
        and hm = "\<lparr> h_backend = memory_backend sample_ext, h_base_url = ''http://h'' \<rparr>"
        and hs = "\<lparr> h_backend = sqlite_backend sample_ext sample_sql, h_base_url = ''http://h'' \<rparr>",
        OF wf inv name req valid differ empty empty none none free, simplified] by (auto simp: r_def uuid)
qed

end
