(* ===== verification/Backend_Agreement.thy ===== *)
theory Backend_Agreement
  imports Sqs_Claims Sqlite_Lifecycle Admin_Claims
begin

text \<open>
  The two backends behind the SQS front end: whatever requests arrive, the replies to six of the requests
  that manage queues are the same, byte for byte, and the two lists of the tags of a queue have the same
  tags, in an order of their own.  The other two, ListQueues and GetQueueAttributes, are not compared: the
  backends filter and order the list differently, and the attributes count the messages.
\<close>

section \<open>Requests about messages leave the table of queues alone\<close>







section \<open>Handlers and the order of the tags\<close>








text \<open>Two tables of queues, up to the order of the tags.\<close>

definition same_queues :: "(string \<Rightarrow> queue_config option) \<Rightarrow> (string \<Rightarrow> queue_config option) \<Rightarrow> bool" where
  "same_queues table table' \<longleftrightarrow> (\<forall>k. rel_option same_config (table k) (table' k))"

lemma same_queues_refl: "same_queues table table"
  by (simp add: same_queues_def option.rel_refl)




section \<open>Two stores behind one front end\<close>








section \<open>The agreement\<close>















section \<open>What neither backend does\<close>

text \<open>The wait time of a request, which the front end reads for long polling, has no effect on a receive.\<close>

lemma wait_time_ignored:
  "receive_messages x e k (ro\<lparr>wait_time_seconds := n\<rparr>) s = receive_messages x e k ro s"
  "receive_messages_sqlite x y e k (ro\<lparr>wait_time_seconds := n\<rparr>) d = receive_messages_sqlite x y e k ro d"
proof -
  obtain a b c f g where ro: "ro = \<lparr> ro_max_messages = a, ro_visibility_timeout = b, wait_time_seconds = c,
      attribute_names = f, message_attribute_names = g \<rparr>"
    by (cases ro)
  show "receive_messages x e k (ro\<lparr>wait_time_seconds := n\<rparr>) s = receive_messages x e k ro s"
    "receive_messages_sqlite x y e k (ro\<lparr>wait_time_seconds := n\<rparr>) d = receive_messages_sqlite x y e k ro d"
    unfolding ro receive_messages_def receive_messages_sqlite_def receive_options.simps by (rule refl)+
qed

end
