(* ===== verification/Sqs_Markup.thy ===== *)
theory Sqs_Markup
  imports Sqs_Json
begin

text \<open>
  The XML replies as sequences of tags and texts, and what the search for tags by substring
  (\<open>xml_to_json_response\<close>) finds in such a sequence: facts the properties of the JSON
  protocol rest on.
\<close>

section \<open>Tokens\<close>

datatype token = Tag string | Text string

fun render :: "token list \<Rightarrow> string" where
  "render [] = []"
| "render (Tag n # ts) = start_tag n @ render ts"
| "render (Text t # ts) = t @ render ts"

text \<open>No bracket inside a name and no opening bracket inside a text.\<close>

definition plain :: "string \<Rightarrow> bool" where
  "plain s \<longleftrightarrow> CHR ''<'' \<notin> set s"

fun clean_token :: "token \<Rightarrow> bool" where
  "clean_token (Tag n) \<longleftrightarrow> plain n \<and> CHR ''>'' \<notin> set n"
| "clean_token (Text t) \<longleftrightarrow> plain t"

definition clean :: "token list \<Rightarrow> bool" where
  "clean ts \<longleftrightarrow> list_all clean_token ts"

lemma clean_simps [simp]: "clean []" "clean (k # ts) \<longleftrightarrow> clean_token k \<and> clean ts"
  "clean (ts @ us) \<longleftrightarrow> clean ts \<and> clean us"
  by (simp_all add: clean_def)

lemma clean_concat: "clean (concat (map f xs)) \<longleftrightarrow> (\<forall>x \<in> set xs. clean (f x))"
  by (induction xs) simp_all

lemma plain_simps [simp]: "plain []" "plain (c # s) \<longleftrightarrow> c \<noteq> CHR ''<'' \<and> plain s"
  "plain (s @ t) \<longleftrightarrow> plain s \<and> plain t"
  by (auto simp: plain_def)

lemma render_append [simp]: "render (ts @ us) = render ts @ render us"
  by (induction ts rule: render.induct) simp_all

lemma render_concat [simp]: "render (concat (map f xs)) = concat (map (\<lambda>x. render (f x)) xs)"
  by (induction xs) simp_all

lemma end_tag_start: "end_tag a = start_tag (CHR ''/'' # a)"
  by (simp add: end_tag_def start_tag_def)

lemma plain_escape [simp]: "plain (escape_xml s)"
  by (auto simp: plain_def escape_xml_eq escape_char_def dquote_squote split: if_splits)

section \<open>The search\<close>

lemma split_at_bracket:
  "CHR ''>'' \<notin> set a \<Longrightarrow> CHR ''>'' \<notin> set n \<Longrightarrow> a @ CHR ''>'' # s = n @ CHR ''>'' # t \<longleftrightarrow> a = n \<and> s = t"
  by (induction a arbitrary: n) (case_tac n; auto)+

lemma starts_with_tag:
  "CHR ''>'' \<notin> set a \<Longrightarrow> CHR ''>'' \<notin> set n \<Longrightarrow> starts_with (start_tag a) (start_tag n @ s) \<longleftrightarrow> a = n"
  using split_at_bracket [of n a s] by (auto simp: starts_with_iff start_tag_def)

lemma find_after_text:
  "plain t \<Longrightarrow> find_sub (start_tag a) (t @ s) = map_option ((+) (length t)) (find_sub (start_tag a) s)"
  using find_sub_skip [of "CHR ''<''" t "a @ ''>''" s] by (simp add: start_tag_def plain_def)

lemma find_after_tag:
  assumes "clean_token (Tag n)" and "CHR ''>'' \<notin> set a" and "n \<noteq> a"
  shows "find_sub (start_tag a) (start_tag n @ s) =
    map_option ((+) (length (start_tag n))) (find_sub (start_tag a) s)"
proof -
  define r where "r = n @ ''>''"
  have "plain r" using assms(1) by (simp add: r_def)
  moreover have "start_tag n = CHR ''<'' # r" by (simp add: start_tag_def r_def)
  moreover have "\<not> starts_with (start_tag a) (start_tag n @ s)"
    using assms starts_with_tag [of a n s] by simp
  ultimately show ?thesis
    using find_after_text [of r a s] by (cases "find_sub (start_tag a) s") simp_all
qed

lemma find_after_tokens:
  "clean ts \<Longrightarrow> CHR ''>'' \<notin> set a \<Longrightarrow> Tag a \<notin> set ts \<Longrightarrow>
     find_sub (start_tag a) (render ts @ s) = map_option ((+) (length (render ts))) (find_sub (start_tag a) s)"
proof (induction ts rule: render.induct)
  case 1
  then show ?case by (cases "find_sub (start_tag a) s") simp_all
next
  case (2 n ts)
  then have "find_sub (start_tag a) (render ts @ s) = map_option ((+) (length (render ts))) (find_sub (start_tag a) s)"
    by simp
  with 2(2-4) find_after_tag [of n a "render ts @ s"] show ?case by (auto simp: option.map_comp o_def add.assoc)
next
  case (3 t ts)
  then have "find_sub (start_tag a) (render ts @ s) = map_option ((+) (length (render ts))) (find_sub (start_tag a) s)"
    by simp
  with 3(2) find_after_text [of t a "render ts @ s"] show ?case by (simp add: option.map_comp o_def add.assoc)
qed

lemma find_tag:
  assumes "clean ts" and "CHR ''>'' \<notin> set a" and "Tag a \<notin> set ts"
  shows "find_sub (start_tag a) (render ts @ start_tag a @ s) = Some (length (render ts))"
  using find_after_tokens [OF assms, of "start_tag a @ s"] by simp

lemma find_no_tag:
  assumes "clean ts" and "CHR ''>'' \<notin> set a" and "Tag a \<notin> set ts"
  shows "find_sub (start_tag a) (render ts) = None"
  using find_after_tokens [OF assms, of "[]"] by (simp add: start_tag_def)

lemma contains_iff_tag:
  assumes "clean ts" and "CHR ''>'' \<notin> set a"
  shows "contains (start_tag a) (render ts) \<longleftrightarrow> Tag a \<in> set ts"
proof (cases "Tag a \<in> set ts")
  case True
  then obtain us vs where ts: "ts = us @ Tag a # vs" "Tag a \<notin> set us" by (meson split_list_first)
  then show ?thesis using find_tag [of us a "render vs"] assms by (simp add: contains_def)
next
  case False
  then show ?thesis using find_no_tag [OF assms] by (simp add: contains_def)
qed

lemma find_sub_some: "find_sub p (a @ p @ b) \<noteq> None"
proof (induction a)
  case Nil
  then show ?case using find_sub_here [of p b] by simp
qed auto

lemma contains_inside: "contains p (a @ p @ b)"
  using find_sub_some by (simp add: contains_def)

text \<open>A word without brackets occurs in a rendered sequence when it occurs in one of its pieces.\<close>

fun pieces :: "token list \<Rightarrow> string list" where
  "pieces [] = [[]]"
| "pieces (Tag n # ts) = [] # n # pieces ts"
| "pieces (Text t # ts) = (case pieces ts of [] \<Rightarrow> [t] | p # ps \<Rightarrow> (t @ p) # ps)"

lemma starts_with_cut: "c \<notin> set w \<Longrightarrow> starts_with w (a @ c # b) \<longleftrightarrow> starts_with w a"
proof (induction a arbitrary: w)
  case Nil
  then show ?case by (cases w) auto
next
  case (Cons d a)
  then show ?case by (cases w) auto
qed

lemma contains_Nil [simp]: "contains w [] \<longleftrightarrow> w = []"
  by (simp add: contains_def)

lemma contains_Cons: "contains w (c # s) \<longleftrightarrow> starts_with w (c # s) \<or> contains w s"
  by (simp add: contains_def)

lemma contains_cut:
  assumes "c \<notin> set w" and "w \<noteq> []"
  shows "contains w (a @ c # b) \<longleftrightarrow> contains w a \<or> contains w b"
proof (induction a)
  case Nil
  show ?case using assms by (cases w) (auto simp: contains_Cons)
next
  case (Cons d a)
  then show ?case using starts_with_cut [OF assms(1), of "d # a" b] by (simp add: contains_Cons)
qed

lemma pieces_nonempty [simp]: "pieces ts \<noteq> []"
  by (induction ts rule: pieces.induct) (simp_all split: list.split)

lemma contains_render:
  assumes "CHR ''<'' \<notin> set w" and "CHR ''>'' \<notin> set w" and "w \<noteq> []"
  shows "contains w (render ts) \<longleftrightarrow> (\<exists>p \<in> set (pieces ts). contains w p)"
proof -
  have "contains w (t @ render ts) \<longleftrightarrow> contains w (t @ hd (pieces ts)) \<or> (\<exists>p \<in> set (tl (pieces ts)). contains w p)" for t
  proof (induction ts arbitrary: t rule: pieces.induct)
    case (2 n ts)
    have "contains w (render ts) \<longleftrightarrow> (\<exists>p \<in> set (pieces ts). contains w p)"
      using 2 [of "[]"] by (cases "pieces ts") auto
    then show ?case
      using contains_cut [OF assms(1,3), of t "n @ CHR ''>'' # render ts"] contains_cut [OF assms(2,3), of n "render ts"]
      by (simp add: start_tag_def)
  next
    case (3 u ts)
    then show ?case using 3 [of "t @ u"] by (cases "pieces ts") simp_all
  qed simp
  from this [of "[]"] show ?thesis by (cases "pieces ts") auto
qed

section \<open>Elements\<close>

text \<open>The first element named \<open>a\<close> holds the text \<open>t\<close> and nothing else.\<close>

fun has_element :: "string \<Rightarrow> string \<Rightarrow> token list \<Rightarrow> bool" where
  "has_element a t [] \<longleftrightarrow> False"
| "has_element a t (Text u # ts) \<longleftrightarrow> has_element a t ts"
| "has_element a t (Tag n # ts) \<longleftrightarrow>
     (if n = a then \<exists>rest. ts = Text t # Tag (CHR ''/'' # a) # rest
      else n \<noteq> CHR ''/'' # a \<and> has_element a t ts)"

lemma has_element_split:
  "has_element a t ts \<Longrightarrow>
     \<exists>us vs. ts = us @ [Tag a, Text t, Tag (CHR ''/'' # a)] @ vs \<and> Tag a \<notin> set us \<and> Tag (CHR ''/'' # a) \<notin> set us"
proof (induction a t ts rule: has_element.induct)
  case (2 a t u ts)
  then obtain us vs where "ts = us @ [Tag a, Text t, Tag (CHR ''/'' # a)] @ vs" "Tag a \<notin> set us"
    "Tag (CHR ''/'' # a) \<notin> set us" by auto
  then show ?case by (intro exI [of _ "Text u # us"] exI [of _ vs]) simp
next
  case (3 a t n ts)
  show ?case
  proof (cases "n = a")
    case True
    then obtain rest where "ts = Text t # Tag (CHR ''/'' # a) # rest" using 3(2) by auto
    then show ?thesis using True by (intro exI [of _ "[]"] exI [of _ rest]) simp
  next
    case False
    then obtain us vs where "ts = us @ [Tag a, Text t, Tag (CHR ''/'' # a)] @ vs" "Tag a \<notin> set us"
      "Tag (CHR ''/'' # a) \<notin> set us" using 3 by auto
    then show ?thesis using False 3(2) by (rule_tac x = "Tag n # us" in exI, rule_tac x = vs in exI) auto
  qed
qed simp

lemma has_element_append:
  "Tag a \<notin> set us \<Longrightarrow> Tag (CHR ''/'' # a) \<notin> set us \<Longrightarrow> has_element a t (us @ ts) \<longleftrightarrow> has_element a t ts"
  by (induction us rule: render.induct) auto

lemma extract_element:
  assumes "clean ts" and "has_element a t ts"
  shows "extract_between (start_tag a) (end_tag a) (render ts) = Inr (Some t)"
proof -
  obtain us vs where ts: "ts = us @ [Tag a, Text t, Tag (CHR ''/'' # a)] @ vs" and us: "Tag a \<notin> set us"
    "Tag (CHR ''/'' # a) \<notin> set us" using has_element_split [OF assms(2)] by blast
  define front where "front = us @ [Tag a, Text t]"
  have a: "CHR ''>'' \<notin> set a" using assms(1) ts by simp
  have "find_sub (start_tag a) (render ts) = Some (length (render us))"
    using find_tag [of us a "t @ start_tag (CHR ''/'' # a) @ render vs"] assms(1) ts us a by simp
  moreover have "render ts = render front @ start_tag (CHR ''/'' # a) @ render vs"
    by (simp add: ts front_def)
  moreover have "find_sub (end_tag a) (render front @ start_tag (CHR ''/'' # a) @ render vs) = Some (length (render front))"
    unfolding end_tag_start using assms(1) ts us a by (intro find_tag) (auto simp: front_def)
  ultimately show ?thesis
    by (simp add: extract_between_def slice_def and_then_def front_def)
qed

lemma extract_absent:
  assumes "clean ts" and "CHR ''>'' \<notin> set a" and "Tag a \<notin> set ts"
  shows "extract_between (start_tag a) (end_tag a) (render ts) = Inr None"
  using find_no_tag [OF assms] by (simp add: extract_between_def)

lemma insert_element:
  "clean ts \<Longrightarrow> has_element tag t ts \<Longrightarrow> insert_field key tag (render ts) obj = Inr (map_insert key (JStr t) obj)"
  using extract_element [of ts tag t] by (simp add: insert_field_def and_then_def)

lemma insert_absent:
  "clean ts \<Longrightarrow> CHR ''>'' \<notin> set tag \<Longrightarrow> Tag tag \<notin> set ts \<Longrightarrow> insert_field key tag (render ts) obj = Inr obj"
  using extract_absent [of ts tag] by (simp add: insert_field_def and_then_def)

section \<open>Blocks\<close>

text \<open>
  An element with contents: \<open>tag\<close>, tokens among which the closing tag is not, the closing
  tag.  The blocks of a sequence are cut out one after the other.
\<close>

definition block :: "string \<Rightarrow> token list \<Rightarrow> token list" where
  "block tag inner = Tag tag # inner @ [Tag (CHR ''/'' # tag)]"

lemma clean_block [simp]: "clean (block tag inner) \<longleftrightarrow> clean_token (Tag tag) \<and> clean inner"
  by (auto simp: block_def)

lemma segments_none:
  "clean ts \<Longrightarrow> CHR ''>'' \<notin> set tag \<Longrightarrow> Tag tag \<notin> set ts \<Longrightarrow> segments tag (render ts) = []"
  using find_no_tag [of ts tag] by (subst segments.simps) simp

lemma segments_skip:
  assumes "clean ts" and "CHR ''>'' \<notin> set tag" and "Tag tag \<notin> set ts"
  shows "segments tag (render ts @ s) = segments tag s"
  using find_after_tokens [OF assms, of s]
  by (subst (1 2) segments.simps) (cases "find_sub (start_tag tag) s"; simp)

lemma segments_block:
  assumes "clean inner" and "clean_token (Tag tag)" and "Tag (CHR ''/'' # tag) \<notin> set inner"
  shows "segments tag (render (block tag inner) @ s) = render (block tag inner) # segments tag s"
proof -
  define xml where "xml = render (block tag inner) @ s"
  define front where "front = Tag tag # inner"
  have xml: "xml = render front @ start_tag (CHR ''/'' # tag) @ s" by (simp add: xml_def front_def block_def)
  have 1: "find_sub (start_tag tag) xml = Some 0"
    using find_tag [of "[]" tag "render inner @ start_tag (CHR ''/'' # tag) @ s"] assms
    by (simp add: xml_def block_def)
  have 2: "find_sub (end_tag tag) xml = Some (length (render front))"
    unfolding xml end_tag_start using assms by (intro find_tag) (auto simp: front_def)
  have 3: "length (render front) + length (end_tag tag) = length (render (block tag inner))"
    by (simp add: front_def block_def end_tag_start)
  show ?thesis
    unfolding xml_def [symmetric] by (subst segments.simps) (simp add: 1 2 3 Let_def, simp add: xml_def)
qed

lemma segments_blocks:
  assumes "\<And>e. e \<in> set es \<Longrightarrow> clean (before e) \<and> clean (inner e) \<and> clean (after e) \<and>
      Tag tag \<notin> set (before e) \<and> Tag tag \<notin> set (after e) \<and> Tag (CHR ''/'' # tag) \<notin> set (inner e)"
    and "clean_token (Tag tag)" and "clean pre" and "Tag tag \<notin> set pre" and "clean rest" and "Tag tag \<notin> set rest"
  shows "segments tag (render (pre @ concat (map (\<lambda>e. before e @ block tag (inner e) @ after e) es) @ rest)) =
    map (\<lambda>e. render (block tag (inner e))) es"
proof -
  have tag: "CHR ''>'' \<notin> set tag" using assms(2) by simp
  have "segments tag (render (concat (map (\<lambda>e. before e @ block tag (inner e) @ after e) es) @ rest)) =
      map (\<lambda>e. render (block tag (inner e))) es"
    using assms(1)
  proof (induction es)
    case (Cons e es)
    define s where "s = render (concat (map (\<lambda>e. before e @ block tag (inner e) @ after e) es) @ rest)"
    have "segments tag s = map (\<lambda>e. render (block tag (inner e))) es"
      unfolding s_def by (rule Cons.IH) (use Cons.prems in auto)
    moreover have "segments tag (render (after e) @ s) = segments tag s"
      using Cons.prems [of e] tag by (intro segments_skip) auto
    moreover have "segments tag (render (block tag (inner e)) @ render (after e) @ s) =
        render (block tag (inner e)) # segments tag (render (after e) @ s)"
      using Cons.prems [of e] assms(2) by (intro segments_block) auto
    moreover have "segments tag (render (before e) @ render (block tag (inner e)) @ render (after e) @ s) =
        segments tag (render (block tag (inner e)) @ render (after e) @ s)"
      using Cons.prems [of e] tag by (intro segments_skip) auto
    ultimately show ?case by (simp add: s_def)
  qed (use assms(5,6) tag segments_none in simp)
  then show ?thesis using segments_skip [OF assms(3) tag assms(4)] by simp
qed

end
