(* ===== verification/Sqs_Json_Claims.thy ===== *)
theory Sqs_Json_Claims
  imports Sqs_Markup Sqs_Handler Sqs_Claims
begin

text \<open>
  The JSON protocol of SQS: what the scrape of the XML replies keeps of the messages and of
  the entries of a batch, and what it loses.
\<close>

section \<open>The replies as tokens\<close>

definition open_tag :: "string \<Rightarrow> string" where
  "open_tag action =
     action @ ''Response xmlns='' @ [dquote] @ ''http://queue.amazonaws.com/doc/2012-11-05/'' @ [dquote]"

definition reply_head :: "string \<Rightarrow> token list" where
  "reply_head action =
     [Tag (''?xml version='' @ [dquote] @ ''1.0'' @ [dquote] @ ''?''), Text nl, Tag (open_tag action), Text nl,
      Text ''  '', Tag (action @ ''Result''), Text nl]"

definition reply_tail :: "string \<Rightarrow> string \<Rightarrow> token list" where
  "reply_tail rid action =
     [Text ''  '', Tag (CHR ''/'' # action @ ''Result''), Text nl,
      Text ''  '', Tag ''ResponseMetadata'', Text nl, Text ''    '', Tag ''RequestId'', Text rid, Tag ''/RequestId'',
      Text nl, Text ''  '', Tag ''/ResponseMetadata'', Text nl, Tag (CHR ''/'' # action @ ''Response'')]"

lemma batch_response_tokens:
  "batch_response rid action (render ts) = render (reply_head action @ ts @ reply_tail rid action)"
  by (simp add: batch_response_def reply_head_def reply_tail_def open_tag_def xml_declaration_def open_response_def
      response_metadata_def start_tag_def)

definition line_tokens :: "string \<Rightarrow> string \<Rightarrow> token list" where
  "line_tokens tag content = [Text ''      '', Tag tag, Text content, Tag (CHR ''/'' # tag), Text nl]"

lemma render_line: "render (line_tokens tag content) = entry_line tag content"
  by (simp add: line_tokens_def entry_line_def start_tag_def)

lemma plain_nl [simp]: "plain nl" "CHR ''>'' \<notin> set nl"
  by (simp_all add: nl_def)

section \<open>Messages\<close>

definition attribute_inner :: "string \<times> string \<Rightarrow> token list" where
  "attribute_inner p =
     [Text nl, Text ''        '', Tag ''Name'', Text (fst p), Tag ''/Name'', Text nl,
      Text ''        '', Tag ''Value'', Text (escape_xml (snd p)), Tag ''/Value'', Text nl, Text ''      '']"

definition string_value_tokens :: "string option \<Rightarrow> token list" where
  "string_value_tokens v =
     (case v of None \<Rightarrow> []
      | Some s \<Rightarrow> [Text ''          '', Tag ''StringValue'', Text (escape_xml s), Tag ''/StringValue'', Text nl])"

definition message_attribute_inner :: "string \<times> message_attribute_info \<Rightarrow> token list" where
  "message_attribute_inner p =
     [Text nl, Text ''        '', Tag ''Name'', Text (fst p), Tag ''/Name'', Text nl,
      Text ''        '', Tag ''Value'', Text nl,
      Text ''          '', Tag ''DataType'', Text (mi_data_type (snd p)), Tag ''/DataType'', Text nl] @
     string_value_tokens (mi_string_value (snd p)) @
     [Text ''        '', Tag ''/Value'', Text nl, Text ''      '']"

definition listed :: "string \<Rightarrow> string \<Rightarrow> ('a \<Rightarrow> token list) \<Rightarrow> 'a list \<Rightarrow> token list" where
  "listed indent tag inner es = concat (map (\<lambda>e. [Text indent] @ block tag (inner e) @ [Text nl]) es)"

definition message_front :: "received_message_info \<Rightarrow> token list" where
  "message_front m =
     Text nl # line_tokens ''MessageId'' (ri_message_id m) @ line_tokens ''ReceiptHandle'' (ri_receipt_handle m) @
     line_tokens ''MD5OfBody'' (ri_md5_of_body m) @ line_tokens ''Body'' (escape_xml (ri_body m))"

definition message_inner :: "received_message_info \<Rightarrow> token list" where
  "message_inner m =
     message_front m @ listed ''      '' ''Attribute'' attribute_inner (ri_attributes m) @
     listed ''      '' ''MessageAttribute'' message_attribute_inner (ri_message_attributes m) @ [Text ''    '']"

lemma render_listed:
  "render (listed indent tag inner es) =
     concat (map (\<lambda>e. indent @ start_tag tag @ render (inner e) @ end_tag tag @ nl) es)"
  by (simp add: listed_def block_def end_tag_start)

lemma render_message: "render ([Text ''    ''] @ block ''Message'' (message_inner m) @ [Text nl]) = message_xml m"
proof -
  have 1: "map attribute_xml ps =
      map (\<lambda>p. ''      '' @ start_tag ''Attribute'' @ render (attribute_inner p) @ end_tag ''Attribute'' @ nl) ps" for ps
    by (simp add: attribute_xml_def attribute_inner_def start_tag_def end_tag_def split_beta)
  have 2: "map message_attribute_xml ps =
      map (\<lambda>p. ''      '' @ start_tag ''MessageAttribute'' @ render (message_attribute_inner p) @
        end_tag ''MessageAttribute'' @ nl) ps" for ps
    by (simp add: message_attribute_xml_def message_attribute_inner_def string_value_tokens_def start_tag_def
        end_tag_def split_beta split: option.split)
  show ?thesis
    by (simp add: message_xml_def block_def message_inner_def message_front_def render_listed 1 2 render_line start_tag_def)
qed

lemma receive_response_tokens:
  "build_receive_message_response rid ms =
     render (reply_head ''ReceiveMessage'' @ listed ''    '' ''Message'' message_inner ms @ reply_tail rid ''ReceiveMessage'')"
  unfolding batch_response_tokens [symmetric] build_receive_message_response_def
  by (simp only: listed_def render_concat render_message)


section \<open>What is read back from a message\<close>

definition json_map :: "(string \<times> json) list \<Rightarrow> json_map" where
  "json_map kvs = fold (\<lambda>(k, v). map_insert k v) kvs []"

definition value_object :: "message_attribute_info \<Rightarrow> json" where
  "value_object v =
     JObj (json_map ((''DataType'', JStr (mi_data_type v)) #
       (case mi_string_value v of None \<Rightarrow> [] | Some s \<Rightarrow> [(''StringValue'', JStr (escape_xml s))])))"

definition optional_object :: "string \<Rightarrow> json_map \<Rightarrow> (string \<times> json) list" where
  "optional_object key kvs = (if kvs = [] then [] else [(key, JObj kvs)])"

definition message_object :: "received_message_info \<Rightarrow> json" where
  "message_object m =
     JObj (json_map (
       [(''MessageId'', JStr (ri_message_id m)), (''ReceiptHandle'', JStr (ri_receipt_handle m)),
        (''Body'', JStr (escape_xml (ri_body m))), (''MD5OfBody'', JStr (ri_md5_of_body m))] @
       optional_object ''Attributes'' (json_map (map (\<lambda>(k, v). (k, JStr (escape_xml v))) (ri_attributes m))) @
       optional_object ''MessageAttributes'' (json_map (map (\<lambda>(k, v). (k, value_object v)) (ri_message_attributes m)))))"

text \<open>The parts of a message that are printed as they are hold no opening bracket.\<close>

definition plain_info :: "received_message_info \<Rightarrow> bool" where
  "plain_info m \<longleftrightarrow>
     plain (ri_message_id m) \<and> plain (ri_receipt_handle m) \<and> plain (ri_md5_of_body m) \<and>
     (\<forall>(k, v) \<in> set (ri_attributes m). plain k) \<and>
     (\<forall>(k, v) \<in> set (ri_message_attributes m). plain k \<and> plain (mi_data_type v))"

lemma and_then_Inr [simp]: "and_then (Inr a) f = f a"
  by (simp add: and_then_def)

lemma listed_simps [simp]: "listed indent tag inner [] = []"
  "listed indent tag inner (e # es) = [Text indent] @ block tag (inner e) @ [Text nl] @ listed indent tag inner es"
  by (simp_all add: listed_def)

lemma clean_listed:
  assumes "\<And>e. e \<in> set es \<Longrightarrow> clean (inner e)" and "plain indent" and "clean_token (Tag tag)"
  shows "clean (listed indent tag inner es)"
  using assms by (simp add: listed_def clean_concat)

lemma tag_not_listed:
  assumes "\<And>e. e \<in> set es \<Longrightarrow> Tag a \<notin> set (inner e)" and "a \<noteq> tag" and "a \<noteq> CHR ''/'' # tag"
  shows "Tag a \<notin> set (listed indent tag inner es)"
  using assms by (auto simp: listed_def block_def)

lemma segments_listed:
  assumes "\<And>e. e \<in> set es \<Longrightarrow> clean (inner e) \<and> Tag (CHR ''/'' # tag) \<notin> set (inner e)"
    and "clean_token (Tag tag)" and "plain indent" and "clean pre" and "Tag tag \<notin> set pre" and "clean rest"
    and "Tag tag \<notin> set rest"
  shows "segments tag (render (pre @ listed indent tag inner es @ rest)) = map (\<lambda>e. render (block tag (inner e))) es"
  unfolding listed_def using assms by (intro segments_blocks) auto

lemma traverse_map: "(\<And>e. e \<in> set es \<Longrightarrow> f (g e) = Inr (h e)) \<Longrightarrow> traverse f (map g es) = Inr (map h es)"
  by (induction es) simp_all

lemma insert_all_map:
  assumes "\<And>e obj. e \<in> set es \<Longrightarrow> f (g e) obj = Inr (map_insert (fst (h e)) (snd (h e)) obj)"
  shows "insert_all f (map g es) obj = Inr (fold (\<lambda>(k, v). map_insert k v) (map h es) obj)"
  using assms by (induction es arbitrary: obj) (auto simp: split_beta)

lemma attribute_tokens_clean: "plain (fst p) \<Longrightarrow> clean (attribute_inner p)"
  by (simp add: attribute_inner_def)

lemma message_attribute_tokens_clean:
  "plain (fst p) \<Longrightarrow> plain (mi_data_type (snd p)) \<Longrightarrow> clean (message_attribute_inner p)"
  by (auto simp: message_attribute_inner_def string_value_tokens_def split: option.split)

lemma insert_attribute_block:
  assumes "plain (fst p)"
  shows "insert_attribute g (render (block ''Attribute'' (attribute_inner p))) obj =
    Inr (map_insert (fst p) (JStr (g (escape_xml (snd p)))) obj)"
proof -
  define ts where "ts = block ''Attribute'' (attribute_inner p)"
  have "clean ts" using attribute_tokens_clean [OF assms] by (simp add: ts_def)
  moreover have "has_element ''Name'' (fst p) ts" "has_element ''Value'' (escape_xml (snd p)) ts"
    by (simp_all add: ts_def attribute_inner_def block_def)
  ultimately show ?thesis
    unfolding ts_def [symmetric] by (simp add: insert_attribute_def extract_element)
qed

lemma insert_message_attribute_block:
  assumes "plain (fst p)" and "plain (mi_data_type (snd p))"
  shows "insert_message_attribute (render (block ''MessageAttribute'' (message_attribute_inner p))) obj =
    Inr (map_insert (fst p) (value_object (snd p)) obj)"
proof -
  define ts where "ts = block ''MessageAttribute'' (message_attribute_inner p)"
  have c: "clean ts" using message_attribute_tokens_clean [OF assms] by (simp add: ts_def)
  have name: "has_element ''Name'' (fst p) ts" and ty: "has_element ''DataType'' (mi_data_type (snd p)) ts"
    by (simp_all add: ts_def message_attribute_inner_def block_def)
  have sv: "insert_field ''StringValue'' ''StringValue'' (render ts) o1 =
      Inr (case mi_string_value (snd p) of None \<Rightarrow> o1 | Some s \<Rightarrow> map_insert ''StringValue'' (JStr (escape_xml s)) o1)" for o1
  proof (cases "mi_string_value (snd p)")
    case None
    then have "Tag ''StringValue'' \<notin> set ts"
      by (simp add: ts_def message_attribute_inner_def block_def string_value_tokens_def)
    then show ?thesis using None insert_absent [OF c] by simp
  next
    case (Some s)
    then have "has_element ''StringValue'' (escape_xml s) ts"
      by (simp add: ts_def message_attribute_inner_def block_def string_value_tokens_def)
    then show ?thesis using Some insert_element [OF c] by simp
  qed
  have bv: "insert_field ''BinaryValue'' ''BinaryValue'' (render ts) o2 = Inr o2" for o2
    by (intro insert_absent [OF c])
      (auto simp: ts_def message_attribute_inner_def block_def string_value_tokens_def split: option.split)
  show ?thesis
    unfolding ts_def [symmetric]
    by (simp add: insert_message_attribute_def extract_element [OF c name] insert_element [OF c ty] sv bv
        value_object_def json_map_def split: option.split)
qed


definition message_tokens :: "received_message_info \<Rightarrow> token list" where
  "message_tokens m = block ''Message'' (message_inner m)"

lemma message_tokens_parts:
  "message_tokens m =
     (Tag ''Message'' # message_front m) @ listed ''      '' ''Attribute'' attribute_inner (ri_attributes m) @
     (listed ''      '' ''MessageAttribute'' message_attribute_inner (ri_message_attributes m) @
      [Text ''    '', Tag ''/Message''])"
  by (simp add: message_tokens_def block_def message_inner_def)

lemma plain_info_attributes:
  assumes "plain_info m"
  shows "p \<in> set (ri_attributes m) \<Longrightarrow> clean (attribute_inner p)"
    and "q \<in> set (ri_message_attributes m) \<Longrightarrow> clean (message_attribute_inner q)"
proof -
  assume "p \<in> set (ri_attributes m)"
  then have "plain (fst p)" using assms by (auto simp: plain_info_def)
  then show "clean (attribute_inner p)" by (rule attribute_tokens_clean)
next
  assume "q \<in> set (ri_message_attributes m)"
  then have "plain (fst q)" "plain (mi_data_type (snd q))" using assms by (auto simp: plain_info_def)
  then show "clean (message_attribute_inner q)" by (rule message_attribute_tokens_clean)
qed

lemma message_front_clean: "plain_info m \<Longrightarrow> clean (message_front m)"
  by (simp add: message_front_def line_tokens_def plain_info_def)

lemma attributes_clean: "plain_info m \<Longrightarrow> clean (listed ''      '' ''Attribute'' attribute_inner (ri_attributes m))"
  by (rule clean_listed) (simp_all add: plain_info_attributes)

lemma message_attributes_clean:
  "plain_info m \<Longrightarrow> clean (listed ''      '' ''MessageAttribute'' message_attribute_inner (ri_message_attributes m))"
  by (rule clean_listed) (simp_all add: plain_info_attributes)

lemma message_tokens_clean: "plain_info m \<Longrightarrow> clean (message_tokens m)"
  using message_front_clean attributes_clean message_attributes_clean unfolding message_tokens_parts by auto

lemma message_segments:
  assumes "plain_info m"
  shows "segments ''Attribute'' (render (message_tokens m)) =
      map (\<lambda>p. render (block ''Attribute'' (attribute_inner p))) (ri_attributes m)"
    and "segments ''MessageAttribute'' (render (message_tokens m)) =
      map (\<lambda>p. render (block ''MessageAttribute'' (message_attribute_inner p))) (ri_message_attributes m)"
proof -
  note clean = message_front_clean [OF assms] attributes_clean [OF assms] message_attributes_clean [OF assms]
  note front = message_front_def line_tokens_def
  note attrs = plain_info_attributes [OF assms]
  have none: "Tag ''Attribute'' \<notin> set (listed ''      '' ''MessageAttribute'' message_attribute_inner (ri_message_attributes m))"
    "Tag ''MessageAttribute'' \<notin> set (listed ''      '' ''Attribute'' attribute_inner (ri_attributes m))"
    by (rule tag_not_listed; auto simp: message_attribute_inner_def string_value_tokens_def attribute_inner_def
        split: option.split)+
  show "segments ''Attribute'' (render (message_tokens m)) =
      map (\<lambda>p. render (block ''Attribute'' (attribute_inner p))) (ri_attributes m)"
    unfolding message_tokens_parts
    by (rule segments_listed) (use clean attrs none in \<open>auto simp: front attribute_inner_def\<close>)
  have "message_tokens m = ((Tag ''Message'' # message_front m) @ listed ''      '' ''Attribute'' attribute_inner (ri_attributes m)) @
      listed ''      '' ''MessageAttribute'' message_attribute_inner (ri_message_attributes m) @ [Text ''    '', Tag ''/Message'']"
    by (simp add: message_tokens_parts)
  then show "segments ''MessageAttribute'' (render (message_tokens m)) =
      map (\<lambda>p. render (block ''MessageAttribute'' (message_attribute_inner p))) (ri_message_attributes m)"
    by (simp only:) (rule segments_listed; use clean attrs none in
        \<open>auto simp: front message_attribute_inner_def string_value_tokens_def split: option.split\<close>)
qed

lemma message_json_block:
  assumes "plain_info m"
  shows "message_json (render (message_tokens m)) = Inr (message_object m)"
proof -
  note c = message_tokens_clean [OF assms]
  have field: "has_element ''MessageId'' (ri_message_id m) (message_tokens m)"
    "has_element ''ReceiptHandle'' (ri_receipt_handle m) (message_tokens m)"
    "has_element ''Body'' (escape_xml (ri_body m)) (message_tokens m)"
    "has_element ''MD5OfBody'' (ri_md5_of_body m) (message_tokens m)"
    by (simp_all add: message_tokens_parts message_front_def line_tokens_def)
  have attrs: "insert_all (insert_attribute (\<lambda>v. v)) (map (\<lambda>p. render (block ''Attribute'' (attribute_inner p))) (ri_attributes m)) [] =
      Inr (json_map (map (\<lambda>(k, v). (k, JStr (escape_xml v))) (ri_attributes m)))"
    unfolding json_map_def
    by (rule insert_all_map) (use assms in \<open>auto simp: plain_info_def insert_attribute_block split_beta\<close>)
  have mattrs: "insert_all insert_message_attribute
      (map (\<lambda>p. render (block ''MessageAttribute'' (message_attribute_inner p))) (ri_message_attributes m)) [] =
      Inr (json_map (map (\<lambda>(k, v). (k, value_object v)) (ri_message_attributes m)))"
    unfolding json_map_def
    by (rule insert_all_map) (use assms in \<open>auto simp: plain_info_def insert_message_attribute_block split_beta\<close>)
  show ?thesis
    unfolding message_json_def message_segments [OF assms] attrs mattrs
    by (simp add: insert_element [OF c field(1)] insert_element [OF c field(2)] insert_element [OF c field(3)]
        insert_element [OF c field(4)] message_object_def json_map_def optional_object_def Let_def)
qed


section \<open>Receive replies\<close>

text \<open>The replies the conversion takes for another kind: the tests look for words anywhere in the text.\<close>

definition taken_for_empty :: "string \<Rightarrow> bool" where
  "taken_for_empty xml \<longleftrightarrow> contains ''DeleteMessageResponse'' xml \<or> contains ''PurgeQueueResponse'' xml"

lemma head_clean: "plain action \<Longrightarrow> CHR ''>'' \<notin> set action \<Longrightarrow> clean (reply_head action)"
  by (simp add: reply_head_def open_tag_def dquote_def)

lemma tail_clean: "plain rid \<Longrightarrow> plain action \<Longrightarrow> CHR ''>'' \<notin> set action \<Longrightarrow> clean (reply_tail rid action)"
  by (simp add: reply_tail_def)

text \<open>The elements of the contents have other names than those of the wrapper.\<close>

definition inner_name :: "string \<Rightarrow> string \<Rightarrow> bool" where
  "inner_name action a \<longleftrightarrow> Tag a \<notin> set (reply_head action) \<and> Tag a \<notin> set (reply_tail [] action)"

lemma wrapper_tags:
  assumes "inner_name action a"
  shows "Tag a \<notin> set (reply_head action)" "Tag a \<notin> set (reply_tail rid action)"
  using assms by (simp_all add: inner_name_def reply_tail_def)

lemma names_itself: "contains (action @ ''Response'') (batch_response rid action entries)"
proof -
  have "batch_response rid action entries =
    (xml_declaration @ nl @ ''<'') @ (action @ ''Response'') @ ('' xmlns='' @ [dquote] @
      ''http://queue.amazonaws.com/doc/2012-11-05/'' @ [dquote] @ ''>'' @ nl @
      ''  <'' @ action @ ''Result>'' @ nl @ entries @ ''  </'' @ action @ ''Result>'' @ nl @
      response_metadata rid @ ''</'' @ action @ ''Response>'')"
    by (simp add: batch_response_def open_response_def)
  then show ?thesis using contains_inside by metis
qed

lemma message_inner_clean:
  assumes "plain_info m"
  shows "clean (message_inner m)" "Tag ''/Message'' \<notin> set (message_inner m)"
proof -
  show "clean (message_inner m)"
    using message_tokens_clean [OF assms] by (simp add: message_tokens_def)
  have "Tag ''/Message'' \<notin> set (listed ''      '' ''Attribute'' attribute_inner (ri_attributes m))"
    "Tag ''/Message'' \<notin> set (listed ''      '' ''MessageAttribute'' message_attribute_inner (ri_message_attributes m))"
    by (rule tag_not_listed; auto simp: message_attribute_inner_def string_value_tokens_def attribute_inner_def
        split: option.split)+
  then show "Tag ''/Message'' \<notin> set (message_inner m)"
    by (simp add: message_inner_def message_front_def line_tokens_def)
qed

lemma receive_json_reply:
  assumes "\<forall>m \<in> set ms. plain_info m" and "plain rid"
  shows "receive_json (build_receive_message_response rid ms) = Inr (JObj [(''Messages'', JArr (map message_object ms))])"
proof -
  have name: "inner_name ''ReceiveMessage'' ''Message''" by (simp add: inner_name_def reply_head_def reply_tail_def open_tag_def)
  have "segments ''Message'' (build_receive_message_response rid ms) = map (\<lambda>m. render (message_tokens m)) ms"
    unfolding receive_response_tokens message_tokens_def
    by (rule segments_listed) (use assms message_inner_clean wrapper_tags [OF name] in \<open>simp_all add: head_clean tail_clean\<close>)
  moreover have "traverse message_json (map (\<lambda>m. render (message_tokens m)) ms) = Inr (map message_object ms)"
    by (rule traverse_map) (use assms(1) in \<open>simp add: message_json_block\<close>)
  ultimately show ?thesis by (simp add: receive_json_def)
qed

lemma receive_reply_json:
  assumes "\<forall>m \<in> set ms. plain_info m" and "plain rid" and "ms \<noteq> []"
    and "\<not> taken_for_empty (build_receive_message_response rid ms)"
  shows "response_json (build_receive_message_response rid ms) = Inr (JObj [(''Messages'', JArr (map message_object ms))])"
proof -
  define ts where "ts = reply_head ''ReceiveMessage'' @ listed ''    '' ''Message'' message_inner ms @ reply_tail rid ''ReceiveMessage''"
  have "clean ts"
    unfolding ts_def using assms(1,2) message_inner_clean
    by (simp add: head_clean tail_clean clean_listed)
  moreover have "Tag ''Message'' \<in> set ts"
    using assms(3) by (cases ms) (simp_all add: ts_def block_def)
  ultimately have "contains (start_tag ''Message'') (build_receive_message_response rid ms)"
    unfolding receive_response_tokens ts_def [symmetric] by (simp add: contains_iff_tag)
  then have "contains ''<Message>'' (build_receive_message_response rid ms)" by (simp add: start_tag_def)
  moreover have "contains ''ReceiveMessageResponse'' (build_receive_message_response rid ms)"
    using names_itself [of "''ReceiveMessage''"] by (simp add: build_receive_message_response_def)
  ultimately show ?thesis
    using assms(4) receive_json_reply [OF assms(1,2)] by (simp add: response_json_def taken_for_empty_def)
qed


definition plain_received :: "ext \<Rightarrow> received_message \<Rightarrow> bool" where
  "plain_received x m \<longleftrightarrow>
     plain (msg_id (rm_message m)) \<and> plain (receipt_handle m) \<and> plain (md5_hex x (body (rm_message m))) \<and>
     (\<forall>(k, v) \<in> set (attributes (rm_message m)). plain k \<and> plain (data_type v))"

lemma received_info_plain:
  assumes "plain_received x m"
  shows "plain_info (received_info x t m)"
  using assms by (auto simp: plain_received_def plain_info_def received_info_def Let_def calculate_md5_of_body_def)

text \<open>The descriptions the reply holds of the messages received.\<close>

definition infos_of :: "ext \<Rightarrow> envs \<Rightarrow> received_message list \<Rightarrow> received_message_info list" where
  "infos_of x es received = map (\<lambda>(i, m). received_info x (now (es 0) i) m) (enumerate 0 received)"

lemma infos_of_plain:
  "\<forall>m \<in> set received. plain_received x m \<Longrightarrow> info \<in> set (infos_of x es received) \<Longrightarrow>
     plain_info info"
  unfolding infos_of_def
  by (auto simp: in_set_enumerate_eq intro!: received_info_plain)

text \<open>
  C39. A JSON ReceiveMessage request is answered with every message the backend hands out, in
  order: identifier, receipt handle, digest, attributes, and the body as escaped for XML.
  The parts printed unescaped hold no opening bracket (identifiers, handles, digests, names
  and types of attributes), and no text of the reply holds the name of one of two other replies.
\<close>

theorem json_receive_carries_messages:
  assumes "rq_action r = ActReceiveMessage" and "rq_is_json r"
    and "get_param r ''QueueUrl'' = Some url" and "extract_queue_name_from_url url = Some k"
    and "be_receive_messages (h_backend h) (es 1) k (receive_request_options r) s = (Inr received, s')"
    and "received \<noteq> []" and "\<forall>m \<in> set received. plain_received x m"
    and "plain (uuid (es 0) 0)"
    and "\<not> taken_for_empty (build_receive_message_response (uuid (es 0) 0) (infos_of x es received))"
  shows "handle_request x h es r s =
    (Inr (json_show x (JObj [(''Messages'', JArr (map message_object (infos_of x es received)))]),
      ''application/x-amz-json-1.0''), s')"
proof -
  define xml where "xml = build_receive_message_response (uuid (es 0) 0) (infos_of x es received)"
  have "dispatch x h es r s = (Inr xml, s')"
    using assms(1,3-5)
    by (simp add: dispatch_def handle_receive_message_def with_queue_name_def get_required_param_def Let_def xml_def infos_of_def)
  moreover have "infos_of x es received \<noteq> []" using assms(6) by (simp add: infos_of_def enumerate_eq_zip)
  then have "response_json xml = Inr (JObj [(''Messages'', JArr (map message_object (infos_of x es received)))])"
    unfolding xml_def using assms(8,9) infos_of_plain [OF assms(7)] by (intro receive_reply_json) auto
  ultimately show ?thesis using assms(2) by (simp add: handle_request_def xml_to_json_response_def)
qed


section \<open>Replies to a batch of sends\<close>

definition entry_lines :: "(string \<times> string) list \<Rightarrow> token list" where
  "entry_lines ls = Text nl # concat (map (\<lambda>(tag, content). line_tokens tag content) ls) @ [Text ''    '']"

definition sent_inner :: "batch_result_entry \<Rightarrow> token list" where
  "sent_inner e =
     entry_lines ([(''Id'', escape_xml (br_id e)), (''MessageId'', escape_xml (br_message_id e)),
        (''MD5OfMessageBody'', escape_xml (br_md5_of_body e))] @
       (case br_md5_of_attrs e of None \<Rightarrow> [] | Some md5 \<Rightarrow> [(''MD5OfMessageAttributes'', escape_xml md5)]))"

definition failed_inner :: "batch_error_entry \<Rightarrow> token list" where
  "failed_inner e =
     entry_lines [(''Id'', escape_xml (be_id e)), (''Code'', escape_xml (be_code e)),
       (''Message'', escape_xml (be_message e)), (''SenderFault'', show_bool (be_sender_fault e))]"

definition sent_object :: "batch_result_entry \<Rightarrow> json" where
  "sent_object e =
     JObj (json_map [(''Id'', JStr (escape_xml (br_id e))), (''MessageId'', JStr (escape_xml (br_message_id e))),
       (''MD5OfMessageBody'', JStr (escape_xml (br_md5_of_body e)))])"

definition failed_object :: "batch_error_entry \<Rightarrow> json" where
  "failed_object e =
     JObj (json_map [(''Id'', JStr (escape_xml (be_id e))), (''Code'', JStr (escape_xml (be_code e))),
       (''Message'', JStr (escape_xml (be_message e))), (''SenderFault'', JBool (be_sender_fault e))])"

definition optional_array :: "string \<Rightarrow> json list \<Rightarrow> (string \<times> json) list" where
  "optional_array key vs = (if vs = [] then [] else [(key, JArr vs)])"

definition send_batch_object :: "batch_result_entry list \<Rightarrow> batch_error_entry list \<Rightarrow> json" where
  "send_batch_object ok failed =
     JObj (json_map (optional_array ''Successful'' (map sent_object ok) @
       optional_array ''Failed'' (map failed_object failed)))"

definition send_batch_tokens :: "string \<Rightarrow> batch_result_entry list \<Rightarrow> batch_error_entry list \<Rightarrow> token list" where
  "send_batch_tokens rid ok failed =
     reply_head ''SendMessageBatch'' @ listed ''    '' ''SendMessageBatchResultEntry'' sent_inner ok @
     listed ''    '' ''BatchResultErrorEntry'' failed_inner failed @ reply_tail rid ''SendMessageBatch''"

lemma batch_entries_xml:
  "map batch_result_xml ok =
     map (\<lambda>e. ''    '' @ start_tag ''SendMessageBatchResultEntry'' @ render (sent_inner e) @
       end_tag ''SendMessageBatchResultEntry'' @ nl) ok"
  "map batch_error_xml failed =
     map (\<lambda>e. ''    '' @ start_tag ''BatchResultErrorEntry'' @ render (failed_inner e) @
       end_tag ''BatchResultErrorEntry'' @ nl) failed"
  by (simp_all add: batch_result_xml_def batch_error_xml_def sent_inner_def failed_inner_def entry_lines_def
      render_line start_tag_def end_tag_def split: option.split)

lemma send_batch_response_tokens:
  "build_send_message_batch_response rid ok failed = render (send_batch_tokens rid ok failed)"
proof -
  have "concat (map batch_result_xml ok) @ concat (map batch_error_xml failed) =
      render (listed ''    '' ''SendMessageBatchResultEntry'' sent_inner ok @
        listed ''    '' ''BatchResultErrorEntry'' failed_inner failed)"
    by (simp add: render_listed batch_entries_xml)
  then show ?thesis
    unfolding build_send_message_batch_response_def send_batch_tokens_def
    by (simp only: batch_response_tokens append_assoc)
qed

lemma plain_show_bool [simp]: "plain (show_bool b)"
  by (simp add: show_bool_def)

lemma entry_inner_clean [simp]: "clean (sent_inner e)" "clean (failed_inner f)"
  by (simp_all add: sent_inner_def failed_inner_def entry_lines_def line_tokens_def split: option.split)

lemma entry_inner_tags:
  assumes "a \<notin> {''Id'', ''MessageId'', ''MD5OfMessageBody'', ''MD5OfMessageAttributes'', ''Code'', ''Message'', ''SenderFault'',
      ''/Id'', ''/MessageId'', ''/MD5OfMessageBody'', ''/MD5OfMessageAttributes'', ''/Code'', ''/Message'', ''/SenderFault''}"
  shows "Tag a \<notin> set (sent_inner e)" "Tag a \<notin> set (failed_inner f)"
  using assms by (simp_all add: sent_inner_def failed_inner_def entry_lines_def line_tokens_def split: option.split)

lemma send_entry_block: "send_entry_json (render (block ''SendMessageBatchResultEntry'' (sent_inner e))) = Inr (sent_object e)"
proof -
  define ts where "ts = block ''SendMessageBatchResultEntry'' (sent_inner e)"
  have c: "clean ts" by (simp add: ts_def)
  have "has_element ''Id'' (escape_xml (br_id e)) ts" "has_element ''MessageId'' (escape_xml (br_message_id e)) ts"
    "has_element ''MD5OfMessageBody'' (escape_xml (br_md5_of_body e)) ts"
    by (simp_all add: ts_def sent_inner_def entry_lines_def line_tokens_def block_def)
  then show ?thesis
    unfolding ts_def [symmetric] by (simp add: send_entry_json_def insert_element [OF c] sent_object_def json_map_def)
qed

lemma error_entry_block: "error_entry_json (render (block ''BatchResultErrorEntry'' (failed_inner e))) = Inr (failed_object e)"
proof -
  define ts where "ts = block ''BatchResultErrorEntry'' (failed_inner e)"
  have c: "clean ts" by (simp add: ts_def)
  have "has_element ''Id'' (escape_xml (be_id e)) ts" "has_element ''Code'' (escape_xml (be_code e)) ts"
    "has_element ''Message'' (escape_xml (be_message e)) ts" and
    sf: "has_element ''SenderFault'' (show_bool (be_sender_fault e)) ts"
    by (simp_all add: ts_def failed_inner_def entry_lines_def line_tokens_def block_def)
  moreover have "insert_bool_field ''SenderFault'' ''SenderFault'' (render ts) obj =
      Inr (map_insert ''SenderFault'' (JBool (be_sender_fault e)) obj)" for obj
    using extract_element [OF c sf] by (simp add: insert_bool_field_def show_bool_def)
  ultimately show ?thesis
    unfolding ts_def [symmetric] by (simp add: error_entry_json_def insert_element [OF c] failed_object_def json_map_def)
qed

lemma send_batch_segments:
  assumes "plain rid"
  shows "segments ''SendMessageBatchResultEntry'' (build_send_message_batch_response rid ok failed) =
      map (\<lambda>e. render (block ''SendMessageBatchResultEntry'' (sent_inner e))) ok"
    and "segments ''BatchResultErrorEntry'' (build_send_message_batch_response rid ok failed) =
      map (\<lambda>e. render (block ''BatchResultErrorEntry'' (failed_inner e))) failed"
proof -
  have names: "inner_name ''SendMessageBatch'' ''SendMessageBatchResultEntry''" "inner_name ''SendMessageBatch'' ''BatchResultErrorEntry''"
    by (simp_all add: inner_name_def reply_head_def reply_tail_def open_tag_def)
  have clean: "clean (reply_head ''SendMessageBatch'')" "clean (reply_tail rid ''SendMessageBatch'')"
    "clean (listed ''    '' ''SendMessageBatchResultEntry'' sent_inner ok)"
    "clean (listed ''    '' ''BatchResultErrorEntry'' failed_inner failed)"
    using assms by (simp_all add: head_clean tail_clean clean_listed)
  have "Tag ''SendMessageBatchResultEntry'' \<notin> set (listed ''    '' ''BatchResultErrorEntry'' failed_inner failed)"
    "Tag ''BatchResultErrorEntry'' \<notin> set (listed ''    '' ''SendMessageBatchResultEntry'' sent_inner ok)"
    by (rule tag_not_listed; simp add: entry_inner_tags)+
  note facts = clean this wrapper_tags [OF names(1)] wrapper_tags [OF names(2)]
  show "segments ''SendMessageBatchResultEntry'' (build_send_message_batch_response rid ok failed) =
      map (\<lambda>e. render (block ''SendMessageBatchResultEntry'' (sent_inner e))) ok"
    unfolding send_batch_response_tokens send_batch_tokens_def
    by (rule segments_listed) (simp_all add: facts entry_inner_tags)
  have "send_batch_tokens rid ok failed = (reply_head ''SendMessageBatch'' @
      listed ''    '' ''SendMessageBatchResultEntry'' sent_inner ok) @
      listed ''    '' ''BatchResultErrorEntry'' failed_inner failed @ reply_tail rid ''SendMessageBatch''"
    by (simp add: send_batch_tokens_def)
  then show "segments ''BatchResultErrorEntry'' (build_send_message_batch_response rid ok failed) =
      map (\<lambda>e. render (block ''BatchResultErrorEntry'' (failed_inner e))) failed"
    unfolding send_batch_response_tokens by (simp only:) (rule segments_listed; simp add: facts entry_inner_tags)
qed


definition taken_for_receive :: "string \<Rightarrow> bool" where
  "taken_for_receive xml \<longleftrightarrow> contains ''<Message>'' xml \<and> contains ''ReceiveMessageResponse'' xml"

lemma send_batch_reply_json:
  assumes "plain rid"
    and "\<not> taken_for_empty (build_send_message_batch_response rid ok failed)"
    and "\<not> taken_for_receive (build_send_message_batch_response rid ok failed)"
  shows "response_json (build_send_message_batch_response rid ok failed) = Inr (send_batch_object ok failed)"
proof -
  define xml where "xml = build_send_message_batch_response rid ok failed"
  have "traverse send_entry_json (segments ''SendMessageBatchResultEntry'' xml) = Inr (map sent_object ok)"
    "traverse error_entry_json (segments ''BatchResultErrorEntry'' xml) = Inr (map failed_object failed)"
    unfolding xml_def send_batch_segments [OF assms(1)]
    by (rule traverse_map; simp add: send_entry_block error_entry_block)+
  then have "send_batch_json xml = Inr (send_batch_object ok failed)"
    by (simp add: send_batch_json_def send_batch_object_def json_map_def optional_array_def Let_def)
  moreover have "contains ''SendMessageBatchResponse'' xml"
    using names_itself [of "''SendMessageBatch''"] by (simp add: xml_def build_send_message_batch_response_def)
  then have "response_json xml = send_batch_json xml"
    using assms(2,3) unfolding xml_def [symmetric]
    by (auto simp: response_json_def taken_for_empty_def taken_for_receive_def)
  ultimately show ?thesis by (simp add: xml_def)
qed

text \<open>
  C40. A JSON SendMessageBatch request is answered with one object for every entry sent and one
  for every entry that failed, and together these are the entries of the request; unless a text of
  the reply holds a word that makes the conversion take it for another reply.
\<close>

theorem json_send_batch_reports_all:
  assumes "rq_action r = ActSendMessageBatch" and "rq_is_json r"
    and "get_param r ''QueueUrl'' = Some url" and "extract_queue_name_from_url url = Some k"
    and "parse_send_message_batch_entries x r = entries" and "entries \<noteq> []" and "length entries \<le> 10"
    and "send_batch_loop x (h_backend h) es k 0 entries [] [] s = (Inr (n, ok, failed), s')"
    and "plain (uuid (es 0) n)"
    and "\<not> taken_for_empty (build_send_message_batch_response (uuid (es 0) n) ok failed)"
    and "\<not> taken_for_receive (build_send_message_batch_response (uuid (es 0) n) ok failed)"
  shows "handle_request x h es r s =
      (Inr (json_show x (send_batch_object ok failed), ''application/x-amz-json-1.0''), s') \<and>
    mset (map br_id ok) + mset (map be_id failed) = mset (map se_id entries)"
proof -
  have "dispatch x h es r s = (Inr (build_send_message_batch_response (uuid (es 0) n) ok failed), s')"
    using assms(1,3-8)
    by (simp add: dispatch_def handle_send_message_batch_def with_queue_name_def get_required_param_def Let_def with_batch_def)
  then show ?thesis
    using send_batch_reply_json [OF assms(9-11)] send_batch_loop_accounts [OF assms(8)] assms(2)
    by (simp add: handle_request_def xml_to_json_response_def)
qed

text \<open>Errors: the JSON of an error reply is the empty object, with status 200.\<close>

definition error_tokens :: "string \<Rightarrow> sqs_error_code \<Rightarrow> string \<Rightarrow> token list" where
  "error_tokens rid code message =
    [Tag (''?xml version='' @ [dquote] @ ''1.0'' @ [dquote] @ ''?''), Text nl, Tag (open_tag ''Error''), Text nl,
      Text ''  '', Tag ''Error'', Text nl, Text ''    '', Tag ''Type'', Text ''Sender'', Tag ''/Type'', Text nl,
      Text ''    '', Tag ''Code'', Text (sqs_error_code_as_str code), Tag ''/Code'', Text nl,
      Text ''    '', Tag ''Message'', Text (escape_xml message), Tag ''/Message'', Text nl,
      Text ''  '', Tag ''/Error'', Text nl, Text ''  '', Tag ''RequestId'', Text rid, Tag ''/RequestId'', Text nl,
      Tag ''/ErrorResponse'']"

lemma render_error: "build_error_response rid code message = render (error_tokens rid code message)"
  by (simp add: build_error_response_def error_tokens_def xml_declaration_def open_response_def open_tag_def start_tag_def)

lemma json_error_empty:
  assumes "plain rid" and
    "\<forall>w \<in> {''ReceiveMessageResponse'', ''SendMessageBatchResponse'', ''SendMessageBatchResult'', ''ListQueuesResponse'',
       ''ListQueuesResult'', ''GetQueueAttributesResponse'', ''GetQueueAttributesResult'', ''DeleteMessageBatchResponse'',
       ''DeleteMessageBatchResult'', ''ChangeMessageVisibilityBatchResponse'', ''ChangeMessageVisibilityBatchResult''}.
       \<not> contains w (build_error_response rid code message)"
  shows "response_json (build_error_response rid code message) = Inr (JObj [])"
proof -
  have "clean (error_tokens rid code message)"
    using assms(1) by (cases code) (simp_all add: error_tokens_def open_tag_def dquote_def)
  moreover have "Tag ''QueueUrl'' \<notin> set (error_tokens rid code message)" "Tag ''MessageId'' \<notin> set (error_tokens rid code message)"
    by (simp_all add: error_tokens_def open_tag_def)
  ultimately have "simple_json (build_error_response rid code message) = Inr (JObj [])"
    by (simp add: render_error simple_json_def extract_absent)
  then show ?thesis using assms(2) by (simp add: response_json_def)
qed

section \<open>Concrete replies\<close>

definition receive_request :: sqs_request where
  "receive_request =
     \<lparr> rq_action = ActReceiveMessage, rq_params = [(''QueueUrl'', ''http://h/queue/q'')], rq_is_json = True \<rparr>"

definition handed_out :: received_message where
  "handed_out = \<lparr> rm_message = (sample_message ''a'')\<lparr>receive_count := 1\<rparr>,
     receipt_handle = ''EIECCPEHECCPEEEBCPFDEFEIEFENEFEGEFEKEFEGEFEEEFEEEGEBEFEGEFEJEFEGEFEEEFEEEGEBEFEGEFEGEFEGEFEDEFEEEGEBEFEGEFFA'' \<rparr>"

lemma sample_handle: "generate_receipt_handle sample_ext ''0'' ''q'' ''a'' = Some (receipt_handle handed_out)"
  unfolding handed_out_def by code_simp

lemma small_texts:
  "show_int (timestamp_millis 0) = ''0''" "show_int (timestamp_millis 5) = ''0''" "show_nat 0 = ''0''" "show_nat 1 = ''1''" "show_nat (Suc 0) = ''1''"
  "escape_xml ''0'' = ''0''" "escape_xml ''1'' = ''1''" "escape_xml ''hello'' = ''hello''"
  "escape_xml ''AIDAIT2UOQQY3AUEKVGXU'' = ''AIDAIT2UOQQY3AUEKVGXU''"
  by code_simp+

lemma sample_receive:
  "\<exists>s'. be_receive_messages (memory_backend sample_ext) (sample_env 5) ''q'' (receive_request_options receive_request)
      (sample_mem SqsStandard None [sample_message ''a'']) = (Inr [handed_out], s')"
proof -
  define s where "s = sample_mem SqsStandard None [sample_message ''a'']"
  define q where "q = sample_queue SqsStandard None [sample_message ''a'']"
  have opts: "receive_request_options receive_request = default_receive_options"
    by (simp add: receive_request_options_def receive_request_def u32_param_def get_param_def u32_min_def
        default_receive_options_def)
  obtain rs s1 where r: "receive_messages sample_ext (sample_env 5) ''q'' default_receive_options s = (Inr rs, s1)"
    unfolding s_def using receive_messages_eq [OF sample_codecs_ok sample_secret_set sample_wf sample_lookup sample_fresh]
    by blast
  note got = received_messages [OF sample_codecs_ok sample_secret_set sample_wf sample_lookup sample_fresh r [unfolded s_def]]
  have live: "live_messages (now (sample_env 5) 1) default_receive_options q = [rm_message handed_out]"
    by (simp add: q_def live_messages_def picked_def batch_limit_def deliverable_def sample_defs
        default_receive_options_def should_dlq_def handed_out_def bump_def)
  moreover have "receive_handles sample_ext (sample_env 5) ''q'' default_receive_options q = [receipt_handle handed_out]"
    unfolding receive_handles_def live
    using sample_handle by (simp add: handle_for_def small_texts handed_out_def sample_message_def)
  ultimately have "map rm_message rs = [rm_message handed_out]" "map receipt_handle rs = [receipt_handle handed_out]"
    using got unfolding q_def by simp_all
  then have "rs = [handed_out]" by auto
  then show ?thesis using r by (simp add: s_def memory_backend_def opts)
qed

lemmas reply_tokens = message_inner_def message_front_def line_tokens_def block_def attribute_inner_def reply_head_def reply_tail_def

lemma sample_reply_pieces:
  assumes "w \<in> {''DeleteMessageResponse'', ''PurgeQueueResponse''}"
  shows "\<not> (\<exists>p \<in> set (pieces (reply_head ''ReceiveMessage'' @
      listed ''    '' ''Message'' message_inner (infos_of sample_ext (\<lambda>_. sample_env 5) [handed_out]) @
      reply_tail ''0'' ''ReceiveMessage'')). contains w p)"
  apply (simp add: infos_of_def received_info_def Let_def handed_out_def sample_message_def calculate_md5_of_body_def small_texts)
  apply (simp add: reply_tokens small_texts)
  apply (simp add: sample_ext_def nl_def dquote_def open_tag_def)
  using assms apply (elim insertE; simp add: contains_Cons)
  done

lemma sample_reply_not_empty:
  "\<not> taken_for_empty (build_receive_message_response ''0'' (infos_of sample_ext (\<lambda>_. sample_env 5) [handed_out]))"
  unfolding receive_response_tokens taken_for_empty_def
  by (subst (1 2) contains_render) (simp_all only: sample_reply_pieces insertI1 insertI2 de_Morgan_disj, simp_all)

theorem json_receive_carries_messages_witness:
  "\<exists>s'. handle_request sample_ext (sqs_over_memory sample_ext ''http://h'') (\<lambda>_. sample_env 5) receive_request
      (sample_mem SqsStandard None [sample_message ''a'']) =
    (Inr (json_show sample_ext (JObj [(''Messages'', JArr (map message_object
        (infos_of sample_ext (\<lambda>_. sample_env 5) [handed_out])))]), ''application/x-amz-json-1.0''), s')"
proof -
  obtain s' where s': "be_receive_messages (h_backend (sqs_over_memory sample_ext ''http://h'')) (sample_env 5) ''q''
      (receive_request_options receive_request) (sample_mem SqsStandard None [sample_message ''a'']) = (Inr [handed_out], s')"
    using sample_receive by auto
  have url: "get_param receive_request ''QueueUrl'' = Some ''http://h/queue/q''"
    by (simp add: receive_request_def get_param_def)
  have name: "extract_queue_name_from_url ''http://h/queue/q'' = Some ''q''" by code_simp
  have "rq_action receive_request = ActReceiveMessage" "rq_is_json receive_request" by (simp_all add: receive_request_def)
  moreover have "plain_received sample_ext handed_out"
    by (simp add: plain_received_def handed_out_def sample_message_def sample_ext_def)
  ultimately show ?thesis
    using json_receive_carries_messages [OF _ _ url name s'] sample_reply_not_empty by (auto simp: small_texts)
qed

definition batch_ext :: ext where
  "batch_ext = sample_ext\<lparr>json_parse := (\<lambda>_. Some (JArr [JObj [(''Id'', JStr ''e''), (''MessageBody'', JStr ''hi'')]]))\<rparr>"

definition batch_request :: sqs_request where
  "batch_request =
     \<lparr> rq_action = ActSendMessageBatch, rq_params = [(''QueueUrl'', ''http://h/queue/q''), (''Entries'', ''[]'')],
       rq_is_json = True \<rparr>"

definition batch_entry :: send_batch_entry where
  "batch_entry = \<lparr> se_id = ''e'', se_message_body = ''hi'', se_delay_seconds = None,
     se_message_deduplication_id = None, se_message_group_id = None \<rparr>"

definition batch_sent :: batch_result_entry where
  "batch_sent = \<lparr> br_id = ''e'', br_message_id = ''0'', br_md5_of_body = ''hi'', br_md5_of_attrs = None \<rparr>"

lemma batch_parsed: "parse_send_message_batch_entries batch_ext batch_request = [batch_entry]"
  by (simp add: parse_send_message_batch_entries_def json_array_param_def batch_request_def get_param_def batch_ext_def
      json_send_entry_def filter_map_def batch_entry_def)

lemma batch_loop:
  "\<exists>s'. send_batch_loop batch_ext (memory_backend sample_ext) (\<lambda>_. sample_env 1) ''q'' 0 [batch_entry] [] []
      (sample_mem SqsStandard None []) = (Inr (1, [batch_sent], []), s')"
proof -
  have "maybe_evict (sample_mem SqsStandard None []) = (Inr (), sample_mem SqsStandard None [])"
    by (simp add: maybe_evict_unfold sample_mem_def sample_queue_def total_message_count_def
        queue_message_count_def default_in_memory_config_def)
  then show ?thesis
    by (simp add: batch_entry_def batch_sent_def memory_backend_def send_message_unfold sample_lookup send_message_locked_def
        SQS_MAX_MESSAGE_SIZE_def batch_message_def)
     (simp add: sample_queue_def sample_config_def small_texts calculate_md5_of_body_def batch_ext_def sample_ext_def Let_def)
qed

lemma escape_e: "escape_xml ''e'' = ''e''" "escape_xml ''hi'' = ''hi''" by code_simp+

lemma batch_reply_pieces:
  assumes "w \<in> {''DeleteMessageResponse'', ''PurgeQueueResponse''}"
  shows "\<not> (\<exists>p \<in> set (pieces (send_batch_tokens ''1'' [batch_sent] [])). contains w p)"
  apply (simp add: send_batch_tokens_def batch_sent_def sent_inner_def entry_lines_def)
  apply (simp add: reply_tokens small_texts escape_e)
  apply (simp add: nl_def dquote_def open_tag_def)
  using assms apply (elim insertE; simp add: contains_Cons)
  done

lemma batch_reply_kept:
  "\<not> taken_for_empty (build_send_message_batch_response ''1'' [batch_sent] [])"
  "\<not> taken_for_receive (build_send_message_batch_response ''1'' [batch_sent] [])"
proof -
  show "\<not> taken_for_empty (build_send_message_batch_response ''1'' [batch_sent] [])"
    unfolding send_batch_response_tokens taken_for_empty_def
    by (subst (1 2) contains_render) (simp_all only: batch_reply_pieces insertI1 insertI2 de_Morgan_disj, simp_all)
  have "\<not> contains (start_tag ''Message'') (build_send_message_batch_response ''1'' [batch_sent] [])"
    unfolding send_batch_response_tokens
    by (subst contains_iff_tag) (simp_all add: send_batch_tokens_def batch_sent_def sent_inner_def entry_lines_def reply_tokens
        nl_def dquote_def open_tag_def)
  then show "\<not> taken_for_receive (build_send_message_batch_response ''1'' [batch_sent] [])"
    by (simp add: taken_for_receive_def start_tag_def)
qed

theorem json_send_batch_reports_all_witness:
  "\<exists>s'. handle_request batch_ext (sqs_over_memory sample_ext ''http://h'') (\<lambda>_. sample_env 1) batch_request
      (sample_mem SqsStandard None []) =
    (Inr (json_show batch_ext (send_batch_object [batch_sent] []), ''application/x-amz-json-1.0''), s')"
proof -
  obtain s' where loop: "send_batch_loop batch_ext (h_backend (sqs_over_memory sample_ext ''http://h'')) (\<lambda>_. sample_env 1) ''q'' 0
      [batch_entry] [] [] (sample_mem SqsStandard None []) = (Inr (1, [batch_sent], []), s')"
    using batch_loop by auto
  have url: "get_param batch_request ''QueueUrl'' = Some ''http://h/queue/q''"
    by (simp add: batch_request_def get_param_def)
  have name: "extract_queue_name_from_url ''http://h/queue/q'' = Some ''q''" by code_simp
  have "rq_action batch_request = ActSendMessageBatch" "rq_is_json batch_request" by (simp_all add: batch_request_def)
  then show ?thesis
    using json_send_batch_reports_all [OF _ _ url name batch_parsed _ _ loop] batch_reply_kept by (auto simp: small_texts)
qed

section \<open>What the conversion loses\<close>

text \<open>
  The body of a message is not unescaped: a body with a character of the markup reaches a JSON
  client changed, one without reaches it as it is.
\<close>

lemma escape_char_length: "length (escape_char c) \<ge> 1" "length (escape_char c) = 1 \<longleftrightarrow> escape_char c = [c]"
  by (auto simp: escape_char_def)

lemma escape_length: "length s \<le> length (escape_xml s)"
proof (induction s)
  case (Cons c s)
  then show ?case using escape_char_length(1) [of c] by (simp add: escape_xml_eq)
qed (simp add: escape_xml_eq)

lemma json_body_kept_iff: "escape_xml s = s \<longleftrightarrow> set s \<inter> {CHR ''&'', CHR ''<'', CHR ''>'', dquote, squote} = {}"
proof (induction s)
  case (Cons c s)
  show ?case
  proof (cases "escape_char c = [c]")
    case True
    then have "c \<notin> {CHR ''&'', CHR ''<'', CHR ''>'', dquote, squote}"
      by (auto simp: escape_char_def dquote_squote split: if_splits)
    then show ?thesis using Cons True by (simp add: escape_xml_eq)
  next
    case False
    then have "1 < length (escape_char c)" using escape_char_length [of c] by linarith
    then have "length (c # s) < length (escape_xml (c # s))"
      using escape_length [of s] by (simp add: escape_xml_eq)
    moreover have "c \<in> {CHR ''&'', CHR ''<'', CHR ''>'', dquote, squote}"
      using False by (simp add: escape_char_def split: if_splits)
    ultimately show ?thesis by auto
  qed
qed (simp add: escape_xml_eq)

text \<open>A message attribute whose name holds a closing tag makes the conversion panic.\<close>

lemma attribute_name_panics:
  "insert_message_attribute (render (block ''MessageAttribute'' (message_attribute_inner
      (''</DataType>'', \<lparr> mi_data_type = ''String'', mi_string_value = None \<rparr>)))) obj =
    Inl (Panic ''slice index out of range'')"
  by (simp add: insert_message_attribute_def extract_between_def insert_field_def slice_def and_then_def block_def
      message_attribute_inner_def string_value_tokens_def start_tag_def end_tag_def nl_def)

end
