(* ===== verification/Sqs_Progress.thy ===== *)
theory Sqs_Progress
  imports Sqs_Claims Sqlite_Contract
begin

text \<open>
  Panics: with the receipt secret set, no operation of either backend panics, in any state, and so every
  request of the form protocol is answered.
\<close>

section \<open>Results that are no panic\<close>

definition calm :: "'a result \<Rightarrow> bool" where
  "calm r \<longleftrightarrow> (\<forall>m. r \<noteq> Inl (Panic m))"

lemma calm_simps [simp]: "calm (Inr a)" "calm (Inl err) \<longleftrightarrow> (\<forall>m. err \<noteq> Panic m)"
  by (auto simp: calm_def)

text \<open>The backend as a function of the environment the secret belongs to.\<close>

locale panic_free =
  fixes b :: "ext \<Rightarrow> 's backend"
  assumes create: "calm (fst (be_create_queue (b x) e c s))"
    and get: "calm (be_get_queue (b x) k s)"
    and delete: "calm (fst (be_delete_queue (b x) k s))"
    and list_all: "calm (be_list_queues (b x) f s)"
    and update: "calm (fst (be_update_queue (b x) e c s))"
    and send: "calm (fst (be_send_message (b x) e k m s))"
    and purge: "calm (fst (be_purge_queue (b x) k s))"
    and stats: "calm (be_get_stats (b x) k s)"
    and receive: "receipt_secret x \<noteq> None \<Longrightarrow> calm (fst (be_receive_messages (b x) e k ro s))"
    and delete_message: "receipt_secret x \<noteq> None \<Longrightarrow> calm (fst (be_delete_message (b x) k h s))"
    and change_visibility: "receipt_secret x \<noteq> None \<Longrightarrow> calm (fst (be_change_visibility (b x) e k h vt s))"

section \<open>Every handler answers\<close>

definition answers :: "'a result \<times> 's \<Rightarrow> bool" where
  "answers out \<longleftrightarrow> \<not> isl (fst out)"

lemma answers_simps [simp]: "answers (Inr a, s)" "\<not> answers (Inl err, s)" "answers (missing_parameter rid e, s)"
  "answers (invalid_parameter rid e, s)" "answers (no_such_queue rid, s)"
  by (simp_all add: answers_def missing_parameter_def invalid_parameter_def no_such_queue_def)

lemma answers_on_error [simp]: "answers (on_error err response, s) \<longleftrightarrow> (\<forall>m. err \<noteq> Panic m)"
  by (cases err) (simp_all add: answers_def on_error_def)

lemma answers_queue_name: "(\<And>k. answers (f k)) \<Longrightarrow> answers (with_queue_name rid r s f)"
  by (simp add: with_queue_name_def split: sum.split option.split)

lemma answers_batch: "answers k \<Longrightarrow> answers (with_batch rid entries s k)"
  by (simp add: with_batch_def)

text \<open>A call of the backend whose result is no panic, followed by the two branches.\<close>

lemma answers_call:
  assumes "calm (fst out)" and "\<And>a s'. answers (f a s')"
  shows "answers (case out of (Inr a, s') \<Rightarrow> f a s' | (Inl err, s') \<Rightarrow> (on_error err (response err), s'))"
  using assms by (cases out; cases "fst out") simp_all

lemma answers_read:
  assumes "calm r" and "\<And>a. answers (f a)"
  shows "answers (case r of Inr a \<Rightarrow> f a | Inl err \<Rightarrow> (on_error err (response err), s))"
  using assms by (cases r) simp_all

lemma answers_required:
  assumes "\<And>v. answers (f v)"
  shows "answers (case get_required_param r key of Inl e \<Rightarrow> (missing_parameter rid e, s) | Inr v \<Rightarrow> f v)"
  using assms by (simp split: sum.split)

lemma answers_cases:
  "answers n \<Longrightarrow> (\<And>v. answers (f v)) \<Longrightarrow> answers (case o1 of None \<Rightarrow> n | Some v \<Rightarrow> f v)"
  "(\<And>l. answers (g l)) \<Longrightarrow> (\<And>v. answers (f v)) \<Longrightarrow> answers (case o2 of Inl l \<Rightarrow> g l | Inr v \<Rightarrow> f v)"
  by (simp_all split: option.split sum.split)

lemma answers_run:
  assumes "answers out" and "\<And>a s'. answers (f a s')"
  shows "answers (case out of (Inl err, s') \<Rightarrow> (Inl err, s') | (Inr a, s') \<Rightarrow> f a s')"
  using assms by (cases out; cases "fst out") simp_all

context panic_free begin

lemma config_answers:
  assumes "h_backend h = b x" and "\<And>c. answers (f c)"
  shows "answers (with_config_of h rid k s f)"
  using assms get [of x k s] by (cases "be_get_queue (b x) k s") (simp_all add: with_config_of_def)

lemma finish_answers: "h_backend h = b x \<Longrightarrow> answers (finish_update h es rid response c s)"
  unfolding finish_update_def using update by (auto intro!: answers_call)

lemma send_batch_calm: "answers (send_batch_loop x' (b x) es k n entries acc failed s)"
proof (induction entries arbitrary: n acc failed s)
  case (Cons entry entries)
  obtain res s' where sent: "be_send_message (b x) (es (Suc n)) k (batch_message (es 0) n k entry) s = (res, s')"
    by (cases "be_send_message (b x) (es (Suc n)) k (batch_message (es 0) n k entry) s")
  have "calm res" using send [of x "es (Suc n)" k "batch_message (es 0) n k entry" s] by (simp add: sent)
  then show ?case by (simp add: sent Cons.IH calm_def split: sum.split error.split)
qed simp

lemma delete_batch_calm:
  assumes "receipt_secret x \<noteq> None"
  shows "answers (delete_batch_loop (b x) k entries acc failed s)"
proof (induction entries arbitrary: acc failed s)
  case (Cons entry entries)
  obtain res s' where out: "be_delete_message (b x) k (de_receipt_handle entry) s = (res, s')"
    by (cases "be_delete_message (b x) k (de_receipt_handle entry) s")
  have "calm res" using delete_message [OF assms, of k "de_receipt_handle entry" s] by (simp add: out)
  then show ?case by (simp add: out Cons.IH calm_def split: sum.split error.split)
qed simp

lemma visibility_batch_calm:
  assumes "receipt_secret x \<noteq> None"
  shows "answers (visibility_batch_loop (b x) es k n entries acc failed s)"
proof (induction entries arbitrary: n acc failed s)
  case (Cons entry entries)
  obtain res s' where out: "be_change_visibility (b x) (es (Suc n)) k (ve_receipt_handle entry) (ve_visibility_timeout entry) s = (res, s')"
    by (cases "be_change_visibility (b x) (es (Suc n)) k (ve_receipt_handle entry) (ve_visibility_timeout entry) s")
  have "calm res"
    using change_visibility [OF assms, of "es (Suc n)" k "ve_receipt_handle entry" "ve_visibility_timeout entry" s] by (simp add: out)
  then show ?case by (simp add: out Cons.IH calm_def split: sum.split error.split)
qed simp

lemma dispatch_answers:
  assumes secret: "receipt_secret x \<noteq> None" and h: "h_backend h = b x"
  shows "answers (dispatch x' h es r s)"
proof -
  note rules = answers_queue_name answers_batch answers_call answers_read answers_required answers_run
    config_answers [OF h] finish_answers [OF h] create get delete list_all update send purge stats receive [OF secret]
    delete_message [OF secret] change_visibility [OF secret] send_batch_calm delete_batch_calm [OF secret]
    visibility_batch_calm [OF secret]
  have "answers (handle_create_queue x' h es r s)"
    unfolding handle_create_queue_def Let_def h by (intro rules answers_cases(2); simp)
  moreover have "answers (handle_get_queue_url h es r s)"
    unfolding handle_get_queue_url_def Let_def h by (intro rules) simp
  moreover have "answers (handle_delete_queue h es r s)"
    unfolding handle_delete_queue_def Let_def h by (intro rules) simp
  moreover have "answers (handle_list_queues h es r s)"
    unfolding handle_list_queues_def Let_def h by (intro rules) simp
  moreover have "answers (handle_send_message x' h es r s)"
    unfolding handle_send_message_def Let_def h by (intro rules answers_cases(1); simp)
  moreover have "answers (handle_send_message_batch x' h es r s)"
    unfolding handle_send_message_batch_def Let_def h by (intro rules; simp split: prod.split)
  moreover have "answers (handle_receive_message x' h es r s)"
    unfolding handle_receive_message_def Let_def h by (intro rules) simp
  moreover have "answers (handle_delete_message h es r s)"
    unfolding handle_delete_message_def Let_def h by (intro rules answers_cases(1); simp)
  moreover have "answers (handle_delete_message_batch x' h es r s)"
    unfolding handle_delete_message_batch_def Let_def h by (intro rules; simp split: prod.split)
  moreover have "answers (handle_change_message_visibility h es r s)"
    unfolding handle_change_message_visibility_def Let_def h by (intro rules answers_cases(1); simp)
  moreover have "answers (handle_change_message_visibility_batch x' h es r s)"
    unfolding handle_change_message_visibility_batch_def Let_def h by (intro rules; simp split: prod.split)
  moreover have "answers (handle_purge_queue h es r s)"
    unfolding handle_purge_queue_def Let_def h by (intro rules) simp
  moreover have "answers (handle_get_queue_attributes x' h es r s)"
    unfolding handle_get_queue_attributes_def Let_def h by (intro rules) simp
  moreover have "answers (handle_set_queue_attributes x' h es r s)"
    unfolding handle_set_queue_attributes_def Let_def by (intro rules answers_cases(2); simp)
  moreover have "answers (handle_tag_queue h es r s)" "answers (handle_untag_queue h es r s)"
    "answers (handle_list_queue_tags h es r s)"
    unfolding handle_tag_queue_def handle_untag_queue_def handle_list_queue_tags_def Let_def by (intro rules; simp)+
  ultimately show ?thesis by (simp add: dispatch_def split: sqs_action.split)
qed


lemma form_is_not_json: "parse x input = Inr r \<Longrightarrow> \<not> rq_is_json r"
  by (auto simp: parse_def Let_def split: sum.splits option.splits)

lemma http_answers:
  assumes "receipt_secret x \<noteq> None" and "h_backend h = b x"
    and "\<And>t. from_utf8 bytes = Some t \<Longrightarrow> \<not> starts_with_brace t"
  shows "\<exists>resp s'. handle_sqs_request x h es target bytes s = (Inr resp, s') \<and>
    (http_status resp, http_content_type resp) \<in> {(200, ''application/xml''), (400, ''text/plain; charset=utf-8'')}"
proof (cases "from_utf8 bytes")
  case (Some t)
  have form: "parse_with_headers x target t = parse x t" using assms(3) [OF Some] by (simp add: parse_with_headers_def)
  show ?thesis
  proof (cases "parse x t")
    case (Inr r)
    obtain res s' where out: "dispatch x h es r s = (res, s')" by (cases "dispatch x h es r s")
    have "\<not> isl res" using dispatch_answers [OF assms(1,2), of x es r s] by (simp add: out answers_def)
    then obtain xml where "res = Inr xml" by (cases res) simp_all
    then show ?thesis
      using form_is_not_json [OF Inr] by (simp add: handle_sqs_request_def handle_request_def Some form Inr out)
  qed (simp add: handle_sqs_request_def Some form)
qed (simp add: handle_sqs_request_def)

end

section \<open>The two backends\<close>

lemma handle_generated: "receipt_secret x \<noteq> None \<Longrightarrow> generate_receipt_handle x nonce k i \<noteq> None"
  by (auto simp: generate_receipt_handle_def get_secret_key_def Let_def)

lemma parse_handle_calm: "receipt_secret x \<noteq> None \<Longrightarrow> calm (parse_receipt_handle x h)"
  by (auto simp: parse_receipt_handle_def get_secret_key_def Let_def split: option.split)

subsection \<open>In memory\<close>

lemma maybe_evict_calm: "calm (fst (maybe_evict s))"
  by (simp add: maybe_evict_unfold split: eviction_policy.split)

lemma send_locked_calm: "calm (fst (send_message_locked x e q m))"
  by (simp add: send_message_locked_def dedup_required_def Let_def split: option.split)

lemma send_message_calm: "calm (fst (send_message x e k m s))"
  using maybe_evict_calm [of s] send_locked_calm
  by (auto simp: send_message_unfold calm_def split: prod.split sum.split option.split dest: arg_cong [where f = fst])

lemma take_loop_calm:
  assumes "receipt_secret x \<noteq> None"
  shows "\<not> snd (take_loop x e k vt t idxs st)"
proof (induction idxs arbitrary: st e)
  case (Cons i idxs)
  obtain handle where "generate_receipt_handle x (uuid e 0) k (msg_id (sm_message (available_messages (tk_queue st) ! i))) = Some handle"
    using handle_generated [OF assms] by blast
  then show ?case using Cons by (simp add: Let_def)
qed simp

lemma receive_messages_calm:
  assumes "receipt_secret x \<noteq> None"
  shows "calm (fst (receive_messages x e k ro s))"
  using take_loop_calm [OF assms] by (auto simp: receive_messages_def Let_def split_beta split: option.split)

lemma after_handle_calm:
  assumes "receipt_secret x \<noteq> None" and "\<And>data. calm (f data)"
  shows "calm (case parse_receipt_handle x h of Inl err \<Rightarrow> Inl err | Inr data \<Rightarrow> f data)"
  using assms(2) parse_handle_calm [OF assms(1), of h] by (cases "parse_receipt_handle x h") simp_all

lemma handle_errors_calm:
  assumes "receipt_secret x \<noteq> None"
  shows "calm (fst (delete_message x k h s))" "calm (fst (change_visibility x e k h vt s))"
  using parse_handle_calm [OF assms, of h]
  by (cases "parse_receipt_handle x h"; simp add: delete_message_def change_visibility_def split: option.split)+

interpretation mem_calm: panic_free memory_backend
  by unfold_locales (simp_all add: memory_backend_def create_queue_def get_queue_def delete_queue_def list_queues_def
      update_queue_def purge_queue_def get_stats_def send_message_calm receive_messages_calm handle_errors_calm Let_def
      split: option.split)

subsection \<open>SQLite\<close>

lemma row_to_config_calm: "calm (row_to_config y r)"
  by (simp add: row_to_config_def string_to_queue_type_def)

lemma rows_to_configs_calm: "calm (rows_to_configs y rs)"
proof (induction rs)
  case (Cons r rs)
  then show ?case using row_to_config_calm [of y r] by (auto split: sum.split)
qed simp

lemma get_queue_sqlite_calm: "calm (get_queue_sqlite y k d)"
  by (simp add: get_queue_sqlite_def row_to_config_calm split: option.split)

lemma send_impl_calm: "calm (fst (send_message_impl x y ex e k m c))"
  using get_queue_sqlite_calm [of y k "committed c"]
  by (auto simp: send_message_impl_def fifo_prepare_def dedup_required_sqlite_def storage_error_def Let_def
      split: sum.split prod.split option.split if_splits)

lemma tried_calm:
  assumes "calm (fst out)" and "\<And>a c'. calm (fst (f a c'))"
  shows "calm (fst (case out of (Inl err, c') \<Rightarrow> (Inl err, c') | (Inr a, c') \<Rightarrow> f a c'))"
  using assms by (cases out; cases "fst out") simp_all

lemma written_calm:
  assumes "\<And>a c'. calm (fst (f a c'))"
  shows "calm (fst (case run_write ex w c of (Inl err, c') \<Rightarrow> (Inl (storage_error y what err), c') | (Inr a, c') \<Rightarrow> f a c'))"
  using assms by (simp add: storage_error_def split: prod.split sum.split)

lemma receive_rows_calm:
  assumes "receipt_secret x \<noteq> None"
  shows "calm (fst (receive_rows x y e k q t vt rows c))"
proof (induction rows arbitrary: e c)
  case (Cons row rows)
  obtain handle where handle: "generate_receipt_handle x (uuid e 0) k (mr_id row) = Some handle"
    using handle_generated [OF assms] by blast
  have "calm (parse_message_row y row)" by (simp add: parse_message_row_def split: option.split)
  then show ?case
    by (cases "parse_message_row y row")
      (simp_all add: Let_def handle Cons.IH send_impl_calm tried_calm written_calm split: option.split)
qed simp

lemma receive_messages_sqlite_calm:
  assumes "receipt_secret x \<noteq> None"
  shows "calm (fst (receive_messages_sqlite x y e k ro d))"
  using get_queue_sqlite_calm [of y k d] receive_rows_calm [OF assms]
  by (auto simp: receive_messages_sqlite_def Let_def calm_def split: sum.split prod.split dest: arg_cong [where f = fst])

lemma handle_errors_sqlite_calm:
  assumes "receipt_secret x \<noteq> None"
  shows "calm (fst (delete_message_sqlite x k h d))" "calm (fst (change_visibility_sqlite x e k h vt d))"
  using parse_handle_calm [OF assms, of h]
  by (cases "parse_receipt_handle x h"; simp add: delete_message_sqlite_def change_visibility_sqlite_def Let_def)+

interpretation sqlite_calm: panic_free "\<lambda>x. sqlite_backend x y" for y
proof
  show "calm (fst (be_create_queue (sqlite_backend x y) e c s))" for x e c s
    by (simp add: sqlite_backend_def create_queue_sqlite_def storage_error_def split: sum.split)
  show "calm (be_get_queue (sqlite_backend x y) k s)" for x k s
    by (simp add: sqlite_backend_def get_queue_sqlite_calm)
  show "calm (be_list_queues (sqlite_backend x y) f s)" for x f s
    by (simp add: sqlite_backend_def list_queues_sqlite_def Let_def rows_to_configs_calm)
  show "calm (fst (be_send_message (sqlite_backend x y) e k m s))" for x e k m s
    using send_impl_calm [of x y OnPool e k m "begin_tx s"]
    by (simp add: sqlite_backend_def send_message_sqlite_def split_beta)
  show "calm (fst (be_purge_queue (sqlite_backend x y) k s))" "calm (be_get_stats (sqlite_backend x y) k s)" for x k s
    using get_queue_sqlite_calm [of y k s]
    by (auto simp: sqlite_backend_def purge_queue_sqlite_def get_stats_sqlite_def Let_def split: sum.split)
qed (simp_all add: sqlite_backend_def delete_queue_sqlite_def update_queue_sqlite_def receive_messages_sqlite_calm
    handle_errors_sqlite_calm)

section \<open>The claim\<close>

definition form_body :: "string \<Rightarrow> bool" where
  "form_body bytes \<longleftrightarrow> (case from_utf8 bytes of None \<Rightarrow> True | Some t \<Rightarrow> \<not> starts_with_brace t)"

definition answered :: "(http_response result \<times> 's) \<Rightarrow> bool" where
  "answered out \<longleftrightarrow>
     (case fst out of Inl _ \<Rightarrow> False
      | Inr resp \<Rightarrow> (http_status resp, http_content_type resp) \<in>
          {(200, ''application/xml''), (400, ''text/plain; charset=utf-8'')})"

lemma answeredI:
  "\<exists>resp s'. out = (Inr resp, s') \<and> (http_status resp, http_content_type resp) \<in>
     {(200, ''application/xml''), (400, ''text/plain; charset=utf-8'')} \<Longrightarrow> answered out"
  by (auto simp: answered_def)

text \<open>
  C12. With the secret of the receipt handles set, the SQS endpoint never panics on a body that is
  not a JSON object: whatever the bytes and whatever the state of the backend, in memory or
  SQLite, it answers with XML and status 200, or with a plain text and status 400.
\<close>

theorem form_requests_answered:
  assumes "receipt_secret x \<noteq> None" and "form_body bytes"
  shows "answered (handle_sqs_request x (sqs_over_memory x url) es target bytes s) \<and>
    answered (handle_sqs_request x \<lparr> h_backend = sqlite_backend x y, h_base_url = url \<rparr> es target bytes d)"
proof -
  have form: "from_utf8 bytes = Some t \<Longrightarrow> \<not> starts_with_brace t" for t
    using assms(2) by (simp add: form_body_def)
  show ?thesis
    by (intro conjI answeredI)
      (rule mem_calm.http_answers [OF assms(1) _ form] sqlite_calm.http_answers [OF assms(1) _ form], simp, assumption)+
qed

theorem form_requests_answered_witness:
  "answered (handle_sqs_request sample_ext (sqs_over_memory sample_ext ''http://h'') (\<lambda>_. sample_env 1) None
     ''Action=ListQueues'' (sample_mem SqsStandard None []))"
proof -
  have "form_body ''Action=ListQueues''" by code_simp
  then show ?thesis using form_requests_answered [OF sample_secret_set] by blast
qed

text \<open>Without the secret, the first receive of a message panics.\<close>

lemma unset_secret_panics:
  assumes "receipt_secret x = None"
  shows "fst (receive_messages x (sample_env 5) ''q'' default_receive_options
    (sample_mem SqsStandard None [sample_message ''a''])) = Inl secret_unset"
  using assms
  by (simp add: receive_messages_def sample_mem_def sample_queue_def sample_config_def default_receive_options_def Let_def
      return_expired_def expired_handles_def generate_receipt_handle_def get_secret_key_def u32_min_def should_dlq_def)

end
