(* ===== verification/Sqs_Lifecycle.thy ===== *)
theory Sqs_Lifecycle
  imports Sqs_Claims Memory_Sending
begin

text \<open>
  The life of a message as a client of the SQS front end sees it, over the in-memory backend:
  SendMessage, ReceiveMessage, DeleteMessage.
\<close>

section \<open>A queue with at most one message\<close>

text \<open>The queue \<open>k\<close> has the configuration \<open>c\<close>, the waiting messages \<open>av\<close> and the messages \<open>fl\<close> in flight.\<close>

definition queue_holds ::
    "ext \<Rightarrow> string \<Rightarrow> queue_config \<Rightarrow> stored_message list \<Rightarrow> (string \<times> in_flight_message) list \<Rightarrow> in_memory \<Rightarrow> bool" where
  "queue_holds x k c av fl s \<longleftrightarrow> mem_wf s \<and> handles_sound x s \<and>
     (\<exists>q. map_of (queues s) k = Some q \<and> qd_config q = c \<and> available_messages q = av \<and> in_flight_messages q = fl)"

lemma queue_holdsE:
  assumes "queue_holds x k c av fl s"
  obtains q where "mem_wf s" and "handles_sound x s" and "map_of (queues s) k = Some q"
    and "qd_config q = c" and "available_messages q = av" and "in_flight_messages q = fl"
  using assms by (auto simp: queue_holds_def)

definition sent_delay :: "queue_config \<Rightarrow> message \<Rightarrow> int" where
  "sent_delay c m = seconds (int (unat (case msg_delay_seconds m of Some d \<Rightarrow> d | None \<Rightarrow> delay_seconds c)))"

lemma send_holds:
  assumes "queue_holds x k c [] [] s" and "qc_type c \<noteq> SqsFifo" and "total_message_count s < max_messages (mem_config s)"
  shows "\<exists>s1. send_message x e k m s = (Inr m, s1) \<and>
    queue_holds x k c [\<lparr> sm_message = m, visible_at = now e 4 + sent_delay c m \<rparr>] [] s1"
proof (rule queue_holdsE [OF assms(1)])
  fix q
  assume q: "mem_wf s" "handles_sound x s" "map_of (queues s) k = Some q" "qd_config q = c"
    "available_messages q = []" "in_flight_messages q = []"
  define q1 where "q1 = store_message (now e 4) (q\<lparr>last_access := now e 0\<rparr>) m"
  have sent: "send_message x e k m s = (Inr m, set_queue k q1 s)"
    using assms(2,3) q by (simp add: send_message_unfold maybe_evict_unfold send_message_locked_def q1_def)
  moreover have "mem_wf (set_queue k q1 s)" using send_message_wf [OF q(1), of x e k m] sent by simp
  moreover have "handles_sound x (set_queue k q1 s)"
    by (rule handles_sound_set_queue [OF q(2)]) (simp add: queue_sound_def q1_def store_message_def Let_def q)
  ultimately show ?thesis
    by (auto simp: queue_holds_def q1_def store_message_def Let_def sent_delay_def q split: option.split)
qed

lemma receive_one:
  assumes "receipt_codecs_ok x" and "receipt_secret x \<noteq> None" and "queue_holds x k c [sm] [] s"
    and "dlq_config c = None" and "visible_at sm \<le> now e 1" and "inj (uuid e)" and "ro_visibility_timeout ro = None"
  shows "\<exists>r s1. receive_messages x e k ro s = (Inr [r], s1) \<and> rm_message r = bump (sm_message sm) \<and>
    receipt_handle r = handle_for x (uuid e 0) k (bump (sm_message sm)) \<and>
    queue_holds x k c [] [(receipt_handle r, \<lparr> if_message = rm_message r,
      visibility_expires_at = now e 1 + seconds (int (unat (visibility_timeout c))) \<rparr>)] s1"
proof (rule queue_holdsE [OF assms(3)])
  fix q
  assume q: "mem_wf s" "handles_sound x s" "map_of (queues s) k = Some q" "qd_config q = c"
    "available_messages q = [sm]" "in_flight_messages q = []"
  have fresh: "fresh_handles x e k q" using assms(6) by (simp add: fresh_handles_def q)
  note base = assms(1,2) q(1,3) fresh
  have picked: "picked (now e 1) ro q = [sm]" using assms(5) by (simp add: picked_def deliverable_def q batch_limit_def)
  then have live: "live_messages (now e 1) ro q = [bump (sm_message sm)]"
    using assms(4) by (simp add: live_messages_def should_dlq_def q)
  have moves: "dlq_moves (now e 1) ro q = []"
    using assms(4) by (simp add: dlq_moves_def dead_messages_def should_dlq_def q)
  obtain rs s1 where rec: "receive_messages x e k ro s = (Inr rs, s1)" using receive_messages_eq [OF base] by blast
  from received_messages [OF base rec] live obtain r where r: "rs = [r]" "rm_message r = bump (sm_message sm)"
    "receipt_handle r = handle_for x (uuid e 0) k (bump (sm_message sm))"
    by (auto simp: receive_handles_def)
  have look: "map_of (queues s1) k = Some (after_dlq x e k ro q)"
    using lookup_after_receive [OF base, of ro] rec by simp
  have "available_messages (after_dlq x e k ro q) = []"
    using assms(5) by (simp add: after_dlq_def queue_after_receive_def Let_def moves [simplified] remaining_def picked_indices_def
        deliverable_def q batch_limit_def)
  moreover have "in_flight_messages (after_dlq x e k ro q) = [(receipt_handle r, \<lparr> if_message = rm_message r,
      visibility_expires_at = now e 1 + seconds (int (unat (visibility_timeout c))) \<rparr>)]"
    by (simp add: after_dlq_def queue_after_receive_def Let_def q live [simplified] receive_handles_def flight_of_def r
        effective_timeout_def assms(7))
  moreover have "qd_config (after_dlq x e k ro q) = c" by (simp add: after_dlq_def queue_after_receive_def Let_def q)
  moreover have "mem_wf s1" "handles_sound x s1"
    using receive_messages_wf [OF q(1), of x e k ro] receive_messages_sound [OF q(1,2), of e k ro] rec by simp_all
  ultimately show ?thesis using rec r look by (auto simp: queue_holds_def)
qed

text \<open>Nothing is handed out while nothing waits and nothing in flight has expired.\<close>

lemma receive_none:
  assumes "receipt_codecs_ok x" and "receipt_secret x \<noteq> None" and "queue_holds x k c [] fl s"
    and "\<forall>p \<in> set fl. \<not> expired (now e 1) p" and "inj (uuid e)"
    and "\<forall>i m. handle_for x (uuid e i) k m \<notin> fst ` set fl"
  shows "\<exists>s1. receive_messages x e k ro s = (Inr [], s1)"
proof (rule queue_holdsE [OF assms(3)])
  fix q
  assume q: "mem_wf s" "handles_sound x s" "map_of (queues s) k = Some q" "qd_config q = c"
    "available_messages q = []" "in_flight_messages q = fl"
  have fresh: "fresh_handles x e k q" using assms(5,6) by (simp add: fresh_handles_def q)
  note base = assms(1,2) q(1,3) fresh
  obtain rs s1 where rec: "receive_messages x e k ro s = (Inr rs, s1)" using receive_messages_eq [OF base] by blast
  have "filter (expired (now e 1)) fl = []" using assms(4) by (simp add: filter_empty_conv)
  then have "live_messages (now e 1) ro q = []" by (simp add: live_messages_def picked_def deliverable_def q)
  then show ?thesis using rec received_messages(1) [OF base rec] by simp
qed

lemma delete_last:
  assumes "receipt_codecs_ok x" and "queue_holds x k c [] [(h, p)] s"
  shows "\<exists>s1. delete_message x k h s = (Inr (), s1) \<and> queue_holds x k c [] [] s1 \<and>
    delete_message x k h s1 = (Inl InvalidReceiptHandle, s1)"
proof (rule queue_holdsE [OF assms(2)])
  fix q
  assume q: "mem_wf s" "handles_sound x s" "map_of (queues s) k = Some q" "qd_config q = c"
    "available_messages q = []" "in_flight_messages q = [(h, p)]"
  define s1 where "s1 = set_queue k (q\<lparr>in_flight_messages := []\<rparr>) s"
  have deleted: "delete_message x k h s = (Inr (), s1)"
    using delete_message_hit [OF assms(1) q(2,3), of h p] by (simp add: q s1_def)
  moreover have "queue_holds x k c [] [] s1"
    using delete_message_wf [OF q(1), of x k h] delete_message_sound [OF q(2), of k h] deleted
    by (simp add: queue_holds_def s1_def q)
  moreover obtain n m where "generate_receipt_handle x n k m = Some h"
    using handles_sound_lookup [OF q(2,3)] by (fastforce simp: queue_sound_def list_all_iff q)
  from generate_parse [OF assms(1) this] have "delete_message x k h s1 = (Inl InvalidReceiptHandle, s1)"
    by (simp add: delete_message_def s1_def)
  ultimately show ?thesis by blast
qed

text \<open>The same life at the backend.\<close>

lemma backend_lifecycle:
  assumes "receipt_codecs_ok x" and "receipt_secret x \<noteq> None" and "queue_holds x k c [] [] s"
    and "qc_type c \<noteq> SqsFifo" and "dlq_config c = None" and "total_message_count s < max_messages (mem_config s)"
    and "ro_visibility_timeout ro = None" and "now es 4 + sent_delay c m \<le> now er 1" and "inj (uuid er)"
  obtains s1 r s2 s3 where "send_message x es k m s = (Inr m, s1)"
    and "receive_messages x er k ro s1 = (Inr [r], s2)" and "rm_message r = bump m"
    and "\<And>e. inj (uuid e) \<Longrightarrow> range (uuid er) \<inter> range (uuid e) = {} \<Longrightarrow>
      now e 1 < now er 1 + seconds (int (unat (visibility_timeout c))) \<Longrightarrow> \<exists>s'. receive_messages x e k ro s2 = (Inr [], s')"
    and "delete_message x k (receipt_handle r) s2 = (Inr (), s3)"
    and "delete_message x k (receipt_handle r) s3 = (Inl InvalidReceiptHandle, s3)"
    and "\<And>e. inj (uuid e) \<Longrightarrow> \<exists>s'. receive_messages x e k ro s3 = (Inr [], s')"
proof -
  obtain s1 where s1: "send_message x es k m s = (Inr m, s1)"
    "queue_holds x k c [\<lparr> sm_message = m, visible_at = now es 4 + sent_delay c m \<rparr>] [] s1"
    using send_holds [OF assms(3,4,6)] by blast
  obtain r s2 where r: "receive_messages x er k ro s1 = (Inr [r], s2)" "rm_message r = bump m"
    "receipt_handle r = handle_for x (uuid er 0) k (bump m)"
    "queue_holds x k c [] [(receipt_handle r, \<lparr> if_message = rm_message r,
      visibility_expires_at = now er 1 + seconds (int (unat (visibility_timeout c))) \<rparr>)] s2"
    using receive_one [OF assms(1,2) s1(2) assms(5) _ assms(9,7)] assms(8) by auto
  obtain s3 where s3: "delete_message x k (receipt_handle r) s2 = (Inr (), s3)" "queue_holds x k c [] [] s3"
    "delete_message x k (receipt_handle r) s3 = (Inl InvalidReceiptHandle, s3)"
    using delete_last [OF assms(1) r(4)] by blast
  have "\<exists>s'. receive_messages x e k ro s2 = (Inr [], s')"
    if "inj (uuid e)" "range (uuid er) \<inter> range (uuid e) = {}"
      "now e 1 < now er 1 + seconds (int (unat (visibility_timeout c)))" for e
  proof (rule receive_none [OF assms(1,2) r(4) _ that(1)])
    show "\<forall>i m'. handle_for x (uuid e i) k m' \<notin> fst ` set [(receipt_handle r, \<lparr> if_message = rm_message r,
        visibility_expires_at = now er 1 + seconds (int (unat (visibility_timeout c))) \<rparr>)]"
      using handle_for_inj [OF assms(1,2)] that(2) by (fastforce simp: r(3))
  qed (use that(3) in \<open>simp add: expired_def\<close>)
  moreover have "\<exists>s'. receive_messages x e k ro s3 = (Inr [], s')" if "inj (uuid e)" for e
    by (rule receive_none [OF assms(1,2) s3(2) _ that]) simp_all
  ultimately show thesis using that [OF s1(1) r(1,2) _ s3(1,3)] by blast
qed

section \<open>Send, receive, delete\<close>

text \<open>The reply to a receive that hands out the messages \<open>rs\<close>.\<close>

definition receive_reply :: "ext \<Rightarrow> envs \<Rightarrow> received_message list \<Rightarrow> string" where
  "receive_reply x es rs =
     build_receive_message_response (uuid (es 0) 0)
       (map (\<lambda>(i, m). received_info x (now (es 0) i) m) (enumerate 0 rs))"

lemma handle_receive_memory:
  assumes "get_param r ''QueueUrl'' = Some url" and "extract_queue_name_from_url url = Some k"
    and "receive_messages x (es 1) k (receive_request_options r) s = (Inr rs, s1)"
  shows "handle_receive_message x (sqs_over_memory x base) es r s = (Inr (receive_reply x es rs), s1)"
  using assms by (simp add: handle_receive_message_def with_queue_name_def get_required_param_def memory_backend_def
      receive_reply_def Let_def)

lemma handle_delete_memory:
  assumes "get_param r ''QueueUrl'' = Some url" and "extract_queue_name_from_url url = Some k"
    and "get_param r ''ReceiptHandle'' = Some h"
  shows "delete_message x k h s = (Inr (), s1) \<Longrightarrow>
      handle_delete_message (sqs_over_memory x base) es r s = (Inr (build_delete_message_response (uuid (es 0) 0)), s1)"
    and "delete_message x k h s = (Inl InvalidReceiptHandle, s1) \<Longrightarrow>
      handle_delete_message (sqs_over_memory x base) es r s = (Inr (invalid_handle (uuid (es 0) 0)), s1)"
  using assms by (simp_all add: handle_delete_message_def get_required_param_def memory_backend_def on_error_def Let_def)

lemma handle_send_memory:
  assumes "get_param r ''QueueUrl'' = Some url" and "extract_queue_name_from_url url = Some k"
    and "get_param r ''MessageBody'' = Some content"
    and "send_message x (es 1) k (send_request_message x (es 0) r k content) s =
      (Inr (send_request_message x (es 0) r k content), s1)"
  shows "handle_send_message x (sqs_over_memory x base) es r s =
    (Inr (build_send_message_response (uuid (es 0) 1) (uuid (es 0) 0) (calculate_md5_of_body x content)
       (if parse_message_attributes r \<noteq> [] then Some (calculate_md5_of_attributes x (parse_message_attributes r)) else None)), s1)"
  using assms by (simp add: handle_send_message_def get_required_param_def memory_backend_def Let_def)
    (simp add: send_request_message_def)

text \<open>
  C10. The life of a message over HTTP.  A message sent to an empty standard queue is answered with
  its identifier and the digest of its body.  A receive after its delay hands it out, alone, with
  that identifier, body and digest and a handle.  Until the visibility timeout has passed no other
  receive hands it out.  DeleteMessage with the handle succeeds, after which no receive hands out
  anything, at whatever time, and a second DeleteMessage with the same handle is refused.
\<close>

theorem sqs_message_lifecycle:
  assumes "receipt_codecs_ok x" and "receipt_secret x \<noteq> None" and "queue_holds x k c [] [] s"
    and "qc_type c \<noteq> SqsFifo" and "dlq_config c = None" and "total_message_count s < max_messages (mem_config s)"
    and url: "extract_queue_name_from_url url = Some k"
    and sr: "get_param sr ''QueueUrl'' = Some url" "get_param sr ''MessageBody'' = Some content"
    and rr: "get_param rr ''QueueUrl'' = Some url" "u32_param rr ''VisibilityTimeout'' = None"
    and due: "now (es 1) 4 + sent_delay c (send_request_message x (es 0) sr k content) \<le> now (er 1) 1"
    and "inj (uuid (er 1))"
  shows "\<exists>s1 r s2. handle_send_message x (sqs_over_memory x base) es sr s =
      (Inr (build_send_message_response (uuid (es 0) 1) (uuid (es 0) 0) (calculate_md5_of_body x content)
         (if parse_message_attributes sr \<noteq> [] then Some (calculate_md5_of_attributes x (parse_message_attributes sr)) else None)), s1) \<and>
    handle_receive_message x (sqs_over_memory x base) er rr s1 = (Inr (receive_reply x er [r]), s2) \<and>
    (\<forall>t. ri_message_id (received_info x t r) = uuid (es 0) 0 \<and> ri_body (received_info x t r) = content \<and>
       ri_md5_of_body (received_info x t r) = calculate_md5_of_body x content) \<and>
    (\<forall>e2. inj (uuid (e2 1)) \<and> range (uuid (er 1)) \<inter> range (uuid (e2 1)) = {} \<and>
       now (e2 1) 1 < now (er 1) 1 + seconds (int (unat (visibility_timeout c))) \<longrightarrow>
       (\<exists>s3. handle_receive_message x (sqs_over_memory x base) e2 rr s2 = (Inr (receive_reply x e2 []), s3))) \<and>
    (\<forall>dr ed. get_param dr ''QueueUrl'' = Some url \<and> get_param dr ''ReceiptHandle'' = Some (receipt_handle r) \<longrightarrow>
       (\<exists>s3. handle_delete_message (sqs_over_memory x base) ed dr s2 =
           (Inr (build_delete_message_response (uuid (ed 0) 0)), s3) \<and>
         handle_delete_message (sqs_over_memory x base) ed dr s3 = (Inr (invalid_handle (uuid (ed 0) 0)), s3) \<and>
         (\<forall>e2. inj (uuid (e2 1)) \<longrightarrow>
           (\<exists>s4. handle_receive_message x (sqs_over_memory x base) e2 rr s3 = (Inr (receive_reply x e2 []), s4)))))"
proof -
  define m where "m = send_request_message x (es 0) sr k content"
  define ro where "ro = receive_request_options rr"
  have vt: "ro_visibility_timeout ro = None" by (simp add: ro_def receive_request_options_def rr(2))
  obtain s1 r s2 s3 where s1: "send_message x (es 1) k m s = (Inr m, s1)"
    and r: "receive_messages x (er 1) k ro s1 = (Inr [r], s2)" "rm_message r = bump m"
    and hidden: "\<And>e. inj (uuid e) \<Longrightarrow> range (uuid (er 1)) \<inter> range (uuid e) = {} \<Longrightarrow>
      now e 1 < now (er 1) 1 + seconds (int (unat (visibility_timeout c))) \<Longrightarrow> \<exists>s'. receive_messages x e k ro s2 = (Inr [], s')"
    and s3: "delete_message x k (receipt_handle r) s2 = (Inr (), s3)"
      "delete_message x k (receipt_handle r) s3 = (Inl InvalidReceiptHandle, s3)"
    and gone: "\<And>e. inj (uuid e) \<Longrightarrow> \<exists>s'. receive_messages x e k ro s3 = (Inr [], s')"
    by (rule backend_lifecycle [OF assms(1-6) vt due [folded m_def] assms(13)]) (rule that)
  have info: "ri_message_id (received_info x t r) = uuid (es 0) 0 \<and> ri_body (received_info x t r) = content \<and>
      ri_md5_of_body (received_info x t r) = calculate_md5_of_body x content" for t
    by (simp add: received_info_def r(2) bump_def m_def send_request_message_def Let_def)
  note received = handle_receive_memory [OF rr(1) url, folded ro_def]
  have again: "\<exists>s3. handle_receive_message x (sqs_over_memory x base) e2 rr s2 = (Inr (receive_reply x e2 []), s3)"
    if "inj (uuid (e2 1)) \<and> range (uuid (er 1)) \<inter> range (uuid (e2 1)) = {} \<and>
      now (e2 1) 1 < now (er 1) 1 + seconds (int (unat (visibility_timeout c)))" for e2 :: envs
  proof -
    from hidden [of "e2 1"] that obtain s3 where "receive_messages x (e2 1) k ro s2 = (Inr [], s3)" by blast
    from received [where es = e2, OF this] show ?thesis by (rule exI)
  qed
  have after: "\<exists>s4. handle_receive_message x (sqs_over_memory x base) e2 rr s3 = (Inr (receive_reply x e2 []), s4)"
    if "inj (uuid (e2 1))" for e2 :: envs
  proof -
    from gone [OF that] obtain s4 where "receive_messages x (e2 1) k ro s3 = (Inr [], s4)" by blast
    from received [where es = e2, OF this] show ?thesis by (rule exI)
  qed
  have deleted: "handle_delete_message (sqs_over_memory x base) ed dr s2 =
        (Inr (build_delete_message_response (uuid (ed 0) 0)), s3) \<and>
      handle_delete_message (sqs_over_memory x base) ed dr s3 = (Inr (invalid_handle (uuid (ed 0) 0)), s3) \<and>
      (\<forall>e2. inj (uuid (e2 1)) \<longrightarrow>
        (\<exists>s4. handle_receive_message x (sqs_over_memory x base) e2 rr s3 = (Inr (receive_reply x e2 []), s4)))"
    if "get_param dr ''QueueUrl'' = Some url \<and> get_param dr ''ReceiptHandle'' = Some (receipt_handle r)" for dr ed
    using that handle_delete_memory(1) [OF _ url _ s3(1)] handle_delete_memory(2) [OF _ url _ s3(2)] after by simp
  note sent = handle_send_memory [where es = es, OF sr(1) url sr(2) s1 [unfolded m_def]]
  note got = received [where es = er, OF r(1)]
  show ?thesis
    by (rule exI [of _ s1], rule exI [of _ r], rule exI [of _ s2])
      (intro conjI [OF sent] conjI [OF got] conjI [OF allI [OF info]] conjI [OF allI [OF impI [OF again]]]
         allI impI exI [of _ s3] deleted)
qed

theorem sqs_message_lifecycle_witness:
  "\<exists>s1 h s2 s3. handle_send_message sample_ext (sqs_over_memory sample_ext ''http://h'') (\<lambda>_. sample_env 1)
      (sample_request ActSendMessage [(''QueueUrl'', ''http://h/queue/q''), (''MessageBody'', ''hi'')])
      (sample_mem SqsStandard None []) =
      (Inr (build_send_message_response (show_nat 1) (show_nat 0) (calculate_md5_of_body sample_ext ''hi'') None), s1) \<and>
    (\<exists>reply. handle_receive_message sample_ext (sqs_over_memory sample_ext ''http://h'') (\<lambda>_. sample_env 2)
      (sample_request ActReceiveMessage [(''QueueUrl'', ''http://h/queue/q'')]) s1 = (Inr reply, s2)) \<and>
    handle_delete_message (sqs_over_memory sample_ext ''http://h'') (\<lambda>_. sample_env 3)
      (sample_request ActDeleteMessage [(''QueueUrl'', ''http://h/queue/q''), (''ReceiptHandle'', h)]) s2 =
      (Inr (build_delete_message_response (show_nat 0)), s3)"
proof -
  define sr where "sr = sample_request ActSendMessage [(''QueueUrl'', ''http://h/queue/q''), (''MessageBody'', ''hi'')]"
  define rr where "rr = sample_request ActReceiveMessage [(''QueueUrl'', ''http://h/queue/q'')]"
  define c where "c = sample_config ''q'' SqsStandard None"
  have holds: "queue_holds sample_ext ''q'' c [] [] (sample_mem SqsStandard None [])"
    by (simp add: queue_holds_def sample_wf sample_lookup c_def) (simp add: handles_sound_def queue_sound_def sample_defs)
  have c: "qc_type c \<noteq> SqsFifo" "dlq_config c = None" "delay_seconds c = 0" by (simp_all add: c_def sample_config_def)
  have room: "total_message_count (sample_mem SqsStandard None []) < max_messages (mem_config (sample_mem SqsStandard None []))"
    by (simp add: total_message_count_def queue_message_count_def sample_defs default_in_memory_config_def)
  have url: "extract_queue_name_from_url ''http://h/queue/q'' = Some ''q''" by code_simp
  have params: "get_param sr ''QueueUrl'' = Some ''http://h/queue/q''" "get_param sr ''MessageBody'' = Some ''hi''"
    "get_param rr ''QueueUrl'' = Some ''http://h/queue/q''" "u32_param rr ''VisibilityTimeout'' = None"
    by (simp_all add: sr_def rr_def sample_request_def get_param_def u32_param_def)
  have attrs: "parse_message_attributes sr = []" unfolding sr_def by code_simp
  have "u32_param sr ''DelaySeconds'' = None" by (simp add: sr_def sample_request_def get_param_def u32_param_def)
  then have due: "now (sample_env 1) 4 + sent_delay c (send_request_message sample_ext (sample_env 1) sr ''q'' ''hi'') \<le> now (sample_env 2) 1"
    by (simp add: sent_delay_def send_request_message_def c(3) seconds_def)
  have inj: "inj (uuid (sample_env 2))" by (simp add: inj_show_nat)
  obtain s1 r s2 where s: "handle_send_message sample_ext (sqs_over_memory sample_ext ''http://h'') (\<lambda>_. sample_env 1) sr
      (sample_mem SqsStandard None []) =
      (Inr (build_send_message_response (show_nat 1) (show_nat 0) (calculate_md5_of_body sample_ext ''hi'') None), s1)"
    "handle_receive_message sample_ext (sqs_over_memory sample_ext ''http://h'') (\<lambda>_. sample_env 2) rr s1 =
      (Inr (receive_reply sample_ext (\<lambda>_. sample_env 2) [r]), s2)"
    and del: "\<forall>dr ed. get_param dr ''QueueUrl'' = Some ''http://h/queue/q'' \<and>
        get_param dr ''ReceiptHandle'' = Some (receipt_handle r) \<longrightarrow>
      (\<exists>s3. handle_delete_message (sqs_over_memory sample_ext ''http://h'') ed dr s2 =
        (Inr (build_delete_message_response (uuid (ed 0) 0)), s3))"
    using sqs_message_lifecycle [where es = "\<lambda>_. sample_env 1" and er = "\<lambda>_. sample_env 2" and base = "''http://h''",
        OF sample_codecs_ok sample_secret_set holds c(1,2) room url params due inj]
    by (elim exE conjE) (rule that, simp add: attrs, assumption, blast)
  have "\<exists>s3. handle_delete_message (sqs_over_memory sample_ext ''http://h'') (\<lambda>_. sample_env 3)
      (sample_request ActDeleteMessage [(''QueueUrl'', ''http://h/queue/q''), (''ReceiptHandle'', receipt_handle r)]) s2 =
      (Inr (build_delete_message_response (uuid (sample_env 3) 0)), s3)"
    by (rule del [rule_format]) (simp add: sample_request_def get_param_def)
  with s show ?thesis unfolding sr_def rr_def by auto
qed

end
