(* ===== verification/Pubsub_End_To_End.thy ===== *)
theory Pubsub_End_To_End
  imports Pubsub_Delivery
begin

text \<open>
  From a publisher to a subscriber over the in-memory backend: what is published to a topic is what a
  pull of one of its subscriptions returns.
\<close>

section \<open>Messages that are visible\<close>

text \<open>A queue with its configuration and nothing in flight, whose messages are visible at the time \<open>t\<close>.\<close>

definition visible_queue :: "int \<Rightarrow> queue_config \<Rightarrow> queue_data \<Rightarrow> bool" where
  "visible_queue t c q \<longleftrightarrow> qd_config q = c \<and> in_flight_messages q = [] \<and>
     (\<forall>sm \<in> set (available_messages q). visible_at sm \<le> t)"

definition visible_at_key :: "int \<Rightarrow> queue_config \<Rightarrow> string \<Rightarrow> in_memory \<Rightarrow> bool" where
  "visible_at_key t c k s \<longleftrightarrow> (\<forall>q. map_of (queues s) k = Some q \<longrightarrow> visible_queue t c q)"

lemma visible_set: "visible_at_key t c k s \<Longrightarrow> (j = k \<Longrightarrow> visible_queue t c q) \<Longrightarrow> visible_at_key t c k (set_queue j q s)"
  by (simp add: visible_at_key_def)

lemma visible_pop:
  assumes "visible_at_key t c k s"
  shows "visible_at_key t c k (pop_front_of j s)"
proof (cases "map_of (queues s) j")
  case (Some q)
  show ?thesis
  proof (cases "available_messages q")
    case (Cons sm rest)
    have "visible_queue t c (q\<lparr>available_messages := rest\<rparr>)" if "j = k"
      using assms Some that Cons by (simp add: visible_at_key_def visible_queue_def)
    then show ?thesis using visible_set [OF assms] Some Cons by (simp add: pop_front_of_def)
  qed (use assms Some in \<open>simp add: pop_front_of_def\<close>)
qed (use assms in \<open>simp add: pop_front_of_def\<close>)

lemma visible_evict: "visible_at_key t c k s \<Longrightarrow> visible_at_key t c k (snd (maybe_evict s))"
  by (rule maybe_evict_cases [of s]) (auto intro: visible_pop)

lemma visible_send_loop:
  assumes "visible_queue t c q" and "qc_type c \<noteq> SqsFifo" and "delay_seconds c = 0"
    and "\<forall>m \<in> set ms. msg_delay_seconds m = None" and "\<forall>j. now e j \<le> t"
  shows "visible_queue t c (snd (send_loop x e q ms sent))"
  using assms
proof (induction ms arbitrary: q e sent)
  case (Cons m ms)
  have "visible_queue t c (snd (send_message_locked x e q m))"
    using Cons.prems by (auto simp: visible_queue_def send_message_locked_def store_message_def seconds_def Let_def)
  moreover have "\<forall>j. now (env_from 5 e) j \<le> t" using Cons.prems(5) by (simp add: env_from_def)
  ultimately show ?case using Cons.IH Cons.prems by (auto split: prod.split sum.split)
qed simp

lemma visible_send_messages:
  assumes "visible_at_key t c k s" and "qc_type c \<noteq> SqsFifo" and "delay_seconds c = 0"
    and "\<forall>m \<in> set ms. msg_delay_seconds m = None" and "\<forall>j. now e j \<le> t"
  shows "visible_at_key t c k (snd (send_messages x e j ms s))"
proof -
  obtain r s1 where s1: "maybe_evict s = (r, s1)" by fastforce
  then have at: "visible_at_key t c k s1" using visible_evict [OF assms(1)] by simp
  show ?thesis
  proof (cases "map_of (queues s1) j")
    case (Some q)
    have "visible_queue t c (snd (send_loop x e q ms []))" if "j = k"
      using visible_send_loop [OF _ assms(2-5)] at Some that by (auto simp: visible_at_key_def)
    then have "visible_at_key t c k (set_queue j (snd (send_loop x e q ms [])) s1)" by (rule visible_set [OF at])
    then show ?thesis using at by (simp add: send_messages_unfold s1 Some split_beta split: sum.split)
  qed (use at in \<open>simp add: send_messages_unfold s1 split: sum.split\<close>)
qed

lemma visible_fan_out:
  assumes "visible_at_key t c k (storage st)" and "qc_type c \<noteq> SqsFifo" and "delay_seconds c = 0"
    and "\<forall>m \<in> set ms. msg_delay_seconds m = None" and "\<forall>i j. now (es i) j \<le> t"
  shows "visible_at_key t c k (storage (snd (fan_out (memory_backend x) mk es ms subs ids st)))"
  using assms
proof (induction subs arbitrary: es ids st)
  case (Cons sub subs)
  obtain r s1 where s1: "send_messages x (es 0) (sub_id sub) (for_subscription sub ms) (storage st) = (r, s1)" by fastforce
  have "\<forall>m \<in> set (for_subscription sub ms). msg_delay_seconds m = None"
    using Cons.prems(4) by (auto simp: for_subscription_def)
  from visible_send_messages [OF Cons.prems(1-3) this, of "es 0" x "sub_id sub"] Cons.prems(5) s1
  have "visible_at_key t c k (storage (st\<lparr>storage := s1\<rparr>))" by simp
  note rest = Cons.IH [OF this Cons.prems(2-4), of "\<lambda>n. es (Suc n)"]
  show ?case
  proof (cases r)
    case (Inl err)
    then show ?thesis using s1 \<open>visible_at_key t c k (storage (st\<lparr>storage := s1\<rparr>))\<close>
      by (cases err) (simp_all add: on_storage_pair)
  next
    case (Inr published)
    then show ?thesis using s1 rest Cons.prems(5) by (simp add: on_storage_pair)
  qed
qed simp

lemma convert_no_delay: "\<forall>m \<in> set (convert_messages x e k msgs). msg_delay_seconds m = None"
  by (induction msgs arbitrary: e) (simp_all add: pubsub_message_to_message_def published_message_def)

section \<open>Publish, then pull\<close>

text \<open>What a client sees of a message: its identifier, data, attributes and ordering key.\<close>

definition payload :: "pubsub_message \<Rightarrow> string \<times> string \<times> (string \<times> string) list \<times> string" where
  "payload m = (pm_message_id m, pm_data m, pm_attributes m, pm_ordering_key m)"

definition received_payload :: "ext \<Rightarrow> message \<Rightarrow> string \<times> string \<times> (string \<times> string) list \<times> string" where
  "received_payload x m = payload (proto_message x (string_attributes (attributes m)) m)"

lemma pulled_payload: "payload (the (rc_message (pulled_message x rm))) = received_payload x (rm_message rm)"
  by (simp add: pulled_message_def received_payload_def)

lemma converted_payload:
  assumes "\<And>d. b64_decode x (b64_encode x d) = Some d" and "\<forall>m \<in> set msgs. distinct (map fst (pm_attributes m))"
  shows "map (\<lambda>m. received_payload x (bump m)) (for_subscription sub (convert_messages x e k msgs)) =
    map2 (\<lambda>m i. payload (m\<lparr>pm_message_id := i\<rparr>)) msgs (map msg_id (convert_messages x e k msgs))"
  using assms(2)
proof (induction msgs arbitrary: e)
  case (Cons m msgs)
  define c where "c = pubsub_message_to_message x (now e 0) (uuid e 0) k m"
  have "rm_message \<lparr> rm_message = bump (c\<lparr>msg_queue_id := sub_id sub\<rparr>), receipt_handle = [] \<rparr> =
      c\<lparr>msg_queue_id := sub_id sub, receive_count := receive_count c + 1\<rparr>" by (simp add: bump_def)
  with message_roundtrip [OF assms(1), where m = m and clock = "now e 0" and mid = "uuid e 0" and topic_id = k] Cons.prems
  have "rc_message (pulled_message x \<lparr> rm_message = bump (c\<lparr>msg_queue_id := sub_id sub\<rparr>), receipt_handle = [] \<rparr>) =
      Some (m\<lparr>pm_message_id := uuid e 0, pm_publish_time := Some (timestamp_of (now e 0))\<rparr>)"
    by (simp add: c_def)
  then have "received_payload x (bump (c\<lparr>msg_queue_id := sub_id sub\<rparr>)) = payload (m\<lparr>pm_message_id := uuid e 0\<rparr>)"
    using pulled_payload [of x "\<lparr> rm_message = bump (c\<lparr>msg_queue_id := sub_id sub\<rparr>), receipt_handle = [] \<rparr>"]
    by (simp add: payload_def)
  moreover have "msg_id c = uuid e 0" by (simp add: c_def pubsub_message_to_message_def published_message_def)
  ultimately show ?case using Cons by (simp add: for_subscription_def c_def [symmetric])
qed (simp add: for_subscription_def)

text \<open>What a pull of a queue without anything in flight returns.\<close>

lemma pull_visible:
  assumes "receipt_codecs_ok x" and "receipt_secret x \<noteq> None" and "mem_wf (storage st)"
    and name: "parse_resource_name name = Inr r" and sub: "subscription_lookup (storage st) (resource_key r) = Some c"
    and q: "map_of (queues (storage st)) (resource_key r) = Some q"
    and ready: "visible_queue t cfg q" and "dlq_config cfg = None" and "t \<le> now (es 1) 1" and "inj (uuid (es 1))"
  shows "\<exists>rs s1. pull x (memory_backend x) es name n st = (Inr (map (pulled_message x) rs), st\<lparr>storage := s1\<rparr>) \<and>
    map rm_message rs = take (max 1 (min (unat n) 10)) (map bump (stored_messages q))"
proof -
  define k where "k = resource_key r"
  define ro where "ro = pull_options n (ack_deadline_seconds c)"
  have empty: "in_flight_messages q = []" using ready by (simp add: visible_queue_def)
  have fresh: "fresh_handles x (es 1) k q" using assms(10) by (simp add: fresh_handles_def empty)
  note base = assms(1-3) q [folded k_def] fresh
  obtain rs s1 where rec: "receive_messages x (es 1) k ro (storage st) = (Inr rs, s1)"
    using receive_messages_eq [OF base] by blast
  have get: "be_get_subscription (memory_backend x) k (storage st) = Inr c"
    using sub mem_pubsub.get_sub [of x k "storage st"] by (simp add: k_def)
  have "pull x (memory_backend x) es name n st = (Inr (map (pulled_message x) rs), st\<lparr>storage := s1\<rparr>)"
    using rec name get [unfolded k_def]
    by (simp add: pull_def with_subscription_def with_subscription_name_def k_def ro_def on_storage_pair)
  moreover have "map rm_message rs = take (max 1 (min (unat n) 10)) (map bump (stored_messages q))"
  proof -
    have "filter (\<lambda>m. visible_at m \<le> now (es 1) 1) (available_messages q) = available_messages q"
      using ready assms(9) by (auto simp: visible_queue_def intro!: filter_True)
    then have "picked (now (es 1) 1) ro q = take (max 1 (min (unat n) 10)) (available_messages q)"
      by (simp add: picked_def batch_limit_def deliverable_def empty ro_def pull_options_def)
    moreover have "dlq_config (qd_config q) = None" using ready assms(8) by (simp add: visible_queue_def)
    ultimately show ?thesis
      by (simp add: received_messages(1) [OF base rec] live_messages_def should_dlq_def stored_messages_def take_map o_def)
  qed
  ultimately show ?thesis by blast
qed

lemma subscription_queue_plain:
  "dlq_config (subscription_queue_config c) = None" "delay_seconds (subscription_queue_config c) = 0"
  "qc_type (subscription_queue_config c) \<noteq> SqsFifo"
  by (simp_all add: subscription_queue_config_def)

text \<open>What a publish leaves in the queue of a subscription that has not been used.\<close>

lemma publish_to_unused:
  assumes wf: "mem_wf (storage st)" and "parse_resource_name name = Inr r"
    and "queue_lookup (storage st) (resource_key r) \<noteq> None" and "msgs \<noteq> []"
    and subs: "subs = topic_subscriptions (resource_key r) (map snd (subscriptions (storage st)))"
    and "\<forall>s \<in> set subs. queue_of_subscription (storage st) s"
    and "total_message_count (storage st) + length msgs * length subs \<le> max_messages (mem_config (storage st))"
    and messages: "messages = convert_messages x (es 0) (resource_key r) msgs" and sub: "sub \<in> set subs"
    and q: "map_of (queues (storage st)) (sub_id sub) = Some q" "qd_config q = subscription_queue_config sub"
      "available_messages q = []" "in_flight_messages q = []" and clock: "\<forall>i j. now (es i) j \<le> t"
  obtains st1 q1 where "publish x (memory_backend x) es name msgs st = (Inr (map msg_id messages), st1)"
    and "mem_wf (storage st1)" and "subscriptions (storage st1) = subscriptions (storage st)"
    and "map_of (queues (storage st1)) (sub_id sub) = Some q1"
    and "visible_queue t (subscription_queue_config sub) q1" and "stored_messages q1 = for_subscription sub messages"
proof -
  obtain s1 where pub: "publish x (memory_backend x) es name msgs st =
      (Inr (map msg_id messages), enqueue_push_subscriptions (es 1) subs messages (st\<lparr>storage := s1\<rparr>))"
    and fan: "fan_out (memory_backend x) publish_failure (\<lambda>n. es (Suc (Suc n))) messages subs [] st =
      (Inr (if subs = [] then [] else map msg_id messages), st\<lparr>storage := s1\<rparr>)"
    and s1: "mem_wf s1" "subscriptions s1 = subscriptions (storage st)" "queue_lookup s1 = queue_lookup (storage st)"
      "stored_in s1 = (\<lambda>k. stored_in (storage st) k @ fanned_out messages subs k)"
    using publish_memory [where es = es, OF assms(1-8)] by blast
  have "visible_at_key t (subscription_queue_config sub) (sub_id sub) (storage st)"
    using q by (simp add: visible_at_key_def visible_queue_def)
  then have "visible_at_key t (subscription_queue_config sub) (sub_id sub)
      (storage (snd (fan_out (memory_backend x) publish_failure (\<lambda>n. es (Suc (Suc n))) messages subs [] st)))"
    using clock unfolding messages
    by (intro visible_fan_out subscription_queue_plain convert_no_delay) simp_all
  then have "visible_at_key t (subscription_queue_config sub) (sub_id sub) s1" by (simp add: fan)
  moreover obtain q1 where q1: "map_of (queues s1) (sub_id sub) = Some q1"
    using fun_cong [OF s1(3), of "sub_id sub"] q(1) by (auto simp: queue_lookup_def split: option.splits)
  moreover have "stored_in s1 (sub_id sub) = for_subscription sub messages"
    using fanned_out_once [OF subscriber_ids_distinct [OF wf, of "resource_key r", folded subs] sub] q
    by (simp add: s1(4) stored_in_def stored_messages_def)
  ultimately show thesis
    using that [OF pub] s1(1,2) by (simp add: visible_at_key_def stored_in_def enqueue_push_subscriptions_def)
qed

text \<open>
  C32. A message survives its way from a publisher to a subscriber.  When messages are published to a
  topic and a subscription that has been created, but not used, is pulled at a later time, the pull
  returns the published messages in their order, as many as asked for and at most ten, each for the
  first time and with its data, attributes and ordering key and the identifier the publish replied.
\<close>

theorem publish_then_pull:
  assumes "receipt_codecs_ok x" and "receipt_secret x \<noteq> None" and "\<And>d. b64_decode x (b64_encode x d) = Some d"
    and wf: "mem_wf (storage st)" and topic: "parse_resource_name name = Inr r"
    and "queue_lookup (storage st) (resource_key r) \<noteq> None" and "msgs \<noteq> []"
    and attrs: "\<forall>m \<in> set msgs. distinct (map fst (pm_attributes m))"
    and subs: "subs = topic_subscriptions (resource_key r) (map snd (subscriptions (storage st)))"
    and "\<forall>s \<in> set subs. queue_of_subscription (storage st) s"
    and room: "total_message_count (storage st) + length msgs * length subs \<le> max_messages (mem_config (storage st))"
    and sub: "sub \<in> set subs" and sname: "parse_resource_name sname = Inr sr" and key: "resource_key sr = sub_id sub"
    and q: "map_of (queues (storage st)) (sub_id sub) = Some q" "qd_config q = subscription_queue_config sub"
      "available_messages q = []" "in_flight_messages q = []"
    and clock: "\<forall>i j. now (es i) j \<le> t" "t \<le> now (es' 1) 1" and "inj (uuid (es' 1))"
  shows "\<exists>ids st1 rms st2. publish x (memory_backend x) es name msgs st = (Inr ids, st1) \<and> length ids = length msgs \<and>
    pull x (memory_backend x) es' sname n st1 = (Inr rms, st2) \<and>
    map (\<lambda>rm. payload (the (rc_message rm))) rms =
      take (max 1 (min (unat n) 10)) (map2 (\<lambda>m i. payload (m\<lparr>pm_message_id := i\<rparr>)) msgs ids)"
proof -
  define messages where "messages = convert_messages x (es 0) (resource_key r) msgs"
  obtain st1 q1 where st1: "publish x (memory_backend x) es name msgs st = (Inr (map msg_id messages), st1)"
    "mem_wf (storage st1)" "subscriptions (storage st1) = subscriptions (storage st)"
    "map_of (queues (storage st1)) (sub_id sub) = Some q1" "visible_queue t (subscription_queue_config sub) q1"
    and stored: "stored_messages q1 = for_subscription sub messages"
    by (rule publish_to_unused [where es = es, OF assms(4-7) subs assms(10) room messages_def sub q clock(1)])
  have "map_of (subscriptions (storage st)) (sub_id sub) = Some sub"
    using sub wf by (force simp: subs topic_subscriptions_def mem_wf_def list_all_iff intro: map_of_is_SomeI)
  then have "subscription_lookup (storage st1) (resource_key sr) = Some sub"
    by (simp add: key subscription_lookup_def st1(3))
  then obtain rs s2 where pulled: "pull x (memory_backend x) es' sname n st1 =
      (Inr (map (pulled_message x) rs), st1\<lparr>storage := s2\<rparr>)"
    "map rm_message rs = take (max 1 (min (unat n) 10)) (map bump (for_subscription sub messages))"
    using pull_visible [OF assms(1,2) st1(2) sname, of sub q1 t "subscription_queue_config sub" es' n]
      st1(4,5) clock(2) assms(21) by (auto simp: key stored subscription_queue_plain)
  have "map (\<lambda>rm. payload (the (rc_message rm))) (map (pulled_message x) rs) =
      map (received_payload x) (map rm_message rs)" by (simp add: pulled_payload)
  also have "\<dots> = take (max 1 (min (unat n) 10))
      (map2 (\<lambda>m i. payload (m\<lparr>pm_message_id := i\<rparr>)) msgs (map msg_id messages))"
    by (simp only: pulled(2) take_map [symmetric] map_map o_def messages_def converted_payload [OF assms(3) attrs])
  finally show ?thesis using st1(1) pulled(1) by (fastforce simp: messages_def)
qed

theorem publish_then_pull_witness:
  "\<exists>ids st1 rms st2. publish sample_ext (memory_backend sample_ext) (\<lambda>n. sample_env 3) ''projects/proj/topics/jobs''
      [sample_pubsub_message] sample_pubsub = (Inr ids, st1) \<and>
    pull sample_ext (memory_backend sample_ext) (\<lambda>n. sample_env 4) ''projects/proj/subscriptions/work'' 5 st1 =
      (Inr rms, st2) \<and>
    map (\<lambda>rm. pm_data (the (rc_message rm))) rms = [''hi'']"
proof -
  have key: "resource_key (ResTopic ''proj'' ''jobs'') = ''proj:jobs''"
    "resource_key (ResSubscription ''proj'' ''work'') = sub_id sample_subscription"
    by (simp_all add: resource_key_def sample_subscription_def)
  have sid: "sub_id sample_subscription = ''proj:work''" by (simp add: sample_subscription_def)
  have b64: "b64_decode sample_ext (b64_encode sample_ext d) = Some d" for d by (simp add: sample_ext_def)
  have subs: "[sample_subscription] = topic_subscriptions ''proj:jobs'' (map snd (subscriptions (storage sample_pubsub)))"
    by (simp add: topic_subscriptions_def sample_store_defs)
  have look: "queue_lookup (storage sample_pubsub) ''proj:jobs'' \<noteq> None"
    "\<forall>s \<in> set [sample_subscription]. queue_of_subscription (storage sample_pubsub) s"
    by (simp_all add: queue_of_subscription_def queue_lookup_def sample_store_defs)
  have room: "total_message_count (storage sample_pubsub) + length [sample_pubsub_message] * length [sample_subscription]
      \<le> max_messages (mem_config (storage sample_pubsub))"
    by (simp add: sample_pubsub_def sample_store_total) (simp add: sample_store_defs)
  have q: "map_of (queues (storage sample_pubsub)) (sub_id sample_subscription) =
      Some (empty_queue (subscription_queue_config sample_subscription))"
    by (simp add: sample_pubsub_def sample_store_def sid)
  have clock: "\<forall>i j. now ((\<lambda>n. sample_env 3) i) j \<le> 3" "3 \<le> now ((\<lambda>n. sample_env 4) 1) 1"
    "inj (uuid ((\<lambda>n. sample_env 4) 1))" by (simp_all add: inj_show_nat)
  have "\<exists>ids st1 rms st2. publish sample_ext (memory_backend sample_ext) (\<lambda>n. sample_env 3)
      ''projects/proj/topics/jobs'' [sample_pubsub_message] sample_pubsub = (Inr ids, st1) \<and>
    length ids = length [sample_pubsub_message] \<and>
    pull sample_ext (memory_backend sample_ext) (\<lambda>n. sample_env 4) ''projects/proj/subscriptions/work'' 5 st1 = (Inr rms, st2) \<and>
    map (\<lambda>rm. payload (the (rc_message rm))) rms =
      take (max 1 (min (unat (5 :: i32)) 10)) (map2 (\<lambda>m i. payload (m\<lparr>pm_message_id := i\<rparr>)) [sample_pubsub_message] ids)"
    by (rule publish_then_pull [where t = 3 and sub = sample_subscription, OF sample_codecs_ok sample_secret_set b64
          sample_store_wf sample_topic_name _ _ _ subs [folded key(1)] look(2) room _ sample_subscription_name key(2) q])
      (use clock look in \<open>simp_all add: key sample_pubsub_message_def empty_queue_def\<close>)
  then obtain ids st1 rms st2 where r: "publish sample_ext (memory_backend sample_ext) (\<lambda>n. sample_env 3)
      ''projects/proj/topics/jobs'' [sample_pubsub_message] sample_pubsub = (Inr ids, st1)"
    "length ids = length [sample_pubsub_message]"
    "pull sample_ext (memory_backend sample_ext) (\<lambda>n. sample_env 4) ''projects/proj/subscriptions/work'' 5 st1 = (Inr rms, st2)"
    "map (\<lambda>rm. payload (the (rc_message rm))) rms =
      take (max 1 (min (unat (5 :: i32)) 10)) (map2 (\<lambda>m i. payload (m\<lparr>pm_message_id := i\<rparr>)) [sample_pubsub_message] ids)"
    by (elim exE conjE) (rule that)
  have "map (fst \<circ> snd) (map (\<lambda>rm. payload (the (rc_message rm))) rms) = [''hi'']"
    unfolding r(4) using r(2) by (cases ids) (simp_all add: payload_def sample_pubsub_message_def)
  then have "map (\<lambda>rm. pm_data (the (rc_message rm))) rms = [''hi'']" by (simp add: payload_def o_def)
  with r(1,3) show ?thesis by (intro exI conjI)
qed

end
