(* ===== verification/Sqlite_Publish.thy ===== *)
theory Sqlite_Publish
  imports Pubsub_Claims Sqlite_Fifo
begin

text \<open>
  Publishing over the SQLite backend.  The table of messages has the identifier of a message as its
  primary key, whatever the queue, and the copies of a published message for the subscriptions of its
  topic have the same identifier.
\<close>

section \<open>A batch for a queue that is not FIFO\<close>

text \<open>The stored copy of a message in the queue \<open>k\<close>.\<close>

definition copy_row :: "string \<Rightarrow> message \<Rightarrow> message_row \<Rightarrow> bool" where
  "copy_row k m r \<longleftrightarrow> mr_id r = msg_id m \<and> mr_queue_id r = k \<and> mr_body r = body m \<and>
     mr_message_group_id r = message_group_id m \<and> row_available r"

lemma message_row_copy: "copy_row k m (message_to_row y k delay t m)"
  by (simp add: copy_row_def message_to_row_def row_available_def)

lemma send_impl_insert:
  assumes "get_queue_sqlite y k (committed c) = Inr q" and "qc_type q \<noteq> SqsFifo" and "\<not> tx_stale c"
    and "k \<in> known_queues (tx_read c)" and "msg_id m \<notin> mr_id ` set (messages_table (tx_read c))"
  shows "\<exists>r. send_message_impl x y OnTx e k m c =
      (Inr m, written ((tx_read c)\<lparr>messages_table := messages_table (tx_read c) @ [r]\<rparr>) c) \<and> copy_row k m r"
proof -
  define r where "r = message_to_row y k (case msg_delay_seconds m of Some s \<Rightarrow> s | None \<Rightarrow> delay_seconds q) (now e 2) m"
  have r: "copy_row k m r" unfolding r_def by (rule message_row_copy)
  then have "insert_message r (tx_read c) = Inr ((tx_read c)\<lparr>messages_table := messages_table (tx_read c) @ [r]\<rparr>)"
    using assms(4,5) by (simp add: insert_message_iff copy_row_def)
  then show ?thesis using r assms(1-3)
    by (intro exI [of _ r]) (simp add: send_message_impl_def Let_def tx_write r_def [symmetric])
qed

lemma send_impl_taken:
  assumes "get_queue_sqlite y k (committed c) = Inr q" and "qc_type q \<noteq> SqsFifo" and "\<not> tx_stale c"
    and "msg_id m \<in> mr_id ` set (messages_table (tx_read c))"
  shows "send_message_impl x y OnTx e k m c =
      (Inl (storage_error y ''Failed to insert message'' (UniqueFailed ''messages.id'')), c)"
proof -
  have "insert_message (message_to_row y k s t m) (tx_read c) = Inl (UniqueFailed ''messages.id'')" for s t
    using assms(4) by (auto simp: insert_message_def message_to_row_def)
  then show ?thesis using assms(1-3) by (simp add: send_message_impl_def Let_def tx_write)
qed

lemma send_loop_insert:
  assumes "get_queue_sqlite y k (committed c) = Inr q" and "qc_type q \<noteq> SqsFifo" and "\<not> tx_stale c"
    and "k \<in> known_queues (tx_read c)" and "distinct (map msg_id ms)"
    and "msg_id ` set ms \<inter> mr_id ` set (messages_table (tx_read c)) = {}"
  shows "\<exists>rs c'. send_messages_loop x y e k ms c = (Inr ms, c') \<and> list_all2 (copy_row k) ms rs \<and>
      tx_read c' = (tx_read c)\<lparr>messages_table := messages_table (tx_read c) @ rs\<rparr> \<and>
      committed c' = committed c \<and> (tx_written c' \<longleftrightarrow> tx_written c \<or> ms \<noteq> [])"
  using assms
proof (induction ms arbitrary: c e)
  case Nil
  then show ?case by (intro exI [of _ "[]"]) simp
next
  case (Cons m ms)
  obtain r where r: "send_message_impl x y OnTx e k m c =
      (Inr m, written ((tx_read c)\<lparr>messages_table := messages_table (tx_read c) @ [r]\<rparr>) c)" "copy_row k m r"
    using send_impl_insert [OF Cons.prems(1-4), of m x e] Cons.prems(6) by auto
  define c1 where "c1 = written ((tx_read c)\<lparr>messages_table := messages_table (tx_read c) @ [r]\<rparr>) c"
  have "mr_id r = msg_id m" using r(2) by (simp add: copy_row_def)
  then obtain rs c' where rs: "send_messages_loop x y (env_from 3 e) k ms c1 = (Inr ms, c')"
    "list_all2 (copy_row k) ms rs" "tx_read c' = (tx_read c1)\<lparr>messages_table := messages_table (tx_read c1) @ rs\<rparr>"
    "committed c' = committed c1" "tx_written c' \<longleftrightarrow> tx_written c1 \<or> ms \<noteq> []"
    using Cons.IH [of c1 "env_from 3 e"] Cons.prems by (auto simp: c1_def known_queues_def)
  then show ?case using r by (intro exI [of _ "r # rs"] exI [of _ c']) (simp add: c1_def)
qed

text \<open>A batch of new messages is appended as a whole; one that starts with a stored identifier changes nothing.\<close>

lemma send_batch_stores:
  assumes "get_queue_sqlite y k d = Inr q" and "qc_type q \<noteq> SqsFifo" and "ms \<noteq> []" and "distinct (map msg_id ms)"
    and "msg_id ` set ms \<inter> mr_id ` set (messages_table d) = {}"
  shows "\<exists>rs. send_messages_sqlite x y e k ms d = (Inr ms, d\<lparr>messages_table := messages_table d @ rs\<rparr>) \<and>
      list_all2 (copy_row k) ms rs"
proof -
  have "k \<in> known_queues d"
    using get_queue_found [OF assms(1)] find_queue_None [of k d] by auto
  then obtain rs c' where "send_messages_loop x y e k ms (begin_tx d) = (Inr ms, c')" "list_all2 (copy_row k) ms rs"
    "tx_read c' = d\<lparr>messages_table := messages_table d @ rs\<rparr>" "tx_written c'"
    using send_loop_insert [of y k "begin_tx d" q ms x e] assms by auto
  then show ?thesis by (auto simp: send_messages_sqlite_def commit_tx_def)
qed

lemma send_batch_taken:
  assumes "get_queue_sqlite y k d = Inr q" and "qc_type q \<noteq> SqsFifo" and "msg_id m \<in> mr_id ` set (messages_table d)"
  shows "send_messages_sqlite x y e k (m # ms) d =
      (Inl (storage_error y ''Failed to insert message'' (UniqueFailed ''messages.id'')), d)"
  using send_impl_taken [of y k "begin_tx d" q m x e] assms by (simp add: send_messages_sqlite_def)

section \<open>Publishing\<close>

text \<open>The subscriptions of a topic, in the order of the query.\<close>

definition sqlite_subscribers :: "string \<Rightarrow> sqlite \<Rightarrow> subscription_config list" where
  "sqlite_subscribers topic_id d =
     topic_subscriptions topic_id (map row_to_subscription (sort_key sr_name (subscriptions_table d)))"

definition plain_queue :: "sql_ext \<Rightarrow> sqlite \<Rightarrow> string \<Rightarrow> bool" where
  "plain_queue y d k \<longleftrightarrow> (case get_queue_sqlite y k d of Inl _ \<Rightarrow> False | Inr c \<Rightarrow> qc_type c \<noteq> SqsFifo)"

lemma for_subscription_copies:
  "list_all2 (copy_row k) (for_subscription sub ms) rs \<longleftrightarrow> list_all2 (copy_row k) ms rs"
  by (simp add: for_subscription_def list_all2_map1 copy_row_def [abs_def])

lemma for_subscription_id_set [simp]: "msg_id ` set (for_subscription sub ms) = msg_id ` set ms"
  by (metis for_subscription_ids image_set)

text \<open>The fan-out over two subscriptions or more stops at the second.\<close>

lemma fan_out_first_sqlite:
  assumes "plain_queue y (storage st) (sub_id sub)" and "ms \<noteq> []" and "distinct (map msg_id ms)"
    and "msg_id ` set ms \<inter> mr_id ` set (messages_table (storage st)) = {}"
    and "\<forall>sub' \<in> set subs. plain_queue y (storage st) (sub_id sub')"
  shows "\<exists>rs. fan_out (sqlite_backend x y) mk es ms (sub # subs) [] st =
      ((case subs of [] \<Rightarrow> Inr (map msg_id ms)
        | sub' # _ \<Rightarrow> Inl (Failed (mk sub' (storage_error y ''Failed to insert message'' (UniqueFailed ''messages.id''))))),
       st\<lparr>storage := (storage st)\<lparr>messages_table := messages_table (storage st) @ rs\<rparr>\<rparr>) \<and>
    list_all2 (copy_row (sub_id sub)) ms rs"
proof -
  define d where "d = storage st"
  obtain q where q: "get_queue_sqlite y (sub_id sub) d = Inr q" "qc_type q \<noteq> SqsFifo"
    using assms(1) by (auto simp: plain_queue_def d_def split: sum.splits)
  obtain rs where rs: "send_messages_sqlite x y (es 0) (sub_id sub) (for_subscription sub ms) d =
      (Inr (for_subscription sub ms), d\<lparr>messages_table := messages_table d @ rs\<rparr>)" "list_all2 (copy_row (sub_id sub)) ms rs"
    using send_batch_stores [OF q, of "for_subscription sub ms" x "es 0"] assms(2-4)
    by (auto simp: d_def for_subscription_copies) (auto simp: for_subscription_def)
  define d1 where "d1 = d\<lparr>messages_table := messages_table d @ rs\<rparr>"
  have first: "fan_out (sqlite_backend x y) mk es ms (sub # subs) [] st =
      fan_out (sqlite_backend x y) mk (\<lambda>n. es (Suc n)) ms subs (map msg_id ms) (st\<lparr>storage := d1\<rparr>)"
    using rs(1) by (simp add: on_storage_pair d_def d1_def del: map_map)
  show ?thesis
  proof (cases subs)
    case Nil
    then show ?thesis using first rs(2) by (intro exI [of _ rs]) (simp add: d1_def d_def)
  next
    case (Cons sub' subs')
    obtain m ms' where ms: "for_subscription sub' ms = m # ms'" using assms(2) by (cases ms) (auto simp: for_subscription_def)
    obtain r rs' where "rs = r # rs'" "copy_row (sub_id sub) (hd ms) r"
      using rs(2) assms(2) by (cases ms) (auto simp: list_all2_Cons1)
    moreover have "msg_id m = msg_id (hd ms)" using ms assms(2) by (cases ms) (auto simp: for_subscription_def)
    ultimately have stored: "msg_id m \<in> mr_id ` set (messages_table d1)" by (simp add: d1_def copy_row_def)
    obtain q' where "get_queue_sqlite y (sub_id sub') d1 = Inr q'" "qc_type q' \<noteq> SqsFifo"
      using assms(5) same_queues(1) [of d1 d] by (auto simp: Cons plain_queue_def d_def d1_def split: sum.splits)
    from send_batch_taken [OF this stored, of x "es 1" ms'] show ?thesis using first rs(2)
      by (intro exI [of _ rs]) (simp add: Cons on_storage_pair ms storage_error_def d1_def d_def)
  qed
qed

definition with_rows :: "message_row list \<Rightarrow> sqlite pubsub \<Rightarrow> sqlite pubsub" where
  "with_rows rs st = st\<lparr>storage := (storage st)\<lparr>messages_table := messages_table (storage st) @ rs\<rparr>\<rparr>"

text \<open>
  C33. Publishing new messages over the SQLite backend.  Without a subscription the identifiers are
  returned and nothing is stored; with one, its queue gains a copy of each message and the push queue
  its tasks.  With two or more the call always fails: the copies for the first subscription are
  stored, the insert of the first message for the second violates the uniqueness of the identifiers,
  and neither that subscription nor a later one nor the push queue gets anything.
\<close>

theorem sqlite_publish_reaches_one:
  assumes "parse_resource_name name = Inr r" and topic: "get_queue_sqlite y (resource_key r) (storage st) = Inr c"
    and "msgs \<noteq> []" and messages: "messages = convert_messages x (es 0) (resource_key r) msgs"
    and "distinct (map msg_id messages)"
    and "msg_id ` set messages \<inter> mr_id ` set (messages_table (storage st)) = {}"
    and subs: "subs = sqlite_subscribers (resource_key r) (storage st)"
    and "\<forall>sub \<in> set subs. plain_queue y (storage st) (sub_id sub)"
  shows "\<exists>rs. list_all2 (copy_row (sub_id (hd subs))) messages rs \<and>
    publish x (sqlite_backend x y) es name msgs st =
      (case subs of
         [] \<Rightarrow> (Inr (map msg_id messages), st)
       | [sub] \<Rightarrow> (Inr (map msg_id messages), enqueue_push_subscriptions (es 1) [sub] messages (with_rows rs st))
       | sub # sub' # _ \<Rightarrow>
           (Inl (Failed (publish_failure sub'
              (storage_error y ''Failed to insert message'' (UniqueFailed ''messages.id'')))), with_rows rs st))"
proof -
  have ne: "messages \<noteq> []" using assms(3) by (cases msgs) (simp_all add: messages)
  have head: "publish x (sqlite_backend x y) es name msgs st =
      publish_messages (sqlite_backend x y) publish_failure (\<lambda>n. es (Suc n)) messages subs st"
    by (simp add: publish_def with_topic_name_def assms(1) topic messages Let_def list_subscriptions_sqlite_def
        subs sqlite_subscribers_def)
  show ?thesis
  proof (cases subs)
    case Nil
    have "list_all2 (copy_row k) messages (map (message_to_row y k 0 0) messages)" for k
      by (simp add: list_all2_map2 list.rel_refl message_row_copy)
    then show ?thesis using head Nil by (intro exI) (auto simp: publish_messages_def)
  next
    case (Cons sub others)
    with fan_out_first_sqlite [OF _ ne assms(5,6), of y sub others x publish_failure "\<lambda>n. es (Suc (Suc n))"] assms(8)
    obtain rs where "list_all2 (copy_row (sub_id sub)) messages rs"
      "fan_out (sqlite_backend x y) publish_failure (\<lambda>n. es (Suc (Suc n))) messages subs [] st =
        ((case others of [] \<Rightarrow> Inr (map msg_id messages)
          | sub' # _ \<Rightarrow> Inl (Failed (publish_failure sub'
              (storage_error y ''Failed to insert message'' (UniqueFailed ''messages.id''))))), with_rows rs st)"
      unfolding with_rows_def by auto
    then show ?thesis using head
      by (intro exI [of _ rs]) (auto simp: Cons publish_messages_def simp del: fan_out.simps split: list.split)
  qed
qed

section \<open>A topic with two subscriptions\<close>

definition second_subscription :: subscription_config where
  "second_subscription = sample_subscription\<lparr>sub_id := ''proj:z'', sub_name := ''projects/proj/subscriptions/z''\<rparr>"

definition two_subscribers :: sqlite where
  "two_subscribers =
     \<lparr> queues_table = map (config_to_row sample_sql 0) [sample_topic_config,
         subscription_queue_config sample_subscription, subscription_queue_config second_subscription],
       messages_table = [], dedup_table = [],
       subscriptions_table = map (subscription_to_row 0) [sample_subscription, second_subscription] \<rparr>"

definition sql_pubsub :: "sqlite \<Rightarrow> sqlite pubsub" where
  "sql_pubsub d = \<lparr> storage = d, delivery_queue = Some new_delivery_queue \<rparr>"

lemma two_subscribers_queues:
  "get_queue_sqlite sample_sql ''proj:jobs'' two_subscribers = Inr sample_topic_config"
  "get_queue_sqlite sample_sql ''proj:work'' two_subscribers = Inr (subscription_queue_config sample_subscription)"
  "get_queue_sqlite sample_sql ''proj:z'' two_subscribers = Inr (subscription_queue_config second_subscription)"
proof -
  have "row_to_config sample_sql (config_to_row sample_sql 0 c) = Inr c"
    if "c \<in> {sample_topic_config, subscription_queue_config sample_subscription,
          subscription_queue_config second_subscription}" for c
    using that by (subst config_row_roundtrip [OF sample_sql_laws])
      (auto simp: sample_store_defs second_subscription_def ten_megabytes_def)
  then show "get_queue_sqlite sample_sql ''proj:jobs'' two_subscribers = Inr sample_topic_config"
    "get_queue_sqlite sample_sql ''proj:work'' two_subscribers = Inr (subscription_queue_config sample_subscription)"
    "get_queue_sqlite sample_sql ''proj:z'' two_subscribers = Inr (subscription_queue_config second_subscription)"
    by (simp_all add: get_queue_sqlite_def find_queue_def two_subscribers_def config_row_id)
      (simp_all add: sample_store_defs second_subscription_def)
qed

lemma two_subscribers_list: "sqlite_subscribers ''proj:jobs'' two_subscribers = [sample_subscription, second_subscription]"
proof -
  have "sort_key sr_name (map (subscription_to_row 0) [sample_subscription, second_subscription]) =
      map (subscription_to_row 0) [sample_subscription, second_subscription]"
    by (simp add: subscription_to_row_def Let_def second_subscription_def sample_subscription_def)
  then show ?thesis
    by (simp add: sqlite_subscribers_def two_subscribers_def topic_subscriptions_def)
      (simp add: sample_subscription_def second_subscription_def)
qed

theorem sqlite_publish_reaches_one_witness:
  "\<exists>r. publish sample_ext (sqlite_backend sample_ext sample_sql) (\<lambda>n. sample_env 3) ''projects/proj/topics/jobs''
      [sample_pubsub_message] (sql_pubsub two_subscribers) =
      (Inl (Failed (publish_failure second_subscription
         (storage_error sample_sql ''Failed to insert message'' (UniqueFailed ''messages.id'')))),
       with_rows [r] (sql_pubsub two_subscribers)) \<and>
    mr_queue_id r = ''proj:work'' \<and> mr_body r = letters ''hi''"
proof -
  let ?m = "convert_messages sample_ext (sample_env 3) ''proj:jobs'' [sample_pubsub_message]"
  have key: "resource_key (ResTopic ''proj'' ''jobs'') = ''proj:jobs''" by (simp add: resource_key_def)
  have st: "storage (sql_pubsub two_subscribers) = two_subscribers" by (simp add: sql_pubsub_def)
  have empty: "messages_table two_subscribers = []" by (simp add: two_subscribers_def)
  have ids: "sub_id sample_subscription = ''proj:work''" "sub_id second_subscription = ''proj:z''"
    by (simp_all add: sample_subscription_def second_subscription_def)
  have type: "qc_type (subscription_queue_config c) \<noteq> SqsFifo" for c
    by (simp add: subscription_queue_config_def topic_queue_config_def)
  have plain: "\<forall>sub \<in> set [sample_subscription, second_subscription]. plain_queue sample_sql two_subscribers (sub_id sub)"
    by (simp add: plain_queue_def ids two_subscribers_queues type)
  have "\<exists>rs. list_all2 (copy_row (sub_id (hd [sample_subscription, second_subscription]))) ?m rs \<and>
    publish sample_ext (sqlite_backend sample_ext sample_sql) (\<lambda>n. sample_env 3) ''projects/proj/topics/jobs''
        [sample_pubsub_message] (sql_pubsub two_subscribers) =
      (case [sample_subscription, second_subscription] of
         [] \<Rightarrow> (Inr (map msg_id ?m), sql_pubsub two_subscribers)
       | [sub] \<Rightarrow> (Inr (map msg_id ?m),
           enqueue_push_subscriptions (sample_env 3) [sub] ?m (with_rows rs (sql_pubsub two_subscribers)))
       | sub # sub' # _ \<Rightarrow>
           (Inl (Failed (publish_failure sub'
              (storage_error sample_sql ''Failed to insert message'' (UniqueFailed ''messages.id'')))),
            with_rows rs (sql_pubsub two_subscribers)))"
    by (rule sqlite_publish_reaches_one [OF sample_topic_name])
      (simp_all add: key st empty two_subscribers_list two_subscribers_queues plain [simplified])
  moreover have "body (hd ?m) = letters ''hi''"
    by (simp add: pubsub_message_to_message_def published_message_def sample_pubsub_message_def sample_ext_def)
  ultimately show ?thesis by (auto simp: list_all2_Cons1 copy_row_def ids)
qed

end
