(* ===== verification/Push_Shutdown.thy ===== *)
theory Push_Shutdown
  imports Push_Pool
begin

text \<open>
  The loop of a push worker and the shutdown of the pool (\<open>PushWorkerPool\<close>, \<open>spawn_worker\<close> in
  \<open>src/pubsub/push_worker.rs\<close>).  The loops refine the transition system of \<open>Push_Pool\<close>, so its
  guarantees hold for them, and after the shutdown signal they all come to an end.
\<close>

section \<open>The loop\<close>

text \<open>
  Where a worker is: about to read the shutdown flag, waiting for a task or the time-out of one second,
  handling a task, or past the loop.
\<close>

datatype worker_phase = Checking | Waiting | Delivering delivery_task | Stopped

record 's worker_pool =
  wp_pool :: "'s push_pool"
  wp_workers :: "worker_phase list"
  wp_shutdown :: bool

definition new_worker_pool :: "nat \<Rightarrow> 's \<Rightarrow> int \<Rightarrow> 's worker_pool" where
  "new_worker_pool num_workers s0 clock =
     \<lparr> wp_pool = new_pool s0 clock, wp_workers = replicate num_workers Checking, wp_shutdown = False \<rparr>"

definition set_phase :: "nat \<Rightarrow> worker_phase \<Rightarrow> 's worker_pool \<Rightarrow> 's worker_pool" where
  "set_phase i ph W = W\<lparr>wp_workers := (wp_workers W)[i := ph]\<rparr>"

definition worker_at :: "'s worker_pool \<Rightarrow> nat \<Rightarrow> worker_phase \<Rightarrow> bool" where
  "worker_at W i ph \<longleftrightarrow> i < length (wp_workers W) \<and> wp_workers W ! i = ph"

text \<open>
  A step of one worker, the signal of \<open>shutdown\<close>, or a step of publishers, of the clock and of other
  clients, which leaves the tasks of the workers alone.
\<close>

inductive worker_step :: "ext_push \<Rightarrow> 's backend \<Rightarrow> 's worker_pool \<Rightarrow> 's worker_pool \<Rightarrow> bool"
  for p :: ext_push and b :: "'s backend" where
  leave: "\<lbrakk>worker_at W i Checking; wp_shutdown W\<rbrakk> \<Longrightarrow> worker_step p b W (set_phase i Stopped W)"
| go_on: "\<lbrakk>worker_at W i Checking; \<not> wp_shutdown W\<rbrakk> \<Longrightarrow> worker_step p b W (set_phase i Waiting W)"
| take: "\<lbrakk>worker_at W i Waiting; dequeue_ready (pp_clock (wp_pool W)) (pp_queue (wp_pool W)) = (Some t, q')\<rbrakk> \<Longrightarrow>
    worker_step p b W (set_phase i (Delivering t)
      (W\<lparr>wp_pool := (wp_pool W)\<lparr>pp_queue := q', pp_held := t # pp_held (wp_pool W)\<rparr>\<rparr>))"
| time_out: "worker_at W i Waiting \<Longrightarrow> worker_step p b W (set_phase i Checking W)"
| deliver: "\<lbrakk>worker_at W i (Delivering t); pp_clock (wp_pool W) \<le> clock\<rbrakk> \<Longrightarrow>
    worker_step p b W (set_phase i Checking (W\<lparr>wp_pool := finish_task p post e clock b t (wp_pool W)\<rparr>))"
| signal: "worker_step p b W (W\<lparr>wp_shutdown := True\<rparr>)"
| outside: "\<lbrakk>pool_step p b (wp_pool W) P; pp_held P = pp_held (wp_pool W)\<rbrakk> \<Longrightarrow> worker_step p b W (W\<lparr>wp_pool := P\<rparr>)"

inductive worker_reachable :: "ext_push \<Rightarrow> 's backend \<Rightarrow> 's worker_pool \<Rightarrow> bool"
  for p :: ext_push and b :: "'s backend" where
  start: "worker_reachable p b (new_worker_pool n s0 clock)"
| step: "\<lbrakk>worker_reachable p b W; worker_step p b W W'\<rbrakk> \<Longrightarrow> worker_reachable p b W'"

text \<open>\<open>shutdown\<close> returns when every worker has left its loop.\<close>

definition shutdown_complete :: "'s worker_pool \<Rightarrow> bool" where
  "shutdown_complete W \<longleftrightarrow> (\<forall>ph \<in> set (wp_workers W). ph = Stopped)"

text \<open>A run with \<open>n\<close> steps of workers in it.\<close>

inductive worker_run :: "ext_push \<Rightarrow> 's backend \<Rightarrow> nat \<Rightarrow> 's worker_pool \<Rightarrow> 's worker_pool \<Rightarrow> bool"
  for p :: ext_push and b :: "'s backend" where
  none: "worker_run p b 0 W W"
| work: "\<lbrakk>worker_run p b n W W'; worker_step p b W' W''; wp_workers W'' \<noteq> wp_workers W'\<rbrakk> \<Longrightarrow>
    worker_run p b (Suc n) W W''"
| idle: "\<lbrakk>worker_run p b n W W'; worker_step p b W' W''; wp_workers W'' = wp_workers W'\<rbrakk> \<Longrightarrow>
    worker_run p b n W W''"

section \<open>The loops refine the pool\<close>

fun phase_tasks :: "worker_phase \<Rightarrow> delivery_task multiset" where
  "phase_tasks (Delivering t) = {# t #}"
| "phase_tasks _ = {#}"

definition in_delivery :: "'s worker_pool \<Rightarrow> delivery_task multiset" where
  "in_delivery W = sum_list (map phase_tasks (wp_workers W))"

lemma sum_update:
  "i < length xs \<Longrightarrow> sum_list (map f (xs[i := v])) + f (xs ! i) = sum_list (map f xs) + (f v :: 'b :: comm_monoid_add)"
proof (induction xs arbitrary: i)
  case (Cons a xs)
  then show ?case by (cases i) (auto simp: ac_simps)
qed simp

lemma set_phase_simps [simp]:
  "wp_pool (set_phase i ph W) = wp_pool W" "wp_shutdown (set_phase i ph W) = wp_shutdown W"
  "length (wp_workers (set_phase i ph W)) = length (wp_workers W)"
  by (simp_all add: set_phase_def)

lemma sum_phase:
  assumes "worker_at W i ph" and "wp_workers V = wp_workers W"
  shows "sum_list (map f (wp_workers (set_phase i ph' V))) + f ph =
    sum_list (map f (wp_workers W)) + (f ph' :: 'b :: comm_monoid_add)"
  using sum_update [of i "wp_workers W" f ph'] assms by (simp add: worker_at_def set_phase_def)

lemma tasks_phase:
  assumes "worker_at W i ph" and "wp_workers V = wp_workers W"
  shows "in_delivery (set_phase i ph' V) + phase_tasks ph = in_delivery W + phase_tasks ph'"
  using sum_phase [OF assms] by (simp add: in_delivery_def)

definition matches_pool :: "ext_push \<Rightarrow> 's backend \<Rightarrow> 's worker_pool \<Rightarrow> bool" where
  "matches_pool p b W \<longleftrightarrow> pool_reachable p b (wp_pool W) \<and> mset (pp_held (wp_pool W)) = in_delivery W"

lemma finish_held: "pp_held (finish_task p post e clock b t s) = remove1 t (pp_held s)"
  by (simp add: finish_task_def split: prod.split)

lemma worker_step_matches:
  assumes "worker_step p b W W'" and "matches_pool p b W"
  shows "matches_pool p b W'"
  using assms
proof (cases rule: worker_step.cases)
  case (take i t q')
  then have "pool_step p b (wp_pool W) ((wp_pool W)\<lparr>pp_queue := q', pp_held := t # pp_held (wp_pool W)\<rparr>)"
    by (intro pool_step.take)
  moreover have "in_delivery W' = add_mset t (in_delivery W)"
    using tasks_phase [OF take(2), of "W\<lparr>wp_pool := (wp_pool W)\<lparr>pp_queue := q', pp_held := t # pp_held (wp_pool W)\<rparr>\<rparr>" "Delivering t"]
    by (simp add: take(1))
  ultimately show ?thesis using assms(2) take(1) by (auto simp: matches_pool_def intro: pool_reachable.step)
next
  case (deliver i t clock post e)
  have tasks: "in_delivery W' + {# t #} = in_delivery W"
    using tasks_phase [OF deliver(2), of "W\<lparr>wp_pool := finish_task p post e clock b t (wp_pool W)\<rparr>" Checking]
    by (simp add: deliver(1))
  then have "t \<in># mset (pp_held (wp_pool W))"
    using assms(2) by (simp add: matches_pool_def tasks [symmetric])
  then have "pool_step p b (wp_pool W) (wp_pool W')"
    using deliver by (simp add: pool_step.finish)
  moreover have "mset (pp_held (wp_pool W')) = in_delivery W'"
    using assms(2) tasks by (auto simp: matches_pool_def deliver(1) finish_held tasks [symmetric])
  ultimately show ?thesis using assms(2) by (auto simp: matches_pool_def intro: pool_reachable.step)
qed (use assms(2) tasks_phase [of W _ _ W] in
  \<open>force simp: matches_pool_def in_delivery_def intro: pool_reachable.step\<close>)+

lemma new_pool_matches: "matches_pool p b (new_worker_pool n s0 clock)"
proof -
  have "sum_list (map phase_tasks (replicate n Checking)) = {#}" by (induction n) simp_all
  then show ?thesis by (simp add: matches_pool_def new_worker_pool_def in_delivery_def pool_reachable.start) (simp add: new_pool_def)
qed

text \<open>
  C26. The worker loops refine the pool: whatever the workers, the shutdown signal and the clients do,
  the pool they share is in a reachable state of the transition system, and the tasks that have been
  taken out of the queue and not been finished are those some worker is delivering.  So no delivery
  is lost, doubled, early or tried too often, during a shutdown either.
\<close>

theorem worker_loops_refine_pool:
  assumes "worker_reachable p b W"
  shows "pool_reachable p b (wp_pool W) \<and> mset (pp_held (wp_pool W)) = in_delivery W"
proof -
  have "matches_pool p b W"
    using assms by induction (auto intro: new_pool_matches worker_step_matches)
  then show ?thesis by (simp add: matches_pool_def)
qed

text \<open>One worker that has taken a published task.\<close>

definition busy_pool :: "in_memory worker_pool" where
  "busy_pool =
     \<lparr> wp_pool = published_pool\<lparr>pp_queue := new_delivery_queue\<lparr>notified := True\<rparr>, pp_held := [sample_task 5]\<rparr>,
       wp_workers = [Delivering (sample_task 5)], wp_shutdown = False \<rparr>"

lemma busy_pool_reachable: "worker_reachable sample_push_ext (memory_backend sample_ext) busy_pool"
proof -
  let ?R = "worker_reachable sample_push_ext (memory_backend sample_ext)"
  define s0 where "s0 = with_config default_in_memory_config"
  have "?R (new_worker_pool 1 s0 5)" by (rule worker_reachable.start)
  moreover have "pool_step sample_push_ext (memory_backend sample_ext) (new_pool s0 5) published_pool"
    using pool_step.publish [of "sample_task 5" "new_pool s0 5"]
    by (simp add: new_pool_def sample_task_def published_pool_def s0_def)
  moreover from this have "worker_step sample_push_ext (memory_backend sample_ext) (new_worker_pool 1 s0 5)
      ((new_worker_pool 1 s0 5)\<lparr>wp_pool := published_pool\<rparr>)"
    by (intro worker_step.outside) (simp_all add: new_worker_pool_def, simp add: published_pool_def new_pool_def)
  ultimately have "?R ((new_worker_pool 1 s0 5)\<lparr>wp_pool := published_pool\<rparr>)"
    by (blast intro: worker_reachable.step)
  then have "?R (set_phase 0 Waiting ((new_worker_pool 1 s0 5)\<lparr>wp_pool := published_pool\<rparr>))"
    by (rule worker_reachable.step) (rule worker_step.go_on, simp_all add: worker_at_def new_worker_pool_def)
  then have "?R (set_phase 0 (Delivering (sample_task 5)) ((set_phase 0 Waiting ((new_worker_pool 1 s0 5)\<lparr>wp_pool := published_pool\<rparr>))
      \<lparr>wp_pool := published_pool\<lparr>pp_queue := new_delivery_queue\<lparr>notified := True\<rparr>, pp_held := [sample_task 5]\<rparr>\<rparr>))"
    by (rule worker_reachable.step)
      (use worker_step.take [of "set_phase 0 Waiting ((new_worker_pool 1 s0 5)\<lparr>wp_pool := published_pool\<rparr>)" 0 "sample_task 5"]
         sample_take [of "sample_task 5" 5 False]
       in \<open>simp add: worker_at_def set_phase_def new_worker_pool_def published_pool_def new_pool_def new_delivery_queue_def\<close>)
  then show ?thesis by (simp add: busy_pool_def set_phase_def new_worker_pool_def)
qed

theorem worker_loops_refine_pool_witness:
  "pool_reachable sample_push_ext (memory_backend sample_ext) (wp_pool busy_pool) \<and>
   in_delivery busy_pool = {# sample_task 5 #}"
  using worker_loops_refine_pool [OF busy_pool_reachable] by (simp add: busy_pool_def)

section \<open>Shutdown\<close>

fun work_left :: "worker_phase \<Rightarrow> nat" where
  "work_left Checking = 1"
| "work_left Waiting = 3"
| "work_left (Delivering t) = 2"
| "work_left Stopped = 0"

fun posts_left :: "worker_phase \<Rightarrow> nat" where
  "posts_left Waiting = 1"
| "posts_left (Delivering t) = 1"
| "posts_left _ = 0"

definition total_left :: "(worker_phase \<Rightarrow> nat) \<Rightarrow> 's worker_pool \<Rightarrow> nat" where
  "total_left f W = sum_list (map f (wp_workers W))"

lemma total_phase:
  "worker_at W i ph \<Longrightarrow> wp_workers V = wp_workers W \<Longrightarrow> total_left f (set_phase i ph' V) + f ph = total_left f W + f ph'"
  unfolding total_left_def by (rule sum_phase)

lemma outside_posts: "pool_step p b P P' \<Longrightarrow> pp_held P' = pp_held P \<Longrightarrow> pp_posts P' = pp_posts P"
proof (cases rule: pool_step.cases)
  assume held: "pp_held P' = pp_held P"
  fix t clock post e
  assume P': "P' = finish_task p post e clock b t P" and "t \<in> set (pp_held P)"
  then have "length (pp_held P') < length (pp_held P)"
    using length_remove1 [of t "pp_held P"] by (cases "pp_held P") (auto simp: finish_held)
  then show "pp_posts P' = pp_posts P" using held by simp
qed auto

lemma finish_posts: "length (pp_posts (finish_task p post e clock b t s)) \<le> Suc (length (pp_posts s))"
  by (simp add: finish_task_def split: prod.split)

definition posts_bound :: "'s worker_pool \<Rightarrow> nat" where
  "posts_bound W = length (pp_posts (wp_pool W)) + total_left posts_left W"

text \<open>After the signal every step of a worker uses up work, and none adds to the posts still possible.\<close>

lemma step_after_signal:
  assumes "worker_step p b W W'" and "wp_shutdown W"
  shows "wp_shutdown W' \<and> length (wp_workers W') = length (wp_workers W) \<and> posts_bound W' \<le> posts_bound W \<and>
    (wp_workers W' = wp_workers W \<or> total_left work_left W' < total_left work_left W)"
  using assms
proof (cases rule: worker_step.cases)
  case (leave i)
  then show ?thesis using total_phase [OF leave(2), of W posts_left Stopped] total_phase [OF leave(2), of W work_left Stopped]
      assms(2) by (simp add: posts_bound_def)
next
  case (take i t q')
  let ?V = "W\<lparr>wp_pool := (wp_pool W)\<lparr>pp_queue := q', pp_held := t # pp_held (wp_pool W)\<rparr>\<rparr>"
  show ?thesis
    using take(1) total_phase [OF take(2), of ?V posts_left "Delivering t"] total_phase [OF take(2), of ?V work_left "Delivering t"]
      assms(2) by (simp add: posts_bound_def)
next
  case (time_out i)
  then show ?thesis using total_phase [OF time_out(2), of W posts_left Checking] total_phase [OF time_out(2), of W work_left Checking]
      assms(2) by (simp add: posts_bound_def)
next
  case (deliver i t clock post e)
  let ?V = "W\<lparr>wp_pool := finish_task p post e clock b t (wp_pool W)\<rparr>"
  show ?thesis
    using deliver(1) total_phase [OF deliver(2), of ?V posts_left Checking] total_phase [OF deliver(2), of ?V work_left Checking]
      finish_posts [of p post e clock b t "wp_pool W"] assms(2) by (simp add: posts_bound_def)
next
  case (outside P)
  then show ?thesis using outside_posts [OF outside(2,3)] assms(2) by (simp add: posts_bound_def total_left_def)
qed (use assms(2) in \<open>simp_all add: posts_bound_def total_left_def\<close>)

lemma run_after_signal:
  assumes "worker_run p b n W W'" and "wp_shutdown W"
  shows "wp_shutdown W' \<and> length (wp_workers W') = length (wp_workers W) \<and> posts_bound W' \<le> posts_bound W \<and>
    n + total_left work_left W' \<le> total_left work_left W"
  using assms
proof induction
  case (work n W W' W'')
  then show ?case using step_after_signal [OF work(2)] by auto
next
  case (idle n W W' W'')
  then show ?case using step_after_signal [OF idle(2)] by (auto simp: total_left_def)
qed simp

text \<open>A worker that has not left its loop can always take a step.\<close>

lemma worker_moves:
  assumes "wp_shutdown W" and "\<not> shutdown_complete W"
  shows "\<exists>W'. worker_step p b W W' \<and> wp_workers W' \<noteq> wp_workers W"
proof -
  obtain i where i: "i < length (wp_workers W)" "wp_workers W ! i \<noteq> Stopped"
    using assms(2) by (auto simp: shutdown_complete_def in_set_conv_nth)
  have moved: "wp_workers (set_phase i ph V) \<noteq> wp_workers W" if "wp_workers V = wp_workers W" "ph \<noteq> wp_workers W ! i" for ph V
    using i(1) that by (auto simp: set_phase_def dest: arg_cong [of _ _ "\<lambda>ws. ws ! i"])
  show ?thesis
  proof (cases "wp_workers W ! i")
    case Checking
    with i(1) have "worker_step p b W (set_phase i Stopped W)"
      by (intro worker_step.leave) (simp_all add: worker_at_def assms(1))
    then show ?thesis using moved [of W Stopped] Checking by (intro exI conjI) simp_all
  next
    case Waiting
    with i(1) have "worker_step p b W (set_phase i Checking W)"
      by (intro worker_step.time_out) (simp add: worker_at_def)
    then show ?thesis using moved [of W Checking] Waiting by (intro exI conjI) simp_all
  next
    case (Delivering t)
    fix post :: "http_request \<Rightarrow> http_outcome" and e :: env
    from Delivering i(1) have "worker_step p b W (set_phase i Checking
        (W\<lparr>wp_pool := finish_task p post e (pp_clock (wp_pool W)) b t (wp_pool W)\<rparr>))"
      by (intro worker_step.deliver) (simp_all add: worker_at_def)
    then show ?thesis
      using moved [of "W\<lparr>wp_pool := finish_task p post e (pp_clock (wp_pool W)) b t (wp_pool W)\<rparr>" Checking] Delivering
      by (intro exI conjI) simp_all
  qed (use i in simp)
qed

lemma total_left_bound: "(\<And>ph. f ph \<le> c) \<Longrightarrow> total_left f W \<le> c * length (wp_workers W)"
  unfolding total_left_def by (induction "wp_workers W") (auto simp: add_le_mono sum_list_triv intro: order_trans [OF sum_list_mono [of _ f "\<lambda>_. c"]])

text \<open>
  C30. Shutting the pool down comes to an end.  After the signal the workers together take at most three
  steps each and make at most one more post each, and as long as one of them has not left its loop it
  can take a step, so \<open>shutdown\<close> returns as soon as the posts in progress have.
\<close>

theorem shutdown_terminates:
  assumes "worker_run p b n W W'" and "wp_shutdown W"
  shows "n \<le> 3 * length (wp_workers W) \<and>
    length (pp_posts (wp_pool W')) \<le> length (pp_posts (wp_pool W)) + length (wp_workers W) \<and>
    (shutdown_complete W' \<or> (\<exists>W''. worker_run p b (Suc n) W W''))"
proof -
  have run: "wp_shutdown W'" "posts_bound W' \<le> posts_bound W" "n + total_left work_left W' \<le> total_left work_left W"
    using run_after_signal [OF assms] by simp_all
  have "work_left ph \<le> 3" "posts_left ph \<le> 1" for ph by (cases ph; simp)+
  then have "total_left work_left W \<le> 3 * length (wp_workers W)" "total_left posts_left W \<le> 1 * length (wp_workers W)"
    using total_left_bound [of work_left 3 W] total_left_bound [of posts_left 1 W] by blast+
  moreover have "shutdown_complete W' \<or> (\<exists>W''. worker_run p b (Suc n) W W'')"
    using worker_moves [OF run(1)] worker_run.work [OF assms(1)] by blast
  ultimately show ?thesis using run(2,3) by (simp add: posts_bound_def)
qed

theorem shutdown_terminates_witness:
  "\<exists>W. worker_run sample_push_ext (memory_backend sample_ext) 1 (busy_pool\<lparr>wp_shutdown := True\<rparr>) W"
  using shutdown_terminates [OF worker_run.none, of "busy_pool\<lparr>wp_shutdown := True\<rparr>" sample_push_ext "memory_backend sample_ext"]
  by (simp add: shutdown_complete_def busy_pool_def)

end
