(* ===== verification/Startup.thy ===== *)
theory Startup
  imports Engine Memory Sqs_Handler
begin

text \<open>
  The configuration (\<open>src/config/mod.rs\<close>), the start command (\<open>src/cli/commands/start.rs\<close>) and the
  requests of the other commands (\<open>src/cli/commands/mod.rs\<close>).  Starting is a plan: the store that is
  opened, the background tasks and the services with their addresses, in the order they are spawned;
  sockets, signals and task handles are left out.
\<close>

section \<open>Configuration\<close>

type_synonym u16 = "16 word"

record server_config =
  sqs_port :: u16
  pubsub_grpc_port :: u16
  pubsub_http_port :: u16
  admin_port :: u16
  bind_address :: string

datatype backend_config =
    InMemoryConfig nat eviction_policy
  | SqliteFile string

datatype log_format = LogText | LogJson

record lclq_config =
  server :: server_config
  storage_backend :: backend_config
  enable_signature_verification :: bool
  default_project_id :: string
  log_level :: string
  log_format_of :: log_format
  metrics_enabled :: bool
  metrics_port :: u16

definition default_config :: lclq_config where
  "default_config =
     \<lparr> server = \<lparr> sqs_port = 9324, pubsub_grpc_port = 8085, pubsub_http_port = 8086, admin_port = 9000,
                 bind_address = ''127.0.0.1'' \<rparr>,
       storage_backend = InMemoryConfig 100000 Lru, enable_signature_verification = False,
       default_project_id = ''local-project'', log_level = ''info'', log_format_of = LogText,
       metrics_enabled = True, metrics_port = 9090 \<rparr>"

definition config_from_file :: "string \<Rightarrow> lclq_config result" where
  "config_from_file path = Inr default_config"

definition validate_config :: "lclq_config \<Rightarrow> unit result" where
  "validate_config c = Inr ()"

section \<open>The start command\<close>

record start_args =
  arg_sqs_port :: u16
  arg_pubsub_port :: u16
  arg_pubsub_rest_port :: u16
  arg_admin_port :: u16
  arg_metrics_port :: u16
  arg_bind_address :: string
  arg_backend :: string
  arg_db_path :: string
  disable_sqs :: bool
  disable_pubsub :: bool

datatype storage_choice = OpenSqlite string nat | OpenMemory in_memory

datatype background_task = CleanupTask | VisibilityTask

datatype service =
    AdminService string
  | MetricsService string
  | SqsService string string
  | GrpcService string
  | RestService string

record start_plan =
  sp_storage :: storage_choice
  sp_tasks :: "background_task list"
  sp_services :: "service list"
  sp_push_workers :: "nat option"

definition address :: "string \<Rightarrow> u16 \<Rightarrow> string" where
  "address host port = host @ '':'' @ show_nat (unat port)"

text \<open>\<open>SqsHandler::new\<close>.\<close>

definition sqs_base_url :: "lclq_config \<Rightarrow> string" where
  "sqs_base_url c = ''http://'' @ address (bind_address (server c)) (sqs_port (server c))"

definition eq_ignore_ascii_case :: "string \<Rightarrow> string \<Rightarrow> bool" where
  "eq_ignore_ascii_case s t \<longleftrightarrow> ascii_lower s = ascii_lower t"

text \<open>\<open>PushWorkerPool::new\<close> without a count: the variable \<open>LCLQ_PUSH_WORKERS\<close>, or two.\<close>

definition push_worker_count :: "string option \<Rightarrow> nat" where
  "push_worker_count env_var =
     (case Option.bind env_var parse_usize of None \<Rightarrow> 2 | Some n \<Rightarrow> n)"

definition override_config :: "start_args \<Rightarrow> lclq_config" where
  "override_config a =
     default_config\<lparr>server := (server default_config)
       \<lparr>sqs_port := arg_sqs_port a, admin_port := arg_admin_port a, bind_address := arg_bind_address a\<rparr>\<rparr>"

text \<open>
  \<open>open_error\<close> is what opening the database answers for a path: \<open>Some\<close> text when it fails.  A plan, or the
  error the command ends with.
\<close>

definition execute ::
    "(string \<Rightarrow> string option) \<Rightarrow> string option \<Rightarrow> start_args \<Rightarrow> string + start_plan" where
  "execute open_error workers_var a =
     (if disable_sqs a \<and> disable_pubsub a then
        Inl ''Cannot start lclq with both SQS and Pub/Sub disabled. Enable at least one service.''
      else
       (let config = override_config a;
            use_sqlite = eq_ignore_ascii_case (arg_backend a) ''sqlite'';
            host = arg_bind_address a;
            opened = (if use_sqlite then open_error (arg_db_path a) else None) in
        case opened of
          Some cause \<Rightarrow> Inl (''Failed to initialize SQLite backend: '' @ cause)
        | None \<Rightarrow>
            Inr \<lparr> sp_storage = (if use_sqlite then OpenSqlite (arg_db_path a) 10
                                else OpenMemory (with_config default_in_memory_config)),
                  sp_tasks = (if use_sqlite then [CleanupTask, VisibilityTask] else [VisibilityTask]),
                  sp_services =
                    [AdminService (address host (arg_admin_port a)), MetricsService (address host (arg_metrics_port a))] @
                    (if disable_sqs a then []
                     else [SqsService (address (bind_address (server config)) (sqs_port (server config))) (sqs_base_url config)]) @
                    (if disable_pubsub a then []
                     else [GrpcService (address host (arg_pubsub_port a)), RestService (address host (arg_pubsub_rest_port a))]),
                  sp_push_workers = (if disable_pubsub a then None else Some (push_worker_count workers_var)) \<rparr>))"

section \<open>The other commands\<close>

datatype output_format = TableFormat | JsonFormat

definition parse_output_format :: "string \<Rightarrow> output_format" where
  "parse_output_format s = (if ascii_lower s = ''json'' then JsonFormat else TableFormat)"

datatype http_method = Get | Post | Put | Delete

datatype queue_command = QueueList string | QueueCreate string | QueueDelete string | QueuePurge string | QueueStats string

text \<open>The request of a command: method, URL and, for a creation, the name in its JSON body.\<close>

fun queue_command_request :: "string \<Rightarrow> queue_command \<Rightarrow> http_method \<times> string \<times> string option" where
  "queue_command_request admin_url (QueueList fmt) = (Get, admin_url @ ''/queues'', None)"
| "queue_command_request admin_url (QueueCreate name) = (Post, admin_url @ ''/queues'', Some name)"
| "queue_command_request admin_url (QueueDelete name) = (Delete, admin_url @ ''/queues/'' @ name, None)"
| "queue_command_request admin_url (QueuePurge name) = (Post, admin_url @ ''/queues/'' @ name @ ''/purge'', None)"
| "queue_command_request admin_url (QueueStats name) = (Get, admin_url @ ''/queues/'' @ name, None)"

text \<open>
  An answer outside 200 to 299 ends the command with an error that prints the status, as a text, and the
  body of the answer.
\<close>

definition command_outcome :: "nat \<Rightarrow> string \<Rightarrow> string \<Rightarrow> string option" where
  "command_outcome code status error_text =
     (if 200 \<le> code \<and> code < 300 then None
      else Some (''API error ('' @ status @ ''): '' @ error_text))"

section \<open>What a start runs\<close>

text \<open>The command refuses to start for two reasons only.\<close>

lemma start_refused_iff:
  "(\<exists>message. execute open_error workers_var a = Inl message) \<longleftrightarrow>
     (disable_sqs a \<and> disable_pubsub a) \<or>
     (eq_ignore_ascii_case (arg_backend a) ''sqlite'' \<and> open_error (arg_db_path a) \<noteq> None)"
  by (auto simp: execute_def Let_def split: option.split)

text \<open>
  Every started store has a visibility manager; the retention period is enforced with SQLite only, and any
  backend name but \<open>sqlite\<close> starts the in-memory store.
\<close>

lemma started_tasks:
  assumes "execute open_error workers_var a = Inr plan"
  shows "VisibilityTask \<in> set (sp_tasks plan)"
    and "CleanupTask \<in> set (sp_tasks plan) \<longleftrightarrow> (\<exists>path n. sp_storage plan = OpenSqlite path n)"
    and "sp_storage plan = OpenMemory (with_config default_in_memory_config) \<longleftrightarrow>
      \<not> eq_ignore_ascii_case (arg_backend a) ''sqlite''"
  using assms by (auto simp: execute_def Let_def split: if_splits option.splits)

text \<open>The URLs the SQS front end hands out lead to the socket it listens on.\<close>

lemma sqs_urls_reach_service:
  assumes "execute open_error workers_var a = Inr plan" and "SqsService addr base \<in> set (sp_services plan)"
  shows "base = ''http://'' @ addr" and "addr = address (arg_bind_address a) (arg_sqs_port a)"
  using assms by (auto simp: execute_def Let_def sqs_base_url_def override_config_def split: if_splits option.splits)

text \<open>No two services of a plan share an address when the ports are distinct.\<close>

lemma address_inj: "address host p = address host q \<longleftrightarrow> p = q"
  by (simp add: address_def word_unat_eq_iff [symmetric])

definition service_address :: "service \<Rightarrow> string" where
  "service_address v =
     (case v of AdminService addr \<Rightarrow> addr | MetricsService addr \<Rightarrow> addr | SqsService addr _ \<Rightarrow> addr
      | GrpcService addr \<Rightarrow> addr | RestService addr \<Rightarrow> addr)"

lemma started_addresses_distinct:
  assumes "execute open_error workers_var a = Inr plan"
    and "distinct [arg_admin_port a, arg_metrics_port a, arg_sqs_port a, arg_pubsub_port a, arg_pubsub_rest_port a]"
  shows "distinct (map service_address (sp_services plan))"
  using assms
  by (auto simp: execute_def Let_def override_config_def service_address_def address_inj split: if_splits option.splits)

end
