(* ===== verification/Servers.thy ===== *)
theory Servers
  imports Startup Pubsub_Rest
begin

text \<open>
  The servers a start opens: the tables of routes of the HTTP servers (\<open>src/sqs/server.rs\<close>,
  \<open>src/server/admin.rs\<close>, \<open>src/server/metrics.rs\<close>, \<open>src/pubsub/rest.rs\<close>), the gRPC server
  (\<open>src/pubsub/grpc_server.rs\<close>) and the order of a shutdown (\<open>src/server/shutdown.rs\<close>).  Of the router of
  axum the documented matching is modelled: a path is the list of its decoded segments, a parameter
  takes one segment that is not empty, and a path that matches with another method is refused.
\<close>

section \<open>Routes\<close>

datatype segment = Fixed string | Param

fun match_segments :: "segment list \<Rightarrow> string list \<Rightarrow> string list option" where
  "match_segments [] [] = Some []"
| "match_segments (Fixed f # ps) (s # ss) = (if s = f then match_segments ps ss else None)"
| "match_segments (Param # ps) (s # ss) = (if s = [] then None else map_option ((#) s) (match_segments ps ss))"
| "match_segments _ _ = None"

type_synonym 'h route = "segment list \<times> http_method \<times> 'h"

datatype 'h routed = Routed 'h "string list" | MethodNotAllowed | NoRoute

definition route_matches :: "'h route list \<Rightarrow> string list \<Rightarrow> (http_method \<times> 'h \<times> string list) list" where
  "route_matches table path =
     concat (map (\<lambda>(pattern, m, h). case match_segments pattern path of None \<Rightarrow> [] | Some args \<Rightarrow> [(m, h, args)]) table)"

definition route_request :: "'h route list \<Rightarrow> http_method \<Rightarrow> string list \<Rightarrow> 'h routed" where
  "route_request table m path =
     (case route_matches table path of
        [] \<Rightarrow> NoRoute
      | hits \<Rightarrow> (case find (\<lambda>hit. fst hit = m) hits of None \<Rightarrow> MethodNotAllowed | Some (_, h, args) \<Rightarrow> Routed h args))"

datatype admin_route = HealthCheck | GetStats | ListQueues | CreateQueue | GetQueue | DeleteQueue | PurgeQueue

definition admin_routes :: "admin_route route list" where
  "admin_routes =
     [([Fixed ''health''], Get, HealthCheck),
      ([Fixed ''stats''], Get, GetStats),
      ([Fixed ''queues''], Get, ListQueues),
      ([Fixed ''queues''], Post, CreateQueue),
      ([Fixed ''queues'', Param], Get, GetQueue),
      ([Fixed ''queues'', Param], Delete, DeleteQueue),
      ([Fixed ''queues'', Param, Fixed ''purge''], Post, PurgeQueue)]"

datatype sqs_route = HandleSqsRequest

definition sqs_routes :: "sqs_route route list" where
  "sqs_routes = [([Fixed []], Post, HandleSqsRequest), ([Fixed ''queue'', Param], Post, HandleSqsRequest)]"

datatype metrics_route = MetricsHandler

definition metrics_routes :: "metrics_route route list" where
  "metrics_routes = [([Fixed ''metrics''], Get, MetricsHandler)]"

datatype rest_route =
    CreateTopic | GetTopic | DeleteTopic | HandleTopicAction | ListTopics
  | CreateSubscription | GetSubscription | DeleteSubscription | HandleSubscriptionAction | ListSubscriptions

definition create_router :: "rest_route route list" where
  "create_router =
     (let topic = [Fixed ''v1'', Fixed ''projects'', Param, Fixed ''topics'', Param];
          subscription = [Fixed ''v1'', Fixed ''projects'', Param, Fixed ''subscriptions'', Param] in
      [(topic, Put, CreateTopic), (topic, Get, GetTopic), (topic, Delete, DeleteTopic), (topic, Post, HandleTopicAction),
       ([Fixed ''v1'', Fixed ''projects'', Param, Fixed ''topics''], Get, ListTopics),
       (subscription, Put, CreateSubscription), (subscription, Get, GetSubscription),
       (subscription, Delete, DeleteSubscription), (subscription, Post, HandleSubscriptionAction),
       ([Fixed ''v1'', Fixed ''projects'', Param, Fixed ''subscriptions''], Get, ListSubscriptions)])"

definition path_segments :: "string \<Rightarrow> string list" where
  "path_segments path = split_on (CHR ''/'') (tl path)"

section \<open>The gRPC server\<close>

record grpc_server_config =
  grpc_bind_address :: string

definition default_grpc_server_config :: grpc_server_config where
  "default_grpc_server_config = \<lparr> grpc_bind_address = ''127.0.0.1:8085'' \<rparr>"

text \<open>What the server runs with: the delivery queue, and the workers of a pool of its own.\<close>

record grpc_setup =
  gs_delivery_queue :: delivery_queue
  gs_own_workers :: "nat option"

text \<open>
  \<open>addr_error\<close> is what parsing the address answers when it fails, \<open>served\<close> how the server ended.
\<close>

definition start_grpc_server ::
    "(string \<Rightarrow> string option) \<Rightarrow> string option \<Rightarrow> string option \<Rightarrow> grpc_server_config \<Rightarrow> delivery_queue option \<Rightarrow>
     unit result \<times> grpc_setup option" where
  "start_grpc_server addr_error served workers_var config dq =
     (case addr_error (grpc_bind_address config) of
        Some e \<Rightarrow> (Inl (Config (''Invalid bind address: '' @ e)), None)
      | None \<Rightarrow>
         ((case served of None \<Rightarrow> Inr () | Some e \<Rightarrow> Inl (Internal (''gRPC server error: '' @ e))),
          Some (case dq of
                  Some q \<Rightarrow> \<lparr> gs_delivery_queue = q, gs_own_workers = None \<rparr>
                | None \<Rightarrow> \<lparr> gs_delivery_queue = new_delivery_queue, gs_own_workers = Some (push_worker_count workers_var) \<rparr>)))"

section \<open>Shutdown\<close>

datatype shutdown_action =
    WaitForSignal
  | BroadcastShutdown
  | SleepSeconds nat
  | JoinServer service
  | ShutdownPushPool

definition shutdown_with_timeout :: "nat \<Rightarrow> shutdown_action list" where
  "shutdown_with_timeout timeout = [WaitForSignal, BroadcastShutdown, SleepSeconds timeout]"

text \<open>The end of the start command.\<close>

definition finish_start :: "start_plan \<Rightarrow> shutdown_action list" where
  "finish_start plan =
     shutdown_with_timeout 30 @ map JoinServer (sp_services plan) @
     (case sp_push_workers plan of None \<Rightarrow> [] | Some _ \<Rightarrow> [ShutdownPushPool])"

section \<open>Requests reach their handlers\<close>

fun command_route :: "queue_command \<Rightarrow> admin_route \<times> string list" where
  "command_route (QueueList fmt) = (ListQueues, [])"
| "command_route (QueueCreate name) = (CreateQueue, [])"
| "command_route (QueueDelete name) = (DeleteQueue, [name])"
| "command_route (QueuePurge name) = (PurgeQueue, [name])"
| "command_route (QueueStats name) = (GetQueue, [name])"

definition command_name :: "queue_command \<Rightarrow> string option" where
  "command_name c = (case c of QueueDelete n \<Rightarrow> Some n | QueuePurge n \<Rightarrow> Some n | QueueStats n \<Rightarrow> Some n | _ \<Rightarrow> None)"

lemma queue_segments:
  assumes "CHR ''/'' \<notin> set name"
  shows "path_segments (''/queues/'' @ name) = [''queues'', name]"
    and "path_segments (''/queues/'' @ name @ ''/purge'') = [''queues'', name, ''purge'']"
proof -
  have q: "CHR ''/'' \<notin> set ''queues''" by simp
  have "split_on (CHR ''/'') (''queues'' @ CHR ''/'' # name) = [''queues'', name]"
    using split_on_append [OF q, of name] split_on_no_sep [OF assms] by simp
  then show "path_segments (''/queues/'' @ name) = [''queues'', name]" by (simp add: path_segments_def)
  have "split_on (CHR ''/'') (name @ CHR ''/'' # ''purge'') = [name, ''purge'']"
    using split_on_append [OF assms, of "''purge''"] by simp
  then have "split_on (CHR ''/'') (''queues'' @ CHR ''/'' # name @ CHR ''/'' # ''purge'') = [''queues'', name, ''purge'']"
    using split_on_append [OF q, of "name @ CHR ''/'' # ''purge''"] by simp
  then show "path_segments (''/queues/'' @ name @ ''/purge'') = [''queues'', name, ''purge'']"
    by (simp add: path_segments_def)
qed

text \<open>
  Every request of a queue command reaches the handler of its operation, with the name of the queue as
  it was given, when that name is not empty and holds no slash.
\<close>

lemma commands_routed:
  assumes "\<And>n. command_name c = Some n \<Longrightarrow> n \<noteq> [] \<and> CHR ''/'' \<notin> set n"
  shows "\<exists>path. fst (snd (queue_command_request url c)) = url @ path \<and>
    route_request admin_routes (fst (queue_command_request url c)) (path_segments path) =
      (case command_route c of (h, args) \<Rightarrow> Routed h args)"
proof (cases c)
  case (QueueList fmt)
  then show ?thesis by (intro exI [of _ "''/queues''"]) (simp add: path_segments_def admin_routes_def route_request_def route_matches_def)
next
  case (QueueCreate name)
  then show ?thesis by (intro exI [of _ "''/queues''"]) (simp add: path_segments_def admin_routes_def route_request_def route_matches_def)
next
  case (QueueDelete name)
  with assms [of name] show ?thesis
    by (intro exI [of _ "''/queues/'' @ name"]) (simp add: queue_segments [simplified] command_name_def admin_routes_def route_request_def route_matches_def)
next
  case (QueuePurge name)
  with assms [of name] show ?thesis
    by (intro exI [of _ "''/queues/'' @ name @ ''/purge''"])
      (simp add: queue_segments [simplified] command_name_def admin_routes_def route_request_def route_matches_def)
next
  case (QueueStats name)
  with assms [of name] show ?thesis
    by (intro exI [of _ "''/queues/'' @ name"]) (simp add: queue_segments [simplified] command_name_def admin_routes_def route_request_def route_matches_def)
qed

text \<open>The sockets and the delivery queue of a start: one pool of workers serves both Pub/Sub front ends.\<close>

lemma given_queue_is_shared:
  "start_grpc_server addr_error served workers_var config (Some q) = (r, Some setup) \<Longrightarrow>
     gs_delivery_queue setup = q \<and> gs_own_workers setup = None"
  by (auto simp: start_grpc_server_def split: option.splits)

text \<open>A shutdown always sleeps for the whole 30 seconds, and the pool is stopped after the servers.\<close>

lemma shutdown_order:
  assumes "execute open_error workers_var a = Inr plan"
  shows "SleepSeconds 30 \<in> set (finish_start plan)"
    and "ShutdownPushPool \<in> set (finish_start plan) \<longleftrightarrow> \<not> disable_pubsub a"
    and "ShutdownPushPool \<in> set (finish_start plan) \<Longrightarrow> last (finish_start plan) = ShutdownPushPool"
  using assms by (auto simp: execute_def Let_def finish_start_def shutdown_with_timeout_def split: if_splits option.splits)

end
