(* ===== verification/Spec2Isabelle.thy ===== *)
theory Spec2Isabelle
  imports Memory_Sending Memory_Capacity Receipt_Claims Sqs_Claims Push_Pool Pubsub_Streaming Sqlite_Lifecycle Engine_Turns Admin_Claims Backend_Agreement
    Sqs_Json_Claims Sqs_Progress Sqs_Lifecycle Pubsub_End_To_End Sqlite_Publish Push_Shutdown Servers
begin

text \<open>
  \<^bold>\<open>lclq, a local queue service that speaks the protocols of SQS and of Pub/Sub.\<close>

  \<^bold>\<open>The program.\<close>  A server process holds one storage backend, in memory or a SQLite database, behind the
  trait \<open>StorageBackend\<close> (\<open>src/storage\<close>).  Three front ends translate their protocol into calls of that
  trait: the SQS server (\<open>src/sqs\<close>: form or JSON requests, XML or JSON replies), the Pub/Sub services
  (\<open>src/pubsub\<close>: gRPC publisher and subscriber, and REST), and the admin API (\<open>src/server/admin.rs\<close>).
  Publishing to a topic copies the message into the queue of every subscription and, for push
  subscriptions, enqueues a delivery task that a pool of workers posts to an endpoint and retries
  with a back-off.  Managers run in the background (\<open>src/core\<close>): one returns messages whose visibility
  timeout has passed, one removes what SQLite no longer needs.

  \<^bold>\<open>The model.\<close>  A component is a group of definitions named after its functions.  A \<open>String\<close> is its list of
  UTF-8 bytes, a \<open>HashMap\<close> an association list with distinct keys whose order stands for the iteration
  order, \<open>u32\<close> and \<open>u64\<close> are words, times are integers in nanoseconds.  Errors are the left side of a
  sum (\<open>result\<close>); a panic is the error \<open>Panic\<close>.  A method that changes the backend returns its result
  with the new state; what a lock covers, or the database, makes one step.  Readings of the clock and
  of the random generator are parameters of an operation (\<open>env\<close>: the \<open>i\<close>-th reading is a function of
  \<open>i\<close>).  What is not in the repository is a parameter: HMAC, base64, hex, SHA-256, MD5, serde_json and
  the Unicode classes in \<open>ext\<close>, the texts of the database driver and the JSON columns in \<open>sql_ext\<close>, the
  HTTP client of the push workers.  The laws a theorem needs of them are its hypotheses
  (\<open>receipt_codecs_ok\<close>, \<open>sql_laws\<close>), and \<open>Samples\<close> and \<open>Sqlite_Samples\<close> give instances that satisfy them.

  \<^bold>\<open>The theories.\<close>
  \<^item> \<open>Lclq_Prelude\<close>: readings, string functions of the Rust library, lists and association lists.
  \<^item> \<open>Lclq_Types\<close>, \<open>Storage_Api\<close>, \<open>Validation\<close>, \<open>Receipt\<close>: \<open>src/types\<close>, \<open>src/error\<close>, the trait of \<open>src/storage/mod.rs\<close> as
    a record of its methods, name and size checks, receipt handles (\<open>src/core/receipt.rs\<close>).
  \<^item> \<open>Memory\<close> and the theories \<open>Memory_*\<close>: \<open>src/storage/memory.rs\<close>.  Well-formedness and its preservation,
    what receiving delivers, that nothing is lost or doubled, the visibility timeout, acknowledging,
    FIFO deduplication, dead letters, the reachable states (\<open>Memory_Steps\<close>), and the capacity when the
    sections of concurrent sends interleave (\<open>Memory_Capacity\<close>).
  \<^item> \<open>Sqlite_Tables\<close>, \<open>Sqlite\<close> and the theories \<open>Sqlite_*\<close>: the schema of \<open>migrations/sqlite\<close> and \<open>src/storage/sqlite/mod.rs\<close>.
    Invariant of the reachable databases, what receiving delivers, FIFO groups, the deduplication
    window, what the use of transactions does to batches and dead letters, and the refinement of an
    abstract life of a message (\<open>Sqlite_Lifecycle\<close>).
  \<^item> \<open>Backend_Contract\<close> and \<open>Pubsub_Contract\<close>: the part of the trait the front ends rely on, as locales
    (\<open>queue_store\<close>, \<open>pubsub_store\<close>); \<open>Memory_Contract\<close> and \<open>Sqlite_Contract\<close> interpret them on both backends.
  \<^item> \<open>Sqs_Types\<close>, \<open>Sqs_Request\<close>, \<open>Sqs_Response\<close>, \<open>Sqs_Json\<close>, \<open>Sqs_Handler\<close>: the files of \<open>src/sqs\<close>; \<open>Sqs_Claims\<close> and
    \<open>Backend_Agreement\<close>: the front end over the memory, and over both backends side by side; \<open>Sqs_Progress\<close>:
    that no request of the form protocol panics; \<open>Sqs_Lifecycle\<close>: a message sent, received and deleted over
    HTTP; \<open>Sqs_Markup\<close> and \<open>Sqs_Json_Claims\<close>: XML replies as tags and
    texts, and what the scrape that makes JSON of them keeps and loses.
  \<^item> \<open>Pubsub_Types\<close>, \<open>Pubsub_Api\<close>, \<open>Pubsub_Publisher\<close>, \<open>Pubsub_Subscriber\<close>, \<open>Pubsub_Rest\<close>: the services of \<open>src/pubsub\<close>;
    \<open>Pubsub_Fanout\<close>, \<open>Pubsub_Claims\<close>, \<open>Pubsub_Lifecycle\<close>, \<open>Pubsub_Delivery\<close>: publishing, round trips, the life of
    a subscription, pulling and acknowledging; \<open>Pubsub_Streaming\<close>: a streaming pull, from its first request
    to its end; \<open>Pubsub_End_To_End\<close>: from a publisher to a subscriber;
    the REST front end has its own copies of the conversion, the fan-out and the loops
    (\<open>rest_message_to_message\<close>, \<open>rest_fan_out\<close>, \<open>rest_enqueue_subscriptions\<close>), as in the source;
    \<open>Sqlite_Publish\<close>: publishing over the database, which reaches one subscription at most.
  \<^item> \<open>Push_Queue\<close>, \<open>Push_Worker\<close>, \<open>Push_Pool\<close>: the delivery queue, one delivery, and the pool of workers as a
    transition system with its reachable states; \<open>Push_Shutdown\<close>: the loops of the workers, which refine it,
    and their end after the shutdown signal.
  \<^item> \<open>Engine\<close>, \<open>Engine_Turns\<close>: the managers and the dead letter handler of \<open>src/core\<close>, and what a turn does.
  \<^item> \<open>Admin\<close>, \<open>Admin_Claims\<close>: the admin API, and its queues beside those of SQS.
  \<^item> \<open>Startup\<close>: the configuration, what the start command opens and spawns, the requests of the queue
    commands (\<open>src/config\<close>, \<open>src/cli\<close>); \<open>Servers\<close>: the tables of routes, the gRPC server (\<open>src/pubsub/grpc_server.rs\<close>)
    and the order of a shutdown (\<open>src/server/shutdown.rs\<close>).

  \<^bold>\<open>Bounds and fuel.\<close>  No definition runs out of fuel where the code would go on.  The loops over numbered
  form parameters stop at the first missing number; they are given one more turn than there are
  parameters, and \<open>send_batch_entries_run\<close> shows that this is the whole run.  Parsers that search forward get
  the length of the rest.  The waiting loop of the delivery queue is a function of the list of its
  wake-ups, and \<open>wait_returns_after_sleep\<close> shows that it returns; the loops of the workers are a step
  relation, and \<open>shutdown_terminates\<close> bounds their steps after the shutdown signal.

  \<^bold>\<open>Steps and locks.\<close>  A send to the memory counts under one lock, evicts under a second and stores under a
  third: \<open>has_room\<close>, \<open>evict_section\<close> and \<open>push_message\<close> (\<open>push_messages\<close>) are these sections, and the steps
  of \<open>Memory_Steps\<close> and \<open>Memory_Capacity\<close> are single sections in any order.  \<open>send_message\<close> and
  \<open>send_messages\<close> are the three sections of a call with nothing between them; the theorems that use them
  speak of such a call.  Identifiers of sent messages are arbitrary: publishing copies one identifier to
  several queues, and the reachable states hold it at most as often as it was sent.

  \<^bold>\<open>Assumptions of the models.\<close>  Of the JSON functions \<open>sql_laws\<close> wants values back as they were, and maps
  with the same entries, in any order (\<open>same_config\<close>, \<open>reread_tags\<close>).  The SQLite model is that of a file database in write-ahead mode
  with a free connection in the pool: operations run one after another; within an operation, the
  statements of its transaction read the snapshot of its first statement, statements on the pool
  commit at once, and there is one writer at a time.  Rows that an \<open>ORDER BY\<close> leaves equal come in
  the order they were inserted.  The table \<open>subscription_messages\<close> and the column \<open>push_config\<close>, which
  the code never uses, are left out.

  \<^bold>\<open>Not modelled.\<close>  Sockets and (de)serialisation derived by macros; the handling of operating system signals
  and the entry point (\<open>main.rs\<close>); the Prometheus counters (\<open>src/metrics\<close>), which nothing updates and nothing
  reads but the exporter; argument parsing and the printing of tables; logging.
\<close>

end
